(* ===== verification/Py_Prelude.thy ===== *)
theory Py_Prelude
  imports
    Main
    "HOL-Library.AList"
    "HOL-Library.Char_ord"
    "HOL-Library.List_Lexorder"
    "HOL-Library.Product_Lexorder"
begin

text \<open>
  The prelude of the development: what the modelled Python code uses of the language itself.
  It holds the exceptions as values (\<open>py_error\<close>, \<open>res\<close>), insertion-ordered dictionaries as
  association lists over \<open>HOL-Library.AList\<close>, dynamically typed payload values (\<open>pyval\<close>) with
  \<open>str\<close>, \<open>repr\<close>, truthiness and equality, the string methods the code calls, and the generic
  lemmas and \<open>named_theorems\<close> collections the components share.

  Strings are lists of 8-bit characters: the model covers Python strings whose code points lie
  below 256, with ASCII case mapping. Payload dictionaries have string keys. Floats do not
  occur in the modelled payloads.
\<close>

section \<open>Exceptions as values\<close>

text \<open>
  One constructor per exception class the code raises, with the literal part of the message. A
  worker control failure carries the worker id, the attempt by its text, the method and the cause.
\<close>

datatype py_error =
    ValueError string
  | RuntimeError string
  | KeyError string
  | TypeError string
  | IndexError string
  | AttributeError string
  | OSError string
  | WorkerControlFailure string string string py_error
  | WorkerReservationUnavailable string

type_synonym 'a res = "py_error + 'a"

text \<open>
  An operation on mutable state that may raise returns its result together with the state it
  leaves behind, also when it raises: Python does not roll a mutation back.
\<close>

type_synonym ('s, 'a) op = "'s \<Rightarrow> 'a res \<times> 's"

named_theorems res_simps \<open>rewriting of exception-valued results\<close>
named_theorems dict_simps \<open>lookups in updated dictionaries\<close>
named_theorems py_eval \<open>evaluation of the modelled language primitives\<close>

definition bindE :: "'a res \<Rightarrow> ('a \<Rightarrow> 'b res) \<Rightarrow> 'b res" where
  "bindE m f = (case m of Inl e \<Rightarrow> Inl e | Inr x \<Rightarrow> f x)"

lemma bindE_Inl [simp, res_simps]: "bindE (Inl e) f = Inl e"
  by (simp add: bindE_def)

lemma bindE_Inr [simp, res_simps]: "bindE (Inr x) f = f x"
  by (simp add: bindE_def)

lemma bindE_eq_Inr [res_simps]: "bindE m f = Inr y \<longleftrightarrow> (\<exists>x. m = Inr x \<and> f x = Inr y)"
  by (cases m) auto

lemma bindE_eq_Inl [res_simps]:
  "bindE m f = Inl e \<longleftrightarrow> m = Inl e \<or> (\<exists>x. m = Inr x \<and> f x = Inl e)"
  by (cases m) auto

text \<open>A list comprehension whose body may raise: elements left to right, stopping at the first error.\<close>

fun mapE :: "('a \<Rightarrow> 'b res) \<Rightarrow> 'a list \<Rightarrow> 'b list res" where
  "mapE f [] = Inr []"
| "mapE f (x # xs) = bindE (f x) (\<lambda>y. bindE (mapE f xs) (\<lambda>ys. Inr (y # ys)))"

lemma mapE_total: "(\<And>x. x \<in> set xs \<Longrightarrow> f x = Inr (g x)) \<Longrightarrow> mapE f xs = Inr (map g xs)"
  by (induction xs) auto

lemma mapE_length: "mapE f xs = Inr ys \<Longrightarrow> length ys = length xs"
  by (induction xs arbitrary: ys) (auto simp: res_simps)

section \<open>Stateful operations\<close>

definition bindS :: "('s, 'a) op \<Rightarrow> ('a \<Rightarrow> ('s, 'b) op) \<Rightarrow> ('s, 'b) op" where
  "bindS m f s = (case m s of (Inl e, s') \<Rightarrow> (Inl e, s') | (Inr x, s') \<Rightarrow> f x s')"

definition retS :: "'a \<Rightarrow> ('s, 'a) op" where
  "retS x s = (Inr x, s)"

definition raiseS :: "py_error \<Rightarrow> ('s, 'a) op" where
  "raiseS e s = (Inl e, s)"

text \<open>A computation that only reads, or that may raise without touching the state.\<close>

definition liftS :: "('s \<Rightarrow> 'a res) \<Rightarrow> ('s, 'a) op" where
  "liftS f s = (f s, s)"

definition modS :: "('s \<Rightarrow> 's) \<Rightarrow> ('s, unit) op" where
  "modS f s = (Inr (), f s)"

text \<open>A \<open>for\<close> loop over mutable state, left at the first exception.\<close>

fun foldS :: "('a \<Rightarrow> ('s, unit) op) \<Rightarrow> 'a list \<Rightarrow> ('s, unit) op" where
  "foldS f [] s = (Inr (), s)"
| "foldS f (x # xs) s = bindS (f x) (\<lambda>_. foldS f xs) s"

lemma retS_simp [simp, res_simps]: "retS x s = (Inr x, s)"
  by (simp add: retS_def)

lemma raiseS_simp [simp, res_simps]: "raiseS e s = (Inl e, s)"
  by (simp add: raiseS_def)

lemma modS_simp [simp, res_simps]: "modS f s = (Inr (), f s)"
  by (simp add: modS_def)

lemma liftS_simp [simp, res_simps]: "liftS f s = (f s, s)"
  by (simp add: liftS_def)

lemma bindS_Inl: "m s = (Inl e, s') \<Longrightarrow> bindS m f s = (Inl e, s')"
  by (simp add: bindS_def)

lemma bindS_Inr: "m s = (Inr x, s') \<Longrightarrow> bindS m f s = f x s'"
  by (simp add: bindS_def)

lemma bindS_eq_Inr:
  "bindS m f s = (Inr y, t) \<longleftrightarrow> (\<exists>x s'. m s = (Inr x, s') \<and> f x s' = (Inr y, t))"
  by (auto simp: bindS_def split: prod.splits sum.splits)

text \<open>A successful run, as a boolean that evaluates.\<close>

lemma case_res_ok: "(case x of Inl _ \<Rightarrow> False | Inr y \<Rightarrow> P y) \<longleftrightarrow> (\<exists>y. x = Inr y \<and> P y)"
  by (cases x) simp_all

lemma case_op_ok: "(case r of (Inl _, _) \<Rightarrow> False | (Inr x, s) \<Rightarrow> P x s) \<longleftrightarrow> (\<exists>x s. r = (Inr x, s) \<and> P x s)"
  by (cases r; cases "fst r") simp_all

text \<open>An invariant of every step of an operation is one of the whole operation, raised or not.\<close>

lemma bindS_inv:
  assumes "P s" and "\<And>s. P s \<Longrightarrow> P (snd (m s))" and "\<And>x s. P s \<Longrightarrow> P (snd (f x s))"
  shows "P (snd (bindS m f s))"
  using assms(1) assms(2) [of s] assms(3) by (auto simp: bindS_def split: prod.splits sum.splits)

lemma foldS_inv:
  assumes "P s" and "\<And>x s. x \<in> set xs \<Longrightarrow> P s \<Longrightarrow> P (snd (f x s))"
  shows "P (snd (foldS f xs s))"
  using assms
proof (induction xs arbitrary: s)
  case (Cons x xs)
  have "P (snd (f x s))" using Cons.prems by simp
  then show ?case using Cons.IH [of "snd (f x s)"] Cons.prems(2)
    by (cases "f x s") (auto simp: bindS_def split: sum.splits)
qed simp

lemma foldS_total:
  "(\<And>x s. x \<in> set xs \<Longrightarrow> f x s = (Inr (), g x s)) \<Longrightarrow> foldS f xs s = (Inr (), fold g xs s)"
  by (induction xs arbitrary: s) (auto simp: bindS_def)

text \<open>A sequence of operations on the same state, with their results.\<close>

fun mapS :: "('a \<Rightarrow> ('s, 'b) op) \<Rightarrow> 'a list \<Rightarrow> ('s, 'b list) op" where
  "mapS f [] s = (Inr [], s)"
| "mapS f (x # xs) s = bindS (f x) (\<lambda>y. bindS (mapS f xs) (\<lambda>ys. retS (y # ys))) s"

lemma mapS_snoc:
  "mapS f (xs @ [x]) s = (Inr zs, t) \<longleftrightarrow>
   (\<exists>ys y u. mapS f xs s = (Inr ys, u) \<and> f x u = (Inr y, t) \<and> zs = ys @ [y])"
  by (induction xs arbitrary: s zs) (fastforce simp: bindS_eq_Inr)+

text \<open>
  Induction over a successful sequence of operations, from its end: \<open>P\<close> relates the operations done,
  their results and the state.
\<close>

lemma mapS_induct:
  assumes "mapS f xs s = (Inr ys, t)" and "P [] [] s"
    and "\<And>xs ys u x y v. mapS f xs s = (Inr ys, u) \<Longrightarrow> P xs ys u \<Longrightarrow> f x u = (Inr y, v) \<Longrightarrow> P (xs @ [x]) (ys @ [y]) v"
  shows "P xs ys t"
  using assms(1)
proof (induction xs arbitrary: ys t rule: rev_induct)
  case Nil
  then show ?case using assms(2) by simp
next
  case (snoc x xs)
  then obtain zs y u where "mapS f xs s = (Inr zs, u)" "f x u = (Inr y, t)" "ys = zs @ [y]"
    by (auto simp: mapS_snoc)
  then show ?case using snoc.IH assms(3) by blast
qed

text \<open>
  A Python set whose iteration order the code exposes is a duplicate-free list in that order.
\<close>

definition set_add :: "'a \<Rightarrow> 'a list \<Rightarrow> 'a list" where
  "set_add x xs = (if x \<in> set xs then xs else xs @ [x])"

lemma set_set_add [simp]: "set (set_add x xs) = insert x (set xs)"
  by (auto simp: set_add_def)

lemma distinct_set_add [simp]: "distinct xs \<Longrightarrow> distinct (set_add x xs)"
  by (simp add: set_add_def)

section \<open>Insertion-ordered dictionaries\<close>

text \<open>
  A Python dictionary is an association list with distinct keys in insertion order. Assigning
  an existing key keeps its position, a new key goes to the end, popping removes it:
  exactly \<open>AList.update\<close> and \<open>AList.delete\<close>.
\<close>

type_synonym ('k, 'v) dict = "('k \<times> 'v) list"

abbreviation dict_get :: "('k, 'v) dict \<Rightarrow> 'k \<Rightarrow> 'v option" where
  "dict_get d k \<equiv> map_of d k"

abbreviation dict_set :: "'k \<Rightarrow> 'v \<Rightarrow> ('k, 'v) dict \<Rightarrow> ('k, 'v) dict" where
  "dict_set k v d \<equiv> AList.update k v d"

abbreviation dict_pop :: "'k \<Rightarrow> ('k, 'v) dict \<Rightarrow> ('k, 'v) dict" where
  "dict_pop k d \<equiv> AList.delete k d"

abbreviation dict_keys :: "('k, 'v) dict \<Rightarrow> 'k list" where
  "dict_keys d \<equiv> map fst d"

abbreviation dict_values :: "('k, 'v) dict \<Rightarrow> 'v list" where
  "dict_values d \<equiv> map snd d"

definition dict_has :: "('k, 'v) dict \<Rightarrow> 'k \<Rightarrow> bool" where
  "dict_has d k = (map_of d k \<noteq> None)"

definition dict_get_default :: "('k, 'v) dict \<Rightarrow> 'k \<Rightarrow> 'v \<Rightarrow> 'v" where
  "dict_get_default d k v = (case map_of d k of None \<Rightarrow> v | Some w \<Rightarrow> w)"

definition dict_setdefault :: "'k \<Rightarrow> 'v \<Rightarrow> ('k, 'v) dict \<Rightarrow> ('k, 'v) dict" where
  "dict_setdefault k v d = (if dict_has d k then d else dict_set k v d)"

text \<open>\<open>left.update(right)\<close>: the entries of \<open>right\<close> assigned one after another.\<close>

definition dict_merge :: "('k, 'v) dict \<Rightarrow> ('k, 'v) dict \<Rightarrow> ('k, 'v) dict" where
  "dict_merge left right = fold (\<lambda>(k, v) d. dict_set k v d) right left"

definition wf_dict :: "('k, 'v) dict \<Rightarrow> bool" where
  "wf_dict d = distinct (dict_keys d)"

lemma wf_dict_Nil [simp]: "wf_dict []"
  by (simp add: wf_dict_def)

lemma wf_dict_set [simp, intro]: "wf_dict d \<Longrightarrow> wf_dict (dict_set k v d)"
  by (simp add: wf_dict_def distinct_update)

lemma wf_dict_pop [simp, intro]: "wf_dict d \<Longrightarrow> wf_dict (dict_pop k d)"
  by (simp add: wf_dict_def distinct_delete)

lemma dict_get_set [simp, dict_simps]:
  "map_of (dict_set k v d) k' = (if k' = k then Some v else map_of d k')"
  by (simp add: update_conv)

lemma dict_get_pop [simp, dict_simps]:
  "map_of (dict_pop k d) k' = (if k' = k then None else map_of d k')"
  by (simp add: delete_conv)

lemma dict_has_set [simp]: "dict_has (dict_set k v d) k' = (k' = k \<or> dict_has d k')"
  by (simp add: dict_has_def)

lemma dict_has_pop [simp]: "dict_has (dict_pop k d) k' = (k' \<noteq> k \<and> dict_has d k')"
  by (simp add: dict_has_def)

lemma dict_has_keys: "dict_has d k \<longleftrightarrow> k \<in> set (dict_keys d)"
  by (auto simp: dict_has_def map_of_eq_None_iff)

lemma dict_get_merge:
  "wf_dict r \<Longrightarrow> map_of (dict_merge l r) k = (case map_of r k of Some v \<Rightarrow> Some v | None \<Rightarrow> map_of l k)"
proof (induction r arbitrary: l)
  case Nil
  then show ?case by (simp add: dict_merge_def)
next
  case (Cons p r)
  obtain a b where p: "p = (a, b)" by fastforce
  from Cons.prems p have wf: "wf_dict r" and a: "map_of r a = None"
    by (auto simp: wf_dict_def map_of_eq_None_iff)
  have "map_of (dict_merge l (p # r)) k = map_of (dict_merge (dict_set a b l) r) k"
    by (simp add: dict_merge_def p)
  also have "\<dots> = (case map_of r k of Some v \<Rightarrow> Some v | None \<Rightarrow> map_of (dict_set a b l) k)"
    by (rule Cons.IH [OF wf])
  finally show ?case using a p by (auto split: option.splits)
qed

lemma wf_dict_merge [simp, intro]: "wf_dict l \<Longrightarrow> wf_dict (dict_merge l r)"
  unfolding dict_merge_def
  by (induction r arbitrary: l) (auto simp del: update.simps)

lemma dict_set_keys: "set (dict_keys (dict_set k v d)) = insert k (set (dict_keys d))"
  by (induction d) auto

lemma length_dict_set:
  "length (dict_set k v d) = (if dict_has d k then length d else Suc (length d))"
  by (induction d) (auto simp: dict_has_def)

lemma dict_set_new: "\<not> dict_has d k \<Longrightarrow> dict_set k v d = d @ [(k, v)]"
  by (induction d) (auto simp: dict_has_def split: if_splits)

lemma dict_pop_filter: "dict_pop k d = filter (\<lambda>p. fst p \<noteq> k) d"
  by (induction d) (auto simp: AList.delete_eq)

lemma dict_pop_absent: "\<not> dict_has d k \<Longrightarrow> dict_pop k d = d"
  by (auto simp: dict_pop_filter dict_has_keys intro!: filter_True)

lemma length_dict_pop:
  assumes "wf_dict d" and "dict_has d k"
  shows "length (dict_pop k d) = length d - 1"
proof -
  from assms(2) obtain v where v: "(k, v) \<in> set d"
    by (auto simp: dict_has_def dest: map_of_SomeD)
  then obtain xs ys where d: "d = xs @ (k, v) # ys" by (auto simp: in_set_conv_decomp)
  with assms(1) have "k \<notin> fst ` set xs" and "k \<notin> fst ` set ys"
    by (auto simp: wf_dict_def)
  then have "filter (\<lambda>p. fst p \<noteq> k) xs = xs" and "filter (\<lambda>p. fst p \<noteq> k) ys = ys"
    by (auto intro!: filter_True)
  then show ?thesis by (simp add: dict_pop_filter d)
qed

lemma dict_get_in_values: "map_of d k = Some v \<Longrightarrow> v \<in> set (dict_values d)"
  by (force dest: map_of_SomeD)

lemma wf_dict_get: "wf_dict d \<Longrightarrow> (k, v) \<in> set d \<longleftrightarrow> map_of d k = Some v"
  by (simp add: wf_dict_def map_of_eq_Some_iff)

end
