(* ===== verification/Py_Values.thy ===== *)
theory Py_Values
  imports Py_Prelude
begin

text \<open>
  Dynamically typed payload values and the string operations of the language. The code passes
  JSON-like payloads between driver and workers (task ids, splits, statuses, failures, output
  buffers); \<open>pyval\<close> is their type. The functions below follow CPython: \<open>str\<close> and \<open>repr\<close>,
  \<open>int(...)\<close> with its whitespace, sign and underscore rules, truth testing, and \<open>==\<close>, which
  identifies booleans with integers and ignores the order of dictionaries and sets.
\<close>

section \<open>Characters and strings\<close>

abbreviation code_of :: "char \<Rightarrow> nat" where
  "code_of c \<equiv> of_char c"

definition py_ws :: "char \<Rightarrow> bool" where
  "py_ws c = (let n = code_of c in
     (9 \<le> n \<and> n \<le> 13) \<or> (28 \<le> n \<and> n \<le> 32) \<or> n = 133 \<or> n = 160)"

definition strip :: "string \<Rightarrow> string" where
  "strip s = rev (dropWhile py_ws (rev (dropWhile py_ws s)))"

definition upper_char :: "char \<Rightarrow> char" where
  "upper_char c = (let n = code_of c in if 97 \<le> n \<and> n \<le> 122 then char_of (n - 32) else c)"

definition lower_char :: "char \<Rightarrow> char" where
  "lower_char c = (let n = code_of c in if 65 \<le> n \<and> n \<le> 90 then char_of (n + 32) else c)"

definition upper :: "string \<Rightarrow> string" where "upper s = map upper_char s"

definition lower :: "string \<Rightarrow> string" where "lower s = map lower_char s"

definition replace_char :: "char \<Rightarrow> char \<Rightarrow> string \<Rightarrow> string" where
  "replace_char a b s = map (\<lambda>c. if c = a then b else c) s"

text \<open>\<open>s.startswith(p)\<close>, \<open>s.endswith(p)\<close> and \<open>p in s\<close>.\<close>

fun starts_with :: "string \<Rightarrow> string \<Rightarrow> bool" where
  "starts_with [] s = True"
| "starts_with (p # ps) [] = False"
| "starts_with (p # ps) (c # cs) = (p = c \<and> starts_with ps cs)"

definition ends_with :: "string \<Rightarrow> string \<Rightarrow> bool" where
  "ends_with p s = starts_with (rev p) (rev s)"

fun contains :: "string \<Rightarrow> string \<Rightarrow> bool" where
  "contains p [] = (p = [])"
| "contains p (c # cs) = (starts_with p (c # cs) \<or> contains p cs)"

text \<open>\<open>s.rsplit(sep, n)\<close> for a one-character separator.\<close>

definition split_last :: "char \<Rightarrow> string \<Rightarrow> (string \<times> string) option" where
  "split_last sep s =
     (case dropWhile (\<lambda>c. c \<noteq> sep) (rev s) of
        [] \<Rightarrow> None
      | _ # r \<Rightarrow> Some (rev r, rev (takeWhile (\<lambda>c. c \<noteq> sep) (rev s))))"

fun rsplit :: "char \<Rightarrow> nat \<Rightarrow> string \<Rightarrow> string list" where
  "rsplit sep 0 s = [s]"
| "rsplit sep (Suc n) s =
     (case split_last sep s of None \<Rightarrow> [s] | Some (a, b) \<Rightarrow> rsplit sep n a @ [b])"

text \<open>\<open>sep.join(parts)\<close>.\<close>

fun join :: "string \<Rightarrow> string list \<Rightarrow> string" where
  "join sep [] = []"
| "join sep [x] = x"
| "join sep (x # y # xs) = x @ sep @ join sep (y # xs)"

lemma split_last_append [simp]:
  "sep \<notin> set b \<Longrightarrow> split_last sep (a @ sep # b) = Some (a, b)"
  by (simp add: split_last_def dropWhile_append takeWhile_append)

lemma split_last_None: "split_last sep s = None \<longleftrightarrow> sep \<notin> set s"
proof -
  have "split_last sep s = None \<longleftrightarrow> dropWhile (\<lambda>c. c \<noteq> sep) (rev s) = []"
    unfolding split_last_def
    by (cases "dropWhile (\<lambda>c. c \<noteq> sep) (rev s)") (simp_all only: list.case, simp_all)
  then show ?thesis by (auto simp: dropWhile_eq_Nil_conv)
qed

lemma strip_no_ws: "(\<forall>c \<in> set s. \<not> py_ws c) \<Longrightarrow> strip s = s"
proof -
  have id: "dropWhile py_ws t = t" if "\<forall>c \<in> set t. \<not> py_ws c" for t
    using that by (cases t) auto
  assume "\<forall>c \<in> set s. \<not> py_ws c"
  then show ?thesis by (simp add: strip_def id)
qed

lemma dropWhile_idem: "dropWhile P (dropWhile P xs) = dropWhile P xs"
  by (induction xs) auto

lemma dropWhile_rev_last:
  "xs \<noteq> [] \<Longrightarrow> \<not> P (hd xs) \<Longrightarrow> rev (dropWhile P (rev xs)) \<noteq> [] \<and> hd (rev (dropWhile P (rev xs))) = hd xs"
proof (induction xs rule: rev_induct)
  case (snoc x xs)
  show ?case
  proof (cases "P x")
    case True
    with snoc.prems have "xs \<noteq> []" by (cases xs) auto
    with True snoc show ?thesis by simp
  next
    case False
    with snoc.prems show ?thesis by (cases xs) auto
  qed
qed simp

lemma strip_idem [simp]: "strip (strip s) = strip s"
proof (cases "dropWhile py_ws s = []")
  case True
  then have "strip s = []" unfolding strip_def by (simp only: rev.simps dropWhile.simps)
  then show ?thesis by (simp only:) (simp add: strip_def)
next
  case False
  let ?t = "dropWhile py_ws s"
  let ?u = "rev (dropWhile py_ws (rev ?t))"
  have h: "\<not> py_ws (hd ?t)" using False by (rule hd_dropWhile)
  have "?u \<noteq> []" and "hd ?u = hd ?t" using dropWhile_rev_last [of ?t py_ws] False h by auto
  with h have "dropWhile py_ws ?u = ?u" by (cases ?u) auto
  then show ?thesis by (simp add: strip_def dropWhile_idem)
qed

section \<open>Decimal integers\<close>

definition digit_char :: "nat \<Rightarrow> char" where
  "digit_char d = ''0123456789'' ! d"

definition is_digit :: "char \<Rightarrow> bool" where
  "is_digit c = (48 \<le> code_of c \<and> code_of c \<le> 57)"

definition digit_val :: "char \<Rightarrow> nat" where
  "digit_val c = code_of c - 48"

fun nat_str :: "nat \<Rightarrow> string" where
  "nat_str n = (if n < 10 then [digit_char n] else nat_str (n div 10) @ [digit_char (n mod 10)])"

declare nat_str.simps [simp del]

definition int_str :: "int \<Rightarrow> string" where
  "int_str i = (if i < 0 then CHR ''-'' # nat_str (nat (- i)) else nat_str (nat i))"

text \<open>
  \<open>int(s)\<close>: surrounding whitespace, an optional sign, then digits in which single underscores
  may separate two digits. The boolean records whether the last character read was a digit.
\<close>

fun parse_digits :: "nat \<Rightarrow> bool \<Rightarrow> string \<Rightarrow> nat option" where
  "parse_digits acc ok [] = (if ok then Some acc else None)"
| "parse_digits acc ok (c # cs) =
     (if is_digit c then parse_digits (10 * acc + digit_val c) True cs
      else if c = CHR ''_'' \<and> ok then parse_digits acc False cs
      else None)"

definition parse_int :: "string \<Rightarrow> int option" where
  "parse_int s =
     (case strip s of
        [] \<Rightarrow> None
      | c # cs \<Rightarrow>
          if c = CHR ''-'' then map_option (\<lambda>n. - int n) (parse_digits 0 False cs)
          else if c = CHR ''+'' then map_option int (parse_digits 0 False cs)
          else map_option int (parse_digits 0 False (c # cs)))"

lemma digit_char_cases:
  assumes "d < 10"
  shows "is_digit (digit_char d) \<and> digit_val (digit_char d) = d \<and> \<not> py_ws (digit_char d)
    \<and> digit_char d \<noteq> CHR ''.'' \<and> digit_char d \<noteq> CHR ''-'' \<and> digit_char d \<noteq> CHR ''+''"
proof -
  from assms have "d = 0 \<or> d = 1 \<or> d = 2 \<or> d = 3 \<or> d = 4 \<or> d = 5 \<or> d = 6 \<or> d = 7 \<or> d = 8 \<or> d = 9"
    by arith
  then show ?thesis
    by (elim disjE) (simp_all add: digit_char_def is_digit_def digit_val_def py_ws_def)
qed

lemma nat_str_chars:
  "c \<in> set (nat_str n) \<Longrightarrow> is_digit c \<and> \<not> py_ws c \<and> c \<noteq> CHR ''.'' \<and> c \<noteq> CHR ''-'' \<and> c \<noteq> CHR ''+''"
proof (induction n rule: nat_str.induct)
  case (1 n)
  show ?case
  proof (cases "n < 10")
    case True
    with "1.prems" show ?thesis
      by (simp add: nat_str.simps [of n] digit_char_cases)
  next
    case False
    with "1.prems" have "c \<in> set (nat_str (n div 10)) \<or> c = digit_char (n mod 10)"
      by (auto simp: nat_str.simps [of n])
    then show ?thesis using "1.IH" False digit_char_cases [of "n mod 10"] by auto
  qed
qed

lemma nat_str_nonempty [simp]: "nat_str n \<noteq> []"
  by (subst nat_str.simps) simp

lemma parse_digits_all:
  "(\<forall>c \<in> set ds. is_digit c) \<Longrightarrow> ds \<noteq> [] \<or> ok \<Longrightarrow>
   parse_digits acc ok ds = Some (foldl (\<lambda>a c. 10 * a + digit_val c) acc ds)"
  by (induction ds arbitrary: acc ok) auto

lemma foldl_nat_str: "foldl (\<lambda>a c. 10 * a + digit_val c) 0 (nat_str n) = n"
proof (induction n rule: nat_str.induct)
  case (1 n)
  show ?case
  proof (cases "n < 10")
    case True
    then show ?thesis by (simp add: nat_str.simps [of n] digit_char_cases)
  next
    case False
    with "1.IH" have "foldl (\<lambda>a c. 10 * a + digit_val c) 0 (nat_str (n div 10)) = n div 10"
      by simp
    with False show ?thesis
      by (simp add: nat_str.simps [of n] digit_char_cases)
  qed
qed

lemma parse_digits_nat_str [simp]: "parse_digits 0 False (nat_str n) = Some n"
  by (simp add: parse_digits_all nat_str_chars foldl_nat_str)

lemma int_str_chars: "c \<in> set (int_str i) \<Longrightarrow> \<not> py_ws c \<and> c \<noteq> CHR ''.''"
  by (auto simp: int_str_def py_ws_def dest: nat_str_chars split: if_splits)

lemma int_str_nonempty [simp]: "int_str i \<noteq> []"
  by (simp add: int_str_def)

lemma strip_int_str [simp]: "strip (int_str i) = int_str i"
  by (rule strip_no_ws) (auto dest: int_str_chars)

theorem parse_int_str [simp]: "parse_int (int_str i) = Some i"
proof (cases "i < 0")
  case True
  then show ?thesis
    unfolding parse_int_def strip_int_str by (simp add: int_str_def)
next
  case False
  obtain c cs where c: "nat_str (nat i) = c # cs" by (cases "nat_str (nat i)") auto
  then have "c \<noteq> CHR ''-''" and "c \<noteq> CHR ''+''"
    using nat_str_chars [of c "nat i"] by auto
  then show ?thesis
    unfolding parse_int_def strip_int_str using False c parse_digits_nat_str [of "nat i"]
    by (simp add: int_str_def)
qed

lemma int_str_no_dot [simp]: "CHR ''.'' \<notin> set (int_str i)"
  using int_str_chars by blast

section \<open>Payload values\<close>

text \<open>
  \<open>PObj t r\<close> is an object of any other type, of which the code only sees \<open>str\<close> (\<open>t\<close>) and
  \<open>repr\<close> (\<open>r\<close>). Sets are listed in their iteration order.
\<close>

datatype pyval =
    PNone
  | PBool bool
  | PInt int
  | PStr string
  | PBytes string
  | PList "pyval list"
  | PTuple "pyval list"
  | PSet "pyval list"
  | PDict "(string \<times> pyval) list"
  | PObj string string

definition hex_char :: "nat \<Rightarrow> char" where
  "hex_char d = ''0123456789abcdef'' ! d"

definition backslash :: char where "backslash = char_of (92::nat)"

definition single_quote :: char where "single_quote = char_of (39::nat)"

definition double_quote :: char where "double_quote = char_of (34::nat)"

definition escape_char :: "bool \<Rightarrow> char \<Rightarrow> char \<Rightarrow> string" where
  "escape_char ascii_only q c =
     (let n = code_of c in
      if c = q \<or> c = backslash then [backslash, c]
      else if n = 9 then [backslash, CHR ''t'']
      else if n = 10 then [backslash, CHR ''n'']
      else if n = 13 then [backslash, CHR ''r'']
      else if n < 32 \<or> n = 127 \<or> (ascii_only \<and> 128 \<le> n) \<or> (128 \<le> n \<and> n \<le> 160) \<or> n = 173
      then [backslash, CHR ''x'', hex_char (n div 16), hex_char (n mod 16)]
      else [c])"

definition quote_for :: "string \<Rightarrow> char" where
  "quote_for s =
     (if single_quote \<in> set s \<and> double_quote \<notin> set s then double_quote else single_quote)"

definition quoted :: "bool \<Rightarrow> string \<Rightarrow> string" where
  "quoted ascii_only s =
     (let q = quote_for s in [q] @ concat (map (escape_char ascii_only q) s) @ [q])"

fun py_repr :: "pyval \<Rightarrow> string"
  and py_repr_list :: "pyval list \<Rightarrow> string list"
  and py_repr_items :: "(string \<times> pyval) list \<Rightarrow> string list" where
  "py_repr PNone = ''None''"
| "py_repr (PBool b) = (if b then ''True'' else ''False'')"
| "py_repr (PInt i) = int_str i"
| "py_repr (PStr s) = quoted False s"
| "py_repr (PBytes s) = CHR ''b'' # quoted True s"
| "py_repr (PList xs) = ''['' @ join '', '' (py_repr_list xs) @ '']''"
| "py_repr (PTuple xs) =
     ''('' @ join '', '' (py_repr_list xs) @ (if length xs = 1 then '',)'' else '')'')"
| "py_repr (PSet xs) =
     (if xs = [] then ''set()'' else ''{'' @ join '', '' (py_repr_list xs) @ ''}'')"
| "py_repr (PDict kvs) = ''{'' @ join '', '' (py_repr_items kvs) @ ''}''"
| "py_repr (PObj t r) = r"
| "py_repr_list [] = []"
| "py_repr_list (x # xs) = py_repr x # py_repr_list xs"
| "py_repr_items [] = []"
| "py_repr_items ((k, v) # kvs) = (quoted False k @ '': '' @ py_repr v) # py_repr_items kvs"

fun py_str :: "pyval \<Rightarrow> string" where
  "py_str (PStr s) = s"
| "py_str (PObj t r) = t"
| "py_str v = py_repr v"

fun py_truthy :: "pyval \<Rightarrow> bool" where
  "py_truthy PNone = False"
| "py_truthy (PBool b) = b"
| "py_truthy (PInt i) = (i \<noteq> 0)"
| "py_truthy (PStr s) = (s \<noteq> [])"
| "py_truthy (PBytes s) = (s \<noteq> [])"
| "py_truthy (PList xs) = (xs \<noteq> [])"
| "py_truthy (PTuple xs) = (xs \<noteq> [])"
| "py_truthy (PSet xs) = (xs \<noteq> [])"
| "py_truthy (PDict kvs) = (kvs \<noteq> [])"
| "py_truthy (PObj t r) = True"

text \<open>\<open>int(v)\<close>.\<close>

fun py_int :: "pyval \<Rightarrow> int res" where
  "py_int (PBool b) = Inr (of_bool b)"
| "py_int (PInt i) = Inr i"
| "py_int (PStr s) =
     (case parse_int s of None \<Rightarrow> Inl (ValueError ''invalid literal for int()'') | Some i \<Rightarrow> Inr i)"
| "py_int (PBytes s) =
     (case parse_int s of None \<Rightarrow> Inl (ValueError ''invalid literal for int()'') | Some i \<Rightarrow> Inr i)"
| "py_int v = Inl (TypeError ''int() argument'')"

fun py_num :: "pyval \<Rightarrow> int option" where
  "py_num (PBool b) = Some (of_bool b)"
| "py_num (PInt i) = Some i"
| "py_num v = None"

text \<open>\<open>==\<close>: the lengths are compared first, then every item of the left side is looked up on the right.\<close>

fun py_eq :: "pyval \<Rightarrow> pyval \<Rightarrow> bool"
  and py_eq_list :: "pyval list \<Rightarrow> pyval list \<Rightarrow> bool"
  and py_sub_set :: "pyval list \<Rightarrow> pyval list \<Rightarrow> bool"
  and py_sub_items :: "(string \<times> pyval) list \<Rightarrow> (string \<times> pyval) list \<Rightarrow> bool" where
  "py_eq PNone w = (w = PNone)"
| "py_eq (PBool b) w = (py_num w = Some (of_bool b))"
| "py_eq (PInt i) w = (py_num w = Some i)"
| "py_eq (PStr s) w = (w = PStr s)"
| "py_eq (PBytes s) w = (w = PBytes s)"
| "py_eq (PList xs) w = (case w of PList ys \<Rightarrow> py_eq_list xs ys | _ \<Rightarrow> False)"
| "py_eq (PTuple xs) w = (case w of PTuple ys \<Rightarrow> py_eq_list xs ys | _ \<Rightarrow> False)"
| "py_eq (PSet xs) w =
     (case w of PSet ys \<Rightarrow> length xs = length ys \<and> py_sub_set xs ys | _ \<Rightarrow> False)"
| "py_eq (PDict kvs) w =
     (case w of PDict lvs \<Rightarrow> length kvs = length lvs \<and> py_sub_items kvs lvs | _ \<Rightarrow> False)"
| "py_eq (PObj t r) w = (w = PObj t r)"
| "py_eq_list [] ys = (ys = [])"
| "py_eq_list (x # xs) ys = (case ys of [] \<Rightarrow> False | y # ys' \<Rightarrow> py_eq x y \<and> py_eq_list xs ys')"
| "py_sub_set [] ys = True"
| "py_sub_set (x # xs) ys = (list_ex (\<lambda>y. py_eq x y) ys \<and> py_sub_set xs ys)"
| "py_sub_items [] lvs = True"
| "py_sub_items ((k, v) # kvs) lvs =
     ((case map_of lvs k of None \<Rightarrow> False | Some w \<Rightarrow> py_eq v w) \<and> py_sub_items kvs lvs)"

text \<open>Every dictionary inside a value has distinct keys, as any Python dictionary does.\<close>

fun wf_pyval :: "pyval \<Rightarrow> bool"
  and wf_pyval_list :: "pyval list \<Rightarrow> bool"
  and wf_pyval_items :: "(string \<times> pyval) list \<Rightarrow> bool" where
  "wf_pyval (PList xs) = wf_pyval_list xs"
| "wf_pyval (PTuple xs) = wf_pyval_list xs"
| "wf_pyval (PSet xs) = wf_pyval_list xs"
| "wf_pyval (PDict kvs) = (wf_dict kvs \<and> wf_pyval_items kvs)"
| "wf_pyval v = True"
| "wf_pyval_list [] = True"
| "wf_pyval_list (x # xs) = (wf_pyval x \<and> wf_pyval_list xs)"
| "wf_pyval_items [] = True"
| "wf_pyval_items ((k, v) # kvs) = (wf_pyval v \<and> wf_pyval_items kvs)"

lemma py_sub_set_superset: "set ys \<subseteq> set zs \<Longrightarrow> py_sub_set xs ys \<Longrightarrow> py_sub_set xs zs"
  by (induction xs) (auto simp: list_ex_iff)

lemma py_sub_items_alt:
  "py_sub_items kvs lvs \<longleftrightarrow> (\<forall>(k, v) \<in> set kvs. \<exists>w. map_of lvs k = Some w \<and> py_eq v w)"
  by (induction kvs) (auto split: option.splits)

lemma py_sub_set_alt: "py_sub_set xs ys \<longleftrightarrow> (\<forall>x \<in> set xs. \<exists>y \<in> set ys. py_eq x y)"
  by (induction xs) (auto simp: list_ex_iff)

lemma py_eq_list_alt: "py_eq_list xs ys \<longleftrightarrow> list_all2 py_eq xs ys"
  by (induction xs arbitrary: ys) (auto split: list.splits simp: list_all2_Cons1)

lemma wf_pyval_list_alt: "wf_pyval_list xs \<longleftrightarrow> (\<forall>x \<in> set xs. wf_pyval x)"
  by (induction xs) auto

lemma wf_pyval_items_alt: "wf_pyval_items kvs \<longleftrightarrow> (\<forall>(k, v) \<in> set kvs. wf_pyval v)"
  by (induction kvs) auto

lemma py_eq_refl_aux:
  "(wf_pyval v \<longrightarrow> py_eq v v)
   \<and> True"
  "wf_pyval_list xs \<longrightarrow> (\<forall>x \<in> set xs. py_eq x x)"
  "wf_pyval_items kvs \<longrightarrow> (\<forall>(k, x) \<in> set kvs. py_eq x x)"
proof (induction v and xs and kvs rule: wf_pyval_wf_pyval_list_wf_pyval_items.induct)
  case (1 xs)
  then show ?case by (simp add: py_eq_list_alt list_all2_same)
next
  case (2 xs)
  then show ?case by (simp add: py_eq_list_alt list_all2_same)
next
  case (3 xs)
  then show ?case by (auto simp: py_sub_set_alt)
next
  case (4 kvs)
  then show ?case by (force simp: py_sub_items_alt wf_dict_get)
qed auto

lemma py_eq_refl: "wf_pyval v \<Longrightarrow> py_eq v v"
  using py_eq_refl_aux(1) by blast

end
