(* ===== verification/Fte_Types.thy ===== *)
theory Fte_Types
  imports Py_Values
begin

text \<open>
  Identities and splits of the fault-tolerant execution engine
  (\<open>src/duckdb/runners/fte/fte_types.py\<close>): task and attempt identifiers with their validation,
  printing, parsing, dictionary form and coercion, the check that a worker status carries the
  identity it was asked for, and splits with their dictionary form.
\<close>

section \<open>Task identifiers\<close>

definition check_non_negative :: "string \<Rightarrow> int \<Rightarrow> int res" where
  "check_non_negative name value =
     (if value < 0 then Inl (ValueError (name @ '' must be non-negative'')) else Inr value)"

datatype fte_task_id =
  FteTaskId (task_query_id: string) (task_fragment_execution_id: int) (task_partition_id: int)

text \<open>The dataclass constructor with its \<open>__post_init__\<close>.\<close>

definition mk_task_id :: "string \<Rightarrow> int \<Rightarrow> int \<Rightarrow> fte_task_id res" where
  "mk_task_id query_id fragment_execution_id partition_id =
     (let q = strip query_id in
      if q = [] then Inl (ValueError ''query_id must be non-empty'')
      else bindE (check_non_negative ''fragment_execution_id'' fragment_execution_id) (\<lambda>f.
           bindE (check_non_negative ''partition_id'' partition_id) (\<lambda>p.
           Inr (FteTaskId q f p))))"

text \<open>What the constructor guarantees of every identifier.\<close>

fun valid_task_id :: "fte_task_id \<Rightarrow> bool" where
  "valid_task_id (FteTaskId q f p) = (q \<noteq> [] \<and> strip q = q \<and> 0 \<le> f \<and> 0 \<le> p)"

fun task_id_str :: "fte_task_id \<Rightarrow> string" where
  "task_id_str (FteTaskId q f p) = q @ ''.'' @ int_str f @ ''.'' @ int_str p"

fun task_id_to_dict :: "fte_task_id \<Rightarrow> (string, pyval) dict" where
  "task_id_to_dict (FteTaskId q f p) =
     [(''query_id'', PStr q), (''fragment_execution_id'', PInt f), (''partition_id'', PInt p)]"

text \<open>\<open>payload[key]\<close> on a mapping.\<close>

definition dict_item :: "(string, 'v) dict \<Rightarrow> string \<Rightarrow> 'v res" where
  "dict_item d k = (case map_of d k of None \<Rightarrow> Inl (KeyError k) | Some v \<Rightarrow> Inr v)"

definition task_id_from_dict :: "(string, pyval) dict \<Rightarrow> fte_task_id res" where
  "task_id_from_dict payload =
     bindE (dict_item payload ''query_id'') (\<lambda>q.
     bindE (bindE (dict_item payload ''fragment_execution_id'') py_int) (\<lambda>f.
     bindE (bindE (dict_item payload ''partition_id'') py_int) (\<lambda>p.
     mk_task_id (py_str q) f p)))"

definition task_id_parse :: "string \<Rightarrow> fte_task_id res" where
  "task_id_parse value =
     (case rsplit (CHR ''.'') 2 value of
        [q, f, p] \<Rightarrow>
          bindE (py_int (PStr f)) (\<lambda>f. bindE (py_int (PStr p)) (\<lambda>p. mk_task_id q f p))
      | _ \<Rightarrow> Inl (ValueError ''Invalid FTE task id''))"

text \<open>What \<open>coerce\<close> accepts: an identifier object or a raw payload value.\<close>

datatype 'a ref = Obj 'a | Raw pyval

definition mapping_member :: "(string, pyval) dict \<Rightarrow> string \<Rightarrow> (string, pyval) dict option" where
  "mapping_member d k = (case map_of d k of Some (PDict e) \<Rightarrow> Some e | _ \<Rightarrow> None)"

fun task_id_coerce :: "fte_task_id ref \<Rightarrow> fte_task_id res" where
  "task_id_coerce (Obj t) = Inr t"
| "task_id_coerce (Raw (PStr s)) = task_id_parse s"
| "task_id_coerce (Raw (PDict d)) =
     (case mapping_member d ''task_id'' of
        Some e \<Rightarrow> task_id_from_dict e
      | None \<Rightarrow> task_id_from_dict d)"
| "task_id_coerce (Raw v) = Inl (TypeError ''Cannot coerce to FteTaskId'')"

section \<open>Attempt identifiers\<close>

datatype fte_task_attempt_id =
  FteTaskAttemptId (attempt_task_id: fte_task_id) (attempt_number: int)

text \<open>The constructor; \<open>task_id\<close> has been coerced already.\<close>

definition mk_attempt_id :: "fte_task_id \<Rightarrow> int \<Rightarrow> fte_task_attempt_id res" where
  "mk_attempt_id t a =
     bindE (check_non_negative ''attempt_id'' a) (\<lambda>a. Inr (FteTaskAttemptId t a))"

fun valid_attempt_id :: "fte_task_attempt_id \<Rightarrow> bool" where
  "valid_attempt_id (FteTaskAttemptId t a) = (valid_task_id t \<and> 0 \<le> a)"

fun attempt_id_str :: "fte_task_attempt_id \<Rightarrow> string" where
  "attempt_id_str (FteTaskAttemptId t a) = task_id_str t @ ''.'' @ int_str a"

fun attempt_id_to_dict :: "fte_task_attempt_id \<Rightarrow> (string, pyval) dict" where
  "attempt_id_to_dict (FteTaskAttemptId t a) = dict_set ''attempt_id'' (PInt a) (task_id_to_dict t)"

definition attempt_id_from_dict :: "(string, pyval) dict \<Rightarrow> fte_task_attempt_id res" where
  "attempt_id_from_dict payload =
     bindE (case mapping_member payload ''task_id'' of
              Some e \<Rightarrow> task_id_from_dict e
            | None \<Rightarrow> task_id_from_dict payload) (\<lambda>t.
     bindE (bindE (dict_item payload ''attempt_id'') py_int) (\<lambda>a.
     mk_attempt_id t a))"

definition attempt_id_parse :: "string \<Rightarrow> fte_task_attempt_id res" where
  "attempt_id_parse value =
     (case rsplit (CHR ''.'') 3 value of
        [q, f, p, a] \<Rightarrow>
          bindE (py_int (PStr f)) (\<lambda>f.
          bindE (py_int (PStr p)) (\<lambda>p.
          bindE (mk_task_id q f p) (\<lambda>t.
          bindE (py_int (PStr a)) (\<lambda>a.
          mk_attempt_id t a))))
      | _ \<Rightarrow> Inl (ValueError ''Invalid FTE task attempt id''))"

fun attempt_id_coerce :: "fte_task_attempt_id ref \<Rightarrow> fte_task_attempt_id res" where
  "attempt_id_coerce (Obj t) = Inr t"
| "attempt_id_coerce (Raw (PStr s)) = attempt_id_parse s"
| "attempt_id_coerce (Raw (PDict d)) = attempt_id_from_dict d"
| "attempt_id_coerce (Raw v) = Inl (TypeError ''Cannot coerce to FteTaskAttemptId'')"

section \<open>Identity of a worker status\<close>

definition raw_identities :: "(string, pyval) dict \<Rightarrow> pyval list" where
  "raw_identities status =
     concat (map (\<lambda>field. case map_of status field of
                             None \<Rightarrow> [] | Some PNone \<Rightarrow> [] | Some v \<Rightarrow> [v])
                 [''task_id'', ''task_id_string''])"

fun check_identities :: "fte_task_attempt_id \<Rightarrow> pyval list \<Rightarrow> fte_task_attempt_id res" where
  "check_identities expected [] = Inr expected"
| "check_identities expected (v # vs) =
     (case attempt_id_coerce (Raw v) of
        Inl _ \<Rightarrow> Inl (ValueError ''FTE status identity is malformed'')
      | Inr actual \<Rightarrow>
          if actual \<noteq> expected then Inl (RuntimeError ''FTE status identity mismatch'')
          else check_identities expected vs)"

definition validate_fte_status_identity ::
  "(string, pyval) dict \<Rightarrow> fte_task_attempt_id ref \<Rightarrow> fte_task_attempt_id res" where
  "validate_fte_status_identity status expected =
     bindE (attempt_id_coerce expected) (\<lambda>expected_attempt.
       let ids = raw_identities status in
       if ids = [] then Inl (ValueError ''FTE status identity missing'')
       else check_identities expected_attempt ids)"

section \<open>Splits\<close>

record fte_split =
  split_source_node_id :: string
  sequence_id :: int
  split_kind :: string
  split_data :: pyval
  source_partition_id :: int
  size_bytes :: "int option"
  addresses :: "string list"
  remotely_accessible :: bool
  split_catalog :: "string option"

text \<open>Iterating over a payload value, as \<open>tuple(v)\<close> does.\<close>

fun py_iter :: "pyval \<Rightarrow> pyval list res" where
  "py_iter (PList xs) = Inr xs"
| "py_iter (PTuple xs) = Inr xs"
| "py_iter (PSet xs) = Inr xs"
| "py_iter (PStr s) = Inr (map (\<lambda>c. PStr [c]) s)"
| "py_iter (PBytes s) = Inr (map (\<lambda>c. PInt (int (code_of c))) s)"
| "py_iter (PDict kvs) = Inr (map (\<lambda>kv. PStr (fst kv)) kvs)"
| "py_iter v = Inl (TypeError ''object is not iterable'')"

text \<open>\<open>__post_init__\<close> on the arguments \<open>from_dict\<close> passes.\<close>

definition mk_split ::
  "string \<Rightarrow> int \<Rightarrow> string \<Rightarrow> pyval \<Rightarrow> int \<Rightarrow> pyval \<Rightarrow> pyval list \<Rightarrow> bool \<Rightarrow> pyval \<Rightarrow> fte_split res" where
  "mk_split source seq kind data source_partition raw_size addrs remote catalog =
     (let source = strip source; kind = strip kind in
      if source = [] then Inl (ValueError ''source_node_id must be non-empty'')
      else if kind = [] then Inl (ValueError ''split kind must be non-empty'')
      else bindE (check_non_negative ''sequence_id'' seq) (\<lambda>seq.
           bindE (check_non_negative ''source_partition_id'' source_partition) (\<lambda>source_partition.
           bindE (if raw_size = PNone then Inr None
                  else bindE (py_int raw_size) (\<lambda>n. bindE (check_non_negative ''size_bytes'' n) (\<lambda>n. Inr (Some n))))
             (\<lambda>sz.
           Inr \<lparr>split_source_node_id = source, sequence_id = seq, split_kind = kind, split_data = data,
                source_partition_id = source_partition, size_bytes = sz,
                addresses = map py_str addrs, remotely_accessible = remote,
                split_catalog = (if catalog = PNone then None else Some (py_str catalog))\<rparr>))))"

definition split_to_dict :: "fte_split \<Rightarrow> (string, pyval) dict" where
  "split_to_dict s =
     [(''source_node_id'', PStr (split_source_node_id s)),
      (''sequence_id'', PInt (sequence_id s)),
      (''kind'', PStr (split_kind s))]
     @ (if split_data s \<noteq> PNone then [(''data'', split_data s)] else [])
     @ [(''source_partition_id'', PInt (source_partition_id s))]
     @ (case size_bytes s of None \<Rightarrow> [] | Some n \<Rightarrow> [(''size_bytes'', PInt n)])
     @ (if addresses s \<noteq> [] then [(''addresses'', PList (map PStr (addresses s)))] else [])
     @ (if \<not> remotely_accessible s then [(''remotely_accessible'', PBool False)] else [])
     @ (case split_catalog s of None \<Rightarrow> [] | Some c \<Rightarrow> [(''catalog'', PStr c)])"

definition split_from_dict :: "string \<Rightarrow> (string, pyval) dict \<Rightarrow> fte_split res" where
  "split_from_dict source_node_id payload =
     (let source = py_str (dict_get_default payload ''source_node_id'' (PStr source_node_id)) in
      bindE (bindE (dict_item payload ''sequence_id'') py_int) (\<lambda>seq.
      bindE (dict_item payload ''kind'') (\<lambda>kind.
      bindE (py_int (dict_get_default payload ''source_partition_id'' (PInt 0))) (\<lambda>source_partition.
      let raw = dict_get_default payload ''addresses'' PNone in
      bindE (if py_truthy raw then py_iter raw else Inr []) (\<lambda>addrs.
      mk_split source seq (py_str kind) (dict_get_default payload ''data'' PNone) source_partition
        (dict_get_default payload ''size_bytes'' PNone) addrs
        (py_truthy (dict_get_default payload ''remotely_accessible'' (PBool True)))
        (dict_get_default payload ''catalog'' PNone))))))"

definition valid_split :: "fte_split \<Rightarrow> bool" where
  "valid_split s =
     (split_source_node_id s \<noteq> [] \<and> strip (split_source_node_id s) = split_source_node_id s \<and>
      split_kind s \<noteq> [] \<and> strip (split_kind s) = split_kind s \<and>
      0 \<le> sequence_id s \<and> 0 \<le> source_partition_id s \<and>
      (case size_bytes s of None \<Rightarrow> True | Some n \<Rightarrow> 0 \<le> n))"

section \<open>Orderings\<close>

text \<open>The dataclasses are declared with \<open>order=True\<close>: identifiers compare field by field.\<close>

definition task_key :: "fte_task_id \<Rightarrow> string \<times> int \<times> int" where
  "task_key t = (task_query_id t, task_fragment_execution_id t, task_partition_id t)"

lemma task_key_inject: "task_key a = task_key b \<Longrightarrow> a = b"
  by (cases a; cases b) (simp add: task_key_def)

instantiation fte_task_id :: linorder
begin

definition less_eq_fte_task_id :: "fte_task_id \<Rightarrow> fte_task_id \<Rightarrow> bool" where
  "less_eq_fte_task_id a b = (task_key a \<le> task_key b)"

definition less_fte_task_id :: "fte_task_id \<Rightarrow> fte_task_id \<Rightarrow> bool" where
  "less_fte_task_id a b = (task_key a < task_key b)"

instance
  by standard
    (auto simp: less_eq_fte_task_id_def less_fte_task_id_def intro: task_key_inject)

end

definition attempt_key :: "fte_task_attempt_id \<Rightarrow> fte_task_id \<times> int" where
  "attempt_key a = (attempt_task_id a, attempt_number a)"

lemma attempt_key_inject: "attempt_key a = attempt_key b \<Longrightarrow> a = b"
  by (cases a; cases b) (simp add: attempt_key_def)

instantiation fte_task_attempt_id :: linorder
begin

definition less_eq_fte_task_attempt_id :: "fte_task_attempt_id \<Rightarrow> fte_task_attempt_id \<Rightarrow> bool" where
  "less_eq_fte_task_attempt_id a b = (attempt_key a \<le> attempt_key b)"

definition less_fte_task_attempt_id :: "fte_task_attempt_id \<Rightarrow> fte_task_attempt_id \<Rightarrow> bool" where
  "less_fte_task_attempt_id a b = (attempt_key a < attempt_key b)"

instance
  by standard
    (auto simp: less_eq_fte_task_attempt_id_def less_fte_task_attempt_id_def
      intro: attempt_key_inject)

end

section \<open>Validation and round trips\<close>

lemma check_non_negative_Inr [simp]: "check_non_negative n v = Inr w \<longleftrightarrow> 0 \<le> v \<and> w = v"
  by (auto simp: check_non_negative_def)

lemma check_non_negative_ok [simp]: "0 \<le> v \<Longrightarrow> check_non_negative n v = Inr v"
  by (simp add: check_non_negative_def)

lemma mk_task_id_Inr:
  "mk_task_id q f p = Inr t \<longleftrightarrow> strip q \<noteq> [] \<and> 0 \<le> f \<and> 0 \<le> p \<and> t = FteTaskId (strip q) f p"
  by (auto simp: mk_task_id_def Let_def res_simps)

lemma mk_task_id_valid: "mk_task_id q f p = Inr t \<Longrightarrow> valid_task_id t"
  by (auto simp: mk_task_id_Inr)

lemma mk_attempt_id_Inr: "mk_attempt_id t n = Inr a \<longleftrightarrow> 0 \<le> n \<and> a = FteTaskAttemptId t n"
  by (auto simp: mk_attempt_id_def res_simps)

lemma task_id_from_dict_valid: "task_id_from_dict d = Inr t \<Longrightarrow> valid_task_id t"
  by (auto simp: task_id_from_dict_def res_simps dest: mk_task_id_valid)

lemma attempt_id_from_dict_valid: "attempt_id_from_dict d = Inr a \<Longrightarrow> valid_attempt_id a"
  by (auto simp: attempt_id_from_dict_def res_simps mk_attempt_id_Inr
      split: option.splits dest: task_id_from_dict_valid)

lemma attempt_id_parse_valid: "attempt_id_parse s = Inr a \<Longrightarrow> valid_attempt_id a"
  by (auto simp: attempt_id_parse_def res_simps mk_attempt_id_Inr
      split: list.splits dest: mk_task_id_valid)

lemma rsplit_task_id_str:
  "rsplit (CHR ''.'') 2 (task_id_str (FteTaskId q f p)) = [q, int_str f, int_str p]"
proof -
  have "split_last (CHR ''.'') ((q @ ''.'' @ int_str f) @ CHR ''.'' # int_str p)
      = Some (q @ ''.'' @ int_str f, int_str p)"
    by (rule split_last_append) simp
  moreover have "split_last (CHR ''.'') (q @ CHR ''.'' # int_str f) = Some (q, int_str f)"
    by (rule split_last_append) simp
  ultimately show ?thesis by (simp add: numeral_2_eq_2)
qed

lemma rsplit_attempt_id_str:
  "rsplit (CHR ''.'') 3 (attempt_id_str (FteTaskAttemptId (FteTaskId q f p) a))
   = [q, int_str f, int_str p, int_str a]"
proof -
  have "split_last (CHR ''.'') (task_id_str (FteTaskId q f p) @ CHR ''.'' # int_str a)
      = Some (task_id_str (FteTaskId q f p), int_str a)"
    by (rule split_last_append) simp
  then have "rsplit (CHR ''.'') (Suc 2) (attempt_id_str (FteTaskAttemptId (FteTaskId q f p) a))
      = rsplit (CHR ''.'') 2 (task_id_str (FteTaskId q f p)) @ [int_str a]"
    by (simp only: rsplit.simps attempt_id_str.simps append_Cons append_Nil option.case prod.case)
  moreover have "Suc 2 = 3" by simp
  ultimately show ?thesis by (simp only: rsplit_task_id_str append_Cons append_Nil)
qed

lemma attempt_id_parse_str: "valid_attempt_id a \<Longrightarrow> attempt_id_parse (attempt_id_str a) = Inr a"
proof -
  assume v: "valid_attempt_id a"
  obtain q f p n where a: "a = FteTaskAttemptId (FteTaskId q f p) n"
    by (metis fte_task_attempt_id.exhaust fte_task_id.exhaust)
  show ?thesis
    using v unfolding a attempt_id_parse_def rsplit_attempt_id_str
    by (simp add: mk_task_id_def mk_attempt_id_def)
qed

lemma attempt_id_from_to_dict: "valid_attempt_id a \<Longrightarrow> attempt_id_from_dict (attempt_id_to_dict a) = Inr a"
  by (cases a; cases "attempt_task_id a")
    (auto simp: attempt_id_from_dict_def task_id_from_dict_def mapping_member_def dict_item_def
      mk_task_id_def mk_attempt_id_def)

text \<open>
  C20. Every wire form of an attempt identity is lossless: coercing the dotted string or the
  dictionary of a valid identity gives that identity back, even when the query id itself
  contains dots.
\<close>

theorem attempt_id_wire_roundtrip:
  assumes "valid_attempt_id a"
  shows "attempt_id_coerce (Raw (PStr (attempt_id_str a))) = Inr a
    \<and> attempt_id_coerce (Raw (PDict (attempt_id_to_dict a))) = Inr a"
  using assms by (simp_all add: attempt_id_parse_str attempt_id_from_to_dict)

theorem attempt_id_wire_roundtrip_witness:
  "attempt_id_coerce (Raw (PStr ''q.1.7.0.2'')) = Inr (FteTaskAttemptId (FteTaskId ''q.1'' 7 0) 2)"
proof -
  let ?a = "FteTaskAttemptId (FteTaskId ''q.1'' 7 0) 2"
  have "valid_attempt_id ?a" by (simp add: strip_def py_ws_def)
  moreover have "attempt_id_str ?a = ''q.1.7.0.2''"
    by (simp add: int_str_def nat_str.simps digit_char_def)
  ultimately show ?thesis using attempt_id_wire_roundtrip [of ?a] by (simp only:)
qed

lemma attempt_id_coerce_valid: "attempt_id_coerce (Raw v) = Inr a \<Longrightarrow> valid_attempt_id a"
  by (cases v) (auto dest: attempt_id_parse_valid attempt_id_from_dict_valid)

lemma check_identities_Inr:
  "check_identities e vs = Inr a \<longleftrightarrow> a = e \<and> (\<forall>v \<in> set vs. attempt_id_coerce (Raw v) = Inr e)"
  by (induction vs) (auto split: sum.splits)

lemma set_carried: "set (case x of None \<Rightarrow> [] | Some PNone \<Rightarrow> [] | Some v \<Rightarrow> [v]) = {v. x = Some v \<and> v \<noteq> PNone}"
proof (cases x)
  case (Some v)
  then show ?thesis by (cases v) auto
qed simp

lemma set_raw_identities:
  "v \<in> set (raw_identities status) \<longleftrightarrow>
   v \<noteq> PNone \<and> (dict_get status ''task_id'' = Some v \<or> dict_get status ''task_id_string'' = Some v)"
  by (auto simp: raw_identities_def set_carried)

text \<open>
  C21. The two fields of a worker status that can carry an identity are \<open>task_id\<close> and \<open>task_id_string\<close>; a field that is missing
  or \<open>None\<close> carries none. A status is accepted for an expected attempt exactly when at least one of the two fields carries an
  identity and each field that carries one coerces to the expected attempt, which is then the result: a status whose two
  identities disagree is never accepted. If neither field carries an identity, a \<open>ValueError\<close> says so.
\<close>

theorem validate_fte_status_identity_iff:
  assumes "attempt_id_coerce expected = Inr attempt"
  shows "(validate_fte_status_identity status expected = Inr a \<longleftrightarrow>
           a = attempt \<and>
           (dict_get_default status ''task_id'' PNone \<noteq> PNone \<or> dict_get_default status ''task_id_string'' PNone \<noteq> PNone) \<and>
           (\<forall>v. dict_get status ''task_id'' = Some v \<and> v \<noteq> PNone \<longrightarrow> attempt_id_coerce (Raw v) = Inr attempt) \<and>
           (\<forall>v. dict_get status ''task_id_string'' = Some v \<and> v \<noteq> PNone \<longrightarrow> attempt_id_coerce (Raw v) = Inr attempt)) \<and>
         (dict_get_default status ''task_id'' PNone = PNone \<and> dict_get_default status ''task_id_string'' PNone = PNone \<longrightarrow>
           validate_fte_status_identity status expected = Inl (ValueError ''FTE status identity missing''))"
proof -
  have none: "raw_identities status = [] \<longleftrightarrow>
      dict_get_default status ''task_id'' PNone = PNone \<and> dict_get_default status ''task_id_string'' PNone = PNone"
    unfolding set_empty [symmetric] raw_identities_def
    by (auto simp: set_carried dict_get_default_def split: option.splits)
  have all: "(\<forall>v\<in>set (raw_identities status). attempt_id_coerce (Raw v) = Inr attempt) \<longleftrightarrow>
      (\<forall>v. dict_get status ''task_id'' = Some v \<and> v \<noteq> PNone \<longrightarrow> attempt_id_coerce (Raw v) = Inr attempt) \<and>
      (\<forall>v. dict_get status ''task_id_string'' = Some v \<and> v \<noteq> PNone \<longrightarrow> attempt_id_coerce (Raw v) = Inr attempt)"
    by (auto simp: set_raw_identities)
  have "validate_fte_status_identity status expected =
      (if raw_identities status = [] then Inl (ValueError ''FTE status identity missing'')
       else check_identities attempt (raw_identities status))"
    using assms by (simp add: validate_fte_status_identity_def Let_def)
  then show ?thesis using none all by (auto simp: check_identities_Inr)
qed

theorem validate_fte_status_identity_iff_witness:
  "validate_fte_status_identity
     [(''state'', PStr ''RUNNING''), (''task_id_string'', PStr ''q.3.1.0'')]
     (Obj (FteTaskAttemptId (FteTaskId ''q'' 3 1) 0))
   = Inr (FteTaskAttemptId (FteTaskId ''q'' 3 1) 0)"
proof -
  let ?a = "FteTaskAttemptId (FteTaskId ''q'' 3 1) 0"
  have "attempt_id_parse (attempt_id_str ?a) = Inr ?a"
    by (rule attempt_id_parse_str) (simp add: strip_def py_ws_def)
  moreover have "attempt_id_str ?a = ''q.3.1.0''"
    by (simp add: int_str_def nat_str.simps digit_char_def)
  ultimately show ?thesis
    using validate_fte_status_identity_iff [of "Obj ?a" ?a] by (simp add: dict_get_default_def)
qed

lemma map_PStr_str [simp]: "map (py_str \<circ> PStr) xs = xs"
  by (induction xs) auto

lemma split_from_to_dict:
  assumes "valid_split s"
  shows "split_from_dict fallback (split_to_dict s) = Inr s"
proof -
  have get: "dict_get_default (split_to_dict s) ''source_node_id'' x = PStr (split_source_node_id s)"
    "dict_item (split_to_dict s) ''sequence_id'' = Inr (PInt (sequence_id s))"
    "dict_item (split_to_dict s) ''kind'' = Inr (PStr (split_kind s))"
    "dict_get_default (split_to_dict s) ''source_partition_id'' y = PInt (source_partition_id s)"
    "dict_get_default (split_to_dict s) ''data'' PNone = split_data s"
    "dict_get_default (split_to_dict s) ''size_bytes'' PNone
       = (case size_bytes s of None \<Rightarrow> PNone | Some n \<Rightarrow> PInt n)"
    "dict_get_default (split_to_dict s) ''addresses'' PNone
       = (if addresses s = [] then PNone else PList (map PStr (addresses s)))"
    "dict_get_default (split_to_dict s) ''remotely_accessible'' (PBool True)
       = PBool (remotely_accessible s)"
    "dict_get_default (split_to_dict s) ''catalog'' PNone
       = (case split_catalog s of None \<Rightarrow> PNone | Some c \<Rightarrow> PStr c)" for x y
    by (auto simp: split_to_dict_def dict_get_default_def dict_item_def split: option.splits)
  show ?thesis
    unfolding split_from_dict_def Let_def get
    using assms
    by (auto simp: mk_split_def valid_split_def Let_def split: option.splits)
qed

text \<open>
  C22. The dictionary form of a split is lossless: reading back the dictionary written for a
  valid split gives the same split whatever default source id the reader supplies, with the
  optional entries (data, size, addresses, remote flag, catalog) restored to their defaults
  when they were left out.
\<close>

theorem split_dict_roundtrip:
  assumes "valid_split s"
  shows "split_from_dict fallback (split_to_dict s) = Inr s"
  using assms by (rule split_from_to_dict)

theorem split_dict_roundtrip_witness:
  "let s = \<lparr>split_source_node_id = ''scan'', sequence_id = 4, split_kind = ''file'', split_data = PNone,
            source_partition_id = 0, size_bytes = Some 10, addresses = [''h1'', ''h2''],
            remotely_accessible = False, split_catalog = None\<rparr>
   in valid_split s \<and> split_from_dict ''other'' (split_to_dict s) = Inr s"
  unfolding Let_def
  by (intro conjI split_dict_roundtrip) (simp_all add: valid_split_def strip_def py_ws_def)

end
