(* ===== verification/Fte_State.thy ===== *)
theory Fte_State
  imports Fte_Types
begin

text \<open>
  Task, partition and execution-class states (\<open>src/duckdb/runners/fte/fte_state.py\<close>), and the
  lookup of an execution class in fragment metadata.
\<close>

datatype fte_task_state =
  TaskPlanned | TaskQueued | TaskRunning | TaskFinished | TaskFailed | TaskCanceled | TaskAborted

datatype fte_partition_state =
  PartOpen | PartSealed | PartRunning | PartFinished | PartFailed

datatype exec_class = STANDARD | SPECULATIVE | EAGER_SPECULATIVE

fun task_state_value :: "fte_task_state \<Rightarrow> string" where
  "task_state_value TaskPlanned = ''PLANNED''"
| "task_state_value TaskQueued = ''QUEUED''"
| "task_state_value TaskRunning = ''RUNNING''"
| "task_state_value TaskFinished = ''FINISHED''"
| "task_state_value TaskFailed = ''FAILED''"
| "task_state_value TaskCanceled = ''CANCELED''"
| "task_state_value TaskAborted = ''ABORTED''"

text \<open>The enum constructor \<open>FteTaskState(value)\<close>.\<close>

definition task_state_of :: "string \<Rightarrow> fte_task_state res" where
  "task_state_of s =
     (case find (\<lambda>t. task_state_value t = s)
             [TaskPlanned, TaskQueued, TaskRunning, TaskFinished, TaskFailed, TaskCanceled, TaskAborted] of
        None \<Rightarrow> Inl (ValueError ''is not a valid FteTaskState'')
      | Some t \<Rightarrow> Inr t)"

definition terminal_states :: "fte_task_state set" where
  "terminal_states = {TaskFinished, TaskFailed, TaskCanceled, TaskAborted}"

fun exec_class_value :: "exec_class \<Rightarrow> string" where
  "exec_class_value STANDARD = ''STANDARD''"
| "exec_class_value SPECULATIVE = ''SPECULATIVE''"
| "exec_class_value EAGER_SPECULATIVE = ''EAGER_SPECULATIVE''"

definition exec_class_aliases :: "(string, exec_class) dict" where
  "exec_class_aliases =
     [(''NORMAL'', STANDARD), (''NON_SPECULATIVE'', STANDARD), (''EAGER'', EAGER_SPECULATIVE)]"

definition exec_class_token :: "string \<Rightarrow> string" where
  "exec_class_token s = replace_char (CHR '' '') (CHR ''_'') (replace_char (CHR ''-'') (CHR ''_'') (upper (strip s)))"

definition exec_class_of_text :: "string \<Rightarrow> exec_class res" where
  "exec_class_of_text raw =
     (let t = exec_class_token raw in
      if t = [] then Inr STANDARD
      else case map_of exec_class_aliases t of
        Some c \<Rightarrow> Inr c
      | None \<Rightarrow>
          (case find (\<lambda>c. exec_class_value c = t) [STANDARD, SPECULATIVE, EAGER_SPECULATIVE] of
             Some c \<Rightarrow> Inr c
           | None \<Rightarrow> Inl (ValueError ''unknown FTE task execution class'')))"

fun exec_class_coerce :: "exec_class ref \<Rightarrow> exec_class res" where
  "exec_class_coerce (Obj c) = Inr c"
| "exec_class_coerce (Raw PNone) = Inr STANDARD"
| "exec_class_coerce (Raw v) = exec_class_of_text (py_str v)"

definition is_speculative :: "exec_class \<Rightarrow> bool" where
  "is_speculative c = (c \<in> {SPECULATIVE, EAGER_SPECULATIVE})"

text \<open>\<open>can_transition_to\<close>, its argument already coerced.\<close>

definition can_transition_to :: "exec_class \<Rightarrow> exec_class \<Rightarrow> bool" where
  "can_transition_to c target =
     (if c = STANDARD then target = STANDARD else target = c \<or> target = STANDARD)"

definition exec_class_keys :: "string list" where
  "exec_class_keys =
     [''fte_task_execution_class'', ''task_execution_class'', ''taskExecutionClass'', ''execution_class'']"

text \<open>The values the two metadata functions look at, in the order they look at them.\<close>

definition exec_class_candidates :: "(string, pyval) dict option list \<Rightarrow> pyval list" where
  "exec_class_candidates items =
     concat (map (\<lambda>m. case m of
                         None \<Rightarrow> []
                       | Some d \<Rightarrow> concat (map (\<lambda>k. case map_of d k of None \<Rightarrow> [] | Some v \<Rightarrow> [v]) exec_class_keys))
                 items)"

definition exec_class_value_set :: "pyval \<Rightarrow> bool" where
  "exec_class_value_set v = (v \<noteq> PNone \<and> v \<noteq> PStr '''')"

definition fte_task_execution_class_metadata_present :: "(string, pyval) dict option list \<Rightarrow> bool" where
  "fte_task_execution_class_metadata_present items = list_ex exec_class_value_set (exec_class_candidates items)"

definition fte_task_execution_class_from_metadata :: "(string, pyval) dict option list \<Rightarrow> exec_class res" where
  "fte_task_execution_class_from_metadata items =
     (case find exec_class_value_set (exec_class_candidates items) of
        None \<Rightarrow> Inr STANDARD
      | Some v \<Rightarrow> exec_class_coerce (Raw v))"

section \<open>Facts about execution classes\<close>

lemma can_transition_to_iff: "can_transition_to a b \<longleftrightarrow> b = a \<or> b = STANDARD"
  by (auto simp: can_transition_to_def)

lemma can_transition_to_refl [simp]: "can_transition_to a a"
  by (simp add: can_transition_to_iff)

lemma can_transition_to_trans: "can_transition_to a b \<Longrightarrow> can_transition_to b c \<Longrightarrow> can_transition_to a c"
  by (auto simp: can_transition_to_iff)

lemma not_speculative [simp]: "\<not> is_speculative c \<longleftrightarrow> c = STANDARD"
  by (cases c) (auto simp: is_speculative_def)

lemma exec_class_of_value [simp]: "exec_class_of_text (exec_class_value c) = Inr c"
  by (cases c; simp only: exec_class_value.simps; code_simp)

lemma metadata_absent_is_standard:
  assumes "\<not> fte_task_execution_class_metadata_present items"
  shows "fte_task_execution_class_from_metadata items = Inr STANDARD"
proof -
  from assms have "find exec_class_value_set (exec_class_candidates items) = None"
    by (simp add: fte_task_execution_class_metadata_present_def list_ex_iff find_None_iff)
  then show ?thesis by (simp add: fte_task_execution_class_from_metadata_def)
qed

end
