(* ===== verification/Fte_Failures.thy ===== *)
theory Fte_Failures
  imports Fte_State
begin

text \<open>
  Classification of failure payloads (\<open>src/duckdb/runners/fte/fte_failures.py\<close>): the failure
  text, the search for a field through nested failure payloads, and the decisions whether a
  failure is a user error, fatal, out of memory, and whether a retry is allowed.

  Payloads are trees here, so the source's guard against a payload that contains itself
  (\<open>nested is not payload\<close>) always holds.
\<close>

definition false_values :: "string list" where
  "false_values = [''0'', ''false'', ''no'', ''off'']"

definition true_values :: "string list" where
  "true_values = [''1'', ''true'', ''yes'', ''on'']"

lemma pyval_dict_size [termination_simp]:
  "map_of d k = Some v \<Longrightarrow> size v < Suc (size_list (\<lambda>x. Suc (size (snd x))) d)"
proof -
  assume "map_of d k = Some v"
  then have "(k, v) \<in> set d" by (rule map_of_SomeD)
  then show ?thesis by (induction d) auto
qed

definition failure_text_keys :: "string list" where
  "failure_text_keys = [''error_code'', ''errorCode'', ''code'', ''type'', ''message'', ''error'', ''exception'']"

definition some_value :: "(string, pyval) dict \<Rightarrow> string \<Rightarrow> pyval option" where
  "some_value d k = (case map_of d k of None \<Rightarrow> None | Some PNone \<Rightarrow> None | Some v \<Rightarrow> Some v)"

lemma some_value_size [termination_simp]:
  "some_value d k = Some v \<Longrightarrow> size v < Suc (size_list (\<lambda>x. Suc (size (snd x))) d)"
  by (auto simp: some_value_def split: option.splits pyval.splits intro: pyval_dict_size)

fun failure_text :: "pyval \<Rightarrow> string" where
  "failure_text PNone = ''''"
| "failure_text (PDict d) =
     join '' '' (filter (\<lambda>p. p \<noteq> [])
       (concat (map (\<lambda>k. case some_value d k of None \<Rightarrow> [] | Some v \<Rightarrow> [py_str v]) failure_text_keys)
        @ (case some_value d ''failure'' of None \<Rightarrow> [] | Some f \<Rightarrow> [failure_text f])))"
| "failure_text v = py_str v"

definition normalized_error_token :: "pyval \<Rightarrow> string" where
  "normalized_error_token v =
     replace_char (CHR '' '') (CHR ''_'') (replace_char (CHR ''-'') (CHR ''_'')
       (upper (strip (if py_truthy v then py_str v else ''''))))"

definition nested_failure_keys :: "string list" where
  "nested_failure_keys = [''failure'', ''status'', ''error'', ''error_code'', ''errorCode'']"

definition first_not_none :: "pyval list \<Rightarrow> pyval" where
  "first_not_none vs = (case find (\<lambda>v. v \<noteq> PNone) vs of None \<Rightarrow> PNone | Some v \<Rightarrow> v)"

fun failure_field :: "string list \<Rightarrow> pyval \<Rightarrow> pyval" where
  "failure_field keys (PDict d) =
     (case find (\<lambda>k. dict_has d k) keys of
        Some k \<Rightarrow> dict_get_default d k PNone
      | None \<Rightarrow>
          first_not_none
            (map (\<lambda>k. case map_of d k of None \<Rightarrow> PNone | Some nested \<Rightarrow> failure_field keys nested)
                 nested_failure_keys))"
| "failure_field keys v = PNone"

definition text_flag :: "pyval \<Rightarrow> bool option" where
  "text_flag v =
     (case v of
        PNone \<Rightarrow> None
      | PBool b \<Rightarrow> Some b
      | _ \<Rightarrow> let t = lower (strip (py_str v)) in
             if t \<in> set true_values then Some True
             else if t \<in> set false_values then Some False
             else None)"

definition failure_explicit_retryable :: "pyval \<Rightarrow> bool option" where
  "failure_explicit_retryable payload =
     text_flag (failure_field [''retryable'', ''is_retryable'', ''isRetryable''] payload)"

definition failure_error_type :: "pyval \<Rightarrow> string" where
  "failure_error_type payload =
     (let token = normalized_error_token
        (failure_field [''error_type'', ''errorType'', ''error_code_type'', ''errorCodeType'', ''type''] payload)
      in if token \<in> set [''USER_ERROR'', ''INTERNAL_ERROR'', ''EXTERNAL''] then token else '''')"

definition failure_code :: "pyval \<Rightarrow> string" where
  "failure_code payload =
     normalized_error_token (failure_field [''error_code'', ''errorCode'', ''code'', ''name''] payload)"

definition is_user_error_failure :: "pyval \<Rightarrow> bool" where
  "is_user_error_failure payload =
     (if failure_error_type payload = ''USER_ERROR'' then True
      else let code = failure_code payload in
           starts_with ''USER_ERROR'' code \<or> ends_with ''_USER_ERROR'' code)"

definition is_fatal_failure :: "pyval \<Rightarrow> bool" where
  "is_fatal_failure payload =
     (case text_flag (failure_field [''fatal'', ''is_fatal'', ''isFatal''] payload) of
        Some b \<Rightarrow> b
      | None \<Rightarrow> let code = failure_code payload in
                starts_with ''FATAL'' code \<or> ends_with ''_FATAL'' code)"

definition failure_allows_retry :: "pyval \<Rightarrow> bool \<Rightarrow> bool" where
  "failure_allows_retry payload dflt =
     (case failure_explicit_retryable payload of
        Some b \<Rightarrow> b
      | None \<Rightarrow>
          if is_user_error_failure payload \<or> is_fatal_failure payload then False else dflt)"

definition missing_output_stats_failure :: "fte_task_attempt_id \<Rightarrow> pyval" where
  "missing_output_stats_failure a =
     PDict [(''error_type'', PStr ''INTERNAL_ERROR''),
            (''error_code'', PStr ''MISSING_SPOOLING_OUTPUT_STATS''),
            (''message'', PStr (''Treating FINISHED task '' @ attempt_id_str a @
               '' as FAILED because spooling output stats are missing''))]"

definition memory_tokens :: "string list" where
  "memory_tokens = [''out_of_memory'', ''out of memory'', ''oom'', ''memory limit'', ''exceeded_local_memory'']"

definition is_memory_failure :: "pyval \<Rightarrow> bool" where
  "is_memory_failure payload =
     (let t = lower (failure_text payload) in list_ex (\<lambda>token. contains token t) memory_tokens)"

section \<open>Classification sees through wrapped failures\<close>

lemma failure_field_wrap:
  "''failure'' \<notin> set keys \<Longrightarrow> failure_field keys (PDict [(''failure'', p)]) = failure_field keys p"
proof -
  assume "''failure'' \<notin> set keys"
  then have "find (dict_has [(''failure'', p)]) keys = None"
    by (auto simp: find_None_iff dict_has_def)
  then show ?thesis
    by (simp add: nested_failure_keys_def first_not_none_def)
qed

lemma some_value_single:
  "some_value [(k, p)] k' = (if k' = k \<and> p \<noteq> PNone then Some p else None)"
  by (cases p) (auto simp: some_value_def)

lemma failure_text_wrap: "failure_text (PDict [(''failure'', p)]) = failure_text p"
proof -
  have "concat (map (\<lambda>k. case some_value [(''failure'', p)] k of None \<Rightarrow> [] | Some v \<Rightarrow> [py_str v])
          failure_text_keys) = []"
    by (simp add: some_value_single failure_text_keys_def)
  then have "failure_text (PDict [(''failure'', p)]) =
      join '' '' (filter (\<lambda>t. t \<noteq> [])
        (case some_value [(''failure'', p)] ''failure'' of None \<Rightarrow> [] | Some f \<Rightarrow> [failure_text f]))"
    by (simp only: failure_text.simps append_Nil)
  then show ?thesis
    by (simp del: failure_text.simps(2) add: some_value_single)
qed

lemma failure_class_wrap:
  "failure_explicit_retryable (PDict [(''failure'', p)]) = failure_explicit_retryable p"
  "failure_error_type (PDict [(''failure'', p)]) = failure_error_type p"
  "failure_code (PDict [(''failure'', p)]) = failure_code p"
  by (simp_all add: failure_explicit_retryable_def failure_error_type_def failure_code_def
      failure_field_wrap del: failure_field.simps)

lemma failure_decision_wrap:
  "is_user_error_failure (PDict [(''failure'', p)]) = is_user_error_failure p"
  "is_fatal_failure (PDict [(''failure'', p)]) = is_fatal_failure p"
  "is_memory_failure (PDict [(''failure'', p)]) = is_memory_failure p"
  "failure_allows_retry (PDict [(''failure'', p)]) dflt = failure_allows_retry p dflt"
  by (simp_all add: is_user_error_failure_def is_fatal_failure_def is_memory_failure_def
      failure_allows_retry_def failure_class_wrap failure_field_wrap failure_text_wrap
      del: failure_field.simps failure_text.simps cong: option.case_cong)

text \<open>
  C23. A failure reported inside any number of \<open>{"failure": ...}\<close> envelopes is classified exactly
  like the bare payload: the retry decision, for both defaults, and the recognition of user
  errors, fatal errors and memory failures do not depend on how many layers of the control plane
  have wrapped the worker's report.
\<close>

theorem failure_classification_unwraps:
  "failure_allows_retry (((\<lambda>q. PDict [(''failure'', q)]) ^^ n) p) dflt = failure_allows_retry p dflt \<and>
   is_user_error_failure (((\<lambda>q. PDict [(''failure'', q)]) ^^ n) p) = is_user_error_failure p \<and>
   is_fatal_failure (((\<lambda>q. PDict [(''failure'', q)]) ^^ n) p) = is_fatal_failure p \<and>
   is_memory_failure (((\<lambda>q. PDict [(''failure'', q)]) ^^ n) p) = is_memory_failure p"
  by (induction n) (simp_all add: failure_decision_wrap)

end
