(* ===== verification/Split_Assigner.thy ===== *)
theory Split_Assigner
  imports Fte_Types
begin

text \<open>
  The common part of \<open>src/duckdb/runners/fte/fte_split_assigner.py\<close>: partition updates, assignment
  results, the parsing of inputs into splits, and the contract between the split assigners and the
  fragment execution that applies their results (locale \<open>split_assigner\<close>).
\<close>

record node_requirements =
  nr_catalog :: "string option"
  nr_host :: "string option"
  nr_remotely_accessible :: bool

record partition_info =
  info_partition_id :: int
  info_node_requirements :: "node_requirements option"

record partition_update =
  upd_partition_id :: int
  upd_source_node_id :: string
  upd_splits :: "fte_split list"
  upd_no_more_splits :: bool
  upd_ready_for_scheduling :: bool

record assignment_result =
  partitions_added :: "partition_info list"
  partition_updates :: "partition_update list"
  sealed_partitions :: "int list"
  no_more_partitions :: bool

definition mk_partition_update ::
  "int \<Rightarrow> string \<Rightarrow> fte_split list \<Rightarrow> bool \<Rightarrow> bool \<Rightarrow> partition_update res" where
  "mk_partition_update p src splits no_more ready =
     (if ready \<and> splits = []
      then Inl (ValueError ''partition update with empty splits marked as ready for scheduling'')
      else Inr \<lparr>upd_partition_id = p, upd_source_node_id = src, upd_splits = splits,
                upd_no_more_splits = no_more, upd_ready_for_scheduling = ready\<rparr>)"

definition empty_result :: assignment_result where
  "empty_result = \<lparr>partitions_added = [], partition_updates = [], sealed_partitions = [],
                   no_more_partitions = False\<rparr>"

definition base_finish :: assignment_result where
  "base_finish = empty_result\<lparr>no_more_partitions := True\<rparr>"

definition normalize_sources :: "string list option \<Rightarrow> string list" where
  "normalize_sources srcs = remdups (case srcs of None \<Rightarrow> [] | Some xs \<Rightarrow> xs)"

fun splits_from_inputs ::
  "string \<Rightarrow> (string, pyval) dict list \<Rightarrow> int \<Rightarrow> (fte_split list \<times> int) res" where
  "splits_from_inputs src [] next_seq = Inr ([], next_seq)"
| "splits_from_inputs src (item # items) next_seq =
     bindE (split_from_dict src (dict_setdefault ''sequence_id'' (PInt next_seq) item)) (\<lambda>sp.
     bindE (splits_from_inputs src items (max next_seq (sequence_id sp + 1))) (\<lambda>(rest, n).
     Inr (sp # rest, n)))"

definition split_size_bytes :: "fte_split \<Rightarrow> int \<Rightarrow> int" where
  "split_size_bytes sp standard = (case size_bytes sp of Some n \<Rightarrow> n | None \<Rightarrow> standard)"

definition append_update ::
  "int \<Rightarrow> string \<Rightarrow> fte_split list \<Rightarrow> bool \<Rightarrow> bool \<Rightarrow> bool \<Rightarrow> (assignment_result, unit) op" where
  "append_update p src splits no_more ready emit_empty r =
     (if \<not> emit_empty \<and> splits = [] \<and> \<not> no_more then (Inr (), r)
      else case mk_partition_update p src splits no_more ready of
        Inl e \<Rightarrow> (Inl e, r)
      | Inr u \<Rightarrow> (Inr (), r\<lparr>partition_updates := partition_updates r @ [u]\<rparr>))"

definition append_seal :: "int \<Rightarrow> assignment_result \<Rightarrow> assignment_result" where
  "append_seal p r =
     (if p \<in> set (sealed_partitions r) then r
      else r\<lparr>sealed_partitions := sealed_partitions r @ [p]\<rparr>)"

section \<open>What a sequence of updates delivers\<close>

text \<open>The splits of a source that a sequence of updates brings to a partition, in order.\<close>

definition delivered :: "partition_update list \<Rightarrow> int \<Rightarrow> string \<Rightarrow> fte_split list" where
  "delivered us p src =
     concat (map upd_splits (filter (\<lambda>u. upd_partition_id u = p \<and> upd_source_node_id u = src) us))"

definition source_closed :: "partition_update list \<Rightarrow> int \<Rightarrow> string \<Rightarrow> bool" where
  "source_closed us p src =
     list_ex (\<lambda>u. upd_partition_id u = p \<and> upd_source_node_id u = src \<and> upd_no_more_splits u) us"

text \<open>
  No update brings splits of a source to a partition after an earlier one declared that source
  complete there.
\<close>

fun orderly :: "partition_update list \<Rightarrow> bool" where
  "orderly [] = True"
| "orderly (u # us) =
     ((upd_no_more_splits u \<longrightarrow> delivered us (upd_partition_id u) (upd_source_node_id u) = []) \<and> orderly us)"

definition update_ok :: "partition_update \<Rightarrow> bool" where
  "update_ok u = (upd_ready_for_scheduling u \<longrightarrow> upd_splits u \<noteq> [])"

text \<open>The partition ids a result mentions are announced before or by the result itself.\<close>

definition result_refers :: "int set \<Rightarrow> assignment_result \<Rightarrow> bool" where
  "result_refers known r =
     (let ids = known \<union> info_partition_id ` set (partitions_added r) in
      upd_partition_id ` set (partition_updates r) \<subseteq> ids \<and> set (sealed_partitions r) \<subseteq> ids)"

lemma delivered_Nil [simp]: "delivered [] p src = []"
  by (simp add: delivered_def)

lemma delivered_Cons [simp]:
  "delivered (u # us) p src =
     (if upd_partition_id u = p \<and> upd_source_node_id u = src then upd_splits u else []) @ delivered us p src"
  by (simp add: delivered_def)

lemma delivered_append [simp]: "delivered (us @ vs) p src = delivered us p src @ delivered vs p src"
  by (simp add: delivered_def)

lemma source_closed_Nil [simp]: "\<not> source_closed [] p src"
  by (simp add: source_closed_def)

lemma source_closed_Cons [simp]:
  "source_closed (u # us) p src =
     (upd_partition_id u = p \<and> upd_source_node_id u = src \<and> upd_no_more_splits u \<or> source_closed us p src)"
  by (simp add: source_closed_def)

lemma source_closed_append [simp]:
  "source_closed (us @ vs) p src = (source_closed us p src \<or> source_closed vs p src)"
  by (simp add: source_closed_def)

lemma source_closed_iff:
  "source_closed us p src \<longleftrightarrow>
   (\<exists>u\<in>set us. upd_no_more_splits u \<and> upd_partition_id u = p \<and> upd_source_node_id u = src)"
  by (auto simp: source_closed_def list_ex_iff)

lemma orderly_append:
  "orderly (us @ vs) \<longleftrightarrow>
   orderly us \<and> orderly vs \<and> (\<forall>p src. source_closed us p src \<longrightarrow> delivered vs p src = [])"
  by (induction us) auto

lemma delivered_no_splits: "(\<And>u. u \<in> set us \<Longrightarrow> upd_splits u = []) \<Longrightarrow> delivered us p src = []"
  by (auto simp: delivered_def)

lemma orderly_no_splits: "(\<And>u. u \<in> set us \<Longrightarrow> upd_splits u = []) \<Longrightarrow> orderly us"
  by (induction us) (auto simp: delivered_no_splits)

text \<open>A call of an assigner, observed together with the splits its inputs denote.\<close>

definition observed_assign ::
  "('s \<Rightarrow> (string, int) dict) \<Rightarrow> (string \<Rightarrow> (string, pyval) dict list \<Rightarrow> bool \<Rightarrow> ('s, assignment_result) op) \<Rightarrow>
   string \<times> (string, pyval) dict list \<times> bool \<Rightarrow> ('s, (string \<times> fte_split list) \<times> assignment_result) op" where
  "observed_assign seqs assign = (\<lambda>(src, inputs, no_more) s.
     case splits_from_inputs src inputs (dict_get_default (seqs s) src 0) of
       Inl e \<Rightarrow> (Inl e, s)
     | Inr (sps, _) \<Rightarrow> bindS (assign src inputs no_more) (\<lambda>r. retS ((src, sps), r)) s)"

definition inputs_of :: "((string \<times> fte_split list) \<times> assignment_result) list \<Rightarrow> string \<Rightarrow> fte_split list" where
  "inputs_of obs src = concat (map (\<lambda>((s, sps), r). if s = src then sps else []) obs)"

lemma inputs_of_simps [simp]:
  "inputs_of [] = (\<lambda>_. [])"
  "inputs_of (obs @ [((src, sps), r)]) = (inputs_of obs)(src := inputs_of obs src @ sps)"
  by (auto simp: inputs_of_def fun_eq_iff)

section \<open>The contract of a split assigner\<close>

text \<open>The outcomes of a list of calls of \<open>assign\<close>, returning or raising, and the partition ids that the returned results announce.\<close>

fun call_all ::
  "(string \<Rightarrow> (string, pyval) dict list \<Rightarrow> bool \<Rightarrow> ('s, assignment_result) op) \<Rightarrow>
   (string \<times> (string, pyval) dict list \<times> bool) list \<Rightarrow> 's \<Rightarrow> assignment_result res list \<times> 's" where
  "call_all assign [] s = ([], s)"
| "call_all assign ((src, inputs, no_more) # calls) s =
     (let (out, s1) = assign src inputs no_more s; (outs, s2) = call_all assign calls s1 in (out # outs, s2))"

definition announced_in :: "assignment_result res list \<Rightarrow> int set" where
  "announced_in outs = {info_partition_id info | info r. Inr r \<in> set outs \<and> info \<in> set (partitions_added r)}"

lemma announced_in_simps [simp]:
  "announced_in [] = {}"
  "announced_in (Inr r # outs) = info_partition_id ` set (partitions_added r) \<union> announced_in outs"
  "announced_in (outs @ outs') = announced_in outs \<union> announced_in outs'"
  by (auto simp: announced_in_def)

text \<open>
  \<open>known\<close> are the partition ids the assigner takes to be announced in a state. Whatever the inputs, a
  result that \<open>assign\<close> returns mentions known partitions and new ones that it announces itself, marks no empty update as ready
  and never brings splits of a source to a partition after declaring that source complete there. A call that raises loses
  its result, and with it the partitions it made known: what an assigner knows is what it announced as long as its calls return.
\<close>

locale split_assigner =
  fixes assign :: "string \<Rightarrow> (string, pyval) dict list \<Rightarrow> bool \<Rightarrow> ('s, assignment_result) op"
    and known :: "'s \<Rightarrow> int set"
    and inv :: "'s \<Rightarrow> bool"
  assumes assign_inv: "inv s \<Longrightarrow> inv (snd (assign src inputs no_more s))"
    and assign_orderly: "inv s \<Longrightarrow> assign src inputs no_more s = (Inr r, t) \<Longrightarrow> orderly (partition_updates r)"
    and assign_update_ok:
      "inv s \<Longrightarrow> assign src inputs no_more s = (Inr r, t) \<Longrightarrow> list_all update_ok (partition_updates r)"
    and assign_refers: "inv s \<Longrightarrow> assign src inputs no_more s = (Inr r, t) \<Longrightarrow> result_refers (known s) r"
    and assign_known:
      "inv s \<Longrightarrow> assign src inputs no_more s = (Inr r, t) \<Longrightarrow>
       known t = known s \<union> info_partition_id ` set (partitions_added r)"
begin

lemma calls_known:
  assumes "inv s" and "call_all assign calls s = (outs, t)"
  shows "inv t" and "\<forall>out\<in>set outs. \<not> isl out \<Longrightarrow> known t = known s \<union> announced_in outs"
proof -
  have "inv t \<and> ((\<forall>out\<in>set outs. \<not> isl out) \<longrightarrow> known t = known s \<union> announced_in outs)"
    using assms
  proof (induction calls arbitrary: s outs)
    case (Cons call calls)
    obtain src inputs no_more where call: "call = (src, inputs, no_more)" by (cases call) auto
    obtain out s1 where one: "assign src inputs no_more s = (out, s1)" by fastforce
    obtain outs' where rest: "call_all assign calls s1 = (outs', t)" and outs: "outs = out # outs'"
      using Cons.prems(2) by (auto simp: call one Let_def split: prod.splits)
    have "inv s1" using assign_inv [OF Cons.prems(1), of src inputs no_more] one by simp
    note IH = Cons.IH [OF this rest]
    show ?case
    proof (cases out)
      case (Inr r)
      then show ?thesis using IH assign_known [OF Cons.prems(1)] one by (auto simp: outs)
    qed (use IH in \<open>simp add: outs\<close>)
  qed simp
  then show "inv t" and "\<forall>out\<in>set outs. \<not> isl out \<Longrightarrow> known t = known s \<union> announced_in outs" by blast+
qed

lemma calls_refer:
  assumes "inv s" and "known s = {}" and "call_all assign calls s = (outs, t)" and "\<forall>out\<in>set outs. \<not> isl out"
    and "assign src inputs no_more t = (Inr r, u)"
  shows "result_refers (announced_in outs) r"
  using calls_known [OF assms(1,3)] assms(2,4) assign_refers [OF _ assms(5)] by simp

end

section \<open>Appending updates\<close>

definition push_update ::
  "int \<Rightarrow> string \<Rightarrow> fte_split list \<Rightarrow> bool \<Rightarrow> bool \<Rightarrow> bool \<Rightarrow> assignment_result \<Rightarrow> assignment_result" where
  "push_update p src splits no_more ready emit_empty r =
     (if \<not> emit_empty \<and> splits = [] \<and> \<not> no_more then r
      else r\<lparr>partition_updates := partition_updates r @
             [\<lparr>upd_partition_id = p, upd_source_node_id = src, upd_splits = splits,
               upd_no_more_splits = no_more, upd_ready_for_scheduling = ready\<rparr>]\<rparr>)"

lemma append_update_ok:
  "(ready \<Longrightarrow> splits \<noteq> []) \<Longrightarrow>
   append_update p src splits no_more ready emit_empty r =
     (Inr (), push_update p src splits no_more ready emit_empty r)"
  by (auto simp: append_update_def push_update_def mk_partition_update_def)

lemma append_update_not_ready [simp]:
  "append_update p src splits no_more False emit_empty r =
     (Inr (), push_update p src splits no_more False emit_empty r)"
  by (simp add: append_update_ok)

lemma append_update_ready [simp]:
  "append_update p src (x # xs) no_more ready emit_empty r =
     (Inr (), push_update p src (x # xs) no_more ready emit_empty r)"
  by (simp add: append_update_ok)

lemma empty_result_fields [simp]:
  "partitions_added empty_result = []" "partition_updates empty_result = []"
  "sealed_partitions empty_result = []" "no_more_partitions empty_result = False"
  by (simp_all add: empty_result_def)

lemma push_update_fields [simp]:
  "partitions_added (push_update p src splits no_more ready emit_empty r) = partitions_added r"
  "sealed_partitions (push_update p src splits no_more ready emit_empty r) = sealed_partitions r"
  "no_more_partitions (push_update p src splits no_more ready emit_empty r) = no_more_partitions r"
  by (simp_all add: push_update_def)

lemma append_seal_fields [simp]:
  "partitions_added (append_seal p r) = partitions_added r"
  "partition_updates (append_seal p r) = partition_updates r"
  "no_more_partitions (append_seal p r) = no_more_partitions r"
  "set (sealed_partitions (append_seal p r)) = insert p (set (sealed_partitions r))"
  by (auto simp: append_seal_def)

abbreviation upd :: "int \<Rightarrow> string \<Rightarrow> fte_split list \<Rightarrow> bool \<Rightarrow> bool \<Rightarrow> partition_update" where
  "upd p src splits no_more ready \<equiv>
     \<lparr>upd_partition_id = p, upd_source_node_id = src, upd_splits = splits,
      upd_no_more_splits = no_more, upd_ready_for_scheduling = ready\<rparr>"

definition add_updates :: "partition_update list \<Rightarrow> assignment_result \<Rightarrow> assignment_result" where
  "add_updates us r = r\<lparr>partition_updates := partition_updates r @ us\<rparr>"

lemma add_updates_fields [simp]:
  "partition_updates (add_updates us r) = partition_updates r @ us"
  "partitions_added (add_updates us r) = partitions_added r"
  "sealed_partitions (add_updates us r) = sealed_partitions r"
  "no_more_partitions (add_updates us r) = no_more_partitions r"
  by (simp_all add: add_updates_def)

lemma add_updates_simps [simp]:
  "add_updates [] r = r" "add_updates vs (add_updates us r) = add_updates (us @ vs) r"
  by (simp_all add: add_updates_def)

lemma delivered_other: "(\<And>u. u \<in> set us \<Longrightarrow> upd_partition_id u \<noteq> p) \<Longrightarrow> delivered us p src = []"
  by (auto simp: delivered_def)

text \<open>One update per source of a list, to one partition.\<close>

lemma delivered_per_source:
  "distinct xs \<Longrightarrow>
   delivered (map (\<lambda>x. upd q x (f x) (g x) rd) xs) p src = (if p = q \<and> src \<in> set xs then f src else [])"
  by (induction xs) auto

lemma source_closed_per_source:
  "source_closed (map (\<lambda>x. upd q x (f x) (g x) rd) xs) p src \<longleftrightarrow> p = q \<and> src \<in> set xs \<and> g src"
  by (induction xs) auto

lemma orderly_per_partition:
  "distinct (map p xs) \<Longrightarrow> orderly (map (\<lambda>x. upd (p x) src sps nm rd) xs)"
proof (induction xs)
  case (Cons x xs)
  have "delivered (map (\<lambda>x. upd (p x) src sps nm rd) xs) (p x) src = []"
    using Cons.prems by (intro delivered_other) (auto simp: image_iff)
  then show ?case using Cons by (cases nm) simp_all
qed simp

lemma delivered_closing [simp]: "delivered (map (\<lambda>x. upd (q x) (f x) [] nm rd) xs) p src = []"
  by (auto intro!: delivered_no_splits)

lemma orderly_closing [simp]: "orderly (map (\<lambda>x. upd (q x) (f x) [] nm rd) xs)"
  by (auto intro!: orderly_no_splits)

lemma splits_from_inputs_length:
  "splits_from_inputs src items n = Inr (sps, m) \<Longrightarrow> length sps = length items"
  by (induction items arbitrary: n sps m) (auto simp: res_simps split: prod.splits)

lemma splits_from_inputs_mono: "splits_from_inputs src items n = Inr (sps, m) \<Longrightarrow> n \<le> m"
  by (induction items arbitrary: n sps m) (fastforce simp: res_simps split: prod.splits)+

text \<open>A split without an explicit sequence id gets one that no earlier split of the source had.\<close>

lemma splits_from_inputs_bound:
  "splits_from_inputs src items n = Inr (sps, m) \<Longrightarrow> sp \<in> set sps \<Longrightarrow> sequence_id sp < m"
proof (induction items arbitrary: n sps m)
  case (Cons item items)
  then obtain s0 rest where s0: "split_from_dict src (dict_setdefault ''sequence_id'' (PInt n) item) = Inr s0"
    and rest: "splits_from_inputs src items (max n (sequence_id s0 + 1)) = Inr (rest, m)"
    and sps: "sps = s0 # rest"
    by (auto simp: res_simps split: prod.splits)
  have "sequence_id s0 < m" using splits_from_inputs_mono [OF rest] by simp
  then show ?case using Cons.IH [OF rest] Cons.prems(2) sps by auto
qed simp

end
