(* ===== verification/Update_Batch.thy ===== *)
theory Update_Batch
  imports Split_Assigner
begin

text \<open>
  How a fragment execution groups split updates: \<open>_coalesce_partition_updates\<close> and
  \<open>_split_update_batches\<close> of \<open>src/duckdb/runners/fte/fte_execution.py\<close>, and the payload estimate
  and limits of \<open>src/duckdb/runners/fte/fte_update_batch.py\<close>. The client side of the split
  assigner's contract is proved here.
\<close>

section \<open>Payload estimate and limits\<close>

text \<open>Length of a string in UTF-8; the model's characters have code points below 256.\<close>

definition utf8_length :: "string \<Rightarrow> int" where
  "utf8_length s = (\<Sum>c\<leftarrow>s. if code_of c < 128 then 1 else 2)"

fun estimated_payload_bytes :: "pyval \<Rightarrow> int"
  and estimated_list_bytes :: "pyval list \<Rightarrow> int"
  and estimated_items_bytes :: "(string \<times> pyval) list \<Rightarrow> int" where
  "estimated_payload_bytes PNone = 1"
| "estimated_payload_bytes (PBytes b) = int (length b)"
| "estimated_payload_bytes (PStr s) = utf8_length s"
| "estimated_payload_bytes (PBool b) = 1"
| "estimated_payload_bytes (PInt n) = 8"
| "estimated_payload_bytes (PDict d) = estimated_items_bytes d"
| "estimated_payload_bytes (PList xs) = estimated_list_bytes xs"
| "estimated_payload_bytes (PTuple xs) = estimated_list_bytes xs"
| "estimated_payload_bytes (PSet xs) = estimated_list_bytes xs"
| "estimated_payload_bytes (PObj c r) = utf8_length (py_repr (PObj c r))"
| "estimated_list_bytes [] = 0"
| "estimated_list_bytes (x # xs) = estimated_payload_bytes x + estimated_list_bytes xs"
| "estimated_items_bytes [] = 0"
| "estimated_items_bytes ((k, v) # kvs) =
     utf8_length k + estimated_payload_bytes v + estimated_items_bytes kvs"

text \<open>An integer limit read from the environment: malformed text gives the default, the rest is at least 1.\<close>

definition env_limit :: "int \<Rightarrow> string option \<Rightarrow> int" where
  "env_limit fallback raw =
     (case raw of
        None \<Rightarrow> max 1 fallback
      | Some t \<Rightarrow> (case parse_int t of None \<Rightarrow> fallback | Some n \<Rightarrow> max 1 n))"

definition fte_task_update_max_splits :: "string option \<Rightarrow> int" where
  "fte_task_update_max_splits raw = env_limit 256 raw"

definition fte_task_update_max_payload_bytes :: "string option \<Rightarrow> int" where
  "fte_task_update_max_payload_bytes raw = env_limit (8 * 1024 * 1024) raw"

section \<open>Batches of splits\<close>

definition split_bytes :: "fte_split \<Rightarrow> int" where
  "split_bytes sp = max 1 (estimated_payload_bytes (PDict (split_to_dict sp)))"

text \<open>The loop, with its three variables \<open>batches\<close>, \<open>current\<close> and \<open>current_bytes\<close>.\<close>

fun batch_loop ::
  "int \<Rightarrow> int \<Rightarrow> fte_split list \<Rightarrow> fte_split list list \<Rightarrow> fte_split list \<Rightarrow> int \<Rightarrow> fte_split list list" where
  "batch_loop max_splits max_bytes [] batches current current_bytes =
     (if current = [] then batches else batches @ [current])"
| "batch_loop max_splits max_bytes (sp # sps) batches current current_bytes =
     (let b = split_bytes sp in
      if current \<noteq> [] \<and> (max_splits \<le> int (length current) \<or> max_bytes < current_bytes + b)
      then batch_loop max_splits max_bytes sps (batches @ [current]) [sp] b
      else batch_loop max_splits max_bytes sps batches (current @ [sp]) (current_bytes + b))"

definition split_update_batches :: "int \<Rightarrow> int \<Rightarrow> fte_split list \<Rightarrow> fte_split list list" where
  "split_update_batches max_splits max_bytes splits = batch_loop max_splits max_bytes splits [] [] 0"

section \<open>Coalescing of updates\<close>

definition coalesce_pair :: "partition_update \<Rightarrow> partition_update \<Rightarrow> partition_update res" where
  "coalesce_pair existing update =
     (if upd_no_more_splits existing \<and> upd_splits update \<noteq> []
      then Inl (RuntimeError ''received splits after no_more_splits'')
      else mk_partition_update (upd_partition_id existing) (upd_source_node_id existing)
             (upd_splits existing @ upd_splits update)
             (upd_no_more_splits existing \<or> upd_no_more_splits update)
             (upd_ready_for_scheduling existing \<or> upd_ready_for_scheduling update))"

fun coalesce_into ::
  "(int \<times> string, partition_update) dict \<Rightarrow> partition_update list \<Rightarrow> (int \<times> string, partition_update) dict res" where
  "coalesce_into d [] = Inr d"
| "coalesce_into d (u # us) =
     (let key = (upd_partition_id u, upd_source_node_id u) in
      case dict_get d key of
        None \<Rightarrow> coalesce_into (dict_set key u d) us
      | Some existing \<Rightarrow>
          bindE (coalesce_pair existing u) (\<lambda>merged. coalesce_into (dict_set key merged d) us))"

definition coalesce_partition_updates :: "partition_update list \<Rightarrow> partition_update list res" where
  "coalesce_partition_updates us = bindE (coalesce_into [] us) (\<lambda>d. Inr (dict_values d))"

section \<open>Batches: nothing lost, nothing reordered, limits kept\<close>

definition batch_bytes :: "fte_split list \<Rightarrow> int" where
  "batch_bytes b = (\<Sum>sp\<leftarrow>b. split_bytes sp)"

definition batch_fits :: "int \<Rightarrow> int \<Rightarrow> fte_split list \<Rightarrow> bool" where
  "batch_fits max_splits max_bytes b =
     (b \<noteq> [] \<and> int (length b) \<le> max_splits \<and> (batch_bytes b \<le> max_bytes \<or> length b = 1))"

text \<open>Neighbouring batches could not have been joined at their border.\<close>

fun batches_greedy :: "int \<Rightarrow> int \<Rightarrow> fte_split list list \<Rightarrow> bool" where
  "batches_greedy max_splits max_bytes (b # c # bs) =
     ((max_splits \<le> int (length b) \<or> max_bytes < batch_bytes b + split_bytes (hd c)) \<and>
      batches_greedy max_splits max_bytes (c # bs))"
| "batches_greedy max_splits max_bytes bs = True"

lemma batch_bytes_append [simp]: "batch_bytes (b @ c) = batch_bytes b + batch_bytes c"
  by (simp add: batch_bytes_def)

lemma batch_bytes_single [simp]: "batch_bytes [] = 0" "batch_bytes [sp] = split_bytes sp"
  by (simp_all add: batch_bytes_def)

lemma batches_greedy_snoc:
  "batches_greedy m k (bs @ [b, c]) \<longleftrightarrow>
   batches_greedy m k (bs @ [b]) \<and> (m \<le> int (length b) \<or> k < batch_bytes b + split_bytes (hd c))"
proof (induction bs)
  case (Cons a bs)
  then show ?case by (cases bs) auto
qed simp

lemma batches_greedy_hd_cong:
  "hd b = hd c \<Longrightarrow> batches_greedy m k (bs @ [b]) = batches_greedy m k (bs @ [c])"
proof (induction bs)
  case (Cons a bs)
  then show ?case by (cases bs) auto
qed simp

lemma batch_loop_correct:
  assumes "1 \<le> m" and "list_all (batch_fits m k) bs" and "cur \<noteq> [] \<Longrightarrow> batch_fits m k cur"
    and "cur_bytes = batch_bytes cur" and "cur \<noteq> [] \<Longrightarrow> batches_greedy m k (bs @ [cur])"
    and "cur = [] \<Longrightarrow> bs = []"
  shows "concat (batch_loop m k sps bs cur cur_bytes) = concat bs @ cur @ sps \<and>
         list_all (batch_fits m k) (batch_loop m k sps bs cur cur_bytes) \<and>
         batches_greedy m k (batch_loop m k sps bs cur cur_bytes)"
  using assms
proof (induction sps arbitrary: bs cur cur_bytes)
  case (Cons sp sps)
  show ?case
  proof (cases "cur \<noteq> [] \<and> (m \<le> int (length cur) \<or> k < cur_bytes + split_bytes sp)")
    case True
    have "concat (batch_loop m k sps (bs @ [cur]) [sp] (split_bytes sp)) = concat (bs @ [cur]) @ [sp] @ sps \<and>
          list_all (batch_fits m k) (batch_loop m k sps (bs @ [cur]) [sp] (split_bytes sp)) \<and>
          batches_greedy m k (batch_loop m k sps (bs @ [cur]) [sp] (split_bytes sp))"
      using Cons.prems True
      by (intro Cons.IH) (auto simp: batch_fits_def batches_greedy_snoc)
    then show ?thesis using True by (simp add: Let_def)
  next
    case False
    have "cur @ [sp] \<noteq> [] \<Longrightarrow> batches_greedy m k (bs @ [cur @ [sp]])"
      using Cons.prems(5,6) batches_greedy_hd_cong [of cur "cur @ [sp]" m k bs] by (cases "cur = []") auto
    moreover have "batch_fits m k (cur @ [sp])"
      using Cons.prems(1,4) False by (cases "cur = []") (auto simp: batch_fits_def)
    ultimately have "concat (batch_loop m k sps bs (cur @ [sp]) (cur_bytes + split_bytes sp)) = concat bs @ (cur @ [sp]) @ sps \<and>
          list_all (batch_fits m k) (batch_loop m k sps bs (cur @ [sp]) (cur_bytes + split_bytes sp)) \<and>
          batches_greedy m k (batch_loop m k sps bs (cur @ [sp]) (cur_bytes + split_bytes sp))"
      using Cons.prems by (intro Cons.IH) auto
    then show ?thesis using False by (auto simp: Let_def)
  qed
qed simp

lemma env_limit_pos: "1 \<le> fallback \<Longrightarrow> 1 \<le> env_limit fallback raw"
  by (auto simp: env_limit_def split: option.splits)

text \<open>
  C19. Whatever the two limits in the environment say, the batches of an update contain exactly its
  splits in their order; every batch is non-empty, has at most the configured number of splits, and
  stays within the payload limit unless it is a single split that alone exceeds it; and no batch is
  closed early: each one had reached the split limit, or the first split of the next batch would not
  have fitted.
\<close>

theorem split_update_batches_correct:
  "let m = fte_task_update_max_splits env_splits; k = fte_task_update_max_payload_bytes env_bytes;
       bs = split_update_batches m k splits in
   concat bs = splits \<and> list_all (batch_fits m k) bs \<and> batches_greedy m k bs"
proof -
  have "1 \<le> fte_task_update_max_splits env_splits"
    by (simp add: fte_task_update_max_splits_def env_limit_pos)
  then show ?thesis
    using batch_loop_correct [of "fte_task_update_max_splits env_splits" _ "[]" "[]" 0]
    by (simp add: Let_def split_update_batches_def)
qed

section \<open>Coalescing: one update per partition and source, same deliveries\<close>

definition source_ready :: "partition_update list \<Rightarrow> int \<Rightarrow> string \<Rightarrow> bool" where
  "source_ready us p src =
     list_ex (\<lambda>u. upd_partition_id u = p \<and> upd_source_node_id u = src \<and> upd_ready_for_scheduling u) us"

lemma source_ready_simps [simp]:
  "\<not> source_ready [] p src"
  "source_ready (us @ [u]) p src =
     (source_ready us p src \<or> upd_partition_id u = p \<and> upd_source_node_id u = src \<and> upd_ready_for_scheduling u)"
  by (auto simp: source_ready_def)

text \<open>What the dictionary of the loop holds for a partition and source after the updates \<open>ps\<close>.\<close>

definition entry_ok :: "partition_update list \<Rightarrow> int \<Rightarrow> string \<Rightarrow> partition_update option \<Rightarrow> bool" where
  "entry_ok ps p src entry =
     (case entry of
        None \<Rightarrow> \<not> (\<exists>u\<in>set ps. upd_partition_id u = p \<and> upd_source_node_id u = src)
      | Some u \<Rightarrow>
          upd_partition_id u = p \<and> upd_source_node_id u = src \<and>
          upd_splits u = delivered ps p src \<and> upd_no_more_splits u = source_closed ps p src \<and>
          upd_ready_for_scheduling u = source_ready ps p src \<and> update_ok u)"

definition coalesced :: "partition_update list \<Rightarrow> (int \<times> string, partition_update) dict \<Rightarrow> bool" where
  "coalesced ps d = (wf_dict d \<and> (\<forall>p src. entry_ok ps p src (map_of d (p, src))))"

lemma absent_key:
  assumes "entry_ok ps p src None"
  shows "delivered ps p src = []" "\<not> source_closed ps p src" "\<not> source_ready ps p src"
  using assms by (auto simp: entry_ok_def delivered_def source_closed_def source_ready_def list_ex_iff)

lemma entry_ok_other:
  "(p, src) \<noteq> (upd_partition_id u, upd_source_node_id u) \<Longrightarrow> entry_ok (ps @ [u]) p src e = entry_ok ps p src e"
  by (auto simp: entry_ok_def split: option.splits)

lemma entry_ok_new:
  assumes "entry_ok ps (upd_partition_id u) (upd_source_node_id u) None" and "update_ok u"
  shows "entry_ok (ps @ [u]) (upd_partition_id u) (upd_source_node_id u) (Some u)"
  using absent_key [OF assms(1)] assms(2) by (simp add: entry_ok_def)

lemma entry_ok_merge:
  assumes "entry_ok ps (upd_partition_id u) (upd_source_node_id u) (Some v)" and "coalesce_pair v u = Inr w"
  shows "entry_ok (ps @ [u]) (upd_partition_id u) (upd_source_node_id u) (Some w)"
proof -
  have "w = \<lparr>upd_partition_id = upd_partition_id v, upd_source_node_id = upd_source_node_id v,
             upd_splits = upd_splits v @ upd_splits u,
             upd_no_more_splits = upd_no_more_splits v \<or> upd_no_more_splits u,
             upd_ready_for_scheduling = upd_ready_for_scheduling v \<or> upd_ready_for_scheduling u\<rparr>"
    and "(upd_ready_for_scheduling v \<or> upd_ready_for_scheduling u) \<longrightarrow> upd_splits v @ upd_splits u \<noteq> []"
    using assms(2) by (auto simp: coalesce_pair_def mk_partition_update_def split: if_splits)
  then show ?thesis using assms(1) by (simp add: entry_ok_def update_ok_def)
qed

lemma coalesced_Nil [simp]: "coalesced [] []"
  by (simp add: coalesced_def entry_ok_def)

lemma coalesced_set:
  assumes "coalesced ps d"
    and "entry_ok (ps @ [u]) (upd_partition_id u) (upd_source_node_id u) (Some w)"
  shows "coalesced (ps @ [u]) (dict_set (upd_partition_id u, upd_source_node_id u) w d)"
  using assms by (simp add: coalesced_def entry_ok_other wf_dict_set)

lemma coalesce_pair_ok:
  assumes "entry_ok ps (upd_partition_id u) (upd_source_node_id u) (Some v)" and "update_ok u"
  shows "(\<exists>w. coalesce_pair v u = Inr w) \<longleftrightarrow>
         (source_closed ps (upd_partition_id u) (upd_source_node_id u) \<longrightarrow> upd_splits u = [])"
  using assms by (auto simp: entry_ok_def coalesce_pair_def mk_partition_update_def update_ok_def)

lemma coalesce_into_correct:
  assumes "coalesced ps d" and "list_all update_ok us" and "orderly ps"
  shows "(\<exists>d'. coalesce_into d us = Inr d') \<longleftrightarrow> orderly (ps @ us)"
    and "coalesce_into d us = Inr d' \<Longrightarrow> coalesced (ps @ us) d'"
proof -
  have "((\<exists>d'. coalesce_into d us = Inr d') \<longleftrightarrow> orderly (ps @ us)) \<and>
        (\<forall>d'. coalesce_into d us = Inr d' \<longrightarrow> coalesced (ps @ us) d')"
    using assms
  proof (induction us arbitrary: ps d)
    case (Cons u us)
    let ?p = "upd_partition_id u" and ?s = "upd_source_node_id u"
    have split_app: "ps @ u # us = (ps @ [u]) @ us" by simp
    have ord1: "orderly (ps @ [u]) \<longleftrightarrow> (source_closed ps ?p ?s \<longrightarrow> upd_splits u = [])"
      using Cons.prems(3) by (auto simp: orderly_append)
    have entry: "entry_ok ps ?p ?s (map_of d (?p, ?s))" using Cons.prems(1) by (simp add: coalesced_def)
    have u: "update_ok u" and us: "list_all update_ok us" using Cons.prems(2) by auto
    show ?case
    proof (cases "map_of d (?p, ?s)")
      case None
      note e = entry [unfolded None]
      have o: "orderly (ps @ [u])" using ord1 absent_key(2) [OF e] by simp
      show ?thesis
        using Cons.IH [OF coalesced_set [OF Cons.prems(1) entry_ok_new [OF e u]] us o] None by (simp add: Let_def)
    next
      case (Some v)
      note e = entry [unfolded Some]
      show ?thesis
      proof (cases "coalesce_pair v u")
        case (Inl err)
        then have "\<not> orderly (ps @ [u])" using coalesce_pair_ok [OF e u] ord1 by simp
        then have "\<not> orderly (ps @ u # us)" unfolding split_app by (simp only: orderly_append simp_thms)
        then show ?thesis using Some Inl by (simp add: Let_def)
      next
        case (Inr w)
        then have o: "orderly (ps @ [u])" using coalesce_pair_ok [OF e u] ord1 by simp
        show ?thesis
          using Cons.IH [OF coalesced_set [OF Cons.prems(1) entry_ok_merge [OF e Inr]] us o] Some Inr
          by (simp add: Let_def)
      qed
    qed
  qed simp
  then show "(\<exists>d'. coalesce_into d us = Inr d') \<longleftrightarrow> orderly (ps @ us)"
    and "coalesce_into d us = Inr d' \<Longrightarrow> coalesced (ps @ us) d'" by blast+
qed

lemma delivered_dict_values:
  assumes "wf_dict d" and "\<And>k u. (k, u) \<in> set d \<Longrightarrow> k = (upd_partition_id u, upd_source_node_id u)"
  shows "delivered (dict_values d) p src = (case map_of d (p, src) of None \<Rightarrow> [] | Some u \<Rightarrow> upd_splits u) \<and>
         source_closed (dict_values d) p src =
           (case map_of d (p, src) of None \<Rightarrow> False | Some u \<Rightarrow> upd_no_more_splits u)"
  using assms
proof (induction d)
  case (Cons e d)
  obtain k u where e: "e = (k, u)" by fastforce
  have k: "k = (upd_partition_id u, upd_source_node_id u)" using Cons.prems(2) e by simp
  have wf: "wf_dict d" and new: "map_of d k = None"
    using Cons.prems(1) e by (auto simp: wf_dict_def map_of_eq_None_iff)
  have IH: "delivered (dict_values d) p src = (case map_of d (p, src) of None \<Rightarrow> [] | Some u \<Rightarrow> upd_splits u) \<and>
         source_closed (dict_values d) p src =
           (case map_of d (p, src) of None \<Rightarrow> False | Some u \<Rightarrow> upd_no_more_splits u)"
    using Cons.prems(2) by (intro Cons.IH [OF wf]) simp
  show ?case using IH new by (cases "(p, src) = k") (auto simp: e k)
qed simp

lemma distinct_update_keys:
  assumes "\<And>k u. (k, u) \<in> set d \<Longrightarrow> k = (upd_partition_id u, upd_source_node_id u)"
  shows "map (\<lambda>u. (upd_partition_id u, upd_source_node_id u)) (dict_values d) = dict_keys d"
  unfolding map_map
proof (rule map_cong [OF refl])
  fix e assume "e \<in> set d"
  then show "((\<lambda>u. (upd_partition_id u, upd_source_node_id u)) \<circ> snd) e = fst e"
    using assms [of "fst e" "snd e"] by simp
qed

lemma coalesce_ok:
  "list_all update_ok us \<Longrightarrow> (\<exists>cs. coalesce_partition_updates us = Inr cs) \<longleftrightarrow> orderly us"
  using coalesce_into_correct(1) [of "[]" "[]" us]
  by (auto simp: coalesce_partition_updates_def res_simps)

lemma coalesce_delivers:
  assumes "list_all update_ok us" and "coalesce_partition_updates us = Inr cs"
  shows "distinct (map (\<lambda>u. (upd_partition_id u, upd_source_node_id u)) cs)"
    and "delivered cs = delivered us" and "source_closed cs = source_closed us"
proof -
  obtain d where d: "coalesce_into [] us = Inr d" and cs: "cs = dict_values d"
    using assms(2) by (auto simp: coalesce_partition_updates_def res_simps)
  have c: "coalesced us d" using coalesce_into_correct(2) [of "[]" "[]" us d] assms(1) d by simp
  then have wf: "wf_dict d" by (simp add: coalesced_def)
  have e: "entry_ok us p src (map_of d (p, src))" for p src using c by (simp add: coalesced_def)
  have key: "k = (upd_partition_id u, upd_source_node_id u)" if "(k, u) \<in> set d" for k u
    using e [of "fst k" "snd k"] that wf by (cases k) (simp add: wf_dict_get entry_ok_def)
  have "map (\<lambda>u. (upd_partition_id u, upd_source_node_id u)) cs = dict_keys d"
    unfolding cs by (rule distinct_update_keys) (rule key)
  then show "distinct (map (\<lambda>u. (upd_partition_id u, upd_source_node_id u)) cs)"
    using wf by (simp only: wf_dict_def)
  have "delivered cs p src = delivered us p src \<and> source_closed cs p src = source_closed us p src" for p src
    using e [of p src] absent_key [of us p src] delivered_dict_values [OF wf key, of p src]
    unfolding cs by (cases "map_of d (p, src)") (simp_all add: entry_ok_def)
  then show "delivered cs = delivered us" and "source_closed cs = source_closed us" by blast+
qed

text \<open>
  C18. Coalescing the updates of an assignment result succeeds exactly when no update brings splits of
  a source to a partition after that source was declared complete there. It then yields one update
  per partition and source, which delivers the same splits in the same order and closes the same
  sources.
\<close>

theorem coalesce_partition_updates_correct:
  assumes "list_all update_ok us"
  shows "((\<exists>cs. coalesce_partition_updates us = Inr cs) \<longleftrightarrow> orderly us) \<and>
         (\<forall>cs. coalesce_partition_updates us = Inr cs \<longrightarrow>
            distinct (map (\<lambda>u. (upd_partition_id u, upd_source_node_id u)) cs) \<and>
            delivered cs = delivered us \<and> source_closed cs = source_closed us)"
  using coalesce_ok [OF assms] coalesce_delivers [OF assms] by blast

definition sample_split :: "int \<Rightarrow> fte_split" where
  "sample_split n =
     \<lparr>split_source_node_id = ''scan'', sequence_id = n, split_kind = ''file'', split_data = PNone,
      source_partition_id = 0, size_bytes = Some 100, addresses = [], remotely_accessible = True,
      split_catalog = None\<rparr>"

definition sample_update :: "int \<Rightarrow> int list \<Rightarrow> bool \<Rightarrow> partition_update" where
  "sample_update p ns no_more =
     \<lparr>upd_partition_id = p, upd_source_node_id = ''scan'', upd_splits = map sample_split ns,
      upd_no_more_splits = no_more, upd_ready_for_scheduling = (ns \<noteq> [])\<rparr>"

theorem coalesce_partition_updates_correct_witness:
  "\<exists>cs. coalesce_partition_updates
          [sample_update 0 [0] False, sample_update 1 [1] False, sample_update 0 [2] True] = Inr cs \<and>
        delivered cs 0 ''scan'' = [sample_split 0, sample_split 2] \<and> source_closed cs 0 ''scan''"
  using coalesce_partition_updates_correct
    [of "[sample_update 0 [0] False, sample_update 1 [1] False, sample_update 0 [2] True]"]
  by (auto simp: sample_update_def update_ok_def simp del: One_nat_def)

section \<open>What the contract gives the fragment execution\<close>

context split_assigner
begin

lemma assign_coalesces:
  assumes "inv s" and "assign src inputs no_more s = (Inr r, t)"
  shows "\<exists>cs. coalesce_partition_updates (partition_updates r) = Inr cs \<and>
              distinct (map (\<lambda>u. (upd_partition_id u, upd_source_node_id u)) cs) \<and>
              delivered cs = delivered (partition_updates r)"
  using coalesce_ok coalesce_delivers assign_orderly [OF assms] assign_update_ok [OF assms] by blast

end

end
