(* ===== verification/Single_Assigner.thy ===== *)
theory Single_Assigner
  imports Update_Batch
begin

text \<open>
  \<open>SingleSplitAssigner\<close> of \<open>src/duckdb/runners/fte/fte_split_assigner.py\<close>: every split goes to
  partition 0, which is sealed once all sources are complete.
\<close>

record single_assigner =
  sgl_partition_added :: bool
  sgl_source_sequences :: "(string, int) dict"
  sgl_all_sources :: "string list"
  sgl_completed_sources :: "string list"

definition mk_single :: "string list option \<Rightarrow> single_assigner" where
  "mk_single srcs = \<lparr>sgl_partition_added = False, sgl_source_sequences = [],
     sgl_all_sources = normalize_sources srcs, sgl_completed_sources = []\<rparr>"

definition single_info :: partition_info where
  "single_info = \<lparr>info_partition_id = 0, info_node_requirements = None\<rparr>"

definition single_start :: "single_assigner \<Rightarrow> assignment_result" where
  "single_start s =
     (if sgl_partition_added s then empty_result
      else empty_result\<lparr>partitions_added := [single_info], no_more_partitions := True\<rparr>)"

text \<open>The part of \<open>assign\<close> after the inputs are parsed.\<close>

definition single_place ::
  "string \<Rightarrow> fte_split list \<Rightarrow> bool \<Rightarrow> assignment_result \<Rightarrow> (single_assigner, assignment_result) op" where
  "single_place src splits no_more r s =
     (if splits \<noteq> [] \<and> src \<in> set (sgl_completed_sources s)
      then (Inl (RuntimeError ''source is finished''), s)
      else case append_update 0 src splits False (splits \<noteq> []) False r of
        (Inl e, _) \<Rightarrow> (Inl e, s)
      | (Inr _, r1) \<Rightarrow>
          (case (if no_more then append_update 0 src [] True False False r1 else (Inr (), r1)) of
             (Inl e, _) \<Rightarrow> (Inl e, s)
           | (Inr _, r2) \<Rightarrow>
               let s' = (if no_more then s\<lparr>sgl_completed_sources := set_add src (sgl_completed_sources s)\<rparr> else s)
               in (Inr (if sgl_all_sources s' \<noteq> [] \<and> set (sgl_all_sources s') \<subseteq> set (sgl_completed_sources s')
                        then r2\<lparr>sealed_partitions := sealed_partitions r2 @ [0]\<rparr> else r2), s')))"

definition single_assign ::
  "string \<Rightarrow> (string, pyval) dict list \<Rightarrow> bool \<Rightarrow> (single_assigner, assignment_result) op" where
  "single_assign src inputs no_more s =
     (let r = single_start s;
          s1 = s\<lparr>sgl_partition_added := True\<rparr>
      in case splits_from_inputs src inputs (dict_get_default (sgl_source_sequences s1) src 0) of
           Inl e \<Rightarrow> (Inl e, s1)
         | Inr (splits, next_seq) \<Rightarrow>
             let s2 = s1\<lparr>sgl_source_sequences := dict_set src next_seq (sgl_source_sequences s1),
                         sgl_all_sources :=
                           (if sgl_all_sources s = [] then [src] else sgl_all_sources s)\<rparr>
             in single_place src splits no_more r s2)"

definition single_finish :: "(single_assigner, assignment_result) op" where
  "single_finish s =
     (if sgl_partition_added s then (Inr empty_result, s)
      else (Inr (empty_result\<lparr>partitions_added := [single_info], sealed_partitions := [0],
                              no_more_partitions := True\<rparr>),
            s\<lparr>sgl_partition_added := True\<rparr>))"

definition single_known :: "single_assigner \<Rightarrow> int set" where
  "single_known s = (if sgl_partition_added s then {0} else {})"

section \<open>Results of an assignment\<close>

lemma single_start_fields [simp]:
  "partition_updates (single_start s) = []" "sealed_partitions (single_start s) = []"
  "partitions_added (single_start s) = (if sgl_partition_added s then [] else [single_info])"
  by (simp_all add: single_start_def)

lemma single_place_updates:
  assumes "single_place src splits no_more r s = (Inr r', t)" and "partition_updates r = []"
  shows "partition_updates r' =
           (if splits = [] then [] else
             [\<lparr>upd_partition_id = 0, upd_source_node_id = src, upd_splits = splits,
               upd_no_more_splits = False, upd_ready_for_scheduling = True\<rparr>]) @
           (if no_more then
             [\<lparr>upd_partition_id = 0, upd_source_node_id = src, upd_splits = [],
               upd_no_more_splits = True, upd_ready_for_scheduling = False\<rparr>] else [])"
    and "partitions_added r' = partitions_added r"
    and "set (sealed_partitions r') \<subseteq> insert 0 (set (sealed_partitions r))"
    and "sgl_partition_added t = sgl_partition_added s"
  using assms by (auto simp: single_place_def append_update_ok push_update_def Let_def split: if_splits)

lemma single_assign_Inr:
  assumes "single_assign src inputs no_more s = (Inr r, t)"
  obtains splits m where
    "splits_from_inputs src inputs (dict_get_default (sgl_source_sequences s) src 0) = Inr (splits, m)"
    "single_place src splits no_more (single_start s)
       (s\<lparr>sgl_partition_added := True, sgl_source_sequences := dict_set src m (sgl_source_sequences s),
          sgl_all_sources := (if sgl_all_sources s = [] then [src] else sgl_all_sources s)\<rparr>) = (Inr r, t)"
  using assms by (auto simp: single_assign_def Let_def split: sum.splits prod.splits)

lemma single_assign_result:
  assumes "single_assign src inputs no_more s = (Inr r, t)"
  shows "orderly (partition_updates r)" and "list_all update_ok (partition_updates r)"
    and "result_refers (single_known s) r"
    and "single_known t = single_known s \<union> info_partition_id ` set (partitions_added r)"
proof -
  from assms obtain splits m where p: "single_place src splits no_more (single_start s)
       (s\<lparr>sgl_partition_added := True, sgl_source_sequences := dict_set src m (sgl_source_sequences s),
          sgl_all_sources := (if sgl_all_sources s = [] then [src] else sgl_all_sources s)\<rparr>) = (Inr r, t)"
    by (rule single_assign_Inr)
  note f = single_place_updates [OF p, simplified]
  show "orderly (partition_updates r)" and "list_all update_ok (partition_updates r)"
    using f(1) by (simp_all add: update_ok_def)
  show "result_refers (single_known s) r"
    using f(1-3) by (auto simp: result_refers_def single_known_def single_info_def split: if_splits)
  show "single_known t = single_known s \<union> info_partition_id ` set (partitions_added r)"
    using f(2,4) by (auto simp: single_known_def single_info_def)
qed

interpretation single: split_assigner single_assign single_known "\<lambda>_. True"
  by unfold_locales (auto dest: single_assign_result)

lemma single_added:
  assumes "call_all single_assign calls s = (outs, t)"
  shows "sgl_partition_added t = (sgl_partition_added s \<or> calls \<noteq> [])"
  using assms
proof (induction calls arbitrary: s outs)
  case (Cons call calls)
  obtain src inputs no_more where call: "call = (src, inputs, no_more)" by (cases call) auto
  obtain out s1 where one: "single_assign src inputs no_more s = (out, s1)" by fastforce
  obtain outs' where rest: "call_all single_assign calls s1 = (outs', t)"
    using Cons.prems by (auto simp: call one Let_def split: prod.splits)
  have "sgl_partition_added s1"
    using one by (auto simp: single_assign_def single_place_def append_update_ok Let_def split: sum.splits prod.splits if_splits)
  then show ?case using Cons.IH [OF rest] by simp
qed simp

text \<open>
  C17. After any calls of \<open>assign\<close>, returning or raising, a successful \<open>assign\<close> of the single assigner gives the fragment
  execution, after coalescing, exactly the parsed inputs of that call, in order, for partition 0 and the calling source, and
  nothing for any other partition or source; the source is closed there exactly if the call says so. The first call, and no
  later one, announces partition 0 in its result, so that if the earlier calls all returned every result is about an
  announced partition; if the first call raises, the announcement is lost.
\<close>

theorem single_assign_delivers:
  assumes "call_all single_assign calls (mk_single srcs) = (outs, s)" and "single_assign src inputs no_more s = (Inr r, t)"
  shows "(\<exists>splits m cs.
           splits_from_inputs src inputs (dict_get_default (sgl_source_sequences s) src 0) = Inr (splits, m) \<and>
           coalesce_partition_updates (partition_updates r) = Inr cs \<and>
           delivered cs = (\<lambda>p n. if p = 0 \<and> n = src then splits else []) \<and>
           (\<forall>n. source_closed cs 0 n = (no_more \<and> n = src))) \<and>
         map info_partition_id (partitions_added r) = (if calls = [] then [0] else []) \<and>
         ((\<forall>out\<in>set outs. \<not> isl out) \<longrightarrow> 0 \<in> announced_in (outs @ [Inr r]))"
proof -
  from assms(2) obtain splits m where sp:
      "splits_from_inputs src inputs (dict_get_default (sgl_source_sequences s) src 0) = Inr (splits, m)"
    and p: "single_place src splits no_more (single_start s)
       (s\<lparr>sgl_partition_added := True, sgl_source_sequences := dict_set src m (sgl_source_sequences s),
          sgl_all_sources := (if sgl_all_sources s = [] then [src] else sgl_all_sources s)\<rparr>) = (Inr r, t)"
    by (rule single_assign_Inr)
  note f = single_place_updates [OF p, simplified]
  obtain cs where cs: "coalesce_partition_updates (partition_updates r) = Inr cs"
    using single.assign_coalesces [OF TrueI assms(2)] by blast
  note ok = single_assign_result(2) [OF assms(2)]
  have "delivered cs = (\<lambda>p n. if p = 0 \<and> n = src then splits else [])"
    unfolding coalesce_delivers(2) [OF ok cs] using f(1) by (auto simp: fun_eq_iff)
  moreover have "source_closed cs 0 n = (no_more \<and> n = src)" for n
    unfolding coalesce_delivers(3) [OF ok cs] using f(1) by auto
  moreover have added: "sgl_partition_added s = (calls \<noteq> [])" using single_added [OF assms(1)] by (simp add: mk_single_def)
  moreover have "0 \<in> announced_in (outs @ [Inr r])" if "\<forall>out\<in>set outs. \<not> isl out"
  proof (cases "calls = []")
    case True
    then show ?thesis using f(2) added by (simp add: single_info_def)
  next
    case False
    then have "0 \<in> single_known s" using added by (simp add: single_known_def)
    then have "0 \<in> announced_in outs"
      using single.calls_known(2) [OF TrueI assms(1) that] by (simp add: single_known_def mk_single_def)
    then show ?thesis by simp
  qed
  ultimately show ?thesis using sp cs f(2) by (auto simp: single_info_def)
qed

definition sample_input :: "int \<Rightarrow> (string, pyval) dict" where
  "sample_input n = [(''sequence_id'', PInt n), (''kind'', PStr ''file'')]"

theorem single_assign_delivers_witness:
  "\<exists>outs s r t splits m cs.
     call_all single_assign [(''scan'', [sample_input 1], False)] (mk_single None) = (outs, s) \<and>
     single_assign ''scan'' [sample_input 3, sample_input 4] True s = (Inr r, t) \<and>
     splits_from_inputs ''scan'' [sample_input 3, sample_input 4] (dict_get_default (sgl_source_sequences s) ''scan'' 0) = Inr (splits, m) \<and>
     coalesce_partition_updates (partition_updates r) = Inr cs \<and>
     delivered cs 0 ''scan'' = splits \<and> source_closed cs 0 ''scan'' \<and> partitions_added r = []"
proof -
  obtain outs s where calls: "call_all single_assign [(''scan'', [sample_input 1], False)] (mk_single None) = (outs, s)" by fastforce
  have "\<not> isl (fst (single_assign ''scan'' [sample_input 3, sample_input 4] True
      (snd (call_all single_assign [(''scan'', [sample_input 1], False)] (mk_single None)))))"
    by code_simp
  then obtain r t where r: "single_assign ''scan'' [sample_input 3, sample_input 4] True s = (Inr r, t)"
    unfolding calls snd_conv by (metis isl_def prod.collapse sum.exhaust_sel)
  from calls r single_assign_delivers [OF calls r] show ?thesis by fastforce
qed

text \<open>A first call that raises on its inputs loses the announcement: no later result makes up for it.\<close>

lemma raising_first_assign:
  "case call_all single_assign [(''scan'', [[(''sequence_id'', PInt (- 1)), (''kind'', PStr ''file'')]], False), (''scan'', [sample_input 0], False)]
       (mk_single None) of
     ([Inl _, Inr r], _) \<Rightarrow> partitions_added r = [] \<and> map upd_partition_id (partition_updates r) = [0]
   | _ \<Rightarrow> False"
  by code_simp

end
