(* ===== verification/Py_Float.thy ===== *)
theory Py_Float
  imports Complex_Main "HOL-Library.Log_Nat"
begin

text \<open>
  Python floats (IEEE 754 binary64) as the rational numbers they denote, with the rounding of every
  operation written out: \<open>fl\<close> rounds a rational to the nearest number with a 53-bit significand,
  ties to even. Arithmetic on floats is \<open>fl\<close> of the exact result, conversion of an int is \<open>fl\<close>,
  the division of two ints is correctly rounded (\<open>fl\<close> of the exact quotient), \<open>int\<close> truncates and
  \<open>round\<close> rounds half to even. The magnitudes that occur are those of byte counts and counters, so
  the model has neither overflow to infinity nor subnormal numbers.
\<close>

text \<open>Round half to even, Python's \<open>round(x)\<close>.\<close>

definition round_half_even :: "rat \<Rightarrow> int" where
  "round_half_even x =
     (let n = \<lfloor>x\<rfloor>; d = x - of_int n in
      if d < 1 / 2 then n else if 1 / 2 < d then n + 1 else if even n then n else n + 1)"

text \<open>Python's \<open>int(x)\<close> of a float: truncation towards zero.\<close>

definition py_trunc :: "rat \<Rightarrow> int" where
  "py_trunc x = (if 0 \<le> x then \<lfloor>x\<rfloor> else - \<lfloor>- x\<rfloor>)"

definition pow2 :: "int \<Rightarrow> rat" where
  "pow2 e = (if 0 \<le> e then 2 ^ nat e else 1 / 2 ^ nat (- e))"

text \<open>The binary exponent of a positive rational.\<close>

definition ilog2 :: "rat \<Rightarrow> int" where
  "ilog2 x =
     (let (a, b) = quotient_of x; k = bitlen a - bitlen b in
      if pow2 k \<le> x then k else k - 1)"

definition fl_pos :: "rat \<Rightarrow> rat" where
  "fl_pos x = (let e = ilog2 x - 52 in of_int (round_half_even (x / pow2 e)) * pow2 e)"

definition fl :: "rat \<Rightarrow> rat" where
  "fl x = (if x = 0 then 0 else if 0 < x then fl_pos x else - fl_pos (- x))"

section \<open>Rounding to an integer\<close>

lemma round_half_even_of_int [simp]: "round_half_even (of_int n) = n"
  by (simp add: round_half_even_def)

lemma round_half_even_bounds: "\<lfloor>x\<rfloor> \<le> round_half_even x \<and> round_half_even x \<le> \<lfloor>x\<rfloor> + 1"
  by (simp add: round_half_even_def Let_def)

lemma round_half_even_mono: "x \<le> y \<Longrightarrow> round_half_even x \<le> round_half_even y"
proof -
  assume le: "x \<le> y"
  then have "\<lfloor>x\<rfloor> \<le> \<lfloor>y\<rfloor>" by (rule floor_mono)
  then consider "\<lfloor>x\<rfloor> = \<lfloor>y\<rfloor>" | "\<lfloor>x\<rfloor> + 1 \<le> \<lfloor>y\<rfloor>" by linarith
  then show ?thesis
  proof cases
    case 1
    then show ?thesis using le by (auto simp: round_half_even_def Let_def)
  next
    case 2
    then show ?thesis using round_half_even_bounds [of x] round_half_even_bounds [of y] by linarith
  qed
qed

section \<open>Powers of two and the exponent\<close>

lemma pow2_power_int: "pow2 e = 2 powi e"
  by (simp add: pow2_def power_int_def field_simps)

lemma pow2_pos [simp]: "0 < pow2 e"
  by (simp add: pow2_def)

lemma pow2_add: "pow2 (a + b) = pow2 a * pow2 b"
  by (simp add: pow2_power_int power_int_add)

lemma pow2_mono: "a \<le> b \<Longrightarrow> pow2 a \<le> pow2 b"
  by (simp add: pow2_power_int power_int_increasing)

lemma pow2_strict: "pow2 a < pow2 b \<Longrightarrow> a < b"
  using pow2_mono [of b a] by linarith

lemma bitlen_rat_bounds:
  assumes "0 < n"
  shows "pow2 (bitlen n - 1) \<le> of_int n \<and> (of_int n :: rat) < pow2 (bitlen n)"
proof -
  have b: "2 ^ nat (bitlen n - 1) \<le> n \<and> n < 2 ^ nat (bitlen n)"
    by (rule bitlen_bounds [OF assms])
  have "bitlen n \<noteq> 0" using assms by (simp add: bitlen_eq_zero_iff)
  then have pos: "0 < bitlen n" using bitlen_nonneg [of n] by linarith
  from b have "(of_int (2 ^ nat (bitlen n - 1)) :: rat) \<le> of_int n"
    and "(of_int n :: rat) < of_int (2 ^ nat (bitlen n))"
    by (simp_all only: of_int_le_iff of_int_less_iff)
  then show ?thesis using pos by (simp add: pow2_def)
qed

lemma ilog2_bounds:
  assumes "0 < x"
  shows "pow2 (ilog2 x) \<le> x \<and> x < pow2 (ilog2 x + 1)"
proof -
  obtain a b where q: "quotient_of x = (a, b)" by fastforce
  have b: "0 < b" and x: "x = of_int a / of_int b"
    using q quotient_of_denom_pos quotient_of_div by auto
  with assms have a: "0 < a" by (simp add: zero_less_divide_iff)
  note A = bitlen_rat_bounds [OF a] and B = bitlen_rat_bounds [OF b]
  define k where "k = bitlen a - bitlen b"
  have bpos: "(0 :: rat) < of_int b" using b by simp
  have "of_int a < pow2 (bitlen a)" using A by simp
  also have "pow2 (bitlen a) = pow2 (k + 1) * pow2 (bitlen b - 1)"
    by (simp add: k_def flip: pow2_add)
  also have "\<dots> \<le> pow2 (k + 1) * of_int b" using B by simp
  finally have up: "x < pow2 (k + 1)" using bpos by (simp add: x field_simps)
  have "pow2 (k - 1) * of_int b < pow2 (k - 1) * pow2 (bitlen b)" using B by simp
  also have "\<dots> = pow2 (bitlen a - 1)" by (simp add: k_def algebra_simps flip: pow2_add)
  also have "\<dots> \<le> of_int a" using A by simp
  finally have low: "pow2 (k - 1) \<le> x" using bpos by (simp add: x field_simps)
  show ?thesis using up low by (auto simp: ilog2_def q k_def Let_def)
qed

lemma ilog2_mono: "0 < x \<Longrightarrow> x \<le> y \<Longrightarrow> ilog2 x \<le> ilog2 y"
proof -
  assume "0 < x" "x \<le> y"
  then have "pow2 (ilog2 x) < pow2 (ilog2 y + 1)"
    using ilog2_bounds [of x] ilog2_bounds [of y] by linarith
  then show ?thesis by (drule_tac pow2_strict) simp
qed

section \<open>Rounding to a float\<close>

lemma fl_pos_bounds:
  assumes "0 < x"
  shows "pow2 (ilog2 x) \<le> fl_pos x \<and> fl_pos x \<le> pow2 (ilog2 x + 1)"
proof -
  define e where "e = ilog2 x - 52"
  have p52: "pow2 52 = of_int (2 ^ 52)" and p53: "pow2 53 = of_int (2 ^ 53)" by (simp_all add: pow2_def)
  have lo: "pow2 (ilog2 x) = of_int (2 ^ 52) * pow2 e"
    using pow2_add [of 52 e] p52 by (simp add: e_def)
  have hi: "pow2 (ilog2 x + 1) = of_int (2 ^ 53) * pow2 e"
    using pow2_add [of 53 e] p53 by (simp add: e_def add.commute)
  have "of_int (2 ^ 52) \<le> x / pow2 e" and "x / pow2 e \<le> of_int (2 ^ 53)"
    using ilog2_bounds [OF assms] unfolding lo hi by (simp_all add: field_simps del: of_int_power)
  then have "2 ^ 52 \<le> round_half_even (x / pow2 e)" and "round_half_even (x / pow2 e) \<le> 2 ^ 53"
    by (metis round_half_even_mono round_half_even_of_int)+
  then have "(of_int (2 ^ 52) :: rat) \<le> of_int (round_half_even (x / pow2 e))"
    and "(of_int (round_half_even (x / pow2 e)) :: rat) \<le> of_int (2 ^ 53)"
    by (simp_all only: of_int_le_iff)
  then show ?thesis
    unfolding lo hi fl_pos_def Let_def e_def [symmetric] by (simp add: mult_right_mono del: of_int_power)
qed

lemma fl_pos_mono: "0 < x \<Longrightarrow> x \<le> y \<Longrightarrow> fl_pos x \<le> fl_pos y"
proof -
  assume x: "0 < x" and le: "x \<le> y"
  from ilog2_mono [OF x le] consider "ilog2 x = ilog2 y" | "ilog2 x + 1 \<le> ilog2 y" by linarith
  then show ?thesis
  proof cases
    case 1
    have "round_half_even (x / pow2 (ilog2 y - 52)) \<le> round_half_even (y / pow2 (ilog2 y - 52))"
      by (rule round_half_even_mono) (simp add: le divide_right_mono less_imp_le)
    then show ?thesis by (simp add: fl_pos_def Let_def 1)
  next
    case 2
    then show ?thesis
      using fl_pos_bounds [of x] fl_pos_bounds [of y] pow2_mono [OF 2] x le by linarith
  qed
qed

lemma fl_mono:
  assumes "x \<le> y"
  shows "fl x \<le> fl y"
proof -
  have pos: "0 < fl_pos z" if "0 < z" for z
    using fl_pos_bounds [OF that] pow2_pos [of "ilog2 z"] by linarith
  consider "0 < x" | "x = 0" | "x < 0" "0 < y" | "x < 0" "y = 0" | "x < 0" "y < 0" by linarith
  then show ?thesis
  proof cases
    case 5
    then show ?thesis using fl_pos_mono [of "- y" "- x"] assms by (simp add: fl_def)
  qed (use assms pos [of x] pos [of y] pos [of "- x"] fl_pos_mono [of x y] in \<open>auto simp: fl_def less_imp_le\<close>)
qed

text \<open>Integers below \<open>2 ^ 53\<close> are floats.\<close>

lemma fl_of_int:
  assumes "\<bar>n\<bar> < 2 ^ 53"
  shows "fl (of_int n) = of_int n"
proof -
  have pos: "fl_pos (of_int m) = of_int m" if m: "0 < m" "m < 2 ^ 53" for m
  proof -
    have "(of_int m :: rat) < of_int (2 ^ 53)" using m(2) by (simp only: of_int_less_iff)
    then have "pow2 (ilog2 (of_int m)) < pow2 53"
      using ilog2_bounds [of "of_int m"] m(1) by (simp add: pow2_def)
    then have e: "ilog2 (of_int m) - 52 \<le> 0" by (drule_tac pow2_strict) simp
    define e where "e = nat (52 - ilog2 (of_int m))"
    have "pow2 (ilog2 (of_int m) - 52) = 1 / 2 ^ e"
      using e by (cases "ilog2 (of_int m) = 52") (auto simp: pow2_def e_def)
    moreover have "(of_int m :: rat) * 2 ^ e = of_int (m * 2 ^ e)" by simp
    ultimately show ?thesis by (simp add: fl_pos_def Let_def del: of_int_mult of_int_power) simp
  qed
  show ?thesis using assms pos [of n] pos [of "- n"] by (auto simp: fl_def)
qed

lemma fl_ge_int: "\<bar>n\<bar> < 2 ^ 53 \<Longrightarrow> of_int n \<le> x \<Longrightarrow> of_int n \<le> fl x"
  using fl_mono [of "of_int n" x] fl_of_int [of n] by simp

end
