(* ===== verification/Arbitrary_Assigner.thy ===== *)
theory Arbitrary_Assigner
  imports Update_Batch Py_Float
begin

text \<open>
  \<open>ArbitrarySplitAssigner\<close> of \<open>src/duckdb/runners/fte/fte_split_assigner.py\<close>: partitioned sources
  fill partitions up to a size and a split count, replicated sources go to every partition.

  The objects of \<open>_PartitionAssignment\<close> are shared between \<open>_all_assignments\<close> and
  \<open>_open_assignments\<close>. The model keeps them in \<open>arb_all_assignments\<close>, and \<open>arb_open_assignments\<close>
  refers to them by their position there. The sets of source ids are lists in iteration order.
\<close>

record partition_assignment =
  pa_partition_id :: int
  pa_assigned_data_size_bytes :: int
  pa_assigned_split_count :: int
  pa_full :: bool

record arb_assigner =
  arb_next_partition_id :: int
  arb_source_sequences :: "(string, int) dict"
  arb_catalog_requirement :: "string option"
  arb_partitioned_sources :: "string list"
  arb_replicated_sources :: "string list"
  arb_all_sources :: "string list"
  arb_completed_sources :: "string list"
  arb_replicated_splits :: "(string, fte_split list) dict"
  arb_no_more_replicated_splits :: bool
  arb_all_assignments :: "partition_assignment list"
  arb_open_assignments :: "(node_requirements, nat) dict"
  arb_adaptive_growth_period :: int
  arb_adaptive_growth_factor :: rat
  arb_min_target :: int
  arb_max_target :: int
  arb_target :: int
  arb_rounded_target :: int
  arb_adaptive_counter :: int
  arb_standard_split_size_bytes :: int
  arb_max_task_split_count :: int
  arb_finished :: bool

type_synonym arb_state = "arb_assigner \<times> assignment_result"

section \<open>Construction\<close>

record arb_params =
  max_splits_per_partition :: "int option"
  catalog_requirement :: "string option"
  partitioned_sources :: "string list option"
  replicated_sources :: "string list option"
  min_target_partition_size_bytes :: "int option"
  max_target_partition_size_bytes :: "int option"
  adaptive_growth_period :: int
  adaptive_growth_factor :: rat
  standard_split_size_bytes :: int
  max_task_split_count :: "int option"

definition arb_defaults :: arb_params where
  "arb_defaults = \<lparr>max_splits_per_partition = None, catalog_requirement = None, partitioned_sources = None,
     replicated_sources = None, min_target_partition_size_bytes = None, max_target_partition_size_bytes = None,
     adaptive_growth_period = 64, adaptive_growth_factor = fl (126 / 100),
     standard_split_size_bytes = 64 * 1024 * 1024, max_task_split_count = None\<rparr>"

definition mk_arbitrary :: "arb_params \<Rightarrow> arb_assigner res" where
  "mk_arbitrary c =
     (if (case max_splits_per_partition c of None \<Rightarrow> False | Some n \<Rightarrow> n \<le> 0)
      then Inl (ValueError ''max_splits_per_partition must be positive'')
      else
        let split_count = (case max_task_split_count c of
              Some n \<Rightarrow> n
            | None \<Rightarrow> (case max_splits_per_partition c of Some n \<Rightarrow> n | None \<Rightarrow> 2048));
            min_target = (case min_target_partition_size_bytes c of
              Some n \<Rightarrow> n | None \<Rightarrow> split_count * standard_split_size_bytes c);
            max_target = (case max_target_partition_size_bytes c of Some n \<Rightarrow> n | None \<Rightarrow> min_target);
            ps = normalize_sources (partitioned_sources c);
            rs = normalize_sources (replicated_sources c)
        in
        if split_count \<le> 0 then Inl (ValueError ''max_task_split_count must be positive'')
        else if adaptive_growth_period c \<le> 0 then Inl (ValueError ''adaptive_growth_period must be positive'')
        else if adaptive_growth_factor c < 1 then Inl (ValueError ''adaptive_growth_factor must be >= 1'')
        else if min_target \<le> 0 then Inl (ValueError ''min_target_partition_size_bytes must be positive'')
        else if max_target < min_target
        then Inl (ValueError ''max_target_partition_size_bytes must be >= min_target_partition_size_bytes'')
        else Inr
          \<lparr>arb_next_partition_id = 0, arb_source_sequences = [],
           arb_catalog_requirement = catalog_requirement c,
           arb_partitioned_sources = ps, arb_replicated_sources = rs,
           arb_all_sources = remdups (ps @ rs), arb_completed_sources = [],
           arb_replicated_splits = [], arb_no_more_replicated_splits = False,
           arb_all_assignments = [], arb_open_assignments = [],
           arb_adaptive_growth_period = adaptive_growth_period c,
           arb_adaptive_growth_factor = adaptive_growth_factor c,
           arb_min_target = min_target, arb_max_target = max_target,
           arb_target = min_target, arb_rounded_target = min_target,
           arb_adaptive_counter = 0,
           arb_standard_split_size_bytes = standard_split_size_bytes c,
           arb_max_task_split_count = split_count, arb_finished = False\<rparr>)"

section \<open>Placement of partitioned splits\<close>

definition assign_split :: "int \<Rightarrow> partition_assignment \<Rightarrow> partition_assignment" where
  "assign_split n pa = pa\<lparr>pa_assigned_data_size_bytes := pa_assigned_data_size_bytes pa + n,
                          pa_assigned_split_count := pa_assigned_split_count pa + 1\<rparr>"

definition arb_update_assignment ::
  "nat \<Rightarrow> (partition_assignment \<Rightarrow> partition_assignment) \<Rightarrow> arb_assigner \<Rightarrow> arb_assigner" where
  "arb_update_assignment i f a =
     a\<lparr>arb_all_assignments := (arb_all_assignments a)[i := f (arb_all_assignments a ! i)]\<rparr>"

definition arb_rank :: "arb_assigner \<Rightarrow> string \<Rightarrow> int" where
  "arb_rank a address =
     (let size_of = \<lambda>remote. map_option (\<lambda>i. pa_assigned_data_size_bytes (arb_all_assignments a ! i))
            (dict_get (arb_open_assignments a)
               \<lparr>nr_catalog = arb_catalog_requirement a, nr_host = Some address, nr_remotely_accessible = remote\<rparr>)
      in case (size_of True, size_of False) of
           (None, None) \<Rightarrow> - 1
         | (None, Some rigid) \<Rightarrow> rigid
         | (Some flex, None) \<Rightarrow> flex
         | (Some flex, Some rigid) \<Rightarrow> flex + rigid)"

definition arb_node_requirements :: "arb_assigner \<Rightarrow> fte_split \<Rightarrow> node_requirements res" where
  "arb_node_requirements a sp =
     (if arb_catalog_requirement a \<noteq> None \<and> split_catalog sp \<notin> {None, arb_catalog_requirement a}
      then Inl (ValueError ''unexpected split catalog requirement'')
      else
        let host = (if addresses sp = [] then None else Some (arg_min_list (arb_rank a) (addresses sp))) in
        if host = None \<and> \<not> remotely_accessible sp
        then Inl (ValueError ''split is not remotely accessible but has no host address'')
        else Inr \<lparr>nr_catalog = arb_catalog_requirement a, nr_host = host,
                  nr_remotely_accessible = remotely_accessible sp\<rparr>)"

definition arb_grow_target_if_needed :: "arb_assigner \<Rightarrow> arb_assigner" where
  "arb_grow_target_if_needed a =
     (let counter = arb_adaptive_counter a + 1 in
      if counter < arb_adaptive_growth_period a then a\<lparr>arb_adaptive_counter := counter\<rparr>
      else
        let target = min (arb_max_target a)
              (py_trunc (fl (fl (fl (of_int (arb_target a)) * arb_adaptive_growth_factor a) + fl (999999 / 1000000))));
            rounded = round_half_even (fl (of_int target / of_int (arb_min_target a))) * arb_min_target a
        in a\<lparr>arb_target := target, arb_rounded_target := max (arb_min_target a) rounded,
             arb_adaptive_counter := 0\<rparr>)"

definition emit ::
  "int \<Rightarrow> string \<Rightarrow> fte_split list \<Rightarrow> bool \<Rightarrow> bool \<Rightarrow> bool \<Rightarrow> (arb_state, unit) op" where
  "emit p src splits no_more ready emit_empty s =
     (let (res, r) = append_update p src splits no_more ready emit_empty (snd s) in (res, (fst s, r)))"

definition arb_id :: "arb_assigner \<Rightarrow> nat \<Rightarrow> int" where
  "arb_id a i = pa_partition_id (arb_all_assignments a ! i)"

definition arb_new_assignment :: "node_requirements \<Rightarrow> (arb_state, nat) op" where
  "arb_new_assignment nr s =
     (let a = fst s; r = snd s; i = length (arb_all_assignments a) in
      (Inr i,
       (a\<lparr>arb_next_partition_id := arb_next_partition_id a + 1,
          arb_all_assignments := arb_all_assignments a @
            [\<lparr>pa_partition_id = arb_next_partition_id a, pa_assigned_data_size_bytes = 0,
              pa_assigned_split_count = 0, pa_full = False\<rparr>],
          arb_open_assignments := dict_set nr i (arb_open_assignments a)\<rparr>,
        r\<lparr>partitions_added := partitions_added r @
             [\<lparr>info_partition_id = arb_next_partition_id a, info_node_requirements = Some nr\<rparr>]\<rparr>)))"

text \<open>A new partition starts with everything the replicated sources have delivered so far.\<close>

definition arb_open_partition :: "node_requirements \<Rightarrow> (arb_state, nat) op" where
  "arb_open_partition nr =
     bindS (arb_new_assignment nr) (\<lambda>i.
     bindS (\<lambda>s. foldS (\<lambda>rs. emit (arb_id (fst s) i) rs (dict_get_default (arb_replicated_splits (fst s)) rs [])
                              (rs \<in> set (arb_completed_sources (fst s))) False True)
                      (arb_replicated_sources (fst s)) s) (\<lambda>_.
     retS i))"

definition arb_replicated_done :: "arb_assigner \<Rightarrow> bool" where
  "arb_replicated_done a = (set (arb_replicated_sources a) \<subseteq> set (arb_completed_sources a))"

text \<open>A full partition is closed for every partitioned source and leaves the open ones.\<close>

definition arb_close_full :: "node_requirements \<Rightarrow> nat \<Rightarrow> (arb_state, unit) op" where
  "arb_close_full nr i =
     bindS (modS (apfst (arb_update_assignment i (\<lambda>pa. pa\<lparr>pa_full := True\<rparr>)))) (\<lambda>_.
     bindS (\<lambda>s. foldS (\<lambda>ps. emit (arb_id (fst s) i) ps [] True False False) (arb_partitioned_sources (fst s)) s) (\<lambda>_.
     modS (\<lambda>(a, r).
       (arb_grow_target_if_needed (a\<lparr>arb_open_assignments := dict_pop nr (arb_open_assignments a)\<rparr>),
        if arb_replicated_done a then append_seal (arb_id a i) r else r))))"

definition arb_overflows :: "arb_assigner \<Rightarrow> nat \<Rightarrow> int \<Rightarrow> bool" where
  "arb_overflows a i sz =
     (let pa = arb_all_assignments a ! i in
      arb_rounded_target a < pa_assigned_data_size_bytes pa + sz \<or>
      arb_max_task_split_count a < pa_assigned_split_count pa + 1)"

definition arb_place_split :: "string \<Rightarrow> fte_split \<Rightarrow> (arb_state, unit) op" where
  "arb_place_split src sp s =
     (let a = fst s; sz = split_size_bytes sp (arb_standard_split_size_bytes a) in
      case arb_node_requirements a sp of
        Inl e \<Rightarrow> (Inl e, s)
      | Inr nr \<Rightarrow>
          bindS (case dict_get (arb_open_assignments a) nr of
                   None \<Rightarrow> arb_open_partition nr
                 | Some i \<Rightarrow>
                     if arb_overflows a i sz then bindS (arb_close_full nr i) (\<lambda>_. arb_open_partition nr)
                     else retS i) (\<lambda>i.
          bindS (\<lambda>s. emit (arb_id (fst s) i) src [sp] False True False s) (\<lambda>_.
          modS (apfst (arb_update_assignment i (assign_split sz))))) s)"

section \<open>Completion\<close>

definition arb_finish_if_all_sources_completed :: "(arb_assigner, assignment_result) op" where
  "arb_finish_if_all_sources_completed a =
     (if arb_all_sources a = [] \<or> \<not> set (arb_all_sources a) \<subseteq> set (arb_completed_sources a)
      then (Inr empty_result, a)
      else
        let (res, (a', r)) =
          (if arb_all_assignments a = [] then
             bindS (modS (\<lambda>(a, r).
               (a\<lparr>arb_next_partition_id := max (arb_next_partition_id a) 1,
                  arb_all_assignments := [\<lparr>pa_partition_id = 0, pa_assigned_data_size_bytes = 0,
                                           pa_assigned_split_count = 0, pa_full = False\<rparr>]\<rparr>,
                r\<lparr>partitions_added := partitions_added r @ [\<lparr>info_partition_id = 0, info_node_requirements =
                     Some \<lparr>nr_catalog = arb_catalog_requirement a, nr_host = None,
                           nr_remotely_accessible = True\<rparr>\<rparr>]\<rparr>))) (\<lambda>_.
             bindS (foldS (\<lambda>rs. emit 0 rs (dict_get_default (arb_replicated_splits a) rs []) True False False)
                          (arb_replicated_sources a)) (\<lambda>_.
             bindS (foldS (\<lambda>ps. emit 0 ps [] True False False) (arb_partitioned_sources a)) (\<lambda>_.
             modS (apsnd (append_seal 0)))))
           else
             bindS (foldS (\<lambda>i.
                 bindS (foldS (\<lambda>ps. emit (arb_id a i) ps [] True False False) (arb_partitioned_sources a)) (\<lambda>_.
                 modS (apsnd (append_seal (arb_id a i)))))
               (dict_values (arb_open_assignments a))) (\<lambda>_.
             modS (apfst (\<lambda>a. a\<lparr>arb_open_assignments := []\<rparr>)))) (a, empty_result)
        in case res of
             Inl e \<Rightarrow> (Inl e, a')
           | Inr _ \<Rightarrow> (Inr (r\<lparr>no_more_partitions := True\<rparr>), a'\<lparr>arb_replicated_splits := [], arb_finished := True\<rparr>))"

definition merge_assignment_results :: "assignment_result \<Rightarrow> assignment_result \<Rightarrow> assignment_result" where
  "merge_assignment_results left right =
     \<lparr>partitions_added = partitions_added left @ partitions_added right,
      partition_updates = partition_updates left @ partition_updates right,
      sealed_partitions = fold set_add (sealed_partitions right) (sealed_partitions left),
      no_more_partitions = (no_more_partitions left \<or> no_more_partitions right)\<rparr>"

text \<open>Both kinds of assignment end by finishing when all sources are complete.\<close>

definition arb_conclude :: "assignment_result \<Rightarrow> (arb_assigner, assignment_result) op" where
  "arb_conclude r =
     bindS arb_finish_if_all_sources_completed (\<lambda>r'. retS (merge_assignment_results r r'))"

definition arb_assign_replicated_splits ::
  "string \<Rightarrow> fte_split list \<Rightarrow> bool \<Rightarrow> (arb_assigner, assignment_result) op" where
  "arb_assign_replicated_splits src splits no_more a =
     (let a1 = a\<lparr>arb_replicated_splits :=
                   dict_set src (dict_get_default (arb_replicated_splits a) src [] @ splits) (arb_replicated_splits a)\<rparr>
      in case foldS (\<lambda>pa. emit (pa_partition_id pa) src splits no_more False True) (arb_all_assignments a1)
                (a1, empty_result) of
           (Inl e, (a2, _)) \<Rightarrow> (Inl e, a2)
         | (Inr _, (a2, r)) \<Rightarrow>
             let a3 = (if no_more then a2\<lparr>arb_completed_sources := set_add src (arb_completed_sources a2)\<rparr> else a2);
                 a4 = (if no_more \<and> arb_replicated_done a3 then a3\<lparr>arb_no_more_replicated_splits := True\<rparr> else a3);
                 r' = (if arb_no_more_replicated_splits a4
                       then fold (\<lambda>pa. if pa_full pa then append_seal (pa_partition_id pa) else id)
                              (arb_all_assignments a4) r
                       else r)
             in arb_conclude r' a4)"

definition arb_assign_partitioned_splits ::
  "string \<Rightarrow> fte_split list \<Rightarrow> bool \<Rightarrow> (arb_assigner, assignment_result) op" where
  "arb_assign_partitioned_splits src splits no_more a =
     (case foldS (arb_place_split src) splits (a, empty_result) of
        (Inl e, (a1, _)) \<Rightarrow> (Inl e, a1)
      | (Inr _, (a1, r)) \<Rightarrow>
          arb_conclude r
            (if no_more then a1\<lparr>arb_completed_sources := set_add src (arb_completed_sources a1)\<rparr> else a1))"

text \<open>The part of \<open>assign\<close> after the inputs are parsed.\<close>

definition arb_dispatch :: "string \<times> fte_split list \<times> bool \<Rightarrow> (arb_assigner, assignment_result) op" where
  "arb_dispatch = (\<lambda>(src, splits, no_more) a.
     let a1 = (if arb_all_sources a = []
               then a\<lparr>arb_partitioned_sources := set_add src (arb_partitioned_sources a), arb_all_sources := [src]\<rparr>
               else a)
     in if src \<in> set (arb_replicated_sources a1) then arb_assign_replicated_splits src splits no_more a1
        else arb_assign_partitioned_splits src splits no_more a1)"

definition arb_assign ::
  "string \<Rightarrow> (string, pyval) dict list \<Rightarrow> bool \<Rightarrow> (arb_assigner, assignment_result) op" where
  "arb_assign src inputs no_more a =
     (if arb_finished a then (Inl (RuntimeError ''cannot assign splits after finish''), a)
      else case splits_from_inputs src inputs (dict_get_default (arb_source_sequences a) src 0) of
        Inl e \<Rightarrow> (Inl e, a)
      | Inr (splits, next_seq) \<Rightarrow>
          arb_dispatch (src, splits, no_more)
            (a\<lparr>arb_source_sequences := dict_set src next_seq (arb_source_sequences a)\<rparr>))"

definition arb_finish :: "(arb_assigner, assignment_result) op" where
  "arb_finish a =
     (if arb_all_assignments a = [] then (Inl (RuntimeError ''allAssignments is not expected to be empty''), a)
      else (Inr empty_result, a))"

section \<open>Closed forms of the steps\<close>

lemma emit_simp:
  "(ready \<Longrightarrow> splits \<noteq> []) \<Longrightarrow> emit_empty \<or> splits \<noteq> [] \<or> no_more \<Longrightarrow>
   emit p src splits no_more ready emit_empty s =
     (Inr (), (fst s, add_updates [upd p src splits no_more ready] (snd s)))"
  by (auto simp: emit_def append_update_ok push_update_def add_updates_def)

lemma emit_loop:
  assumes "\<And>x. x \<in> set xs \<Longrightarrow> emit_empty \<or> no_more x"
  shows "foldS (\<lambda>x. emit (p x) (src x) (splits x) (no_more x) False emit_empty) xs s =
           (Inr (), (fst s, add_updates (map (\<lambda>x. upd (p x) (src x) (splits x) (no_more x) False) xs) (snd s)))"
  using assms by (induction xs arbitrary: s) (auto simp: bindS_def emit_simp)

lemma grow_fields [simp]:
  "arb_next_partition_id (arb_grow_target_if_needed a) = arb_next_partition_id a"
  "arb_source_sequences (arb_grow_target_if_needed a) = arb_source_sequences a"
  "arb_catalog_requirement (arb_grow_target_if_needed a) = arb_catalog_requirement a"
  "arb_partitioned_sources (arb_grow_target_if_needed a) = arb_partitioned_sources a"
  "arb_replicated_sources (arb_grow_target_if_needed a) = arb_replicated_sources a"
  "arb_all_sources (arb_grow_target_if_needed a) = arb_all_sources a"
  "arb_completed_sources (arb_grow_target_if_needed a) = arb_completed_sources a"
  "arb_replicated_splits (arb_grow_target_if_needed a) = arb_replicated_splits a"
  "arb_no_more_replicated_splits (arb_grow_target_if_needed a) = arb_no_more_replicated_splits a"
  "arb_all_assignments (arb_grow_target_if_needed a) = arb_all_assignments a"
  "arb_open_assignments (arb_grow_target_if_needed a) = arb_open_assignments a"
  "arb_min_target (arb_grow_target_if_needed a) = arb_min_target a"
  "arb_max_target (arb_grow_target_if_needed a) = arb_max_target a"
  "arb_adaptive_growth_factor (arb_grow_target_if_needed a) = arb_adaptive_growth_factor a"
  "arb_standard_split_size_bytes (arb_grow_target_if_needed a) = arb_standard_split_size_bytes a"
  "arb_max_task_split_count (arb_grow_target_if_needed a) = arb_max_task_split_count a"
  "arb_finished (arb_grow_target_if_needed a) = arb_finished a"
  by (simp_all add: arb_grow_target_if_needed_def Let_def)

definition arb_closed :: "node_requirements \<Rightarrow> nat \<Rightarrow> arb_assigner \<Rightarrow> arb_assigner" where
  "arb_closed nr i a =
     arb_grow_target_if_needed
       (a\<lparr>arb_all_assignments := (arb_all_assignments a)[i := (arb_all_assignments a ! i)\<lparr>pa_full := True\<rparr>],
          arb_open_assignments := dict_pop nr (arb_open_assignments a)\<rparr>)"

lemma arb_close_full_simp:
  assumes "i < length (arb_all_assignments a)"
  shows "arb_close_full nr i (a, r) =
    (Inr (), (arb_closed nr i a,
       (if arb_replicated_done a then append_seal (arb_id a i) else id)
         (add_updates (map (\<lambda>ps. upd (arb_id a i) ps [] True False) (arb_partitioned_sources a)) r)))"
  using assms
  by (auto simp: arb_close_full_def bindS_def emit_loop arb_update_assignment_def arb_closed_def
      arb_replicated_done_def arb_id_def apfst_def)

definition arb_opened :: "node_requirements \<Rightarrow> arb_assigner \<Rightarrow> arb_assigner" where
  "arb_opened nr a =
     a\<lparr>arb_next_partition_id := arb_next_partition_id a + 1,
       arb_all_assignments := arb_all_assignments a @
         [\<lparr>pa_partition_id = arb_next_partition_id a, pa_assigned_data_size_bytes = 0,
           pa_assigned_split_count = 0, pa_full = False\<rparr>],
       arb_open_assignments := dict_set nr (length (arb_all_assignments a)) (arb_open_assignments a)\<rparr>"

definition arb_replay :: "arb_assigner \<Rightarrow> partition_update list" where
  "arb_replay a =
     map (\<lambda>rs. upd (arb_next_partition_id a) rs (dict_get_default (arb_replicated_splits a) rs [])
                   (rs \<in> set (arb_completed_sources a)) False) (arb_replicated_sources a)"

definition add_info :: "partition_info \<Rightarrow> assignment_result \<Rightarrow> assignment_result" where
  "add_info i r = r\<lparr>partitions_added := partitions_added r @ [i]\<rparr>"

lemma add_info_fields [simp]:
  "partition_updates (add_info i r) = partition_updates r"
  "partitions_added (add_info i r) = partitions_added r @ [i]"
  "sealed_partitions (add_info i r) = sealed_partitions r"
  by (simp_all add: add_info_def)

lemma arb_open_partition_simp:
  "arb_open_partition nr (a, r) =
    (Inr (length (arb_all_assignments a)),
      (arb_opened nr a,
       add_updates (arb_replay a)
         (add_info \<lparr>info_partition_id = arb_next_partition_id a, info_node_requirements = Some nr\<rparr> r)))"
  by (simp add: arb_open_partition_def arb_new_assignment_def bindS_def emit_loop arb_opened_def arb_replay_def
      arb_id_def Let_def add_info_def)

definition arb_put :: "nat \<Rightarrow> int \<Rightarrow> arb_assigner \<Rightarrow> arb_assigner" where
  "arb_put i sz a = arb_update_assignment i (assign_split sz) a"

text \<open>A placed split is the composition of at most one closing, at most one opening, and one delivery.\<close>

lemma arb_place_split_cases:
  assumes "arb_place_split src sp (a, r) = (Inr (), (a', r'))"
    and "\<And>nr i. dict_get (arb_open_assignments a) nr = Some i \<Longrightarrow> i < length (arb_all_assignments a)"
  obtains i nr a1 r1 a2 r2 where
    "(a1, r1) = (a, r) \<or>
     (\<exists>j. dict_get (arb_open_assignments a) nr = Some j \<and> arb_close_full nr j (a, r) = (Inr (), (a1, r1)))"
    "dict_get (arb_open_assignments a1) nr = Some i \<and> (a2, r2) = (a1, r1) \<and>
       \<not> arb_overflows a1 i (split_size_bytes sp (arb_standard_split_size_bytes a1)) \<or>
     dict_get (arb_open_assignments a1) nr = None \<and> arb_open_partition nr (a1, r1) = (Inr i, (a2, r2))"
    "dict_get (arb_open_assignments a2) nr = Some i"
    "a' = arb_put i (split_size_bytes sp (arb_standard_split_size_bytes a)) a2"
    "r' = add_updates [upd (arb_id a2 i) src [sp] False True] r2"
proof -
  obtain nr where nr: "arb_node_requirements a sp = Inr nr"
    using assms(1) by (cases "arb_node_requirements a sp") (auto simp: arb_place_split_def Let_def)
  let ?sz = "split_size_bytes sp (arb_standard_split_size_bytes a)"
  note def = arb_place_split_def Let_def nr bindS_def emit_simp apfst_def
  show ?thesis
  proof (cases "dict_get (arb_open_assignments a) nr")
    case None
    then show ?thesis
      using assms(1) by (intro that [of a r nr "length (arb_all_assignments a)"])
        (auto simp: def arb_open_partition_simp arb_put_def arb_opened_def)
  next
    case (Some j)
    note j = assms(2) [OF Some]
    show ?thesis
    proof (cases "arb_overflows a j ?sz")
      case False
      then show ?thesis
        using assms(1) Some by (intro that [of a r nr j]) (auto simp: def arb_put_def)
    next
      case True
      let ?r1 = "(if arb_replicated_done a then append_seal (arb_id a j) else id)
         (add_updates (map (\<lambda>ps. upd (arb_id a j) ps [] True False) (arb_partitioned_sources a)) r)"
      show ?thesis
        using assms(1) Some True j
        by (intro that [of "arb_closed nr j a" ?r1 nr "length (arb_all_assignments a)"])
          (auto simp: def arb_put_def arb_close_full_simp arb_open_partition_simp arb_closed_def arb_opened_def)
    qed
  qed
qed

section \<open>Well-formed states\<close>

lemma dict_values_pop:
  assumes "wf_dict d" and "distinct (dict_values d)" and "map_of d k = Some v"
  shows "set (dict_values (dict_pop k d)) = set (dict_values d) - {v}"
proof -
  have kv: "(k, v) \<in> set d" using assms(3) by (rule map_of_SomeD)
  have inj: "inj_on snd (set d)" using assms(2) by (simp add: distinct_map)
  have "fst e = k \<longleftrightarrow> snd e = v" if e: "e \<in> set d" for e
  proof
    assume "fst e = k"
    then have "(k, snd e) \<in> set d" using e by auto
    then show "snd e = v" using assms(1,3) by (simp add: wf_dict_get)
  next
    assume "snd e = v"
    then have "e = (k, v)" using inj_onD [OF inj _ e kv] by simp
    then show "fst e = k" by simp
  qed
  then show ?thesis by (auto simp: dict_pop_filter)
qed

definition arb_wf :: "arb_assigner \<Rightarrow> bool" where
  "arb_wf a =
     (arb_next_partition_id a = int (length (arb_all_assignments a)) \<and>
      (\<forall>i<length (arb_all_assignments a). pa_partition_id (arb_all_assignments a ! i) = int i) \<and>
      wf_dict (arb_open_assignments a) \<and> distinct (dict_values (arb_open_assignments a)) \<and>
      (\<forall>i\<in>set (dict_values (arb_open_assignments a)).
         i < length (arb_all_assignments a) \<and> \<not> pa_full (arb_all_assignments a ! i)))"

lemma arb_wf_id: "arb_wf a \<Longrightarrow> i < length (arb_all_assignments a) \<Longrightarrow> arb_id a i = int i"
  by (simp add: arb_wf_def arb_id_def)

lemma arb_wf_open:
  assumes "arb_wf a" and "dict_get (arb_open_assignments a) nr = Some i"
  shows "i < length (arb_all_assignments a)" and "\<not> pa_full (arb_all_assignments a ! i)"
    and "i \<in> set (dict_values (arb_open_assignments a))"
  using assms dict_get_in_values [OF assms(2)] by (auto simp: arb_wf_def)

lemma arb_closed_fields [simp]:
  "arb_next_partition_id (arb_closed nr i a) = arb_next_partition_id a"
  "arb_partitioned_sources (arb_closed nr i a) = arb_partitioned_sources a"
  "arb_replicated_sources (arb_closed nr i a) = arb_replicated_sources a"
  "arb_all_sources (arb_closed nr i a) = arb_all_sources a"
  "arb_completed_sources (arb_closed nr i a) = arb_completed_sources a"
  "arb_replicated_splits (arb_closed nr i a) = arb_replicated_splits a"
  "arb_no_more_replicated_splits (arb_closed nr i a) = arb_no_more_replicated_splits a"
  "arb_all_assignments (arb_closed nr i a) =
     (arb_all_assignments a)[i := (arb_all_assignments a ! i)\<lparr>pa_full := True\<rparr>]"
  "arb_open_assignments (arb_closed nr i a) = dict_pop nr (arb_open_assignments a)"
  "arb_standard_split_size_bytes (arb_closed nr i a) = arb_standard_split_size_bytes a"
  "arb_max_task_split_count (arb_closed nr i a) = arb_max_task_split_count a"
  "arb_finished (arb_closed nr i a) = arb_finished a"
  by (simp_all add: arb_closed_def)

lemma arb_opened_fields [simp]:
  "arb_next_partition_id (arb_opened nr a) = arb_next_partition_id a + 1"
  "arb_partitioned_sources (arb_opened nr a) = arb_partitioned_sources a"
  "arb_replicated_sources (arb_opened nr a) = arb_replicated_sources a"
  "arb_all_sources (arb_opened nr a) = arb_all_sources a"
  "arb_completed_sources (arb_opened nr a) = arb_completed_sources a"
  "arb_replicated_splits (arb_opened nr a) = arb_replicated_splits a"
  "arb_no_more_replicated_splits (arb_opened nr a) = arb_no_more_replicated_splits a"
  "arb_all_assignments (arb_opened nr a) = arb_all_assignments a @
     [\<lparr>pa_partition_id = arb_next_partition_id a, pa_assigned_data_size_bytes = 0,
       pa_assigned_split_count = 0, pa_full = False\<rparr>]"
  "arb_open_assignments (arb_opened nr a) = dict_set nr (length (arb_all_assignments a)) (arb_open_assignments a)"
  "arb_standard_split_size_bytes (arb_opened nr a) = arb_standard_split_size_bytes a"
  "arb_max_task_split_count (arb_opened nr a) = arb_max_task_split_count a"
  "arb_rounded_target (arb_opened nr a) = arb_rounded_target a"
  "arb_finished (arb_opened nr a) = arb_finished a"
  by (simp_all add: arb_opened_def)

lemma arb_put_fields [simp]:
  "arb_next_partition_id (arb_put i sz a) = arb_next_partition_id a"
  "arb_partitioned_sources (arb_put i sz a) = arb_partitioned_sources a"
  "arb_replicated_sources (arb_put i sz a) = arb_replicated_sources a"
  "arb_all_sources (arb_put i sz a) = arb_all_sources a"
  "arb_completed_sources (arb_put i sz a) = arb_completed_sources a"
  "arb_replicated_splits (arb_put i sz a) = arb_replicated_splits a"
  "arb_no_more_replicated_splits (arb_put i sz a) = arb_no_more_replicated_splits a"
  "arb_all_assignments (arb_put i sz a) = (arb_all_assignments a)[i := assign_split sz (arb_all_assignments a ! i)]"
  "arb_open_assignments (arb_put i sz a) = arb_open_assignments a"
  "arb_standard_split_size_bytes (arb_put i sz a) = arb_standard_split_size_bytes a"
  "arb_max_task_split_count (arb_put i sz a) = arb_max_task_split_count a"
  "arb_rounded_target (arb_put i sz a) = arb_rounded_target a"
  "arb_finished (arb_put i sz a) = arb_finished a"
  by (simp_all add: arb_put_def arb_update_assignment_def)

lemma assign_split_fields [simp]:
  "pa_partition_id (assign_split n pa) = pa_partition_id pa"
  "pa_assigned_data_size_bytes (assign_split n pa) = pa_assigned_data_size_bytes pa + n"
  "pa_assigned_split_count (assign_split n pa) = pa_assigned_split_count pa + 1"
  "pa_full (assign_split n pa) = pa_full pa"
  by (simp_all add: assign_split_def)

lemma arb_wf_closed:
  assumes "arb_wf a" and "dict_get (arb_open_assignments a) nr = Some i"
  shows "arb_wf (arb_closed nr i a)"
proof -
  note i = arb_wf_open [OF assms]
  have pop: "set (dict_values (dict_pop nr (arb_open_assignments a))) = set (dict_values (arb_open_assignments a)) - {i}"
    using assms by (intro dict_values_pop) (auto simp: arb_wf_def)
  have "distinct (dict_values (dict_pop nr (arb_open_assignments a)))"
    using assms(1) unfolding dict_pop_filter arb_wf_def by (simp add: distinct_map_filter)
  then show ?thesis using assms(1) i(1) pop by (auto simp: arb_wf_def nth_list_update)
qed

lemma arb_wf_opened:
  assumes "arb_wf a" and "dict_get (arb_open_assignments a) nr = None"
  shows "arb_wf (arb_opened nr a)"
proof -
  have "dict_set nr (length (arb_all_assignments a)) (arb_open_assignments a) =
        arb_open_assignments a @ [(nr, length (arb_all_assignments a))]"
    using assms(2) by (intro dict_set_new) (simp add: dict_has_def)
  moreover have "wf_dict (arb_open_assignments (arb_opened nr a))"
    using assms(1) by (simp add: arb_wf_def wf_dict_set)
  ultimately show ?thesis using assms(1) by (auto simp: arb_wf_def nth_append less_Suc_eq)
qed

lemma arb_wf_put: "arb_wf a \<Longrightarrow> arb_wf (arb_put i sz a)"
  by (cases "i < length (arb_all_assignments a)") (auto simp: arb_wf_def nth_list_update)

text \<open>
  The rule for whatever holds of the assigner and its result while a split is placed: it has to be
  kept by closing a full partition, by opening a partition, and by the delivery itself.
\<close>

lemma arb_place_split_rule:
  assumes "arb_place_split src sp (a, r) = (Inr (), (a', r'))" and "arb_wf a" and "P a r"
    and close: "\<And>nr i. arb_wf a \<Longrightarrow> P a r \<Longrightarrow> dict_get (arb_open_assignments a) nr = Some i \<Longrightarrow>
        P (arb_closed nr i a)
          ((if arb_replicated_done a then append_seal (int i) else id)
             (add_updates (map (\<lambda>ps. upd (int i) ps [] True False) (arb_partitioned_sources a)) r))"
    and opn: "\<And>nr a r. arb_wf a \<Longrightarrow> P a r \<Longrightarrow> dict_get (arb_open_assignments a) nr = None \<Longrightarrow>
        P (arb_opened nr a)
          (add_updates (arb_replay a)
            (add_info \<lparr>info_partition_id = arb_next_partition_id a, info_node_requirements = Some nr\<rparr> r))"
    and put: "\<And>nr i a r. arb_wf a \<Longrightarrow> P a r \<Longrightarrow> dict_get (arb_open_assignments a) nr = Some i \<Longrightarrow>
        \<not> arb_overflows a i (split_size_bytes sp (arb_standard_split_size_bytes a)) \<or>
          pa_assigned_split_count (arb_all_assignments a ! i) = 0 \<and>
          pa_assigned_data_size_bytes (arb_all_assignments a ! i) = 0 \<Longrightarrow>
        Q (arb_put i (split_size_bytes sp (arb_standard_split_size_bytes a)) a)
          (add_updates [upd (int i) src [sp] False True] r)"
  shows "arb_wf a' \<and> Q a' r'"
proof -
  have bound: "\<And>nr i. dict_get (arb_open_assignments a) nr = Some i \<Longrightarrow> i < length (arb_all_assignments a)"
    using arb_wf_open(1) [OF assms(2)] .
  from assms(1) bound obtain i nr a1 r1 a2 r2 where
    s1: "(a1, r1) = (a, r) \<or>
     (\<exists>j. dict_get (arb_open_assignments a) nr = Some j \<and> arb_close_full nr j (a, r) = (Inr (), (a1, r1)))"
    and s2: "dict_get (arb_open_assignments a1) nr = Some i \<and> (a2, r2) = (a1, r1) \<and>
       \<not> arb_overflows a1 i (split_size_bytes sp (arb_standard_split_size_bytes a1)) \<or>
     dict_get (arb_open_assignments a1) nr = None \<and> arb_open_partition nr (a1, r1) = (Inr i, (a2, r2))"
    and s3: "dict_get (arb_open_assignments a2) nr = Some i"
    and a': "a' = arb_put i (split_size_bytes sp (arb_standard_split_size_bytes a)) a2"
    and r': "r' = add_updates [upd (arb_id a2 i) src [sp] False True] r2"
    by (rule arb_place_split_cases)
  have A: "arb_wf a1 \<and> P a1 r1 \<and> arb_standard_split_size_bytes a1 = arb_standard_split_size_bytes a"
    using s1
  proof (elim disjE exE conjE)
    fix j assume j: "dict_get (arb_open_assignments a) nr = Some j"
      and c: "arb_close_full nr j (a, r) = (Inr (), (a1, r1))"
    show ?thesis
      using c close [OF assms(2,3) j] arb_wf_closed [OF assms(2) j] arb_wf_id [OF assms(2) bound [OF j]] bound [OF j]
      by (auto simp: arb_close_full_simp)
  qed (use assms(2,3) in simp)
  then have wf1: "arb_wf a1" and P1: "P a1 r1" and sz1: "arb_standard_split_size_bytes a1 = arb_standard_split_size_bytes a"
    by auto
  have B: "arb_wf a2 \<and> P a2 r2 \<and> arb_standard_split_size_bytes a2 = arb_standard_split_size_bytes a \<and>
     (\<not> arb_overflows a2 i (split_size_bytes sp (arb_standard_split_size_bytes a2)) \<or>
      pa_assigned_split_count (arb_all_assignments a2 ! i) = 0 \<and>
      pa_assigned_data_size_bytes (arb_all_assignments a2 ! i) = 0)"
    using s2
  proof (elim disjE conjE)
    assume n: "dict_get (arb_open_assignments a1) nr = None"
      and o: "arb_open_partition nr (a1, r1) = (Inr i, (a2, r2))"
    show ?thesis
      using o opn [OF wf1 P1 n] arb_wf_opened [OF wf1 n] sz1 by (auto simp: arb_open_partition_simp)
  qed (use wf1 P1 sz1 in auto)
  then have wf2: "arb_wf a2" and P2: "P a2 r2" and sz2: "arb_standard_split_size_bytes a2 = arb_standard_split_size_bytes a"
    by auto
  have "arb_id a2 i = int i" using arb_wf_id [OF wf2 arb_wf_open(1) [OF wf2 s3]] .
  then show ?thesis using put [OF wf2 P2 s3] B arb_wf_put [OF wf2] by (simp add: a' r' sz2)
qed

end
