(* ===== verification/Arbitrary_Run.thy ===== *)
theory Arbitrary_Run
  imports Arbitrary_Assigner
begin

text \<open>
  Correctness of \<open>ArbitrarySplitAssigner\<close> over whole runs: what the sequence of its results delivers
  to every partition, how full the partitions get, and when they are closed and sealed. The
  invariants relate the assigner's state to everything it has returned so far.
\<close>

section \<open>Accumulating results\<close>

lemma fold_set_add_set [simp]: "set (fold set_add xs ys) = set xs \<union> set ys"
  by (induction xs arbitrary: ys) auto

lemma set_add_absorb: "x \<in> set xs \<Longrightarrow> set_add x xs = xs"
  by (simp add: set_add_def)

lemma fold_set_add_snoc: "fold set_add (xs @ [x]) ys = set_add x (fold set_add xs ys)"
  by simp

lemma fold_set_add_fold: "fold set_add (fold set_add ys zs) b = fold set_add ys (fold set_add zs b)"
proof (induction ys rule: rev_induct)
  case (snoc y ys)
  have "fold set_add (set_add y (fold set_add ys zs)) b = set_add y (fold set_add (fold set_add ys zs) b)"
    by (cases "y \<in> set (fold set_add ys zs)") (auto simp: set_add_def)
  then show ?case using snoc by simp
qed simp

lemma merge_fields [simp]:
  "partitions_added (merge_assignment_results l r) = partitions_added l @ partitions_added r"
  "partition_updates (merge_assignment_results l r) = partition_updates l @ partition_updates r"
  "set (sealed_partitions (merge_assignment_results l r)) = set (sealed_partitions l) \<union> set (sealed_partitions r)"
  by (auto simp: merge_assignment_results_def)

lemma merge_empty [simp]: "merge_assignment_results acc empty_result = acc"
  by (simp add: merge_assignment_results_def empty_result_def)

lemma merge_assoc:
  "merge_assignment_results acc (merge_assignment_results l r) =
   merge_assignment_results (merge_assignment_results acc l) r"
  by (simp add: merge_assignment_results_def fold_set_add_fold)

lemma merge_add_updates [simp]:
  "merge_assignment_results acc (add_updates us r) = add_updates us (merge_assignment_results acc r)"
  by (simp add: merge_assignment_results_def add_updates_def)

lemma merge_add_info [simp]:
  "merge_assignment_results acc (add_info i r) = add_info i (merge_assignment_results acc r)"
  by (simp add: merge_assignment_results_def add_info_def)

lemma append_seal_set_add: "append_seal p r = r\<lparr>sealed_partitions := set_add p (sealed_partitions r)\<rparr>"
  by (simp add: append_seal_def set_add_def)

lemma merge_append_seal [simp]:
  "merge_assignment_results acc (append_seal p r) = append_seal p (merge_assignment_results acc r)"
proof -
  have "fold set_add (set_add p (sealed_partitions r)) (sealed_partitions acc) =
        set_add p (fold set_add (sealed_partitions r) (sealed_partitions acc))"
    by (cases "p \<in> set (sealed_partitions r)") (auto simp: set_add_def)
  then show ?thesis by (simp add: merge_assignment_results_def append_seal_set_add)
qed

section \<open>What is known of the state and of everything returned so far\<close>

abbreviation arb_len :: "arb_assigner \<Rightarrow> nat" where
  "arb_len a \<equiv> length (arb_all_assignments a)"

text \<open>The splits of partitioned sources that a sequence of updates brings to a partition.\<close>

definition placed :: "string list \<Rightarrow> partition_update list \<Rightarrow> int \<Rightarrow> fte_split list" where
  "placed repl us p =
     concat (map upd_splits (filter (\<lambda>u. upd_partition_id u = p \<and> upd_source_node_id u \<notin> set repl) us))"

text \<open>The splits of a source that a sequence of updates brings to any partition.\<close>

definition sent :: "partition_update list \<Rightarrow> string \<Rightarrow> fte_split list" where
  "sent us src = concat (map upd_splits (filter (\<lambda>u. upd_source_node_id u = src) us))"

definition total_size :: "int \<Rightarrow> fte_split list \<Rightarrow> int" where
  "total_size standard sps = (\<Sum>sp\<leftarrow>sps. split_size_bytes sp standard)"

definition refs_ok :: "arb_assigner \<Rightarrow> assignment_result \<Rightarrow> bool" where
  "refs_ok a acc =
     ((\<forall>u\<in>set (partition_updates acc). \<exists>i<arb_len a. upd_partition_id u = int i) \<and>
      (\<forall>p\<in>set (sealed_partitions acc). \<exists>i<arb_len a. p = int i) \<and>
      map info_partition_id (partitions_added acc) = map int [0..<arb_len a] \<and>
      list_all update_ok (partition_updates acc))"

definition deliver_ok :: "(string \<Rightarrow> fte_split list) \<Rightarrow> arb_assigner \<Rightarrow> assignment_result \<Rightarrow> bool" where
  "deliver_ok inputs a acc =
     (\<forall>src.
        (src \<in> set (arb_replicated_sources a) \<longrightarrow>
           (\<forall>i<arb_len a. delivered (partition_updates acc) (int i) src = inputs src) \<and>
           (\<not> arb_finished a \<longrightarrow> dict_get_default (arb_replicated_splits a) src [] = inputs src)) \<and>
        (src \<notin> set (arb_replicated_sources a) \<longrightarrow> sent (partition_updates acc) src = inputs src))"

definition count_ok :: "arb_assigner \<Rightarrow> assignment_result \<Rightarrow> bool" where
  "count_ok a acc =
     (1 \<le> arb_max_task_split_count a \<and>
      (\<forall>i<arb_len a.
         let sps = placed (arb_replicated_sources a) (partition_updates acc) (int i);
             pa = arb_all_assignments a ! i in
         pa_assigned_split_count pa = int (length sps) \<and>
         pa_assigned_data_size_bytes pa = total_size (arb_standard_split_size_bytes a) sps \<and>
         int (length sps) \<le> arb_max_task_split_count a))"

definition close_ok :: "arb_assigner \<Rightarrow> assignment_result \<Rightarrow> bool" where
  "close_ok a acc =
     (\<forall>i<arb_len a.
        (pa_full (arb_all_assignments a ! i) \<longrightarrow>
           (\<forall>src\<in>set (arb_partitioned_sources a). source_closed (partition_updates acc) (int i) src) \<and>
           (arb_replicated_done a \<longrightarrow> int i \<in> set (sealed_partitions acc))) \<and>
        (\<forall>src\<in>set (arb_replicated_sources a) \<inter> set (arb_completed_sources a).
           source_closed (partition_updates acc) (int i) src) \<and>
        (\<not> arb_finished a \<longrightarrow>
           pa_full (arb_all_assignments a ! i) \<or> i \<in> set (dict_values (arb_open_assignments a))) \<and>
        (arb_finished a \<longrightarrow>
           int i \<in> set (sealed_partitions acc) \<and>
           (\<forall>src\<in>set (arb_partitioned_sources a) \<union> set (arb_replicated_sources a).
              source_closed (partition_updates acc) (int i) src)))"

definition arb_ok :: "(string \<Rightarrow> fte_split list) \<Rightarrow> arb_assigner \<Rightarrow> assignment_result \<Rightarrow> bool" where
  "arb_ok inputs a acc =
     (refs_ok a acc \<and> deliver_ok inputs a acc \<and> count_ok a acc \<and> close_ok a acc)"

lemma sent_append [simp]: "sent (us @ vs) src = sent us src @ sent vs src"
  by (simp add: sent_def)

lemma placed_append [simp]: "placed repl (us @ vs) p = placed repl us p @ placed repl vs p"
  by (simp add: placed_def)

lemma sent_no_splits: "(\<And>u. u \<in> set us \<Longrightarrow> upd_splits u = []) \<Longrightarrow> sent us src = []"
  by (auto simp: sent_def)

lemma placed_no_splits: "(\<And>u. u \<in> set us \<Longrightarrow> upd_splits u = []) \<Longrightarrow> placed repl us p = []"
  by (auto simp: placed_def)

lemma placed_replicated:
  "(\<And>u. u \<in> set us \<Longrightarrow> upd_source_node_id u \<in> set repl) \<Longrightarrow> placed repl us p = []"
  by (auto simp: placed_def)

lemma sent_other: "(\<And>u. u \<in> set us \<Longrightarrow> upd_source_node_id u \<noteq> src) \<Longrightarrow> sent us src = []"
  by (auto simp: sent_def)

lemma placed_other: "(\<And>u. u \<in> set us \<Longrightarrow> upd_partition_id u \<noteq> p) \<Longrightarrow> placed repl us p = []"
  by (auto simp: placed_def)

lemma total_size_simps [simp]:
  "total_size st [] = 0" "total_size st (xs @ ys) = total_size st xs + total_size st ys"
  "total_size st [x] = split_size_bytes x st"
  by (simp_all add: total_size_def)

lemma closing_updates [simp]:
  "sent (map (\<lambda>x. upd (q x) (f x) [] nm rd) xs) src = []"
  "placed repl (map (\<lambda>x. upd (q x) (f x) [] nm rd) xs) p = []"
  by (auto intro!: sent_no_splits placed_no_splits)

section \<open>Closing a full partition\<close>

lemma refs_ok_closed:
  assumes "refs_ok a acc" and "i < arb_len a"
  shows "refs_ok (arb_closed nr i a)
          ((if b then append_seal (int i) else id) (add_updates (map (\<lambda>ps. upd (int i) ps [] True False) xs) acc))"
  using assms by (auto simp: refs_ok_def update_ok_def list_all_iff)

lemma deliver_ok_closed:
  "deliver_ok inputs a acc \<Longrightarrow>
   deliver_ok inputs (arb_closed nr i a)
     ((if b then append_seal (int i) else id) (add_updates (map (\<lambda>ps. upd (int i) ps [] True False) xs) acc))"
  by (auto simp: deliver_ok_def)

lemma count_ok_closed:
  "count_ok a acc \<Longrightarrow>
   count_ok (arb_closed nr i a)
     ((if b then append_seal (int i) else id) (add_updates (map (\<lambda>ps. upd (int i) ps [] True False) xs) acc))"
  by (cases "i < arb_len a") (auto simp: count_ok_def Let_def nth_list_update)

lemma close_ok_closed:
  assumes "arb_wf a" and "close_ok a acc" and "dict_get (arb_open_assignments a) nr = Some i"
    and "\<not> arb_finished a"
  shows "close_ok (arb_closed nr i a)
          ((if arb_replicated_done a then append_seal (int i) else id)
             (add_updates (map (\<lambda>ps. upd (int i) ps [] True False) (arb_partitioned_sources a)) acc))"
proof -
  have pop: "set (dict_values (dict_pop nr (arb_open_assignments a))) = set (dict_values (arb_open_assignments a)) - {i}"
    using assms(1,3) by (intro dict_values_pop) (auto simp: arb_wf_def)
  show ?thesis
    using assms(2,4) arb_wf_open(1) [OF assms(1,3)] pop
    by (auto simp: close_ok_def source_closed_per_source nth_list_update arb_replicated_done_def)
qed

section \<open>Opening a partition\<close>

definition opened_result :: "node_requirements \<Rightarrow> arb_assigner \<Rightarrow> assignment_result \<Rightarrow> assignment_result" where
  "opened_result nr a r =
     add_updates (arb_replay a)
       (add_info \<lparr>info_partition_id = arb_next_partition_id a, info_node_requirements = Some nr\<rparr> r)"

lemma opened_result_fields [simp]:
  "partition_updates (opened_result nr a r) = partition_updates r @ arb_replay a"
  "sealed_partitions (opened_result nr a r) = sealed_partitions r"
  "map info_partition_id (partitions_added (opened_result nr a r)) =
     map info_partition_id (partitions_added r) @ [arb_next_partition_id a]"
  by (simp_all add: opened_result_def)

lemma refs_ok_opened:
  "arb_wf a \<Longrightarrow> refs_ok a acc \<Longrightarrow> refs_ok (arb_opened nr a) (opened_result nr a acc)"
  unfolding refs_ok_def
  by (auto simp: arb_wf_def arb_replay_def update_ok_def list_all_iff less_Suc_eq)

lemma fresh_partition:
  assumes "refs_ok a acc"
  shows "delivered (partition_updates acc) (int (arb_len a)) src = []"
    and "placed repl (partition_updates acc) (int (arb_len a)) = []"
  using assms by (force simp: refs_ok_def intro!: delivered_other placed_other)+

lemma deliver_ok_opened:
  assumes "arb_wf a" and "refs_ok a acc" and "distinct (arb_replicated_sources a)" and "\<not> arb_finished a"
    and "deliver_ok inputs a acc"
  shows "deliver_ok inputs (arb_opened nr a) (opened_result nr a acc)"
proof -
  have next_id: "arb_next_partition_id a = int (arb_len a)" using assms(1) by (simp add: arb_wf_def)
  have "sent (arb_replay a) src = []" if "src \<notin> set (arb_replicated_sources a)" for src
    using that by (auto simp: arb_replay_def intro!: sent_other)
  moreover have "delivered (arb_replay a) (int i) src =
      (if i = arb_len a then dict_get_default (arb_replicated_splits a) src [] else [])"
    if "src \<in> set (arb_replicated_sources a)" for src i
    using assms(3) that by (simp add: arb_replay_def next_id delivered_per_source)
  ultimately show ?thesis
    using assms(4,5) fresh_partition(1) [OF assms(2)]
    unfolding deliver_ok_def by (auto simp: less_Suc_eq)
qed

lemma count_ok_opened:
  assumes "arb_wf a" and "refs_ok a acc" and "count_ok a acc"
  shows "count_ok (arb_opened nr a) (opened_result nr a acc)"
proof -
  have "placed (arb_replicated_sources a) (arb_replay a) p = []" for p
    by (auto simp: arb_replay_def intro!: placed_replicated)
  then show ?thesis
    using assms(3) fresh_partition(2) [OF assms(2)]
    by (auto simp: count_ok_def Let_def nth_append less_Suc_eq)
qed

lemma close_ok_opened:
  assumes "arb_wf a" and "close_ok a acc" and "dict_get (arb_open_assignments a) nr = None" and "\<not> arb_finished a"
  shows "close_ok (arb_opened nr a) (opened_result nr a acc)"
proof -
  have set: "dict_set nr (arb_len a) (arb_open_assignments a) = arb_open_assignments a @ [(nr, arb_len a)]"
    using assms(3) by (intro dict_set_new) (simp add: dict_has_def)
  have next_id: "arb_next_partition_id a = int (arb_len a)" using assms(1) by (simp add: arb_wf_def)
  show ?thesis
    using assms(2,4) unfolding close_ok_def
    by (auto simp: set nth_append less_Suc_eq arb_replay_def source_closed_per_source next_id arb_replicated_done_def)
qed

section \<open>Delivering a split of a partitioned source\<close>

lemma refs_ok_put:
  "refs_ok a acc \<Longrightarrow> i < arb_len a \<Longrightarrow>
   refs_ok (arb_put i sz a) (add_updates [upd (int i) src [sp] False True] acc)"
  by (auto simp: refs_ok_def update_ok_def)

lemma deliver_ok_put:
  "deliver_ok inputs a acc \<Longrightarrow> src \<notin> set (arb_replicated_sources a) \<Longrightarrow>
   deliver_ok (inputs(src := inputs src @ [sp])) (arb_put i sz a) (add_updates [upd (int i) src [sp] False True] acc)"
  by (auto simp: deliver_ok_def) (simp_all add: sent_def)

lemma count_ok_put:
  assumes "count_ok a acc" and "src \<notin> set (arb_replicated_sources a)" and "i < arb_len a"
    and "sz = split_size_bytes sp (arb_standard_split_size_bytes a)"
    and "\<not> arb_overflows a i sz \<or> pa_assigned_split_count (arb_all_assignments a ! i) = 0"
  shows "count_ok (arb_put i sz a) (add_updates [upd (int i) src [sp] False True] acc)"
proof -
  have p: "placed (arb_replicated_sources a) [upd (int i) src [sp] False True] (int j) = (if j = i then [sp] else [])" for j
    using assms(2) by (auto simp: placed_def)
  have "int (length (placed (arb_replicated_sources a) (partition_updates acc) (int i))) + 1 \<le> arb_max_task_split_count a"
    using assms(1,3,5) by (auto simp: count_ok_def arb_overflows_def Let_def)
  then show ?thesis
    using assms(1,3,4) by (auto simp: count_ok_def Let_def p nth_list_update)
qed

lemma close_ok_put:
  "close_ok a acc \<Longrightarrow> i < arb_len a \<Longrightarrow>
   close_ok (arb_put i sz a) (add_updates [upd (int i) src [sp] False True] acc)"
  by (auto simp: close_ok_def nth_list_update arb_replicated_done_def)

text \<open>The fields that no placement changes.\<close>

definition arb_frame :: "arb_assigner \<Rightarrow> arb_assigner \<Rightarrow> bool" where
  "arb_frame a b =
     (arb_partitioned_sources b = arb_partitioned_sources a \<and>
      arb_replicated_sources b = arb_replicated_sources a \<and>
      arb_all_sources b = arb_all_sources a \<and> arb_completed_sources b = arb_completed_sources a \<and>
      arb_finished b = arb_finished a \<and>
      arb_max_task_split_count b = arb_max_task_split_count a \<and>
      arb_standard_split_size_bytes b = arb_standard_split_size_bytes a)"

lemma arb_frame_steps:
  "arb_frame a b \<Longrightarrow> arb_frame a (arb_closed nr i b)"
  "arb_frame a b \<Longrightarrow> arb_frame a (arb_opened nr b)"
  "arb_frame a b \<Longrightarrow> arb_frame a (arb_put i sz b)"
  by (simp_all add: arb_frame_def)

lemma arb_ok_place_split:
  assumes place: "arb_place_split src sp (b, r) = (Inr (), (b', r'))" and wf: "arb_wf b"
    and ok: "arb_ok inputs b (merge_assignment_results acc r)" and fr: "arb_frame a b"
    and repl: "distinct (arb_replicated_sources a)" "src \<notin> set (arb_replicated_sources a)" "\<not> arb_finished a"
  shows "arb_wf b' \<and> arb_frame a b' \<and>
         arb_ok (inputs(src := inputs src @ [sp])) b' (merge_assignment_results acc r')"
proof (rule arb_place_split_rule [OF place wf,
    where P = "\<lambda>b r. arb_frame a b \<and> arb_ok inputs b (merge_assignment_results acc r)"])
  show "arb_frame a b \<and> arb_ok inputs b (merge_assignment_results acc r)" using fr ok by simp
next
  fix nr i
  assume w: "arb_wf b" and P: "arb_frame a b \<and> arb_ok inputs b (merge_assignment_results acc r)"
    and i: "dict_get (arb_open_assignments b) nr = Some i"
  have fin: "\<not> arb_finished b" using P repl(3) by (simp add: arb_frame_def)
  let ?acc = "merge_assignment_results acc r"
  let ?us = "map (\<lambda>ps. upd (int i) ps [] True False) (arb_partitioned_sources b)"
  have "arb_ok inputs (arb_closed nr i b)
      ((if arb_replicated_done b then append_seal (int i) else id) (add_updates ?us ?acc))"
    using P fin unfolding arb_ok_def
    by (blast intro: refs_ok_closed deliver_ok_closed count_ok_closed close_ok_closed arb_wf_open(1) [OF w i] w i)
  then show "arb_frame a (arb_closed nr i b) \<and> arb_ok inputs (arb_closed nr i b)
      (merge_assignment_results acc ((if arb_replicated_done b then append_seal (int i) else id) (add_updates ?us r)))"
    using P by (cases "arb_replicated_done b") (simp_all add: arb_frame_steps)
next
  fix nr b r
  assume w: "arb_wf b" and P: "arb_frame a b \<and> arb_ok inputs b (merge_assignment_results acc r)"
    and n: "dict_get (arb_open_assignments b) nr = None"
  have "arb_ok inputs (arb_opened nr b) (opened_result nr b (merge_assignment_results acc r))"
    using P repl(1,3) unfolding arb_ok_def
    by (auto intro!: refs_ok_opened deliver_ok_opened count_ok_opened close_ok_opened w n simp: arb_frame_def)
  then show "arb_frame a (arb_opened nr b) \<and> arb_ok inputs (arb_opened nr b)
      (merge_assignment_results acc (add_updates (arb_replay b)
         (add_info \<lparr>info_partition_id = arb_next_partition_id b, info_node_requirements = Some nr\<rparr> r)))"
    using P by (simp add: arb_frame_steps opened_result_def)
next
  fix nr i b r
  assume w: "arb_wf b" and P: "arb_frame a b \<and> arb_ok inputs b (merge_assignment_results acc r)"
    and i: "dict_get (arb_open_assignments b) nr = Some i"
    and o: "\<not> arb_overflows b i (split_size_bytes sp (arb_standard_split_size_bytes b)) \<or>
          pa_assigned_split_count (arb_all_assignments b ! i) = 0 \<and>
          pa_assigned_data_size_bytes (arb_all_assignments b ! i) = 0"
  then show "arb_frame a (arb_put i (split_size_bytes sp (arb_standard_split_size_bytes b)) b) \<and>
      arb_ok (inputs(src := inputs src @ [sp])) (arb_put i (split_size_bytes sp (arb_standard_split_size_bytes b)) b)
        (merge_assignment_results acc (add_updates [upd (int i) src [sp] False True] r))"
    using repl(2) unfolding arb_ok_def
    by (auto simp: arb_frame_steps
        intro!: refs_ok_put deliver_ok_put count_ok_put close_ok_put arb_wf_open(1) [OF w i])
      (simp_all add: arb_frame_def)
qed

lemma arb_ok_place_splits:
  assumes "foldS (arb_place_split src) sps (b, r) = (Inr (), (b', r'))" and "arb_wf b"
    and "arb_ok inputs b (merge_assignment_results acc r)" and "arb_frame a b"
    and repl: "distinct (arb_replicated_sources a)" "src \<notin> set (arb_replicated_sources a)" "\<not> arb_finished a"
  shows "arb_wf b' \<and> arb_frame a b' \<and>
         arb_ok (inputs(src := inputs src @ sps)) b' (merge_assignment_results acc r')"
  using assms(1-4)
proof (induction sps arbitrary: b r inputs)
  case (Cons sp sps)
  then obtain b1 r1 where one: "arb_place_split src sp (b, r) = (Inr (), (b1, r1))"
    and rest: "foldS (arb_place_split src) sps (b1, r1) = (Inr (), (b', r'))"
    by (auto simp: bindS_eq_Inr)
  have twice: "(inputs(src := inputs src @ [sp]))(src := (inputs(src := inputs src @ [sp])) src @ sps) =
      inputs(src := inputs src @ sp # sps)" by (simp add: fun_eq_iff)
  show ?case
    using Cons.IH [OF rest, of "inputs(src := inputs src @ [sp])"]
      arb_ok_place_split [OF one Cons.prems(2-4) repl] unfolding twice by blast
qed simp

section \<open>Finishing\<close>

definition arb_complete :: "arb_assigner \<Rightarrow> bool" where
  "arb_complete a = (arb_all_sources a \<noteq> [] \<and> set (arb_all_sources a) \<subseteq> set (arb_completed_sources a))"

definition closing_updates_of :: "arb_assigner \<Rightarrow> partition_update list" where
  "closing_updates_of a =
     concat (map (\<lambda>i. map (\<lambda>ps. upd (arb_id a i) ps [] True False) (arb_partitioned_sources a))
                 (dict_values (arb_open_assignments a)))"

lemma closing_loop:
  "foldS (\<lambda>i. bindS (foldS (\<lambda>ps. emit (q i) ps [] True False False) ps) (\<lambda>_. modS (apsnd (append_seal (q i))))) is (a, r) =
     (Inr (), (a, fold (\<lambda>i r. append_seal (q i) (add_updates (map (\<lambda>ps. upd (q i) ps [] True False) ps) r)) is r))"
  by (induction "is" arbitrary: r) (simp_all add: bindS_def emit_loop)

lemma closing_fold:
  "partition_updates (fold (\<lambda>i r. append_seal (q i) (add_updates (us i) r)) is r) =
     partition_updates r @ concat (map us is)"
  "partitions_added (fold (\<lambda>i r. append_seal (q i) (add_updates (us i) r)) is r) = partitions_added r"
  "set (sealed_partitions (fold (\<lambda>i r. append_seal (q i) (add_updates (us i) r)) is r)) =
     set (sealed_partitions r) \<union> q ` set is"
  by (induction "is" arbitrary: r) auto

definition arb_only_partition :: "arb_assigner \<Rightarrow> arb_assigner" where
  "arb_only_partition a =
     a\<lparr>arb_next_partition_id := max (arb_next_partition_id a) 1,
       arb_all_assignments := [\<lparr>pa_partition_id = 0, pa_assigned_data_size_bytes = 0,
                                pa_assigned_split_count = 0, pa_full = False\<rparr>],
       arb_replicated_splits := [], arb_finished := True\<rparr>"

lemma arb_finish_idle:
  "\<not> arb_complete a \<Longrightarrow> arb_finish_if_all_sources_completed a = (Inr empty_result, a)"
  by (auto simp: arb_finish_if_all_sources_completed_def arb_complete_def)

lemma arb_finish_empty:
  assumes "arb_complete a" and "arb_all_assignments a = []"
  shows "\<exists>r. arb_finish_if_all_sources_completed a = (Inr r, arb_only_partition a) \<and>
           map info_partition_id (partitions_added r) = [0] \<and> sealed_partitions r = [0] \<and>
           partition_updates r =
             map (\<lambda>rs. upd 0 rs (dict_get_default (arb_replicated_splits a) rs []) True False) (arb_replicated_sources a) @
             map (\<lambda>ps. upd 0 ps [] True False) (arb_partitioned_sources a)"
proof -
  from assms(1) have c: "\<not> (arb_all_sources a = [] \<or> \<not> set (arb_all_sources a) \<subseteq> set (arb_completed_sources a))"
    by (simp add: arb_complete_def)
  show ?thesis
    unfolding arb_finish_if_all_sources_completed_def if_not_P [OF c] if_P [OF assms(2)]
    by (simp add: bindS_def emit_loop arb_only_partition_def append_seal_def)
qed

lemma arb_finish_rest:
  assumes "arb_complete a" and "arb_all_assignments a \<noteq> []"
  shows "\<exists>r. arb_finish_if_all_sources_completed a =
             (Inr r, a\<lparr>arb_open_assignments := [], arb_replicated_splits := [], arb_finished := True\<rparr>) \<and>
           partitions_added r = [] \<and> partition_updates r = closing_updates_of a \<and>
           set (sealed_partitions r) = arb_id a ` set (dict_values (arb_open_assignments a))"
proof -
  from assms(1) have c: "\<not> (arb_all_sources a = [] \<or> \<not> set (arb_all_sources a) \<subseteq> set (arb_completed_sources a))"
    by (simp add: arb_complete_def)
  show ?thesis
    unfolding arb_finish_if_all_sources_completed_def if_not_P [OF c] if_not_P [OF assms(2)]
    by (simp add: bindS_def closing_loop closing_fold closing_updates_of_def)
qed

lemma arb_finish_cases [consumes 1, case_names idle only rest]:
  assumes "arb_finish_if_all_sources_completed a = (Inr r, b)"
  obtains "\<not> arb_complete a" "r = empty_result" "b = a"
  | "arb_complete a" "arb_all_assignments a = []" "b = arb_only_partition a"
    "map info_partition_id (partitions_added r) = [0]" "sealed_partitions r = [0]"
    "partition_updates r =
       map (\<lambda>rs. upd 0 rs (dict_get_default (arb_replicated_splits a) rs []) True False) (arb_replicated_sources a) @
       map (\<lambda>ps. upd 0 ps [] True False) (arb_partitioned_sources a)"
  | "arb_complete a" "arb_all_assignments a \<noteq> []"
    "b = a\<lparr>arb_open_assignments := [], arb_replicated_splits := [], arb_finished := True\<rparr>"
    "partitions_added r = []" "partition_updates r = closing_updates_of a"
    "set (sealed_partitions r) = arb_id a ` set (dict_values (arb_open_assignments a))"
proof (cases "arb_complete a")
  case False
  then show ?thesis using arb_finish_idle [OF False] assms by (intro that(1)) simp_all
next
  case c: True
  show ?thesis
  proof (cases "arb_all_assignments a = []")
    case True
    from arb_finish_empty [OF c True] assms show ?thesis by (elim exE conjE) (rule that(2) [OF c True]; simp)
  next
    case False
    from arb_finish_rest [OF c False] assms show ?thesis
      by (elim exE conjE) (rule that(3) [OF c False]; simp del: set_map)
  qed
qed

lemma source_closed_closing:
  "source_closed (closing_updates_of a) p src \<longleftrightarrow>
   src \<in> set (arb_partitioned_sources a) \<and> p \<in> arb_id a ` set (dict_values (arb_open_assignments a))"
  by (auto simp: closing_updates_of_def source_closed_iff)

lemma closing_updates_of_no_splits:
  "delivered (closing_updates_of a) p src = []" "sent (closing_updates_of a) src = []"
  "placed repl (closing_updates_of a) p = []"
  by (auto simp: closing_updates_of_def intro!: delivered_no_splits sent_no_splits placed_no_splits)

definition sources_ok :: "arb_assigner \<Rightarrow> bool" where
  "sources_ok a =
     (distinct (arb_replicated_sources a) \<and>
      set (arb_partitioned_sources a) \<union> set (arb_replicated_sources a) = set (arb_all_sources a) \<and>
      (arb_all_sources a = [] \<longrightarrow> arb_all_assignments a = []))"

lemma closing_updates_of_refs:
  assumes "arb_wf a" and "u \<in> set (closing_updates_of a)"
  shows "\<exists>j<arb_len a. upd_partition_id u = int j" and "update_ok u"
proof -
  from assms(2) obtain nr i ps where i: "(nr, i) \<in> set (arb_open_assignments a)"
    and u: "u = upd (arb_id a i) ps [] True False"
    by (auto simp: closing_updates_of_def)
  then show "update_ok u" by (simp add: update_ok_def)
  have "i < arb_len a" using assms(1) i by (force simp: arb_wf_def)
  then show "\<exists>j<arb_len a. upd_partition_id u = int j" using arb_wf_id [OF assms(1)] u by auto
qed

lemma open_ids:
  assumes "arb_wf a"
  shows "arb_id a ` set (dict_values (arb_open_assignments a)) = int ` set (dict_values (arb_open_assignments a))"
  using assms arb_wf_id [OF assms] by (intro image_cong) (auto simp: arb_wf_def)

lemma finish_refs_ok:
  assumes "arb_finish_if_all_sources_completed a = (Inr r, b)" and "arb_wf a" and "refs_ok a acc"
  shows "arb_wf b \<and> refs_ok b (merge_assignment_results acc r)"
  using assms(1)
proof (cases rule: arb_finish_cases)
  case idle
  then show ?thesis using assms by simp
next
  case only
  then show ?thesis using assms(2,3)
    by (auto simp: arb_wf_def refs_ok_def arb_only_partition_def update_ok_def list_all_iff)
next
  case rest
  have "\<forall>p\<in>set (sealed_partitions r). \<exists>i<arb_len a. p = int i"
    using assms(2) unfolding rest(6) open_ids [OF assms(2)] by (auto simp: arb_wf_def)
  then show ?thesis using assms(2,3) rest(3-5) closing_updates_of_refs [OF assms(2)]
    by (auto simp: arb_wf_def refs_ok_def list_all_iff)
qed

lemma finish_deliver_ok:
  assumes "arb_finish_if_all_sources_completed a = (Inr r, b)" and "deliver_ok inputs a acc"
    and "distinct (arb_replicated_sources a)" and "\<not> arb_finished a" and "refs_ok a acc"
  shows "deliver_ok inputs b (merge_assignment_results acc r)"
  using assms(1)
proof (cases rule: arb_finish_cases)
  case idle
  then show ?thesis using assms by simp
next
  case only
  have "delivered (partition_updates acc) 0 src = []" for src
    using fresh_partition(1) [OF assms(5)] only(2) by simp
  moreover have "sent (map (\<lambda>rs. upd 0 rs (dict_get_default (arb_replicated_splits a) rs []) True False)
      (arb_replicated_sources a)) src = []" if "src \<notin> set (arb_replicated_sources a)" for src
    using that by (auto intro!: sent_other)
  ultimately show ?thesis using assms(2-4) only
    by (auto simp: deliver_ok_def arb_only_partition_def delivered_per_source)
next
  case rest
  then show ?thesis using assms(2,4) by (auto simp: deliver_ok_def closing_updates_of_no_splits)
qed

lemma finish_count_ok:
  assumes "arb_finish_if_all_sources_completed a = (Inr r, b)" and "count_ok a acc" and "refs_ok a acc"
  shows "count_ok b (merge_assignment_results acc r)"
  using assms(1)
proof (cases rule: arb_finish_cases)
  case idle
  then show ?thesis using assms by simp
next
  case only
  have "placed (arb_replicated_sources a) (partition_updates acc) 0 = []"
    using fresh_partition(2) [OF assms(3)] only(2) by simp
  moreover have "placed (arb_replicated_sources a)
      (map (\<lambda>rs. upd 0 rs (dict_get_default (arb_replicated_splits a) rs []) True False) (arb_replicated_sources a)) 0 = []"
    by (auto intro!: placed_replicated)
  ultimately show ?thesis using assms(2) only by (simp add: count_ok_def arb_only_partition_def)
next
  case rest
  then show ?thesis using assms(2) by (simp add: count_ok_def closing_updates_of_no_splits)
qed

lemma finish_close_ok:
  assumes "arb_finish_if_all_sources_completed a = (Inr r, b)" and "close_ok a acc" and "arb_wf a"
    and "sources_ok a" and "\<not> arb_finished a"
  shows "close_ok b (merge_assignment_results acc r)"
  using assms(1)
proof (cases rule: arb_finish_cases)
  case idle
  then show ?thesis using assms by simp
next
  case only
  then show ?thesis by (auto simp: close_ok_def arb_only_partition_def source_closed_per_source)
next
  case rest
  have all: "set (arb_replicated_sources a) \<subseteq> set (arb_completed_sources a)"
    using rest(1) assms(4) by (auto simp: arb_complete_def sources_ok_def)
  then have d: "arb_replicated_done a" by (simp add: arb_replicated_done_def)
  have cl: "source_closed (closing_updates_of a) (int i) src"
    if "src \<in> set (arb_partitioned_sources a)" "i \<in> set (dict_values (arb_open_assignments a))" for i src
    using that by (auto simp: source_closed_closing open_ids [OF assms(3)] simp del: set_map)
  show ?thesis
    unfolding close_ok_def
  proof (intro allI impI)
    fix i assume i: "i < arb_len b"
    have b: "arb_all_assignments b = arb_all_assignments a" "arb_finished b"
      "arb_partitioned_sources b = arb_partitioned_sources a" "arb_replicated_sources b = arb_replicated_sources a"
      using rest(3) by simp_all
    have "pa_full (arb_all_assignments a ! i) \<or> i \<in> set (dict_values (arb_open_assignments a))"
      using assms(2,5) i b(1) by (simp add: close_ok_def)
    then have part: "int i \<in> set (sealed_partitions acc) \<union> set (sealed_partitions r) \<and>
        (\<forall>src\<in>set (arb_partitioned_sources a).
           source_closed (partition_updates acc @ partition_updates r) (int i) src)"
    proof
      assume "pa_full (arb_all_assignments a ! i)"
      then show ?thesis using assms(2) i b(1) d by (simp add: close_ok_def)
    next
      assume "i \<in> set (dict_values (arb_open_assignments a))"
      then show ?thesis using cl rest(5,6) open_ids [OF assms(3)] by auto
    qed
    moreover have "source_closed (partition_updates acc) (int i) src" if "src \<in> set (arb_replicated_sources a)" for src
      using assms(2) i b(1) that all by (auto simp: close_ok_def)
    ultimately show "(pa_full (arb_all_assignments b ! i) \<longrightarrow>
          (\<forall>src\<in>set (arb_partitioned_sources b).
             source_closed (partition_updates (merge_assignment_results acc r)) (int i) src) \<and>
          (arb_replicated_done b \<longrightarrow> int i \<in> set (sealed_partitions (merge_assignment_results acc r)))) \<and>
        (\<forall>src\<in>set (arb_replicated_sources b) \<inter> set (arb_completed_sources b).
           source_closed (partition_updates (merge_assignment_results acc r)) (int i) src) \<and>
        (\<not> arb_finished b \<longrightarrow>
           pa_full (arb_all_assignments b ! i) \<or> i \<in> set (dict_values (arb_open_assignments b))) \<and>
        (arb_finished b \<longrightarrow>
           int i \<in> set (sealed_partitions (merge_assignment_results acc r)) \<and>
           (\<forall>src\<in>set (arb_partitioned_sources b) \<union> set (arb_replicated_sources b).
              source_closed (partition_updates (merge_assignment_results acc r)) (int i) src))"
      using b by auto
  qed
qed

section \<open>Whole calls\<close>

lemma arb_ok_finish:
  assumes "arb_finish_if_all_sources_completed a = (Inr r, b)" and "arb_wf a" and "sources_ok a"
    and "\<not> arb_finished a" and "arb_ok inputs a acc" and "arb_all_sources a \<noteq> []"
  shows "arb_wf b \<and> sources_ok b \<and> arb_ok inputs b (merge_assignment_results acc r) \<and>
         arb_replicated_sources b = arb_replicated_sources a \<and> arb_all_sources b = arb_all_sources a"
proof -
  have "distinct (arb_replicated_sources a)" using assms(3) by (simp add: sources_ok_def)
  then have "arb_wf b \<and> arb_ok inputs b (merge_assignment_results acc r)"
    using assms(5) finish_refs_ok [OF assms(1,2)] finish_deliver_ok [OF assms(1)] finish_count_ok [OF assms(1)]
      finish_close_ok [OF assms(1) _ assms(2-4)] assms(4)
    unfolding arb_ok_def by blast
  moreover have "sources_ok b \<and> arb_replicated_sources b = arb_replicated_sources a \<and> arb_all_sources b = arb_all_sources a"
    using assms(1)
    by (cases rule: arb_finish_cases) (use assms(3,6) in \<open>auto simp: sources_ok_def arb_only_partition_def\<close>)
  ultimately show ?thesis by blast
qed

lemma arb_ok_conclude:
  assumes "arb_conclude r a = (Inr r', b)" and "arb_wf a" and "sources_ok a"
    and "\<not> arb_finished a" and "arb_ok inputs a (merge_assignment_results acc r)" and "arb_all_sources a \<noteq> []"
  shows "arb_wf b \<and> sources_ok b \<and> arb_ok inputs b (merge_assignment_results acc r') \<and>
         arb_replicated_sources b = arb_replicated_sources a \<and> arb_all_sources b = arb_all_sources a"
proof -
  obtain r1 where f: "arb_finish_if_all_sources_completed a = (Inr r1, b)" and r': "r' = merge_assignment_results r r1"
    using assms(1) by (auto simp: arb_conclude_def bindS_eq_Inr)
  show ?thesis using arb_ok_finish [OF f assms(2-6)] by (simp add: r' merge_assoc)
qed

lemma arb_ok_complete_source:
  assumes "arb_ok inputs a acc" and "src \<notin> set (arb_replicated_sources a)"
  shows "arb_ok inputs (a\<lparr>arb_completed_sources := set_add src (arb_completed_sources a)\<rparr>) acc"
proof -
  let ?b = "a\<lparr>arb_completed_sources := set_add src (arb_completed_sources a)\<rparr>"
  have "arb_replicated_done ?b = arb_replicated_done a" using assms(2) by (auto simp: arb_replicated_done_def)
  moreover have "set (arb_replicated_sources ?b) \<inter> set (arb_completed_sources ?b) =
      set (arb_replicated_sources a) \<inter> set (arb_completed_sources a)" using assms(2) by auto
  ultimately show ?thesis
    using assms(1) unfolding arb_ok_def close_ok_def by (simp add: refs_ok_def deliver_ok_def count_ok_def)
qed

lemma arb_ok_partitioned:
  assumes "arb_assign_partitioned_splits src splits no_more a = (Inr r, b)" and wf: "arb_wf a" and so: "sources_ok a"
    and nf: "\<not> arb_finished a" and ok: "arb_ok inputs a acc" and ne: "arb_all_sources a \<noteq> []"
    and src: "src \<notin> set (arb_replicated_sources a)"
  shows "arb_wf b \<and> sources_ok b \<and> arb_ok (inputs(src := inputs src @ splits)) b (merge_assignment_results acc r) \<and>
         arb_replicated_sources b = arb_replicated_sources a \<and> arb_all_sources b = arb_all_sources a"
proof -
  obtain a1 r1 where f: "foldS (arb_place_split src) splits (a, empty_result) = (Inr (), (a1, r1))"
    and c: "arb_conclude r1
              (if no_more then a1\<lparr>arb_completed_sources := set_add src (arb_completed_sources a1)\<rparr> else a1) = (Inr r, b)"
    using assms(1) by (auto simp: arb_assign_partitioned_splits_def split: prod.splits sum.splits)
  have d: "distinct (arb_replicated_sources a)" using so by (simp add: sources_ok_def)
  have fr0: "arb_frame a a" by (simp add: arb_frame_def)
  have "arb_wf a1 \<and> arb_frame a a1 \<and> arb_ok (inputs(src := inputs src @ splits)) a1 (merge_assignment_results acc r1)"
    using arb_ok_place_splits [OF f wf _ fr0 d src nf] ok by simp
  then have wf1: "arb_wf a1" and fr: "arb_frame a a1"
    and ok1: "arb_ok (inputs(src := inputs src @ splits)) a1 (merge_assignment_results acc r1)" by auto
  have so1: "sources_ok a1" using so fr ne by (simp add: sources_ok_def arb_frame_def)
  let ?a2 = "if no_more then a1\<lparr>arb_completed_sources := set_add src (arb_completed_sources a1)\<rparr> else a1"
  have "arb_wf ?a2" and "sources_ok ?a2" and "\<not> arb_finished ?a2" and "arb_all_sources ?a2 \<noteq> []"
    using wf1 so1 nf fr ne by (auto simp: arb_wf_def sources_ok_def arb_frame_def)
  moreover have "arb_ok (inputs(src := inputs src @ splits)) ?a2 (merge_assignment_results acc r1)"
    using ok1 arb_ok_complete_source [OF ok1] src fr by (simp add: arb_frame_def)
  ultimately show ?thesis
    using arb_ok_conclude [OF c] fr by (simp add: arb_frame_def split: if_splits)
qed

text \<open>One update per assignment, to its partition.\<close>

lemma delivered_per_assignment:
  assumes "\<forall>i<length pas. pa_partition_id (pas ! i) = int i" and "j < length pas"
  shows "delivered (map (\<lambda>pa. upd (pa_partition_id pa) src sps nm rd) pas) (int j) s = (if s = src then sps else [])"
    and "source_closed (map (\<lambda>pa. upd (pa_partition_id pa) src sps nm rd) pas) (int j) s = (nm \<and> s = src)"
proof -
  let ?us = "map (\<lambda>pa. upd (pa_partition_id pa) src sps nm rd)"
  have split: "pas = take j pas @ pas ! j # drop (Suc j) pas" using assms(2) by (simp add: id_take_nth_drop)
  have before: "upd_partition_id u \<noteq> int j" if "u \<in> set (?us (take j pas))" for u
    using that assms by (auto simp: in_set_conv_nth)
  have after: "upd_partition_id u \<noteq> int j" if "u \<in> set (?us (drop (Suc j) pas))" for u
    using that assms by (auto simp: in_set_conv_nth)
  have "delivered (?us pas) (int j) s =
      delivered (?us (take j pas)) (int j) s @ delivered [upd (int j) src sps nm rd] (int j) s @
      delivered (?us (drop (Suc j) pas)) (int j) s"
    using assms by (subst split) simp
  moreover have "delivered (?us (take j pas)) (int j) s = []" by (rule delivered_other) (rule before)
  moreover have "delivered (?us (drop (Suc j) pas)) (int j) s = []" by (rule delivered_other) (rule after)
  ultimately show "delivered (?us pas) (int j) s = (if s = src then sps else [])" by simp
  have "source_closed (?us pas) (int j) s \<longleftrightarrow> (\<exists>pa\<in>set pas. pa_partition_id pa = int j) \<and> nm \<and> s = src"
    by (auto simp: source_closed_iff)
  moreover have "\<exists>pa\<in>set pas. pa_partition_id pa = int j" using assms nth_mem by blast
  ultimately show "source_closed (?us pas) (int j) s = (nm \<and> s = src)" by simp
qed

lemma seal_full_fold:
  "partition_updates (fold (\<lambda>pa. if pa_full pa then append_seal (pa_partition_id pa) else id) pas r) = partition_updates r"
  "partitions_added (fold (\<lambda>pa. if pa_full pa then append_seal (pa_partition_id pa) else id) pas r) = partitions_added r"
  "set (sealed_partitions (fold (\<lambda>pa. if pa_full pa then append_seal (pa_partition_id pa) else id) pas r)) =
     set (sealed_partitions r) \<union> pa_partition_id ` {pa \<in> set pas. pa_full pa}"
  by (induction pas arbitrary: r) auto

text \<open>What a call for a replicated source has done before it looks whether everything is complete.\<close>

definition replicated_state :: "string \<Rightarrow> fte_split list \<Rightarrow> bool \<Rightarrow> arb_assigner \<Rightarrow> arb_assigner" where
  "replicated_state src splits no_more a =
     (let a1 = a\<lparr>arb_replicated_splits :=
                   dict_set src (dict_get_default (arb_replicated_splits a) src [] @ splits) (arb_replicated_splits a)\<rparr>;
          a3 = (if no_more then a1\<lparr>arb_completed_sources := set_add src (arb_completed_sources a1)\<rparr> else a1)
      in if no_more \<and> arb_replicated_done a3 then a3\<lparr>arb_no_more_replicated_splits := True\<rparr> else a3)"

lemma replicated_state_fields [simp]:
  "arb_next_partition_id (replicated_state src sps nm a) = arb_next_partition_id a"
  "arb_partitioned_sources (replicated_state src sps nm a) = arb_partitioned_sources a"
  "arb_replicated_sources (replicated_state src sps nm a) = arb_replicated_sources a"
  "arb_all_sources (replicated_state src sps nm a) = arb_all_sources a"
  "set (arb_completed_sources (replicated_state src sps nm a)) =
     (if nm then insert src (set (arb_completed_sources a)) else set (arb_completed_sources a))"
  "arb_replicated_splits (replicated_state src sps nm a) =
     dict_set src (dict_get_default (arb_replicated_splits a) src [] @ sps) (arb_replicated_splits a)"
  "arb_all_assignments (replicated_state src sps nm a) = arb_all_assignments a"
  "arb_open_assignments (replicated_state src sps nm a) = arb_open_assignments a"
  "arb_standard_split_size_bytes (replicated_state src sps nm a) = arb_standard_split_size_bytes a"
  "arb_max_task_split_count (replicated_state src sps nm a) = arb_max_task_split_count a"
  "arb_finished (replicated_state src sps nm a) = arb_finished a"
  "arb_no_more_replicated_splits (replicated_state src sps nm a) =
     (arb_no_more_replicated_splits a \<or> nm \<and> arb_replicated_done (replicated_state src sps nm a))"
  by (auto simp: replicated_state_def Let_def arb_replicated_done_def)

definition replicated_result :: "string \<Rightarrow> fte_split list \<Rightarrow> bool \<Rightarrow> arb_assigner \<Rightarrow> assignment_result" where
  "replicated_result src splits no_more a =
     (let r = add_updates (map (\<lambda>pa. upd (pa_partition_id pa) src splits no_more False) (arb_all_assignments a)) empty_result
      in if arb_no_more_replicated_splits (replicated_state src splits no_more a)
         then fold (\<lambda>pa. if pa_full pa then append_seal (pa_partition_id pa) else id) (arb_all_assignments a) r
         else r)"

lemma arb_assign_replicated_simp:
  "arb_assign_replicated_splits src splits no_more a =
     arb_conclude (replicated_result src splits no_more a) (replicated_state src splits no_more a)"
  by (simp add: arb_assign_replicated_splits_def Let_def emit_loop replicated_result_def replicated_state_def)

lemma replicated_result_fields:
  "partition_updates (replicated_result src sps nm a) =
     map (\<lambda>pa. upd (pa_partition_id pa) src sps nm False) (arb_all_assignments a)"
  "partitions_added (replicated_result src sps nm a) = []"
  "set (sealed_partitions (replicated_result src sps nm a)) =
     (if arb_no_more_replicated_splits (replicated_state src sps nm a)
      then pa_partition_id ` {pa \<in> set (arb_all_assignments a). pa_full pa} else {})"
  by (simp_all add: replicated_result_def Let_def seal_full_fold del: replicated_state_fields)

lemma arb_ok_replicated_step:
  assumes wf: "arb_wf a" and nf: "\<not> arb_finished a" and ok: "arb_ok inputs a acc"
    and src: "src \<in> set (arb_replicated_sources a)"
  shows "arb_ok (inputs(src := inputs src @ sps)) (replicated_state src sps nm a)
           (merge_assignment_results acc (replicated_result src sps nm a))"
proof -
  let ?us = "map (\<lambda>pa. upd (pa_partition_id pa) src sps nm False) (arb_all_assignments a)"
  have ids: "\<forall>i<arb_len a. pa_partition_id (arb_all_assignments a ! i) = int i" using wf by (simp add: arb_wf_def)
  note one = delivered_per_assignment [OF ids]
  have id: "\<exists>i<arb_len a. pa_partition_id pa = int i" if "pa \<in> set (arb_all_assignments a)" for pa
    using that ids by (auto simp: in_set_conv_nth)
  have "refs_ok (replicated_state src sps nm a) (merge_assignment_results acc (replicated_result src sps nm a))"
    using ok id by (auto simp: arb_ok_def refs_ok_def replicated_result_fields update_ok_def list_all_iff)
  moreover have "sent ?us s = []" if "s \<notin> set (arb_replicated_sources a)" for s
    using that src by (auto intro!: sent_other)
  then have "deliver_ok (inputs(src := inputs src @ sps)) (replicated_state src sps nm a)
      (merge_assignment_results acc (replicated_result src sps nm a))"
    using ok src nf by (auto simp: arb_ok_def deliver_ok_def replicated_result_fields one dict_get_default_def)
  moreover have "placed (arb_replicated_sources a) ?us p = []" for p
    using src by (auto intro!: placed_replicated)
  then have "count_ok (replicated_state src sps nm a) (merge_assignment_results acc (replicated_result src sps nm a))"
    using ok by (simp add: arb_ok_def count_ok_def replicated_result_fields)
  moreover have "int i \<in> set (sealed_partitions (merge_assignment_results acc (replicated_result src sps nm a)))"
    if i: "i < arb_len a" "pa_full (arb_all_assignments a ! i)" and d: "arb_replicated_done (replicated_state src sps nm a)"
    for i
  proof (cases nm)
    case True
    then show ?thesis using i d ids by (force simp: replicated_result_fields)
  next
    case False
    then have "arb_replicated_done a" using d by (simp add: arb_replicated_done_def)
    then show ?thesis using ok i by (simp add: arb_ok_def close_ok_def)
  qed
  then have "close_ok (replicated_state src sps nm a) (merge_assignment_results acc (replicated_result src sps nm a))"
    using ok nf by (auto simp: arb_ok_def close_ok_def replicated_result_fields(1) one)
  ultimately show ?thesis by (simp add: arb_ok_def)
qed

lemma arb_ok_replicated:
  assumes "arb_assign_replicated_splits src splits no_more a = (Inr r, b)" and wf: "arb_wf a" and so: "sources_ok a"
    and nf: "\<not> arb_finished a" and ok: "arb_ok inputs a acc" and ne: "arb_all_sources a \<noteq> []"
    and src: "src \<in> set (arb_replicated_sources a)"
  shows "arb_wf b \<and> sources_ok b \<and> arb_ok (inputs(src := inputs src @ splits)) b (merge_assignment_results acc r) \<and>
         arb_replicated_sources b = arb_replicated_sources a \<and> arb_all_sources b = arb_all_sources a"
proof -
  have "arb_wf (replicated_state src splits no_more a)" and "sources_ok (replicated_state src splits no_more a)"
    and "\<not> arb_finished (replicated_state src splits no_more a)"
    and "arb_all_sources (replicated_state src splits no_more a) \<noteq> []"
    using wf so nf ne by (simp_all add: arb_wf_def sources_ok_def)
  from arb_ok_conclude [OF assms(1) [unfolded arb_assign_replicated_simp] this(1-3)
      arb_ok_replicated_step [OF wf nf ok src] this(4)]
  show ?thesis by (simp only: replicated_state_fields)
qed

lemma arb_ok_dispatch:
  assumes "arb_dispatch (src, splits, no_more) a = (Inr r, b)" and wf: "arb_wf a" and so: "sources_ok a"
    and nf: "\<not> arb_finished a" and ok: "arb_ok inputs a acc"
  shows "arb_wf b \<and> sources_ok b \<and> arb_ok (inputs(src := inputs src @ splits)) b (merge_assignment_results acc r) \<and>
         arb_replicated_sources b = arb_replicated_sources a"
proof -
  define a1 where "a1 = (if arb_all_sources a = []
      then a\<lparr>arb_partitioned_sources := set_add src (arb_partitioned_sources a), arb_all_sources := [src]\<rparr> else a)"
  have d: "(if src \<in> set (arb_replicated_sources a1) then arb_assign_replicated_splits src splits no_more a1
            else arb_assign_partitioned_splits src splits no_more a1) = (Inr r, b)"
    using assms(1) unfolding arb_dispatch_def Let_def prod.case a1_def [symmetric] .
  have wf1: "arb_wf a1" and nf1: "\<not> arb_finished a1" and ne1: "arb_all_sources a1 \<noteq> []"
    and r1: "arb_replicated_sources a1 = arb_replicated_sources a"
    using wf nf by (simp_all add: a1_def arb_wf_def)
  have so1: "sources_ok a1" using so by (auto simp: a1_def sources_ok_def)
  have ok1: "arb_ok inputs a1 acc"
  proof (cases "arb_all_sources a = []")
    case True
    then have "arb_all_assignments a = []" using so by (simp add: sources_ok_def)
    then show ?thesis
      using ok by (auto simp: a1_def True arb_ok_def refs_ok_def deliver_ok_def count_ok_def close_ok_def)
  qed (use ok in \<open>simp add: a1_def\<close>)
  show ?thesis
    using d arb_ok_replicated [OF _ wf1 so1 nf1 ok1 ne1, of src splits no_more r b]
      arb_ok_partitioned [OF _ wf1 so1 nf1 ok1 ne1, of src splits no_more r b]
    by (cases "src \<in> set (arb_replicated_sources a1)") (simp_all add: r1)
qed

section \<open>Runs\<close>

abbreviation arb_run ::
  "(string \<times> (string, pyval) dict list \<times> bool) list \<Rightarrow>
   (arb_assigner, ((string \<times> fte_split list) \<times> assignment_result) list) op" where
  "arb_run \<equiv> mapS (observed_assign arb_source_sequences arb_assign)"

definition merged_results :: "((string \<times> fte_split list) \<times> assignment_result) list \<Rightarrow> assignment_result" where
  "merged_results obs = foldl merge_assignment_results empty_result (map snd obs)"

lemma merged_results_simps [simp]:
  "merged_results [] = empty_result"
  "merged_results (obs @ [o1]) = merge_assignment_results (merged_results obs) (snd o1)"
  by (simp_all add: merged_results_def)

lemma observed_arb_assign:
  assumes "observed_assign arb_source_sequences arb_assign call a = (Inr o1, b)"
  obtains src splits no_more r a1 where "o1 = ((src, splits), r)" "\<not> arb_finished a"
    "a1 = a\<lparr>arb_source_sequences := arb_source_sequences a1\<rparr>"
    "arb_dispatch (src, splits, no_more) a1 = (Inr r, b)"
proof -
  obtain src inputs no_more where call: "call = (src, inputs, no_more)" by (cases call) auto
  obtain splits n where sp: "splits_from_inputs src inputs (dict_get_default (arb_source_sequences a) src 0) = Inr (splits, n)"
    using assms by (auto simp: observed_assign_def call split: sum.splits)
  obtain r where r: "arb_assign src inputs no_more a = (Inr r, b)" and o1: "o1 = ((src, splits), r)"
    using assms by (auto simp: observed_assign_def call sp bindS_eq_Inr)
  show ?thesis
    using r by (intro that [OF o1, of "a\<lparr>arb_source_sequences := dict_set src n (arb_source_sequences a)\<rparr>" no_more])
      (auto simp: arb_assign_def sp split: if_splits)
qed

lemma arb_sequences_irrelevant:
  "arb_wf (a\<lparr>arb_source_sequences := s\<rparr>) = arb_wf a"
  "sources_ok (a\<lparr>arb_source_sequences := s\<rparr>) = sources_ok a"
  "arb_ok inputs (a\<lparr>arb_source_sequences := s\<rparr>) acc = arb_ok inputs a acc"
  by (simp_all add: arb_wf_def sources_ok_def arb_ok_def refs_ok_def deliver_ok_def count_ok_def close_ok_def
      arb_replicated_done_def)

lemma mk_arbitrary_ok:
  assumes "mk_arbitrary c = Inr a"
  shows "arb_wf a" and "sources_ok a" and "arb_ok (\<lambda>_. []) a empty_result"
    and "arb_replicated_sources a = normalize_sources (replicated_sources c)"
proof -
  have "a = a" ..
  then show "arb_wf a" and "sources_ok a" and "arb_ok (\<lambda>_. []) a empty_result"
    and "arb_replicated_sources a = normalize_sources (replicated_sources c)"
    using assms
    by (auto simp: mk_arbitrary_def Let_def arb_wf_def sources_ok_def arb_ok_def refs_ok_def deliver_ok_def
        count_ok_def close_ok_def sent_def dict_get_default_def normalize_sources_def split: if_splits)
qed

lemma arb_run_ok:
  assumes "mk_arbitrary c = Inr a0" and "arb_run calls a0 = (Inr obs, a)"
  shows "arb_wf a \<and> sources_ok a \<and> arb_ok (inputs_of obs) a (merged_results obs) \<and>
         arb_replicated_sources a = normalize_sources (replicated_sources c)"
  using assms(2)
proof (rule mapS_induct)
  show "arb_wf a0 \<and> sources_ok a0 \<and> arb_ok (inputs_of []) a0 (merged_results []) \<and>
        arb_replicated_sources a0 = normalize_sources (replicated_sources c)"
    using mk_arbitrary_ok [OF assms(1)] by simp
next
  fix calls obs u call o1 v
  assume IH: "arb_wf u \<and> sources_ok u \<and> arb_ok (inputs_of obs) u (merged_results obs) \<and>
      arb_replicated_sources u = normalize_sources (replicated_sources c)"
    and step: "observed_assign arb_source_sequences arb_assign call u = (Inr o1, v)"
  obtain src splits no_more r a1 where o1: "o1 = ((src, splits), r)" and nf: "\<not> arb_finished u"
    and a1: "a1 = u\<lparr>arb_source_sequences := arb_source_sequences a1\<rparr>"
    and d: "arb_dispatch (src, splits, no_more) a1 = (Inr r, v)"
    using observed_arb_assign [OF step] by metis
  have "arb_wf a1" and "sources_ok a1" and "\<not> arb_finished a1" and "arb_ok (inputs_of obs) a1 (merged_results obs)"
    and "arb_replicated_sources a1 = arb_replicated_sources u"
    using IH nf by (subst a1; simp add: arb_sequences_irrelevant)+
  then show "arb_wf v \<and> sources_ok v \<and> arb_ok (inputs_of (obs @ [o1])) v (merged_results (obs @ [o1])) \<and>
      arb_replicated_sources v = normalize_sources (replicated_sources c)"
    using arb_ok_dispatch [OF d] IH by (simp add: o1)
qed

section \<open>Completion of runs\<close>

lemma arb_frame_place_splits:
  assumes "foldS (arb_place_split src) sps (b, r) = (Inr (), (b', r'))" and "arb_wf b" and "arb_frame a b"
  shows "arb_wf b' \<and> arb_frame a b'"
  using assms
proof (induction sps arbitrary: b r)
  case (Cons sp sps)
  then obtain b1 r1 where one: "arb_place_split src sp (b, r) = (Inr (), (b1, r1))"
    and rest: "foldS (arb_place_split src) sps (b1, r1) = (Inr (), (b', r'))"
    by (auto simp: bindS_eq_Inr)
  have "arb_wf b1 \<and> arb_frame a b1"
    by (rule arb_place_split_rule [OF one Cons.prems(2), where P = "\<lambda>b r. arb_frame a b"])
      (use Cons.prems(3) arb_frame_steps in auto)
  then show ?case using Cons.IH [OF rest] by blast
qed simp

text \<open>After every call the assigner has finished exactly when all its sources are complete.\<close>

definition done_ok :: "arb_assigner \<Rightarrow> bool" where
  "done_ok a = ((arb_finished a \<longleftrightarrow> arb_complete a) \<and> (arb_finished a \<longrightarrow> arb_all_assignments a \<noteq> []))"

lemma conclude_done_ok:
  assumes "arb_conclude r a = (Inr r', b)" and "\<not> arb_finished a"
  shows "done_ok b \<and> arb_completed_sources b = arb_completed_sources a \<and> arb_all_sources b = arb_all_sources a \<and>
         arb_partitioned_sources b = arb_partitioned_sources a"
proof -
  obtain r1 where f: "arb_finish_if_all_sources_completed a = (Inr r1, b)"
    using assms(1) by (auto simp: arb_conclude_def bindS_eq_Inr)
  then show ?thesis
    by (cases rule: arb_finish_cases)
      (use assms(2) in \<open>auto simp: done_ok_def arb_complete_def arb_only_partition_def\<close>)
qed

lemma dispatch_done_ok:
  assumes "arb_dispatch (src, splits, no_more) a = (Inr r, b)" and wf: "arb_wf a" and nf: "\<not> arb_finished a"
  shows "done_ok b \<and>
         set (arb_completed_sources b) =
           (if no_more then insert src (set (arb_completed_sources a)) else set (arb_completed_sources a)) \<and>
         set (arb_all_sources b) = (if arb_all_sources a = [] then {src} else set (arb_all_sources a))"
proof -
  define a1 where "a1 = (if arb_all_sources a = []
      then a\<lparr>arb_partitioned_sources := set_add src (arb_partitioned_sources a), arb_all_sources := [src]\<rparr> else a)"
  have d: "(if src \<in> set (arb_replicated_sources a1) then arb_assign_replicated_splits src splits no_more a1
            else arb_assign_partitioned_splits src splits no_more a1) = (Inr r, b)"
    using assms(1) unfolding arb_dispatch_def Let_def prod.case a1_def [symmetric] .
  have a1: "arb_wf a1" "\<not> arb_finished a1" "arb_completed_sources a1 = arb_completed_sources a"
    "set (arb_all_sources a1) = (if arb_all_sources a = [] then {src} else set (arb_all_sources a))"
    using wf nf by (simp_all add: a1_def arb_wf_def)
  show ?thesis
  proof (cases "src \<in> set (arb_replicated_sources a1)")
    case True
    then have "arb_conclude (replicated_result src splits no_more a1) (replicated_state src splits no_more a1) = (Inr r, b)"
      using d by (simp add: arb_assign_replicated_simp)
    then show ?thesis using conclude_done_ok a1 by (force split: if_splits)
  next
    case False
    then obtain a2 r2 where f: "foldS (arb_place_split src) splits (a1, empty_result) = (Inr (), (a2, r2))"
      and c: "arb_conclude r2
                (if no_more then a2\<lparr>arb_completed_sources := set_add src (arb_completed_sources a2)\<rparr> else a2) = (Inr r, b)"
      using d by (auto simp: arb_assign_partitioned_splits_def split: prod.splits sum.splits)
    have fr: "arb_frame a1 a2" using arb_frame_place_splits [OF f a1(1)] by (simp add: arb_frame_def)
    show ?thesis using conclude_done_ok [OF c] fr a1 by (auto simp: arb_frame_def)
  qed
qed

definition completed_by :: "(string \<times> (string, pyval) dict list \<times> bool) list \<Rightarrow> string set" where
  "completed_by calls = {src. \<exists>inputs. (src, inputs, True) \<in> set calls}"

lemma arb_run_done:
  assumes "mk_arbitrary c = Inr a0" and "arb_run calls a0 = (Inr obs, a)"
  shows "set (arb_completed_sources a) = completed_by calls \<and> (calls \<noteq> [] \<longrightarrow> done_ok a)"
  using assms(2)
proof (rule mapS_induct)
  show "set (arb_completed_sources a0) = completed_by [] \<and> ([] \<noteq> [] \<longrightarrow> done_ok a0)"
    using assms(1) by (auto simp: mk_arbitrary_def Let_def completed_by_def split: if_splits)
next
  fix calls obs u call o1 v
  assume run: "arb_run calls a0 = (Inr obs, u)"
    and IH: "set (arb_completed_sources u) = completed_by calls \<and> (calls \<noteq> [] \<longrightarrow> done_ok u)"
    and step: "observed_assign arb_source_sequences arb_assign call u = (Inr o1, v)"
  obtain src inputs no_more where call: "call = (src, inputs, no_more)" by (cases call) auto
  obtain splits n r where sp: "splits_from_inputs src inputs (dict_get_default (arb_source_sequences u) src 0) = Inr (splits, n)"
    and asg: "arb_assign src inputs no_more u = (Inr r, v)"
    using step by (auto simp: observed_assign_def call bindS_eq_Inr split: sum.splits)
  let ?u = "u\<lparr>arb_source_sequences := dict_set src n (arb_source_sequences u)\<rparr>"
  have d: "arb_dispatch (src, splits, no_more) ?u = (Inr r, v)" and nf: "\<not> arb_finished u"
    using asg by (auto simp: arb_assign_def sp split: if_splits)
  have "arb_wf ?u" using arb_run_ok [OF assms(1) run] by (simp add: arb_sequences_irrelevant)
  then have "done_ok v \<and> set (arb_completed_sources v) =
      (if no_more then insert src (set (arb_completed_sources u)) else set (arb_completed_sources u))"
    using dispatch_done_ok [OF d] nf by simp
  then show "set (arb_completed_sources v) = completed_by (calls @ [call]) \<and> (calls @ [call] \<noteq> [] \<longrightarrow> done_ok v)"
    using IH by (auto simp: call completed_by_def)
qed

text \<open>A sample run: one replicated source, one partitioned source, one split per partition.\<close>

definition sample_params :: arb_params where
  "sample_params = \<lparr>max_splits_per_partition = Some 1, catalog_requirement = None,
     partitioned_sources = Some [''fact''], replicated_sources = Some [''dim''],
     min_target_partition_size_bytes = Some 1000, max_target_partition_size_bytes = Some 4000,
     adaptive_growth_period = 1, adaptive_growth_factor = 2,
     standard_split_size_bytes = 100, max_task_split_count = None\<rparr>"

definition sample_item :: "int \<Rightarrow> (string, pyval) dict" where
  "sample_item n = [(''sequence_id'', PInt n), (''kind'', PStr ''file'')]"

definition sample_calls :: "(string \<times> (string, pyval) dict list \<times> bool) list" where
  "sample_calls = [(''dim'', [sample_item 0], False), (''fact'', [sample_item 0, sample_item 1], True),
                   (''dim'', [sample_item 1], True)]"

lemma sample_run:
  "\<exists>a0 obs a. mk_arbitrary sample_params = Inr a0 \<and> arb_run sample_calls a0 = (Inr obs, a) \<and> arb_len a = 2 \<and>
     length (inputs_of obs ''dim'') = 2 \<and> length (inputs_of obs ''fact'') = 2 \<and>
     set (arb_all_sources a) = {''dim'', ''fact''} \<and>
     arb_standard_split_size_bytes a = 100 \<and> arb_max_target a = 4000 \<and> arb_rounded_target a = 2000"
proof -
  have "case mk_arbitrary sample_params of Inl _ \<Rightarrow> False | Inr a0 \<Rightarrow>
     (case arb_run sample_calls a0 of
        (Inr obs, a) \<Rightarrow> arb_len a = 2 \<and> length (inputs_of obs ''dim'') = 2 \<and> length (inputs_of obs ''fact'') = 2 \<and>
           set (arb_all_sources a) = {''dim'', ''fact''} \<and>
           arb_standard_split_size_bytes a = 100 \<and> arb_max_target a = 4000 \<and> arb_rounded_target a = 2000
      | _ \<Rightarrow> False)"
    by code_simp
  moreover obtain a0 where a0: "mk_arbitrary sample_params = Inr a0"
    using calculation by (cases "mk_arbitrary sample_params") simp_all
  moreover obtain res a where run: "arb_run sample_calls a0 = (res, a)" by fastforce
  ultimately show ?thesis by (cases res) simp_all
qed

section \<open>The properties of runs\<close>

text \<open>
  C10. No split is lost, duplicated or misrouted. Over any run of successful \<open>assign\<close> calls, with the
  sources interleaved in any way, every partition that exists receives exactly the splits of every
  replicated source, in order, however late the partition was opened; and the splits of every
  other source are sent, in order, to exactly one partition each.
\<close>

theorem arb_run_delivers:
  assumes "mk_arbitrary c = Inr a0" and "arb_run calls a0 = (Inr obs, a)"
  shows "(\<forall>src\<in>set (normalize_sources (replicated_sources c)). \<forall>i<arb_len a.
            delivered (partition_updates (merged_results obs)) (int i) src = inputs_of obs src) \<and>
         (\<forall>src. src \<notin> set (normalize_sources (replicated_sources c)) \<longrightarrow>
            sent (partition_updates (merged_results obs)) src = inputs_of obs src)"
  using arb_run_ok [OF assms] by (auto simp: arb_ok_def deliver_ok_def)

theorem arb_run_delivers_witness:
  "\<exists>a0 obs a. mk_arbitrary sample_params = Inr a0 \<and> arb_run sample_calls a0 = (Inr obs, a) \<and>
     delivered (partition_updates (merged_results obs)) 1 ''dim'' = inputs_of obs ''dim'' \<and>
     sent (partition_updates (merged_results obs)) ''fact'' = inputs_of obs ''fact'' \<and>
     length (inputs_of obs ''dim'') = 2 \<and> length (inputs_of obs ''fact'') = 2"
proof -
  obtain a0 obs a where run: "mk_arbitrary sample_params = Inr a0" "arb_run sample_calls a0 = (Inr obs, a)"
    and len: "arb_len a = 2" "length (inputs_of obs ''dim'') = 2" "length (inputs_of obs ''fact'') = 2"
    using sample_run by (elim exE conjE)
  have src: "normalize_sources (replicated_sources sample_params) = [''dim'']"
    by (simp add: normalize_sources_def sample_params_def)
  have "\<forall>i<arb_len a. delivered (partition_updates (merged_results obs)) (int i) ''dim'' = inputs_of obs ''dim''"
    using arb_run_delivers [OF run, THEN conjunct1] unfolding src by simp
  then have "delivered (partition_updates (merged_results obs)) (int 1) ''dim'' = inputs_of obs ''dim''"
    using len(1) by (elim allE [of _ 1]) simp
  moreover have "sent (partition_updates (merged_results obs)) ''fact'' = inputs_of obs ''fact''"
    using arb_run_delivers [OF run, THEN conjunct2] unfolding src by simp
  ultimately show ?thesis using run len(2,3) unfolding of_nat_1
    by (intro exI [of _ a0] exI [of _ obs] exI [of _ a] conjI)
qed

text \<open>
  C16. No partition is overfilled: over any run the splits of partitioned sources brought to a
  partition never exceed the configured split count, the counters of the assigner are their number
  and their total size, and the updates and seals refer only to partitions announced in the same or an
  earlier result, numbered consecutively from zero.
\<close>

theorem arb_run_split_bound:
  assumes "mk_arbitrary c = Inr a0" and "arb_run calls a0 = (Inr obs, a)"
  shows "(\<forall>i<arb_len a.
            let sps = placed (normalize_sources (replicated_sources c)) (partition_updates (merged_results obs)) (int i) in
            int (length sps) \<le> arb_max_task_split_count a \<and>
            pa_assigned_split_count (arb_all_assignments a ! i) = int (length sps) \<and>
            pa_assigned_data_size_bytes (arb_all_assignments a ! i) =
              total_size (arb_standard_split_size_bytes a) sps) \<and>
         map info_partition_id (partitions_added (merged_results obs)) = map int [0..<arb_len a] \<and>
         result_refers {} (merged_results obs)"
proof -
  note ok = arb_run_ok [OF assms]
  have "refs_ok a (merged_results obs)" using ok by (simp add: arb_ok_def)
  moreover from this have "info_partition_id ` set (partitions_added (merged_results obs)) = int ` {0..<arb_len a}"
    unfolding refs_ok_def by (metis list.set_map set_upt)
  ultimately have "result_refers {} (merged_results obs)"
    by (fastforce simp: result_refers_def refs_ok_def)
  moreover have rep: "normalize_sources (replicated_sources c) = arb_replicated_sources a" using ok by simp
  have "count_ok a (merged_results obs)" "refs_ok a (merged_results obs)" using ok by (simp_all add: arb_ok_def)
  ultimately show ?thesis unfolding rep by (auto simp: count_ok_def refs_ok_def Let_def)
qed

theorem arb_run_split_bound_witness:
  "\<exists>a0 obs a. mk_arbitrary sample_params = Inr a0 \<and> arb_run sample_calls a0 = (Inr obs, a) \<and>
     map info_partition_id (partitions_added (merged_results obs)) = [0, 1] \<and>
     int (length (placed [''dim''] (partition_updates (merged_results obs)) 0)) \<le> arb_max_task_split_count a"
proof -
  obtain a0 obs a where run: "mk_arbitrary sample_params = Inr a0" "arb_run sample_calls a0 = (Inr obs, a)"
    and len: "arb_len a = 2"
    using sample_run by (elim exE conjE)
  have src: "normalize_sources (replicated_sources sample_params) = [''dim'']"
    by (simp add: normalize_sources_def sample_params_def)
  have two: "[0..<2] = [0, Suc 0]" by (simp add: upt_rec)
  have "map info_partition_id (partitions_added (merged_results obs)) = [0, 1]"
    using arb_run_split_bound [OF run, THEN conjunct2, THEN conjunct1] unfolding len two by simp
  moreover have "int (length (placed [''dim''] (partition_updates (merged_results obs)) (int 0))) \<le>
      arb_max_task_split_count a"
    using arb_run_split_bound [OF run, THEN conjunct1, rule_format, of 0] unfolding src by (simp add: len Let_def)
  ultimately show ?thesis using run unfolding of_nat_0
    by (intro exI [of _ a0] exI [of _ obs] exI [of _ a] conjI)
qed

text \<open>
  C12. Completion. Once every source has been declared complete, there is at least one partition, every
  partition has been sealed, and every partition has been told that each of its sources is complete,
  whether the partition had been filled, was still open, or never received a split.
\<close>

theorem arb_run_completes:
  assumes "mk_arbitrary c = Inr a0" and "arb_run calls a0 = (Inr obs, a)"
    and "arb_all_sources a \<noteq> []" and "set (arb_all_sources a) \<subseteq> completed_by calls" and "calls \<noteq> []"
  shows "0 < arb_len a \<and> set (arb_all_sources a) = set (arb_partitioned_sources a) \<union> set (arb_replicated_sources a) \<and>
         (\<forall>i<arb_len a. int i \<in> set (sealed_partitions (merged_results obs)) \<and>
            (\<forall>src\<in>set (arb_all_sources a). source_closed (partition_updates (merged_results obs)) (int i) src))"
proof -
  have fin: "arb_finished a" and ne: "arb_all_assignments a \<noteq> []"
    using arb_run_done [OF assms(1,2)] assms(3-5) by (auto simp: done_ok_def arb_complete_def)
  have so: "set (arb_all_sources a) = set (arb_partitioned_sources a) \<union> set (arb_replicated_sources a)"
    using arb_run_ok [OF assms(1,2)] unfolding sources_ok_def by blast
  have "close_ok a (merged_results obs)" using arb_run_ok [OF assms(1,2)] by (simp add: arb_ok_def)
  then have "int i \<in> set (sealed_partitions (merged_results obs)) \<and>
      (\<forall>src\<in>set (arb_all_sources a). source_closed (partition_updates (merged_results obs)) (int i) src)"
    if "i < arb_len a" for i
    using that fin unfolding close_ok_def so by blast
  then show ?thesis using ne so by blast
qed

theorem arb_run_completes_witness:
  "\<exists>a0 obs a. mk_arbitrary sample_params = Inr a0 \<and> arb_run sample_calls a0 = (Inr obs, a) \<and>
     1 \<in> set (sealed_partitions (merged_results obs)) \<and>
     source_closed (partition_updates (merged_results obs)) 1 ''fact''"
proof -
  obtain a0 obs a where run: "mk_arbitrary sample_params = Inr a0" "arb_run sample_calls a0 = (Inr obs, a)"
    and len: "arb_len a = 2" and srcs: "set (arb_all_sources a) = {''dim'', ''fact''}"
    using sample_run by (elim exE conjE)
  have fact: "''fact'' \<in> set (arb_all_sources a)" unfolding srcs by simp
  then have ne: "arb_all_sources a \<noteq> []" by force
  have sub: "set (arb_all_sources a) \<subseteq> completed_by sample_calls"
    unfolding srcs completed_by_def sample_calls_def by simp
  have calls: "sample_calls \<noteq> []" by (simp add: sample_calls_def)
  have all: "int i \<in> set (sealed_partitions (merged_results obs)) \<and>
      (\<forall>src\<in>set (arb_all_sources a). source_closed (partition_updates (merged_results obs)) (int i) src)"
    if "i < arb_len a" for i
    using arb_run_completes [OF run ne sub calls] that by blast
  have one: "1 < arb_len a" unfolding len by simp
  have "int 1 \<in> set (sealed_partitions (merged_results obs))"
    and "source_closed (partition_updates (merged_results obs)) (int 1) ''fact''"
    using all [OF one, THEN conjunct1] all [OF one, THEN conjunct2, THEN bspec, OF fact] .
  then show ?thesis using run unfolding of_nat_1
    by (intro exI [of _ a0] exI [of _ obs] exI [of _ a] conjI)
qed

end
