(* ===== verification/Arbitrary_Contract.thy ===== *)
theory Arbitrary_Contract
  imports Arbitrary_Run
begin

text \<open>
  Two further parts of the correctness of \<open>ArbitrarySplitAssigner\<close>: the size of partitions under
  the adaptive growth of the target size, which the source computes in floating point, and the
  split assigner's contract with the fragment execution (interpretation of \<open>split_assigner\<close>).
\<close>

section \<open>Adaptive growth\<close>

definition rounded_of :: "int \<Rightarrow> int \<Rightarrow> int" where
  "rounded_of min_target target =
     max min_target (round_half_even (fl (of_int target / of_int min_target)) * min_target)"

definition target_ok :: "arb_assigner \<Rightarrow> bool" where
  "target_ok a =
     (0 < arb_min_target a \<and> arb_min_target a \<le> arb_target a \<and> arb_target a \<le> arb_max_target a \<and>
      arb_max_target a < 2 ^ 53 \<and> 1 \<le> arb_adaptive_growth_factor a \<and>
      arb_rounded_target a = rounded_of (arb_min_target a) (arb_target a))"

lemma rounded_of_mono: "0 < m \<Longrightarrow> s \<le> t \<Longrightarrow> rounded_of m s \<le> rounded_of m t"
proof -
  assume m: "0 < m" and le: "s \<le> t"
  have "(of_int s / of_int m :: rat) \<le> of_int t / of_int m"
    using m le by (simp add: divide_right_mono)
  then have "round_half_even (fl (of_int s / of_int m)) \<le> round_half_even (fl (of_int t / of_int m))"
    by (intro round_half_even_mono fl_mono)
  then show ?thesis using m unfolding rounded_of_def by (intro max.mono mult_right_mono) auto
qed

text \<open>The grown target, computed in floats, is never below the old one.\<close>

lemma grown_target_ge:
  assumes "0 < t" and "t < 2 ^ 53" and "1 \<le> f"
  shows "t \<le> py_trunc (fl (fl (fl (of_int t) * f) + fl (999999 / 1000000)))"
proof -
  have t53: "\<bar>t\<bar> < 2 ^ 53" using assms(1,2) by simp
  have "fl (of_int t) = of_int t" using fl_of_int [OF t53] .
  moreover have "of_int t \<le> of_int t * f"
    using assms(1,3) mult_left_mono [of 1 f "of_int t"] by simp
  ultimately have prod: "of_int t \<le> fl (fl (of_int t) * f)" using fl_ge_int [OF t53] by simp
  have "0 \<le> fl (999999 / 1000000)" using fl_ge_int [of 0 "999999 / 1000000"] by simp
  with prod have "of_int t \<le> fl (fl (of_int t) * f) + fl (999999 / 1000000)" by linarith
  then have sum: "of_int t \<le> fl (fl (fl (of_int t) * f) + fl (999999 / 1000000))"
    using fl_ge_int [OF t53] by simp
  then have "t \<le> \<lfloor>fl (fl (fl (of_int t) * f) + fl (999999 / 1000000))\<rfloor>" by (simp add: le_floor_iff)
  moreover have "0 \<le> fl (fl (fl (of_int t) * f) + fl (999999 / 1000000))"
    using sum assms(1) by (meson less_imp_le of_int_0_le_iff order_trans)
  ultimately show ?thesis by (simp add: py_trunc_def)
qed

lemma target_ok_grow:
  assumes "target_ok a"
  shows "target_ok (arb_grow_target_if_needed a)"
    and "arb_rounded_target a \<le> arb_rounded_target (arb_grow_target_if_needed a)"
proof -
  let ?t = "py_trunc (fl (fl (fl (of_int (arb_target a)) * arb_adaptive_growth_factor a) + fl (999999 / 1000000)))"
  have "arb_target a \<le> ?t"
    using assms by (intro grown_target_ge) (auto simp: target_ok_def)
  then have t: "arb_target a \<le> min (arb_max_target a) ?t" using assms by (simp add: target_ok_def)
  show "target_ok (arb_grow_target_if_needed a)"
    using assms t by (auto simp: target_ok_def arb_grow_target_if_needed_def Let_def rounded_of_def)
  have "rounded_of (arb_min_target a) (arb_target a) \<le> rounded_of (arb_min_target a) (min (arb_max_target a) ?t)"
    using assms t by (intro rounded_of_mono) (auto simp: target_ok_def)
  then show "arb_rounded_target a \<le> arb_rounded_target (arb_grow_target_if_needed a)"
    using assms by (auto simp: target_ok_def arb_grow_target_if_needed_def Let_def rounded_of_def)
qed

definition size_ok :: "arb_assigner \<Rightarrow> bool" where
  "size_ok a =
     (target_ok a \<and>
      (\<forall>i<arb_len a.
         pa_assigned_split_count (arb_all_assignments a ! i) \<le> 1 \<or>
         pa_assigned_data_size_bytes (arb_all_assignments a ! i) \<le> arb_rounded_target a))"

lemma size_ok_closed:
  assumes "size_ok a"
  shows "size_ok (arb_closed nr i a)"
proof -
  let ?b = "a\<lparr>arb_all_assignments := (arb_all_assignments a)[i := (arb_all_assignments a ! i)\<lparr>pa_full := True\<rparr>],
          arb_open_assignments := dict_pop nr (arb_open_assignments a)\<rparr>"
  have t: "target_ok ?b" using assms by (simp add: size_ok_def target_ok_def)
  have "pa_assigned_split_count (arb_all_assignments ?b ! j) = pa_assigned_split_count (arb_all_assignments a ! j) \<and>
        pa_assigned_data_size_bytes (arb_all_assignments ?b ! j) = pa_assigned_data_size_bytes (arb_all_assignments a ! j)"
    if "j < arb_len a" for j
    using that by (cases "j = i") auto
  then show ?thesis
    using assms target_ok_grow [OF t] unfolding size_ok_def arb_closed_def by fastforce
qed

lemma size_ok_opened: "size_ok a \<Longrightarrow> size_ok (arb_opened nr a)"
  by (auto simp: size_ok_def target_ok_def arb_opened_def nth_append less_Suc_eq)

lemma size_ok_put:
  assumes "size_ok a" and "i < arb_len a"
    and "\<not> arb_overflows a i sz \<or> pa_assigned_split_count (arb_all_assignments a ! i) = 0"
  shows "size_ok (arb_put i sz a)"
  using assms
  by (auto simp: size_ok_def target_ok_def arb_put_def arb_update_assignment_def nth_list_update arb_overflows_def Let_def)

lemma size_ok_place_splits:
  assumes "foldS (arb_place_split src) sps (b, r) = (Inr (), (b', r'))" and "arb_wf b" and "size_ok b"
  shows "arb_wf b' \<and> size_ok b'"
  using assms
proof (induction sps arbitrary: b r)
  case (Cons sp sps)
  then obtain b1 r1 where one: "arb_place_split src sp (b, r) = (Inr (), (b1, r1))"
    and rest: "foldS (arb_place_split src) sps (b1, r1) = (Inr (), (b', r'))"
    by (auto simp: bindS_eq_Inr)
  have "arb_wf b1 \<and> size_ok b1"
    by (rule arb_place_split_rule [OF one Cons.prems(2), where P = "\<lambda>b r. size_ok b"])
      (use Cons.prems(3) size_ok_closed size_ok_opened size_ok_put arb_wf_open(1) in blast)+
  then show ?case using Cons.IH [OF rest] by blast
qed simp

lemma size_ok_cong:
  "size_ok (a\<lparr>arb_completed_sources := cs\<rparr>) = size_ok a"
  "size_ok (a\<lparr>arb_source_sequences := qs\<rparr>) = size_ok a"
  "size_ok (a\<lparr>arb_partitioned_sources := ps, arb_all_sources := al\<rparr>) = size_ok a"
  "size_ok (a\<lparr>arb_open_assignments := os, arb_replicated_splits := rs, arb_finished := fin\<rparr>) = size_ok a"
  "size_ok (replicated_state src sps nm a) = size_ok a"
  by (simp_all add: size_ok_def target_ok_def replicated_state_def Let_def)

lemma size_ok_conclude: "arb_conclude r a = (Inr r', b) \<Longrightarrow> size_ok a \<Longrightarrow> size_ok b"
proof -
  assume "arb_conclude r a = (Inr r', b)" and ok: "size_ok a"
  then obtain r1 where "arb_finish_if_all_sources_completed a = (Inr r1, b)"
    by (auto simp: arb_conclude_def bindS_eq_Inr)
  then show ?thesis
    by (cases rule: arb_finish_cases)
      (use ok in \<open>auto simp: size_ok_cong arb_only_partition_def\<close>, simp add: size_ok_def target_ok_def)
qed

lemma size_ok_dispatch:
  assumes "arb_dispatch (src, splits, no_more) a = (Inr r, b)" and "arb_wf a" and "size_ok a"
  shows "size_ok b"
proof -
  define a1 where "a1 = (if arb_all_sources a = []
      then a\<lparr>arb_partitioned_sources := set_add src (arb_partitioned_sources a), arb_all_sources := [src]\<rparr> else a)"
  have d: "(if src \<in> set (arb_replicated_sources a1) then arb_assign_replicated_splits src splits no_more a1
            else arb_assign_partitioned_splits src splits no_more a1) = (Inr r, b)"
    using assms(1) unfolding arb_dispatch_def Let_def prod.case a1_def [symmetric] .
  have a1: "arb_wf a1" "size_ok a1" using assms(2,3) by (simp_all add: a1_def arb_wf_def size_ok_cong)
  show ?thesis
  proof (cases "src \<in> set (arb_replicated_sources a1)")
    case True
    then have "arb_conclude (replicated_result src splits no_more a1) (replicated_state src splits no_more a1) = (Inr r, b)"
      using d by (simp add: arb_assign_replicated_simp)
    then show ?thesis using size_ok_conclude a1 by (simp add: size_ok_cong)
  next
    case False
    then obtain a2 r2 where f: "foldS (arb_place_split src) splits (a1, empty_result) = (Inr (), (a2, r2))"
      and c: "arb_conclude r2
                (if no_more then a2\<lparr>arb_completed_sources := set_add src (arb_completed_sources a2)\<rparr> else a2) = (Inr r, b)"
      using d by (auto simp: arb_assign_partitioned_splits_def split: prod.splits sum.splits)
    show ?thesis using size_ok_conclude [OF c] size_ok_place_splits [OF f a1] by (simp add: size_ok_cong)
  qed
qed

lemma arb_run_size_ok:
  assumes "mk_arbitrary c = Inr a0" and "arb_run calls a0 = (Inr obs, a)" and "arb_max_target a0 < 2 ^ 53"
  shows "size_ok a"
  using assms(2)
proof (rule mapS_induct [where P = "\<lambda>_ _ a. size_ok a"])
  have fl1: "fl 1 = 1" using fl_of_int [of 1] by simp
  show "size_ok a0"
    using assms(1,3) fl1 round_half_even_of_int [of 1]
    by (auto simp: mk_arbitrary_def Let_def size_ok_def target_ok_def rounded_of_def split: if_splits)
next
  fix calls obs u call o1 v
  assume run: "arb_run calls a0 = (Inr obs, u)" and IH: "size_ok u"
    and step: "observed_assign arb_source_sequences arb_assign call u = (Inr o1, v)"
  obtain src splits no_more r a1 where a1: "a1 = u\<lparr>arb_source_sequences := arb_source_sequences a1\<rparr>"
    and d: "arb_dispatch (src, splits, no_more) a1 = (Inr r, v)"
    using observed_arb_assign [OF step] by metis
  have "arb_wf a1" using arb_run_ok [OF assms(1) run] by (subst a1) (simp add: arb_sequences_irrelevant)
  moreover have "size_ok a1" using IH by (subst a1) (simp add: size_ok_cong)
  ultimately show "size_ok v" by (rule size_ok_dispatch [OF d])
qed

text \<open>
  C15. Partitions stay within the adaptive target size. Provided the configured maximum is below
  \<open>2 ^ 53\<close> bytes, so that the floating-point growth of the target cannot shrink it, every partition
  of a run holds a single split of the partitioned sources, or splits whose total size is at most the current
  rounded target; and that target lies between the configured minimum and the maximum rounded to a
  multiple of the minimum, which can be above the configured maximum.
\<close>

theorem arb_run_size_bound:
  assumes "mk_arbitrary c = Inr a0" and "arb_run calls a0 = (Inr obs, a)" and "arb_max_target a0 < 2 ^ 53"
  shows "(\<forall>i<arb_len a.
            let sps = placed (arb_replicated_sources a) (partition_updates (merged_results obs)) (int i) in
            length sps \<le> 1 \<or> total_size (arb_standard_split_size_bytes a) sps \<le> arb_rounded_target a) \<and>
         arb_min_target a \<le> arb_rounded_target a \<and>
         arb_rounded_target a \<le> rounded_of (arb_min_target a) (arb_max_target a)"
proof -
  have s: "size_ok a" by (rule arb_run_size_ok [OF assms])
  then have t: "target_ok a" by (simp add: size_ok_def)
  have "arb_rounded_target a \<le> rounded_of (arb_min_target a) (arb_max_target a)"
    using t rounded_of_mono [of "arb_min_target a" "arb_target a" "arb_max_target a"] by (simp add: target_ok_def)
  moreover have "arb_min_target a \<le> arb_rounded_target a" using t by (simp add: target_ok_def rounded_of_def)
  moreover have "count_ok a (merged_results obs)" using arb_run_ok [OF assms(1,2)] by (simp add: arb_ok_def)
  then have "let sps = placed (arb_replicated_sources a) (partition_updates (merged_results obs)) (int i) in
            length sps \<le> 1 \<or> total_size (arb_standard_split_size_bytes a) sps \<le> arb_rounded_target a"
    if "i < arb_len a" for i
    using s that unfolding size_ok_def count_ok_def Let_def by force
  ultimately show ?thesis by blast
qed

theorem arb_run_size_bound_witness:
  "\<exists>a0 obs a. mk_arbitrary sample_params = Inr a0 \<and> arb_run sample_calls a0 = (Inr obs, a) \<and>
     arb_max_target a0 < 2 ^ 53 \<and> arb_min_target a \<le> arb_rounded_target a \<and> arb_rounded_target a = 2000"
proof -
  obtain a0 obs a where run: "mk_arbitrary sample_params = Inr a0" "arb_run sample_calls a0 = (Inr obs, a)"
    and t: "arb_rounded_target a = 2000"
    using sample_run by (elim exE conjE)
  have m: "arb_max_target a0 < 2 ^ 53"
    using run(1) by (auto simp: mk_arbitrary_def sample_params_def Let_def)
  have "arb_min_target a \<le> arb_rounded_target a"
    using arb_run_size_bound [OF run m] by blast
  then show ?thesis using run m t by (intro exI [of _ a0] exI [of _ obs] exI [of _ a] conjI)
qed

section \<open>The contract with the fragment execution\<close>

text \<open>
  What holds of a result under construction, started when the assigner had \<open>n\<close> partitions. A source
  is closed in it only for replicated sources or for partitions that are full.
\<close>

definition result_ok :: "nat \<Rightarrow> arb_assigner \<Rightarrow> assignment_result \<Rightarrow> bool" where
  "result_ok n a r =
     (n \<le> arb_len a \<and> orderly (partition_updates r) \<and> list_all update_ok (partition_updates r) \<and>
      (\<forall>u\<in>set (partition_updates r). \<exists>i<arb_len a. upd_partition_id u = int i) \<and>
      (\<forall>p\<in>set (sealed_partitions r). \<exists>i<arb_len a. p = int i) \<and>
      map info_partition_id (partitions_added r) = map int [n..<arb_len a])"

definition closes_ok :: "arb_assigner \<Rightarrow> assignment_result \<Rightarrow> bool" where
  "closes_ok a r =
     (\<forall>p src. source_closed (partition_updates r) p src \<longrightarrow>
        src \<in> set (arb_replicated_sources a) \<or> (\<exists>i<arb_len a. p = int i \<and> pa_full (arb_all_assignments a ! i)))"

lemma result_ok_closed:
  "result_ok n a r \<Longrightarrow> i < arb_len a \<Longrightarrow>
   result_ok n (arb_closed nr i a)
     ((if b then append_seal (int i) else id) (add_updates (map (\<lambda>ps. upd (int i) ps [] True False) xs) r))"
  by (auto simp: result_ok_def orderly_append orderly_no_splits update_ok_def list_all_iff)

lemma closes_ok_closed:
  "closes_ok a r \<Longrightarrow> i < arb_len a \<Longrightarrow>
   closes_ok (arb_closed nr i a)
     ((if b then append_seal (int i) else id) (add_updates (map (\<lambda>ps. upd (int i) ps [] True False) xs) r))"
  by (fastforce simp: closes_ok_def source_closed_per_source nth_list_update)

lemma orderly_per_source: "distinct xs \<Longrightarrow> orderly (map (\<lambda>x. upd q x (f x) (g x) rd) xs)"
  by (induction xs) (auto simp: delivered_per_source)

lemma result_ok_opened:
  assumes "arb_wf a" and "distinct (arb_replicated_sources a)" and "result_ok n a r"
  shows "result_ok n (arb_opened nr a) (opened_result nr a r)"
proof -
  have id: "arb_next_partition_id a = int (arb_len a)" using assms(1) by (simp add: arb_wf_def)
  have "delivered (arb_replay a) p src = []" if "source_closed (partition_updates r) p src" for p src
  proof -
    have "p \<noteq> int (arb_len a)" using that assms(3) by (force simp: source_closed_iff result_ok_def)
    then show ?thesis by (auto simp: arb_replay_def id intro!: delivered_other)
  qed
  moreover have "orderly (arb_replay a)" unfolding arb_replay_def by (rule orderly_per_source [OF assms(2)])
  ultimately show ?thesis
    using assms(3) unfolding result_ok_def
    by (auto simp: orderly_append arb_replay_def id update_ok_def list_all_iff less_Suc_eq)
qed

lemma closes_ok_opened:
  assumes "arb_wf a" and "closes_ok a r"
  shows "closes_ok (arb_opened nr a) (opened_result nr a r)"
  using assms(2) by (fastforce simp: closes_ok_def arb_replay_def source_closed_per_source nth_append less_Suc_eq)

lemma result_ok_put:
  assumes "result_ok n a r" and "closes_ok a r" and "i < arb_len a" and "\<not> pa_full (arb_all_assignments a ! i)"
    and "src \<notin> set (arb_replicated_sources a)"
  shows "result_ok n (arb_put i sz a) (add_updates [upd (int i) src [sp] False True] r)"
proof -
  have "\<not> source_closed (partition_updates r) (int i) src" using assms(2-5) by (fastforce simp: closes_ok_def)
  then show ?thesis using assms(1,3) by (auto simp: result_ok_def orderly_append update_ok_def)
qed

lemma closes_ok_put:
  "closes_ok a r \<Longrightarrow> i < arb_len a \<Longrightarrow>
   closes_ok (arb_put i sz a) (add_updates [upd (int i) src [sp] False True] r)"
  by (fastforce simp: closes_ok_def nth_list_update)

lemma result_ok_place_splits:
  assumes "foldS (arb_place_split src) sps (b, r) = (Inr (), (b', r'))" and "arb_wf b"
    and "result_ok n b r" and "closes_ok b r" and "arb_frame a b"
    and repl: "distinct (arb_replicated_sources a)" "src \<notin> set (arb_replicated_sources a)"
  shows "arb_wf b' \<and> result_ok n b' r' \<and> closes_ok b' r' \<and> arb_frame a b'"
  using assms(1-5)
proof (induction sps arbitrary: b r)
  case (Cons sp sps)
  then obtain b1 r1 where one: "arb_place_split src sp (b, r) = (Inr (), (b1, r1))"
    and rest: "foldS (arb_place_split src) sps (b1, r1) = (Inr (), (b', r'))"
    by (auto simp: bindS_eq_Inr)
  have "arb_wf b1 \<and> result_ok n b1 r1 \<and> closes_ok b1 r1 \<and> arb_frame a b1"
  proof (rule arb_place_split_rule [OF one Cons.prems(2),
        where P = "\<lambda>b r. result_ok n b r \<and> closes_ok b r \<and> arb_frame a b"])
    show "result_ok n b r \<and> closes_ok b r \<and> arb_frame a b" using Cons.prems by simp
  next
    fix nr i
    assume w: "arb_wf b" and P: "result_ok n b r \<and> closes_ok b r \<and> arb_frame a b"
      and i: "dict_get (arb_open_assignments b) nr = Some i"
    then show "result_ok n (arb_closed nr i b)
        ((if arb_replicated_done b then append_seal (int i) else id)
          (add_updates (map (\<lambda>ps. upd (int i) ps [] True False) (arb_partitioned_sources b)) r)) \<and>
       closes_ok (arb_closed nr i b)
        ((if arb_replicated_done b then append_seal (int i) else id)
          (add_updates (map (\<lambda>ps. upd (int i) ps [] True False) (arb_partitioned_sources b)) r)) \<and>
       arb_frame a (arb_closed nr i b)"
      by (intro conjI result_ok_closed closes_ok_closed arb_frame_steps arb_wf_open(1) [OF w i]) auto
  next
    fix nr b r
    assume w: "arb_wf b" and P: "result_ok n b r \<and> closes_ok b r \<and> arb_frame a b"
    then have "result_ok n (arb_opened nr b) (opened_result nr b r) \<and>
        closes_ok (arb_opened nr b) (opened_result nr b r) \<and> arb_frame a (arb_opened nr b)"
      using repl(1) by (intro conjI result_ok_opened closes_ok_opened arb_frame_steps) (auto simp: arb_frame_def)
    then show "result_ok n (arb_opened nr b) (add_updates (arb_replay b)
         (add_info \<lparr>info_partition_id = arb_next_partition_id b, info_node_requirements = Some nr\<rparr> r)) \<and>
       closes_ok (arb_opened nr b) (add_updates (arb_replay b)
         (add_info \<lparr>info_partition_id = arb_next_partition_id b, info_node_requirements = Some nr\<rparr> r)) \<and>
       arb_frame a (arb_opened nr b)"
      by (simp add: opened_result_def)
  next
    fix nr i b r
    assume w: "arb_wf b" and P: "result_ok n b r \<and> closes_ok b r \<and> arb_frame a b"
      and i: "dict_get (arb_open_assignments b) nr = Some i"
    then show "result_ok n (arb_put i (split_size_bytes sp (arb_standard_split_size_bytes b)) b)
          (add_updates [upd (int i) src [sp] False True] r) \<and>
        closes_ok (arb_put i (split_size_bytes sp (arb_standard_split_size_bytes b)) b)
          (add_updates [upd (int i) src [sp] False True] r) \<and>
        arb_frame a (arb_put i (split_size_bytes sp (arb_standard_split_size_bytes b)) b)"
      using repl(2) arb_wf_open [OF w i]
      by (intro conjI result_ok_put closes_ok_put arb_frame_steps) (auto simp: arb_frame_def)
  qed
  then show ?case using Cons.IH [OF rest] by blast
qed simp

definition arb_inv :: "arb_assigner \<Rightarrow> bool" where
  "arb_inv a = (arb_wf a \<and> sources_ok a)"

definition arb_known :: "arb_assigner \<Rightarrow> int set" where
  "arb_known a = int ` {0..<arb_len a}"

lemma arb_conclude_total: "\<exists>r' b. arb_conclude r a = (Inr r', b)"
proof -
  have "\<exists>r1 b. arb_finish_if_all_sources_completed a = (Inr r1, b)"
    using arb_finish_idle [of a] arb_finish_empty [of a] arb_finish_rest [of a] by blast
  then show ?thesis by (auto simp: arb_conclude_def bindS_def)
qed

lemma result_ok_conclude:
  assumes "arb_conclude r a = (Inr r', b)" and inv: "arb_inv a" and ok: "result_ok n a r" and ne: "arb_all_sources a \<noteq> []"
  shows "arb_inv b \<and> result_ok n b r'"
proof -
  obtain r1 where f: "arb_finish_if_all_sources_completed a = (Inr r1, b)" and r': "r' = merge_assignment_results r r1"
    using assms(1) by (auto simp: arb_conclude_def bindS_eq_Inr)
  have wf: "arb_wf a" and so: "sources_ok a" using inv by (simp_all add: arb_inv_def)
  have d: "distinct (arb_replicated_sources a)" using so by (simp add: sources_ok_def)
  from f show ?thesis
  proof (cases rule: arb_finish_cases)
    case idle
    then show ?thesis using inv ok by (simp add: r')
  next
    case only
    have "partition_updates r = []" and "sealed_partitions r = []" and "n = 0" and "partitions_added r = []"
      using ok only(2) by (auto simp: result_ok_def)
    moreover have "orderly (partition_updates r1)"
      unfolding only(6) orderly_append by (simp add: orderly_per_source [OF d])
    moreover have "arb_inv b"
      using wf so only(2,3) ne by (auto simp: arb_inv_def arb_wf_def sources_ok_def arb_only_partition_def)
    ultimately show ?thesis using only
      by (auto simp: result_ok_def r' arb_only_partition_def update_ok_def list_all_iff)
  next
    case rest
    have "\<forall>p\<in>set (sealed_partitions r1). \<exists>i<arb_len a. p = int i"
      using wf unfolding rest(6) open_ids [OF wf] by (auto simp: arb_wf_def)
    moreover have "orderly (closing_updates_of a)"
      by (rule orderly_no_splits) (auto simp: closing_updates_of_def)
    moreover have "arb_inv b" using wf so ne rest(3) by (simp add: arb_inv_def arb_wf_def sources_ok_def)
    ultimately show ?thesis
      using ok rest(3-5) closing_updates_of_refs [OF wf] closing_updates_of_no_splits(1) [of a]
      by (auto simp: result_ok_def r' orderly_append list_all_iff)
  qed
qed

lemma arb_place_split_raises:
  assumes "arb_wf a" and "arb_place_split src sp (a, r) = (Inl e, s)"
  shows "s = (a, r)"
proof (cases "arb_node_requirements a sp")
  case (Inl e')
  then show ?thesis using assms(2) by (simp add: arb_place_split_def)
next
  case (Inr nr)
  then show ?thesis
    using assms(2) arb_wf_open(1) [OF assms(1), of nr]
    by (cases "dict_get (arb_open_assignments a) nr")
      (auto simp: arb_place_split_def Let_def bindS_def emit_simp arb_open_partition_simp arb_close_full_simp split: if_splits)
qed

lemma arb_place_split_keeps:
  assumes "arb_wf (fst s) \<and> arb_frame a (fst s)"
  shows "arb_wf (fst (snd (arb_place_split src sp s))) \<and> arb_frame a (fst (snd (arb_place_split src sp s)))"
proof -
  obtain b r where s: "s = (b, r)" by fastforce
  obtain res s' where p: "arb_place_split src sp (b, r) = (res, s')" by (metis surj_pair)
  show ?thesis
  proof (cases res)
    case (Inl e)
    then show ?thesis using arb_place_split_raises [of b src sp r e s'] assms p s by simp
  next
    case (Inr u)
    then have "foldS (arb_place_split src) [sp] (b, r) = (Inr (), (fst s', snd s'))" using p by (simp add: bindS_def)
    then show ?thesis using arb_frame_place_splits assms p s by fastforce
  qed
qed

lemma arb_dispatch_contract:
  assumes "arb_dispatch (src, splits, no_more) a = (res, b)" and "arb_inv a"
  shows "arb_inv b \<and> (\<forall>r. res = Inr r \<longrightarrow> result_ok (arb_len a) b r)"
proof -
  define a1 where "a1 = (if arb_all_sources a = []
      then a\<lparr>arb_partitioned_sources := set_add src (arb_partitioned_sources a), arb_all_sources := [src]\<rparr> else a)"
  have d: "(if src \<in> set (arb_replicated_sources a1) then arb_assign_replicated_splits src splits no_more a1
            else arb_assign_partitioned_splits src splits no_more a1) = (res, b)"
    using assms(1) unfolding arb_dispatch_def Let_def prod.case a1_def [symmetric] .
  have inv1: "arb_inv a1" and ne: "arb_all_sources a1 \<noteq> []" and len: "arb_len a1 = arb_len a"
    using assms(2) by (auto simp: a1_def arb_inv_def arb_wf_def sources_ok_def)
  have wf1: "arb_wf a1" and so1: "sources_ok a1" using inv1 by (simp_all add: arb_inv_def)
  have dis: "distinct (arb_replicated_sources a1)" using so1 by (simp add: sources_ok_def)
  show ?thesis
  proof (cases "src \<in> set (arb_replicated_sources a1)")
    case True
    let ?a2 = "replicated_state src splits no_more a1" and ?r2 = "replicated_result src splits no_more a1"
    have c: "arb_conclude ?r2 ?a2 = (res, b)" using d True by (simp add: arb_assign_replicated_simp)
    have inv2: "arb_inv ?a2" using inv1 ne by (simp add: arb_inv_def arb_wf_def sources_ok_def)
    have ids: "\<forall>i<arb_len a1. pa_partition_id (arb_all_assignments a1 ! i) = int i" using wf1 by (simp add: arb_wf_def)
    then have id: "\<exists>i<arb_len a1. pa_partition_id pa = int i" if "pa \<in> set (arb_all_assignments a1)" for pa
      using that by (auto simp: in_set_conv_nth)
    have "distinct (map pa_partition_id (arb_all_assignments a1))"
      using ids by (auto simp: distinct_conv_nth)
    then have "orderly (map (\<lambda>pa. upd (pa_partition_id pa) src splits no_more False) (arb_all_assignments a1))"
      by (rule orderly_per_partition)
    then have "result_ok (arb_len a) ?a2 ?r2"
      using id by (auto simp: result_ok_def replicated_result_fields len update_ok_def list_all_iff)
    then show ?thesis
      using arb_conclude_total [of ?r2 ?a2] result_ok_conclude [OF _ inv2, of ?r2] c ne by fastforce
  next
    case False
    then have p: "arb_assign_partitioned_splits src splits no_more a1 = (res, b)" using d by simp
    obtain f s where fs: "foldS (arb_place_split src) splits (a1, empty_result) = (f, s)" by (metis surj_pair)
    have keep: "arb_wf (fst s) \<and> arb_frame a1 (fst s)"
      using foldS_inv [where P = "\<lambda>s. arb_wf (fst s) \<and> arb_frame a1 (fst s)" and f = "arb_place_split src"
          and s = "(a1, empty_result)" and xs = splits] arb_place_split_keeps wf1 fs
      by (simp add: arb_frame_def)
    then have inv2: "arb_inv (fst s)" using so1 ne by (auto simp: arb_inv_def sources_ok_def arb_frame_def)
    show ?thesis
    proof (cases f)
      case (Inl e)
      then show ?thesis using p fs inv2 by (auto simp: arb_assign_partitioned_splits_def split: prod.splits)
    next
      case (Inr u)
      obtain a2 r2 where s: "s = (a2, r2)" by fastforce
      have "result_ok (arb_len a) a1 empty_result" and "closes_ok a1 empty_result"
        by (simp_all add: result_ok_def closes_ok_def len)
      then have ok: "result_ok (arb_len a) a2 r2"
        using result_ok_place_splits [of src splits a1 empty_result a2 r2 "arb_len a" a1] fs wf1 dis False s Inr
        by (simp add: arb_frame_def)
      let ?a3 = "if no_more then a2\<lparr>arb_completed_sources := set_add src (arb_completed_sources a2)\<rparr> else a2"
      have c: "arb_conclude r2 ?a3 = (res, b)" using p fs s Inr by (simp add: arb_assign_partitioned_splits_def)
      have "arb_inv ?a3" and "arb_all_sources ?a3 \<noteq> []" and "result_ok (arb_len a) ?a3 r2"
        using inv2 keep ne ok s by (auto simp: arb_inv_def arb_wf_def sources_ok_def arb_frame_def result_ok_def)
      then show ?thesis using arb_conclude_total [of r2 ?a3] result_ok_conclude [of r2 ?a3] c by fastforce
    qed
  qed
qed

lemma arb_assign_contract:
  assumes "arb_inv a" and "arb_assign src inputs no_more a = (res, b)"
  shows "arb_inv b \<and> (\<forall>r. res = Inr r \<longrightarrow> result_ok (arb_len a) b r)"
proof (cases "arb_finished a \<or> isl (splits_from_inputs src inputs (dict_get_default (arb_source_sequences a) src 0))")
  case True
  then show ?thesis using assms by (auto simp: arb_assign_def isl_def split: if_splits)
next
  case False
  then obtain splits n where
    "splits_from_inputs src inputs (dict_get_default (arb_source_sequences a) src 0) = Inr (splits, n)"
    by (auto simp: isl_def) (metis sum.exhaust surj_pair)
  then have d: "arb_dispatch (src, splits, no_more)
      (a\<lparr>arb_source_sequences := dict_set src n (arb_source_sequences a)\<rparr>) = (res, b)"
    using assms(2) False by (simp add: arb_assign_def)
  show ?thesis using arb_dispatch_contract [OF d] assms(1) by (simp add: arb_inv_def arb_sequences_irrelevant)
qed

lemma result_ok_refers:
  assumes "result_ok (arb_len a) b r"
  shows "result_refers (arb_known a) r"
    and "arb_known b = arb_known a \<union> info_partition_id ` set (partitions_added r)"
proof -
  have "info_partition_id ` set (partitions_added r) = int ` {arb_len a..<arb_len b}"
    using assms unfolding result_ok_def by (metis list.set_map set_upt)
  then show *: "arb_known b = arb_known a \<union> info_partition_id ` set (partitions_added r)"
    using assms by (auto simp: arb_known_def result_ok_def image_iff)
  show "result_refers (arb_known a) r"
    using assms unfolding result_refers_def Let_def * [symmetric]
    by (auto simp: arb_known_def result_ok_def)
qed

interpretation arbitrary: split_assigner arb_assign arb_known arb_inv
proof
  fix s src inputs no_more
  assume "arb_inv s"
  then show "arb_inv (snd (arb_assign src inputs no_more s))"
    using arb_assign_contract by (metis prod.collapse)
next
  fix s src inputs no_more r t
  assume "arb_inv s" and "arb_assign src inputs no_more s = (Inr r, t)"
  then have ok: "result_ok (arb_len s) t r" using arb_assign_contract by blast
  then show "orderly (partition_updates r)" and "list_all update_ok (partition_updates r)"
    by (simp_all add: result_ok_def)
  show "result_refers (arb_known s) r"
    and "arb_known t = arb_known s \<union> info_partition_id ` set (partitions_added r)"
    using result_ok_refers [OF ok] by simp_all
qed

text \<open>
  C11. Every result of the arbitrary assigner can be applied. From any state reached from a
  successful construction by calls of \<open>assign\<close>, whether they returned or raised, the updates of the
  next result coalesce without an error into one update per partition and source that delivers the
  same splits. If the earlier calls all returned, the result mentions only partitions that their results
  or the result itself announce in \<open>partitions_added\<close>.
\<close>

theorem arb_results_apply:
  assumes "mk_arbitrary c = Inr a0" and "call_all arb_assign calls a0 = (outs, a)"
    and "arb_assign src inputs no_more a = (Inr r, b)"
  shows "(\<exists>cs. coalesce_partition_updates (partition_updates r) = Inr cs \<and>
              distinct (map (\<lambda>u. (upd_partition_id u, upd_source_node_id u)) cs) \<and>
              delivered cs = delivered (partition_updates r)) \<and>
         ((\<forall>out\<in>set outs. \<not> isl out) \<longrightarrow>
            (let announced = announced_in outs \<union> info_partition_id ` set (partitions_added r) in
             (\<forall>u\<in>set (partition_updates r). upd_partition_id u \<in> announced) \<and> set (sealed_partitions r) \<subseteq> announced))"
proof -
  have a0: "arb_inv a0" "arb_known a0 = {}"
    using mk_arbitrary_ok [OF assms(1)] assms(1)
    by (auto simp: arb_inv_def arb_known_def mk_arbitrary_def Let_def split: if_splits)
  have a: "arb_inv a" by (rule arbitrary.calls_known(1) [OF a0(1) assms(2)])
  have "result_refers (announced_in outs) r" if "\<forall>out\<in>set outs. \<not> isl out"
    by (rule arbitrary.calls_refer [OF a0 assms(2) that assms(3)])
  then show ?thesis
    using arbitrary.assign_coalesces [OF a assms(3)] by (auto simp: result_refers_def Let_def image_subset_iff)
qed

theorem arb_results_apply_witness:
  "\<exists>a0 outs a r b cs. mk_arbitrary sample_params = Inr a0 \<and> call_all arb_assign [(''dim'', [sample_item 7], False)] a0 = (outs, a) \<and>
     arb_assign ''fact'' [sample_item 0, sample_item 1] False a = (Inr r, b) \<and>
     coalesce_partition_updates (partition_updates r) = Inr cs \<and> delivered cs = delivered (partition_updates r) \<and>
     set (sealed_partitions r) \<subseteq> announced_in outs \<union> info_partition_id ` set (partitions_added r)"
proof -
  have ok: "case mk_arbitrary sample_params of Inl _ \<Rightarrow> False
        | Inr a0 \<Rightarrow> (case call_all arb_assign [(''dim'', [sample_item 7], False)] a0 of
            (outs, a) \<Rightarrow> list_all (\<lambda>out. \<not> isl out) outs \<and> \<not> isl (fst (arb_assign ''fact'' [sample_item 0, sample_item 1] False a)))"
    by code_simp
  then obtain a0 where a0: "mk_arbitrary sample_params = Inr a0"
    by (cases "mk_arbitrary sample_params") simp_all
  obtain outs a where calls: "call_all arb_assign [(''dim'', [sample_item 7], False)] a0 = (outs, a)" by fastforce
  have o: "\<forall>out\<in>set outs. \<not> isl out" and "\<not> isl (fst (arb_assign ''fact'' [sample_item 0, sample_item 1] False a))"
    using ok unfolding a0 sum.case calls prod.case list_all_iff by blast+
  then obtain r b where r: "arb_assign ''fact'' [sample_item 0, sample_item 1] False a = (Inr r, b)"
    by (metis isl_def prod.collapse sum.exhaust_sel)
  note th = arb_results_apply [OF a0 calls r]
  obtain cs where cs: "coalesce_partition_updates (partition_updates r) = Inr cs" "delivered cs = delivered (partition_updates r)"
    using conjunct1 [OF th] by blast
  have "set (sealed_partitions r) \<subseteq> announced_in outs \<union> info_partition_id ` set (partitions_added r)"
    using conjunct2 [OF th] o by (simp add: Let_def)
  then show ?thesis using a0 calls r cs by blast
qed

text \<open>
  A call that raises after it has opened a partition loses the announcement: the second split of the first call has no host
  and is not remotely accessible; the next result closes partition 0, which no result has announced.
\<close>

definition local_item :: "int \<Rightarrow> (string, pyval) dict" where
  "local_item n = sample_item n @ [(''remotely_accessible'', PBool False)]"

lemma raising_assign_loses_announcement:
  "case mk_arbitrary sample_params of Inl _ \<Rightarrow> False
   | Inr a0 \<Rightarrow> (case call_all arb_assign [(''fact'', [sample_item 0, local_item 1], False), (''fact'', [sample_item 2], False)] a0 of
       ([Inl _, Inr r], _) \<Rightarrow> map info_partition_id (partitions_added r) = [1] \<and> map upd_partition_id (partition_updates r) = [0, 1, 1]
     | _ \<Rightarrow> False)"
  by code_simp

end
