(* ===== verification/Hash_Assigner.thy ===== *)
theory Hash_Assigner
  imports Update_Batch
begin

text \<open>
  \<open>HashTaskPartition\<close> and \<open>HashSplitAssigner\<close> of \<open>src/duckdb/runners/fte/fte_split_assigner.py\<close>: every
  source partition is bound to a group of task partitions, one source of which may be split over
  the group round robin.

  Several source partitions may share one \<open>HashTaskPartition\<close> object, which the assigner mutates.
  The objects live in the list \<open>hsh_store\<close>; \<open>Obj i\<close> refers to the object at position \<open>i\<close>.
\<close>

record hash_task_partition =
  htp_sub_partition_count :: int
  htp_split_by_source :: "string option"
  htp_task_partition_ids :: "int list"
  htp_next_sub_partition :: int

definition mk_hash_task_partition :: "int \<Rightarrow> string option \<Rightarrow> hash_task_partition res" where
  "mk_hash_task_partition n split_by =
     (if n \<le> 0 then Inl (ValueError ''sub_partition_count must be positive'')
      else if 1 < n \<and> split_by = None
      then Inl (ValueError ''split_by_source is required for split hash task partitions'')
      else Inr \<lparr>htp_sub_partition_count = n, htp_split_by_source = split_by,
                htp_task_partition_ids = [], htp_next_sub_partition = 0\<rparr>)"

text \<open>The loop of \<open>ensure_ids\<close>: \<open>n\<close> ids are missing.\<close>

primrec add_ids :: "nat \<Rightarrow> int \<Rightarrow> int list \<Rightarrow> int list \<times> int" where
  "add_ids 0 next_id ids = (ids, next_id)"
| "add_ids (Suc n) next_id ids = add_ids n (next_id + 1) (ids @ [next_id])"

definition ensure_ids :: "int \<Rightarrow> hash_task_partition \<Rightarrow> hash_task_partition \<times> int" where
  "ensure_ids next_id h =
     (let (ids, n) = add_ids (nat (htp_sub_partition_count h - int (length (htp_task_partition_ids h)))) next_id
                       (htp_task_partition_ids h)
      in (h\<lparr>htp_task_partition_ids := ids\<rparr>, n))"

text \<open>Indexing a list, negative positions counting from the end.\<close>

definition py_index :: "'a list \<Rightarrow> int \<Rightarrow> 'a res" where
  "py_index xs i =
     (if 0 \<le> i \<and> i < int (length xs) then Inr (xs ! nat i)
      else if i < 0 \<and> - int (length xs) \<le> i then Inr (xs ! nat (i + int (length xs)))
      else Inl (IndexError ''list index out of range''))"

definition ids_for_source :: "string \<Rightarrow> (hash_task_partition, int list) op" where
  "ids_for_source src h =
     (if htp_split_by_source h = Some src
      then case py_index (htp_task_partition_ids h) (htp_next_sub_partition h) of
             Inl e \<Rightarrow> (Inl e, h)
           | Inr p \<Rightarrow> (Inr [p], h\<lparr>htp_next_sub_partition :=
                 (htp_next_sub_partition h + 1) mod int (length (htp_task_partition_ids h))\<rparr>)
      else (Inr (htp_task_partition_ids h), h))"

definition py_or :: "pyval \<Rightarrow> pyval \<Rightarrow> pyval" where
  "py_or v w = (if py_truthy v then v else w)"

definition optional_str :: "pyval \<Rightarrow> string option" where
  "optional_str v = (if v = PNone then None else Some (py_str v))"

text \<open>Coercion of one mapping value; a new object goes to the end of the store.\<close>

definition coerce_hash_task_partition :: "nat ref \<Rightarrow> (hash_task_partition list, nat) op" where
  "coerce_hash_task_partition v store =
     (let alloc = (\<lambda>h. case h of Inl e \<Rightarrow> (Inl e, store) | Inr x \<Rightarrow> (Inr (length store), store @ [x])) in
      case v of
        Obj i \<Rightarrow> (Inr i, store)
      | Raw (PInt n) \<Rightarrow> alloc (mk_hash_task_partition n None)
      | Raw (PBool b) \<Rightarrow> alloc (mk_hash_task_partition (of_bool b) None)
      | Raw (PDict d) \<Rightarrow>
          alloc (bindE (py_int (dict_get_default d ''sub_partition_count'' (dict_get_default d ''sub_partitions'' (PInt 1)))) (\<lambda>n.
                 mk_hash_task_partition n
                   (optional_str (py_or (dict_get_default d ''split_by_source'' PNone) (dict_get_default d ''split_by'' PNone)))))
      | Raw _ \<Rightarrow> (Inl (TypeError ''cannot coerce to HashTaskPartition''), store))"

record hash_assigner =
  hsh_source_partition_count :: int
  hsh_partitioned_sources :: "string list"
  hsh_replicated_sources :: "string list"
  hsh_all_sources :: "string list"
  hsh_catalog_requirement :: "string option"
  hsh_source_sequences :: "(string, int) dict"
  hsh_store :: "hash_task_partition list"
  hsh_mapping :: "(int, nat) dict"
  hsh_node_requirements :: "(int, node_requirements) dict"
  hsh_created_task_partitions :: "int list"
  hsh_completed_sources :: "string list"
  hsh_replicated_splits :: "(string, fte_split list) dict"
  hsh_all_task_partitions_created :: bool

section \<open>Construction\<close>

definition one_task_per_source_partition :: "int \<Rightarrow> hash_task_partition list \<Rightarrow> (int, nat ref) dict \<times> hash_task_partition list" where
  "one_task_per_source_partition n store =
     (map (\<lambda>k. (k, Obj (length store + nat k))) [0..n - 1],
      store @ replicate (nat n) \<lparr>htp_sub_partition_count = 1, htp_split_by_source = None,
                                htp_task_partition_ids = [], htp_next_sub_partition = 0\<rparr>)"

fun build_mapping :: "(int, nat ref) dict \<Rightarrow> int list \<Rightarrow> (hash_task_partition list, (int, nat) dict) op" where
  "build_mapping m [] store = (Inr [], store)"
| "build_mapping m (k # ks) store =
     (case dict_get m k of
        None \<Rightarrow> (Inl (ValueError ''missing task partition mapping for source partition''), store)
      | Some v \<Rightarrow>
          bindS (coerce_hash_task_partition v) (\<lambda>i.
          bindS (build_mapping m ks) (\<lambda>rest. retS ((k, i) # rest))) store)"

text \<open>Requirement mappings hold strings or \<open>None\<close> under \<open>catalog\<close> and \<open>host\<close>.\<close>

definition name_of :: "pyval \<Rightarrow> string option" where
  "name_of v = (case v of PStr s \<Rightarrow> Some s | _ \<Rightarrow> None)"

fun hash_node_requirement :: "string option \<Rightarrow> node_requirements ref option \<Rightarrow> node_requirements res" where
  "hash_node_requirement cat None = Inr \<lparr>nr_catalog = cat, nr_host = None, nr_remotely_accessible = True\<rparr>"
| "hash_node_requirement cat (Some (Obj nr)) = Inr nr"
| "hash_node_requirement cat (Some (Raw PNone)) = Inr \<lparr>nr_catalog = cat, nr_host = None, nr_remotely_accessible = True\<rparr>"
| "hash_node_requirement cat (Some (Raw (PDict d))) =
     Inr \<lparr>nr_catalog = (if dict_has d ''catalog'' then name_of (dict_get_default d ''catalog'' PNone) else cat),
          nr_host = name_of (dict_get_default d ''host'' PNone),
          nr_remotely_accessible = py_truthy (dict_get_default d ''remotely_accessible'' (PBool True))\<rparr>"
| "hash_node_requirement cat (Some (Raw _)) = Inl (TypeError ''cannot coerce to NodeRequirements'')"

definition normalize_node_requirements ::
  "string option \<Rightarrow> (int, node_requirements ref) dict option \<Rightarrow> int \<Rightarrow> (int, node_requirements) dict res" where
  "normalize_node_requirements cat m n =
     mapE (\<lambda>k. bindE (hash_node_requirement cat (case m of None \<Rightarrow> None | Some d \<Rightarrow> dict_get d k))
                 (\<lambda>nr. Inr (k, nr))) [0..n - 1]"

text \<open>The objects the caller passes in \<open>store\<close> stay shared with the assigner.\<close>

definition mk_hash ::
  "int \<Rightarrow> string list option \<Rightarrow> string list option \<Rightarrow> (int, nat ref) dict option \<Rightarrow>
   (int, node_requirements ref) dict option \<Rightarrow> string option \<Rightarrow> hash_task_partition list \<Rightarrow> hash_assigner res" where
  "mk_hash n parts repls mapping reqs cat store =
     (if n \<le> 0 then Inl (ValueError ''source_partition_count must be positive'')
      else
        let (m, store1) = (case mapping of None \<Rightarrow> one_task_per_source_partition n store | Some m \<Rightarrow> (m, store)) in
        case build_mapping m [0..n - 1] store1 of
          (Inl e, _) \<Rightarrow> Inl e
        | (Inr mp, store2) \<Rightarrow>
            bindE (normalize_node_requirements cat reqs n) (\<lambda>nrs.
            Inr \<lparr>hsh_source_partition_count = n, hsh_partitioned_sources = normalize_sources parts,
                 hsh_replicated_sources = normalize_sources repls,
                 hsh_all_sources = remdups (normalize_sources parts @ normalize_sources repls),
                 hsh_catalog_requirement = cat, hsh_source_sequences = [], hsh_store = store2,
                 hsh_mapping = mp, hsh_node_requirements = nrs, hsh_created_task_partitions = [],
                 hsh_completed_sources = [], hsh_replicated_splits = [],
                 hsh_all_task_partitions_created = False\<rparr>))"

section \<open>Assignment\<close>

fun collect_task_partitions ::
  "(int, nat) dict \<Rightarrow> (int, node_requirements) dict \<Rightarrow> int list \<Rightarrow> int \<Rightarrow> (int, node_requirements) dict \<Rightarrow>
   (hash_task_partition list, (int, node_requirements) dict) op" where
  "collect_task_partitions m reqs [] next_id acc store = (Inr acc, store)"
| "collect_task_partitions m reqs (k # ks) next_id acc store =
     (case (dict_get m k, dict_get reqs k) of
        (Some i, Some nr) \<Rightarrow>
          let (h, n) = ensure_ids next_id (store ! i);
              acc' = fold (\<lambda>p d. dict_setdefault p nr d) (htp_task_partition_ids h) acc
          in collect_task_partitions m reqs ks n acc' (store[i := h])
      | _ \<Rightarrow> (Inl (KeyError ''source partition''), store))"

definition hash_create_task_partitions :: "(hash_assigner \<times> assignment_result, unit) op" where
  "hash_create_task_partitions s =
     (let (a, r) = s in
      if hsh_all_task_partitions_created a then (Inr (), s)
      else case collect_task_partitions (hsh_mapping a) (hsh_node_requirements a)
                  [0..hsh_source_partition_count a - 1] 0 [] (hsh_store a) of
        (Inl e, store) \<Rightarrow> (Inl e, (a\<lparr>hsh_store := store\<rparr>, r))
      | (Inr reqs, store) \<Rightarrow>
          let ids = sort (dict_keys reqs) in
          (Inr (), (a\<lparr>hsh_store := store,
                      hsh_created_task_partitions := fold set_add ids (hsh_created_task_partitions a),
                      hsh_all_task_partitions_created := True\<rparr>,
                    r\<lparr>partitions_added := partitions_added r @
                         map (\<lambda>p. \<lparr>info_partition_id = p, info_node_requirements = dict_get reqs p\<rparr>) ids,
                      no_more_partitions := True\<rparr>)))"

definition hash_emit ::
  "int \<Rightarrow> string \<Rightarrow> fte_split list \<Rightarrow> bool \<Rightarrow> bool \<Rightarrow> bool \<Rightarrow> (hash_assigner \<times> assignment_result, unit) op" where
  "hash_emit p src splits no_more ready emit_empty s =
     (let (res, r) = append_update p src splits no_more ready emit_empty (snd s) in (res, (fst s, r)))"

definition task_partition_for_source_partition :: "hash_assigner \<Rightarrow> int \<Rightarrow> nat res" where
  "task_partition_for_source_partition a k =
     (if k < 0 \<or> hsh_source_partition_count a \<le> k then Inl (ValueError ''unknown source partition id'')
      else case dict_get (hsh_mapping a) k of None \<Rightarrow> Inl (KeyError ''source partition'') | Some i \<Rightarrow> Inr i)"

definition hash_place_split :: "string \<Rightarrow> fte_split \<Rightarrow> (hash_assigner \<times> assignment_result, unit) op" where
  "hash_place_split src sp s =
     (let a = fst s in
      case task_partition_for_source_partition a (source_partition_id sp) of
        Inl e \<Rightarrow> (Inl e, s)
      | Inr i \<Rightarrow>
          (case ids_for_source src (hsh_store a ! i) of
             (Inl e, h) \<Rightarrow> (Inl e, (a\<lparr>hsh_store := (hsh_store a)[i := h]\<rparr>, snd s))
           | (Inr ids, h) \<Rightarrow>
               foldS (\<lambda>p. hash_emit p src [sp] False True False) ids
                 (a\<lparr>hsh_store := (hsh_store a)[i := h]\<rparr>, snd s)))"

text \<open>The part of \<open>assign\<close> that delivers, for replicated and for other sources.\<close>

definition hash_deliver ::
  "string \<Rightarrow> fte_split list \<Rightarrow> bool \<Rightarrow> (hash_assigner \<times> assignment_result, unit) op" where
  "hash_deliver src splits no_more s =
     (let a = fst s in
      if src \<in> set (hsh_replicated_sources a) then
        foldS (\<lambda>p. hash_emit p src splits no_more False True) (sort (hsh_created_task_partitions a))
          (a\<lparr>hsh_replicated_splits :=
               dict_set src (dict_get_default (hsh_replicated_splits a) src [] @ splits) (hsh_replicated_splits a)\<rparr>,
           snd s)
      else foldS (hash_place_split src) splits s)"

definition hash_complete :: "string \<Rightarrow> (hash_assigner \<times> assignment_result, unit) op" where
  "hash_complete src =
     bindS (modS (apfst (\<lambda>a. a\<lparr>hsh_completed_sources := set_add src (hsh_completed_sources a)\<rparr>))) (\<lambda>_.
     bindS (\<lambda>s. foldS (\<lambda>p. hash_emit p src [] True False False) (sort (hsh_created_task_partitions (fst s))) s) (\<lambda>_.
     modS (\<lambda>(a, r).
       if set (hsh_all_sources a) \<subseteq> set (hsh_completed_sources a)
       then (a\<lparr>hsh_replicated_splits := []\<rparr>, fold append_seal (sort (hsh_created_task_partitions a)) r)
       else (a, r))))"

definition hash_assign ::
  "string \<Rightarrow> (string, pyval) dict list \<Rightarrow> bool \<Rightarrow> (hash_assigner, assignment_result) op" where
  "hash_assign src inputs no_more a =
     (case splits_from_inputs src inputs (dict_get_default (hsh_source_sequences a) src 0) of
        Inl e \<Rightarrow> (Inl e, a)
      | Inr (splits, next_seq) \<Rightarrow>
          let a1 = a\<lparr>hsh_source_sequences := dict_set src next_seq (hsh_source_sequences a)\<rparr>;
              a2 = (if hsh_all_sources a1 = []
                    then a1\<lparr>hsh_partitioned_sources := set_add src (hsh_partitioned_sources a1), hsh_all_sources := [src]\<rparr>
                    else a1);
              (res, (a3, r)) =
                bindS hash_create_task_partitions (\<lambda>_.
                bindS (hash_deliver src splits no_more) (\<lambda>_.
                if no_more then hash_complete src else retS ())) (a2, empty_result)
          in case res of Inl e \<Rightarrow> (Inl e, a3) | Inr _ \<Rightarrow> (Inr r, a3))"

definition hash_finish :: "(hash_assigner, assignment_result) op" where
  "hash_finish a =
     (if hsh_created_task_partitions a = []
      then (Inl (RuntimeError ''createdTaskPartitions is not expected to be empty''), a)
      else (Inr empty_result, a))"

section \<open>Numbering of task partitions\<close>

lemma add_ids_simp: "add_ids n next_id ids = (ids @ [next_id..next_id + int n - 1], next_id + int n)"
proof (induction n arbitrary: next_id ids)
  case (Suc n)
  have "[next_id..next_id + int (Suc n) - 1] = next_id # [next_id + 1..next_id + int (Suc n) - 1]"
    by (rule upto_rec1) simp
  then show ?case using Suc by (simp add: algebra_simps)
qed simp

lemma ensure_ids_simp:
  "ensure_ids next_id h =
     (let n = max 0 (htp_sub_partition_count h - int (length (htp_task_partition_ids h))) in
      (h\<lparr>htp_task_partition_ids := htp_task_partition_ids h @ [next_id..next_id + n - 1]\<rparr>, next_id + n))"
  by (simp add: ensure_ids_def add_ids_simp Let_def max_def)

lemma setdefault_fold:
  "wf_dict d \<Longrightarrow> wf_dict (fold (\<lambda>p d. dict_setdefault p v d) ps d)"
  "set (dict_keys (fold (\<lambda>p d. dict_setdefault p v d) ps d)) = set ps \<union> set (dict_keys d)"
proof -
  show "wf_dict d \<Longrightarrow> wf_dict (fold (\<lambda>p d. dict_setdefault p v d) ps d)"
    by (induction ps arbitrary: d) (auto simp: dict_setdefault_def)
  have step: "set (dict_keys (dict_setdefault p v d)) = insert p (set (dict_keys d))" for p d
    by (simp add: dict_setdefault_def dict_set_keys dict_has_keys insert_absorb del: set_map)
  show "set (dict_keys (fold (\<lambda>p d. dict_setdefault p v d) ps d)) = set ps \<union> set (dict_keys d)"
    by (induction ps arbitrary: d) (simp_all only: fold.simps id_apply comp_apply step list.set, auto)
qed

lemma collect_total:
  assumes "\<And>k. k \<in> set ks \<Longrightarrow> dict_has m k \<and> dict_has reqs k"
  shows "\<exists>acc' store'. collect_task_partitions m reqs ks next_id acc store = (Inr acc', store')"
  using assms
proof (induction ks arbitrary: next_id acc store)
  case (Cons k ks)
  then obtain i nr where "dict_get m k = Some i" "dict_get reqs k = Some nr"
    by (fastforce simp: dict_has_def)
  then show ?case using Cons by (simp split: prod.splits)
qed simp

text \<open>Numbering of fresh objects: consecutive blocks, one per object.\<close>

definition block_of :: "hash_task_partition \<Rightarrow> int \<Rightarrow> bool" where
  "block_of h b = (htp_task_partition_ids h = [b..b + htp_sub_partition_count h - 1])"

definition blocks_ok :: "hash_task_partition list \<Rightarrow> nat set \<Rightarrow> int \<Rightarrow> bool" where
  "blocks_ok store V n =
     (0 \<le> n \<and>
      (\<forall>i<length store. 0 < htp_sub_partition_count (store ! i) \<and> 0 \<le> htp_next_sub_partition (store ! i) \<and>
         htp_next_sub_partition (store ! i) < htp_sub_partition_count (store ! i)) \<and>
      (\<forall>i<length store. i \<notin> V \<longrightarrow> htp_task_partition_ids (store ! i) = []) \<and>
      (\<forall>i\<in>V. i < length store \<and>
         (\<exists>b. 0 \<le> b \<and> b + htp_sub_partition_count (store ! i) \<le> n \<and> block_of (store ! i) b)) \<and>
      (\<forall>i\<in>V. \<forall>j\<in>V. i \<noteq> j \<longrightarrow>
         set (htp_task_partition_ids (store ! i)) \<inter> set (htp_task_partition_ids (store ! j)) = {}))"

lemma blocks_ok_visited:
  assumes "blocks_ok store V n" and "i \<in> V"
  shows "ensure_ids n (store ! i) = (store ! i, n)" and "set (htp_task_partition_ids (store ! i)) \<subseteq> {0..<n}"
    and "int (length (htp_task_partition_ids (store ! i))) = htp_sub_partition_count (store ! i)"
    and "distinct (htp_task_partition_ids (store ! i))" and "i < length store"
proof -
  from assms obtain b where b: "0 \<le> b" "b + htp_sub_partition_count (store ! i) \<le> n" "block_of (store ! i) b"
    and pos: "0 < htp_sub_partition_count (store ! i)" and il: "i < length store"
    unfolding blocks_ok_def by blast
  then show len: "int (length (htp_task_partition_ids (store ! i))) = htp_sub_partition_count (store ! i)"
    by (simp add: block_of_def)
  then show "ensure_ids n (store ! i) = (store ! i, n)" by (simp add: ensure_ids_simp)
  show "set (htp_task_partition_ids (store ! i)) \<subseteq> {0..<n}" using b by (auto simp: block_of_def)
  show "distinct (htp_task_partition_ids (store ! i))" using b(3) by (simp add: block_of_def)
  show "i < length store" by (rule il)
qed

lemma blocks_ok_fresh:
  assumes "blocks_ok store V n" and "i < length store" and "i \<notin> V" and "ensure_ids n (store ! i) = (h, n')"
  shows "blocks_ok (store[i := h]) (insert i V) n'" and "set (htp_task_partition_ids h) = {n..<n'}" and "n \<le> n'"
proof -
  have e: "htp_task_partition_ids (store ! i) = []" and pos: "0 < htp_sub_partition_count (store ! i)"
    using assms(1-3) by (auto simp: blocks_ok_def)
  then have h: "h = (store ! i)\<lparr>htp_task_partition_ids := [n..n + htp_sub_partition_count (store ! i) - 1]\<rparr>"
    and n': "n' = n + htp_sub_partition_count (store ! i)"
    using assms(4) by (auto simp: ensure_ids_simp Let_def)
  show new: "set (htp_task_partition_ids h) = {n..<n'}" using h n' by auto
  show "n \<le> n'" using n' pos by simp
  have old: "set (htp_task_partition_ids (store ! j)) \<subseteq> {0..<n}" if "j \<in> V" for j
    using blocks_ok_visited(2) [OF assms(1) that] .
  have blk: "block_of h n" using h by (simp add: block_of_def)
  have oldb: "\<exists>b. 0 \<le> b \<and> b + htp_sub_partition_count (store ! j) \<le> n' \<and> block_of (store ! j) b" if "j \<in> V" for j
    using assms(1) that n' pos unfolding blocks_ok_def by fastforce
  have dis: "set (htp_task_partition_ids h) \<inter> set (htp_task_partition_ids (store ! j)) = {}" if "j \<in> V" for j
    using old [OF that] unfolding new by auto
  have ne: "j \<noteq> i" if "j \<in> V" for j using that assms(3) by blast
  show "blocks_ok (store[i := h]) (insert i V) n'"
    using assms(1,2) n' pos blk oldb dis ne h
    unfolding blocks_ok_def by (auto simp: nth_list_update)
qed

lemma setdefault_fold_known: "set ps \<subseteq> set (dict_keys d) \<Longrightarrow> fold (\<lambda>p d. dict_setdefault p v d) ps d = d"
  by (induction ps) (simp_all add: dict_setdefault_def dict_has_keys del: set_map)

lemma collect_blocks:
  assumes "collect_task_partitions m reqs ks n acc store = (Inr acc', store')"
    and "\<And>k i. dict_get m k = Some i \<Longrightarrow> i < length store" and "blocks_ok store V n"
    and "set (dict_keys acc) = {0..<n}" and "wf_dict acc"
  shows "\<exists>n'. blocks_ok store' (V \<union> {i. \<exists>k\<in>set ks. dict_get m k = Some i}) n' \<and>
              set (dict_keys acc') = {0..<n'} \<and> length store' = length store \<and> wf_dict acc'"
  using assms
proof (induction ks arbitrary: n acc store V)
  case (Cons k ks)
  from Cons.prems(1) obtain i nr where i: "dict_get m k = Some i" and nr: "dict_get reqs k = Some nr"
    by (auto split: option.splits)
  obtain h n1 where h: "ensure_ids n (store ! i) = (h, n1)" by fastforce
  let ?acc = "fold (\<lambda>p d. dict_setdefault p nr d) (htp_task_partition_ids h) acc"
  have il: "i < length store" using Cons.prems(2) [OF i] .
  have rest: "collect_task_partitions m reqs ks n1 ?acc (store[i := h]) = (Inr acc', store')"
    using Cons.prems(1) i nr h by simp
  have V: "V \<union> {j. \<exists>k'\<in>set (k # ks). dict_get m k' = Some j} = insert i V \<union> {j. \<exists>k\<in>set ks. dict_get m k = Some j}"
    using i by auto
  have "blocks_ok (store[i := h]) (insert i V) n1 \<and> set (dict_keys ?acc) = {0..<n1}"
  proof (cases "i \<in> V")
    case True
    then have hn: "h = store ! i" "n1 = n" using blocks_ok_visited(1) [OF Cons.prems(3) True] h by auto
    have "?acc = acc"
      using blocks_ok_visited(2) [OF Cons.prems(3) True] Cons.prems(4) hn by (intro setdefault_fold_known) simp
    then show ?thesis using Cons.prems(3,4) hn True by (simp add: insert_absorb del: set_map)
  next
    case False
    have "0 \<le> n" using Cons.prems(3) by (simp add: blocks_ok_def)
    then have "set (dict_keys ?acc) = {0..<n1}"
      using blocks_ok_fresh(2,3) [OF Cons.prems(3) il False h] Cons.prems(4) unfolding setdefault_fold(2) by auto
    then show ?thesis using blocks_ok_fresh(1) [OF Cons.prems(3) il False h] by simp
  qed
  then have b: "blocks_ok (store[i := h]) (insert i V) n1" and a: "set (dict_keys ?acc) = {0..<n1}" by blast+
  have "\<exists>n'. blocks_ok store' (insert i V \<union> {i. \<exists>k\<in>set ks. dict_get m k = Some i}) n' \<and>
              set (dict_keys acc') = {0..<n'} \<and> length store' = length (store[i := h]) \<and> wf_dict acc'"
    using Cons.prems(2) by (intro Cons.IH [OF rest _ b a setdefault_fold(1) [OF Cons.prems(5)]]) simp
  then show ?case unfolding V by simp
qed auto

section \<open>The invariant of the assigner\<close>

definition hash_ok :: "hash_assigner \<Rightarrow> bool" where
  "hash_ok a =
     (0 < hsh_source_partition_count a \<and>
      dict_keys (hsh_mapping a) = [0..hsh_source_partition_count a - 1] \<and>
      dict_keys (hsh_node_requirements a) = [0..hsh_source_partition_count a - 1] \<and>
      (\<forall>i\<in>set (dict_values (hsh_mapping a)). i < length (hsh_store a)) \<and>
      blocks_ok (hsh_store a)
        (if hsh_all_task_partitions_created a then set (dict_values (hsh_mapping a)) else {})
        (int (length (hsh_created_task_partitions a))) \<and>
      [0..int (length (hsh_created_task_partitions a)) - 1] = hsh_created_task_partitions a \<and>
      (\<not> hsh_all_task_partitions_created a \<longrightarrow> hsh_created_task_partitions a = []))"

lemma hash_okD:
  assumes "hash_ok a"
  shows "0 < hsh_source_partition_count a"
    and "dict_keys (hsh_mapping a) = [0..hsh_source_partition_count a - 1]"
    and "dict_keys (hsh_node_requirements a) = [0..hsh_source_partition_count a - 1]"
    and "\<forall>i\<in>set (dict_values (hsh_mapping a)). i < length (hsh_store a)"
    and "[0..int (length (hsh_created_task_partitions a)) - 1] = hsh_created_task_partitions a"
proof -
  note conj = assms [unfolded hash_ok_def]
  show "0 < hsh_source_partition_count a" using conj by (elim conjE)
  show "dict_keys (hsh_mapping a) = [0..hsh_source_partition_count a - 1]" using conj by (elim conjE)
  show "dict_keys (hsh_node_requirements a) = [0..hsh_source_partition_count a - 1]" using conj by (elim conjE)
  show "\<forall>i\<in>set (dict_values (hsh_mapping a)). i < length (hsh_store a)" using conj by (elim conjE)
  show "[0..int (length (hsh_created_task_partitions a)) - 1] = hsh_created_task_partitions a"
    using conj by (elim conjE)
qed

lemma hash_ok_mapping:
  assumes "hash_ok a"
  shows "dict_get (hsh_mapping a) k = Some i \<Longrightarrow> i < length (hsh_store a) \<and> i \<in> set (dict_values (hsh_mapping a))"
    and "{i. \<exists>k\<in>set [0..hsh_source_partition_count a - 1]. dict_get (hsh_mapping a) k = Some i} =
           set (dict_values (hsh_mapping a))"
    and "0 \<le> k \<Longrightarrow> k < hsh_source_partition_count a \<Longrightarrow> \<exists>i. dict_get (hsh_mapping a) k = Some i"
proof -
  have keys: "dict_keys (hsh_mapping a) = [0..hsh_source_partition_count a - 1]"
    by (rule hash_okD(2) [OF assms])
  have wf: "wf_dict (hsh_mapping a)" unfolding wf_dict_def keys by simp
  have bound: "\<forall>i\<in>set (dict_values (hsh_mapping a)). i < length (hsh_store a)"
    by (rule hash_okD(4) [OF assms])
  show "dict_get (hsh_mapping a) k = Some i \<Longrightarrow> i < length (hsh_store a) \<and> i \<in> set (dict_values (hsh_mapping a))"
    using bound dict_get_in_values [of "hsh_mapping a" k i] by blast
  show "\<exists>i. dict_get (hsh_mapping a) k = Some i" if "0 \<le> k" "k < hsh_source_partition_count a"
  proof -
    have "k \<in> set (dict_keys (hsh_mapping a))" unfolding keys using that by simp
    then have "dict_has (hsh_mapping a) k" by (simp only: dict_has_keys)
    then show ?thesis by (auto simp: dict_has_def)
  qed
  show "{i. \<exists>k\<in>set [0..hsh_source_partition_count a - 1]. dict_get (hsh_mapping a) k = Some i} =
      set (dict_values (hsh_mapping a))"
  proof (intro set_eqI iffI)
    fix i assume "i \<in> {i. \<exists>k\<in>set [0..hsh_source_partition_count a - 1]. dict_get (hsh_mapping a) k = Some i}"
    then show "i \<in> set (dict_values (hsh_mapping a))" using dict_get_in_values by fast
  next
    fix i assume "i \<in> set (dict_values (hsh_mapping a))"
    then obtain k where k: "(k, i) \<in> set (hsh_mapping a)" by auto
    then have "k \<in> set (dict_keys (hsh_mapping a))" by force
    then show "i \<in> {i. \<exists>k\<in>set [0..hsh_source_partition_count a - 1]. dict_get (hsh_mapping a) k = Some i}"
      using k wf_dict_get [OF wf] unfolding keys by fast
  qed
qed

lemma sort_created:
  "hash_ok a \<Longrightarrow> sort (hsh_created_task_partitions a) = hsh_created_task_partitions a"
  unfolding hash_ok_def by (metis sorted_sort_id sorted_upto)

lemma fold_set_add_distinct: "distinct (ys @ xs) \<Longrightarrow> fold set_add xs ys = ys @ xs"
  by (induction xs arbitrary: ys) (auto simp: set_add_def)

lemma hash_create_ok:
  assumes "hash_ok a" and "hash_create_task_partitions (a, r) = (res, (b, r'))"
  shows "res = Inr () \<and> hash_ok b \<and> hsh_all_task_partitions_created b \<and>
         partition_updates r' = partition_updates r \<and> sealed_partitions r' = sealed_partitions r \<and>
         map info_partition_id (partitions_added r') = map info_partition_id (partitions_added r) @
           (if hsh_all_task_partitions_created a then [] else hsh_created_task_partitions b) \<and>
         hsh_replicated_sources b = hsh_replicated_sources a \<and> hsh_mapping b = hsh_mapping a \<and>
         hsh_all_sources b = hsh_all_sources a \<and> hsh_source_partition_count b = hsh_source_partition_count a \<and>
         (hsh_all_task_partitions_created a \<longrightarrow> b = a)"
proof (cases "hsh_all_task_partitions_created a")
  case True
  then show ?thesis using assms by (auto simp: hash_create_task_partitions_def)
next
  case False
  let ?ks = "[0..hsh_source_partition_count a - 1]"
  note m = hash_ok_mapping [OF assms(1)]
  have created: "hsh_created_task_partitions a = []" using assms(1) False by (simp add: hash_ok_def)
  have blocks: "blocks_ok (hsh_store a) {} 0" using assms(1) False created by (simp add: hash_ok_def)
  have keys: "dict_keys (hsh_mapping a) = ?ks" "dict_keys (hsh_node_requirements a) = ?ks"
    using hash_okD(2,3) [OF assms(1)] .
  have "\<exists>acc' store'. collect_task_partitions (hsh_mapping a) (hsh_node_requirements a) ?ks 0 [] (hsh_store a) =
      (Inr acc', store')"
    by (rule collect_total) (simp only: dict_has_keys keys)
  then obtain reqs store where c: "collect_task_partitions (hsh_mapping a) (hsh_node_requirements a) ?ks 0 [] (hsh_store a) =
      (Inr reqs, store)" by blast
  have "\<exists>n'. blocks_ok store ({} \<union> {i. \<exists>k\<in>set ?ks. dict_get (hsh_mapping a) k = Some i}) n' \<and>
              set (dict_keys reqs) = {0..<n'} \<and> length store = length (hsh_store a) \<and> wf_dict reqs"
    by (rule collect_blocks [OF c _ blocks]) (use m(1) in \<open>blast, simp, simp\<close>)
  then obtain n where b: "blocks_ok store (set (dict_values (hsh_mapping a))) n"
    and k: "set (dict_keys reqs) = {0..<n}" and len: "length store = length (hsh_store a)" and wf: "wf_dict reqs"
    unfolding m(2) Un_empty_left by (elim exE conjE)
  have "0 \<le> n" using b by (simp add: blocks_ok_def)
  have "distinct (sort (dict_keys reqs))" using wf by (simp add: wf_dict_def)
  moreover have "set (sort (dict_keys reqs)) = set [0..n - 1]" unfolding set_sort k by auto
  ultimately have ids: "sort (dict_keys reqs) = [0..n - 1]"
    by (intro sorted_distinct_set_unique) simp_all
  have bdef: "b = a\<lparr>hsh_store := store, hsh_created_task_partitions := [0..n - 1],
                    hsh_all_task_partitions_created := True\<rparr>"
    and rdef: "r' = r\<lparr>partitions_added := partitions_added r @
                  map (\<lambda>p. \<lparr>info_partition_id = p, info_node_requirements = dict_get reqs p\<rparr>) [0..n - 1],
                  no_more_partitions := True\<rparr>" and "res = Inr ()"
    using assms(2) fold_set_add_distinct [of "[]" "[0..n - 1]"]
    unfolding hash_create_task_partitions_def Let_def prod.case c ids created if_not_P [OF False] sum.case
    by (simp_all add: eq_commute [of _ b])
  have ln: "int (length [0..n - 1]) = n" using \<open>0 \<le> n\<close> by simp
  have bound: "\<forall>i\<in>set (dict_values (hsh_mapping a)). i < length store"
    using hash_okD(4) [OF assms(1)] unfolding len .
  have pos: "0 < hsh_source_partition_count a" by (rule hash_okD(1) [OF assms(1)])
  have "hash_ok b"
    unfolding hash_ok_def bdef
    using bound pos keys b ln by (simp del: set_map)
  then show ?thesis using \<open>res = Inr ()\<close> by (simp add: rdef bdef False comp_def)
qed

end
