(* ===== verification/Hash_Run.thy ===== *)
theory Hash_Run
  imports Hash_Assigner
begin

text \<open>
  Correctness of \<open>HashSplitAssigner\<close>: where a call sends its splits, and the split assigner's
  contract with the fragment execution.
\<close>

section \<open>Placement of one split\<close>

text \<open>The task partitions that receive the next split of a source, and the object afterwards.\<close>

definition route_ids :: "string \<Rightarrow> hash_task_partition \<Rightarrow> int list" where
  "route_ids src h =
     (if htp_split_by_source h = Some src then [htp_task_partition_ids h ! nat (htp_next_sub_partition h)]
      else htp_task_partition_ids h)"

definition advance :: "string \<Rightarrow> hash_task_partition \<Rightarrow> hash_task_partition" where
  "advance src h =
     (if htp_split_by_source h = Some src
      then h\<lparr>htp_next_sub_partition := (htp_next_sub_partition h + 1) mod htp_sub_partition_count h\<rparr> else h)"

lemma advance_fields [simp]:
  "htp_task_partition_ids (advance src h) = htp_task_partition_ids h"
  "htp_sub_partition_count (advance src h) = htp_sub_partition_count h"
  "htp_split_by_source (advance src h) = htp_split_by_source h"
  by (simp_all add: advance_def)

lemma hash_emit_simp:
  "(ready \<Longrightarrow> splits \<noteq> []) \<Longrightarrow> emit_empty \<or> splits \<noteq> [] \<or> no_more \<Longrightarrow>
   hash_emit p src splits no_more ready emit_empty s =
     (Inr (), (fst s, add_updates [upd p src splits no_more ready] (snd s)))"
  by (auto simp: hash_emit_def append_update_ok push_update_def add_updates_def)

lemma hash_emit_loop:
  assumes "ready \<Longrightarrow> splits \<noteq> []" and "emit_empty \<or> splits \<noteq> [] \<or> no_more"
  shows "foldS (\<lambda>p. hash_emit p src splits no_more ready emit_empty) ps s =
           (Inr (), (fst s, add_updates (map (\<lambda>p. upd p src splits no_more ready) ps) (snd s)))"
  using assms by (induction ps arbitrary: s) (auto simp: bindS_def hash_emit_simp)

lemma ids_for_source_simp:
  assumes "0 \<le> htp_next_sub_partition h" and "htp_next_sub_partition h < htp_sub_partition_count h"
    and "int (length (htp_task_partition_ids h)) = htp_sub_partition_count h"
  shows "ids_for_source src h = (Inr (route_ids src h), advance src h)"
  using assms by (auto simp: ids_for_source_def route_ids_def advance_def py_index_def)

lemma blocks_ok_next:
  assumes "blocks_ok store V n" and "i \<in> V"
  shows "0 \<le> htp_next_sub_partition (store ! i)" "htp_next_sub_partition (store ! i) < htp_sub_partition_count (store ! i)"
  using assms(1) blocks_ok_visited(5) [OF assms] unfolding blocks_ok_def by blast+

lemma blocks_ok_advance:
  assumes "blocks_ok store V n"
  shows "blocks_ok (store[i := advance src (store ! i)]) V n"
proof -
  let ?s = "store[i := advance src (store ! i)]"
  have same: "htp_task_partition_ids (?s ! j) = htp_task_partition_ids (store ! j) \<and>
        htp_sub_partition_count (?s ! j) = htp_sub_partition_count (store ! j)" for j
    by (cases "i < length store"; cases "j = i") (auto simp: list_update_beyond)
  have next_ok: "0 \<le> htp_next_sub_partition (?s ! j) \<and> htp_next_sub_partition (?s ! j) < htp_sub_partition_count (?s ! j)"
    if "j < length store" for j
  proof (cases "j = i")
    case True
    have "0 < htp_sub_partition_count (store ! i)" using assms that True unfolding blocks_ok_def by blast
    then show ?thesis using assms that True unfolding blocks_ok_def by (auto simp: advance_def)
  next
    case False
    then show ?thesis using assms that unfolding blocks_ok_def by simp
  qed
  have blk: "block_of (?s ! j) b = block_of (store ! j) b" for j b
    using same by (simp add: block_of_def)
  show ?thesis using assms next_ok same unfolding blocks_ok_def blk by simp
qed

lemma hash_place_split_simp:
  assumes "hash_ok a" and "hsh_all_task_partitions_created a" and "0 \<le> source_partition_id sp"
    and "source_partition_id sp < hsh_source_partition_count a"
    and "dict_get (hsh_mapping a) (source_partition_id sp) = Some i"
  shows "hash_place_split src sp (a, r) =
     (Inr (), (a\<lparr>hsh_store := (hsh_store a)[i := advance src (hsh_store a ! i)]\<rparr>,
               add_updates (map (\<lambda>p. upd p src [sp] False True) (route_ids src (hsh_store a ! i))) r))"
proof -
  have blocks: "blocks_ok (hsh_store a) (set (dict_values (hsh_mapping a))) (int (length (hsh_created_task_partitions a)))"
    using assms(1,2) by (simp add: hash_ok_def)
  have i: "i \<in> set (dict_values (hsh_mapping a))" using hash_ok_mapping(1) [OF assms(1,5)] by (rule conjunct2)
  have "ids_for_source src (hsh_store a ! i) = (Inr (route_ids src (hsh_store a ! i)), advance src (hsh_store a ! i))"
    by (rule ids_for_source_simp) (use blocks_ok_next [OF blocks i] blocks_ok_visited(3) [OF blocks i] in simp_all)
  then show ?thesis
    using assms(3-5) by (simp add: hash_place_split_def task_partition_for_source_partition_def hash_emit_loop)
qed

lemma hash_ok_advance: "hash_ok a \<Longrightarrow> hash_ok (a\<lparr>hsh_store := (hsh_store a)[i := advance src (hsh_store a ! i)]\<rparr>)"
  unfolding hash_ok_def
  by (elim conjE, intro conjI) (simp_all add: blocks_ok_advance del: set_map split: if_splits)

lemma hash_place_split_raises:
  assumes "hash_ok a" and "hsh_all_task_partitions_created a"
    and "\<not> (0 \<le> source_partition_id sp \<and> source_partition_id sp < hsh_source_partition_count a)"
  shows "\<exists>e. hash_place_split src sp (a, r) = (Inl e, (a, r))"
  using assms by (auto simp: hash_place_split_def task_partition_for_source_partition_def)

text \<open>Every placement, whether it returns or raises.\<close>

lemma hash_place_split_cases:
  assumes "hash_ok a" and "hsh_all_task_partitions_created a"
  obtains e where "hash_place_split src sp (a, r) = (Inl e, (a, r))"
  | i where "dict_get (hsh_mapping a) (source_partition_id sp) = Some i"
    "0 \<le> source_partition_id sp" "source_partition_id sp < hsh_source_partition_count a"
    "hash_place_split src sp (a, r) =
     (Inr (), (a\<lparr>hsh_store := (hsh_store a)[i := advance src (hsh_store a ! i)]\<rparr>,
               add_updates (map (\<lambda>p. upd p src [sp] False True) (route_ids src (hsh_store a ! i))) r))"
proof (cases "0 \<le> source_partition_id sp \<and> source_partition_id sp < hsh_source_partition_count a")
  case True
  then obtain i where "dict_get (hsh_mapping a) (source_partition_id sp) = Some i"
    using hash_ok_mapping(3) [OF assms(1)] by blast
  then show ?thesis using that(2) hash_place_split_simp [OF assms] True by blast
next
  case False
  then show ?thesis using that(1) hash_place_split_raises [OF assms False] by blast
qed

section \<open>Placement of a list of splits\<close>

definition hash_frame :: "hash_assigner \<Rightarrow> hash_assigner \<Rightarrow> bool" where
  "hash_frame a b =
     (hash_ok b \<and> hsh_all_task_partitions_created b \<and> hsh_mapping b = hsh_mapping a \<and>
      hsh_source_partition_count b = hsh_source_partition_count a \<and>
      hsh_created_task_partitions b = hsh_created_task_partitions a \<and>
      hsh_replicated_sources b = hsh_replicated_sources a \<and> hsh_all_sources b = hsh_all_sources a)"

lemma route_ids_created:
  assumes "hash_ok a" and "hsh_all_task_partitions_created a" and "dict_get (hsh_mapping a) k = Some i"
  shows "set (route_ids src (hsh_store a ! i)) \<subseteq> set (hsh_created_task_partitions a)"
    and "distinct (route_ids src (hsh_store a ! i))"
    and "set (htp_task_partition_ids (hsh_store a ! i)) \<subseteq> set (hsh_created_task_partitions a)"
proof -
  let ?h = "hsh_store a ! i"
  have blocks: "blocks_ok (hsh_store a) (set (dict_values (hsh_mapping a))) (int (length (hsh_created_task_partitions a)))"
    using assms(1,2) by (simp add: hash_ok_def)
  have i: "i \<in> set (dict_values (hsh_mapping a))" using hash_ok_mapping(1) [OF assms(1,3)] by (rule conjunct2)
  have "set (hsh_created_task_partitions a) = {0..<int (length (hsh_created_task_partitions a))}"
    using hash_okD(5) [OF assms(1)] by (metis atLeastLessThanPlusOne_atLeastAtMost_int diff_add_cancel set_upto)
  then show ids: "set (htp_task_partition_ids ?h) \<subseteq> set (hsh_created_task_partitions a)"
    using blocks_ok_visited(2) [OF blocks i] by blast
  have "nat (htp_next_sub_partition ?h) < length (htp_task_partition_ids ?h)"
    using blocks_ok_next [OF blocks i] blocks_ok_visited(3) [OF blocks i] by linarith
  then have "htp_task_partition_ids ?h ! nat (htp_next_sub_partition ?h) \<in> set (htp_task_partition_ids ?h)" by simp
  then show "set (route_ids src ?h) \<subseteq> set (hsh_created_task_partitions a)" using ids by (auto simp: route_ids_def)
  show "distinct (route_ids src ?h)" using blocks_ok_visited(4) [OF blocks i] by (simp add: route_ids_def)
qed

text \<open>What a partitioned call adds to its result: ready updates of its source, to created partitions.\<close>

definition ready_updates :: "string \<Rightarrow> int list \<Rightarrow> partition_update list \<Rightarrow> bool" where
  "ready_updates src created us =
     list_all (\<lambda>u. upd_source_node_id u = src \<and> upd_partition_id u \<in> set created \<and> upd_splits u \<noteq> [] \<and>
                   \<not> upd_no_more_splits u) us"

lemma hash_place_splits_ok:
  assumes "hash_frame a b" and "foldS (hash_place_split src) sps (b, r) = (res, (b', r'))"
  shows "hash_frame a b' \<and> partitions_added r' = partitions_added r \<and> sealed_partitions r' = sealed_partitions r \<and>
         (\<exists>us. partition_updates r' = partition_updates r @ us \<and> ready_updates src (hsh_created_task_partitions a) us)"
  using assms
proof (induction sps arbitrary: b r)
  case Nil
  then show ?case by (simp add: ready_updates_def)
next
  case (Cons sp sps)
  have ok: "hash_ok b" and cr: "hsh_all_task_partitions_created b" using Cons.prems(1) by (auto simp: hash_frame_def)
  show ?case
  proof (rule hash_place_split_cases [OF ok cr, of src sp r])
    fix e assume "hash_place_split src sp (b, r) = (Inl e, (b, r))"
    then have "(b', r') = (b, r)" using Cons.prems(2) by (simp add: bindS_def)
    then show ?thesis using Cons.prems(1) by (simp add: ready_updates_def)
  next
    fix i
    let ?b = "b\<lparr>hsh_store := (hsh_store b)[i := advance src (hsh_store b ! i)]\<rparr>"
    let ?us = "map (\<lambda>p. upd p src [sp] False True) (route_ids src (hsh_store b ! i))"
    assume i: "dict_get (hsh_mapping b) (source_partition_id sp) = Some i"
      and p: "hash_place_split src sp (b, r) = (Inr (), (?b, add_updates ?us r))"
    have rest: "foldS (hash_place_split src) sps (?b, add_updates ?us r) = (res, (b', r'))"
      using Cons.prems(2) by (simp add: bindS_def p)
    have fr: "hash_frame a ?b" using Cons.prems(1) hash_ok_advance [OF ok, of i src] by (simp add: hash_frame_def)
    have "ready_updates src (hsh_created_task_partitions a) ?us"
      using route_ids_created(1) [OF ok cr i, of src] Cons.prems(1)
      by (auto simp: ready_updates_def list_all_iff hash_frame_def)
    then show ?thesis using Cons.IH [OF fr rest] by (auto simp: ready_updates_def)
  qed
qed

section \<open>Whole calls\<close>

lemma orderly_not_closing: "(\<And>u. u \<in> set us \<Longrightarrow> \<not> upd_no_more_splits u) \<Longrightarrow> orderly us"
  by (induction us) auto

text \<open>What a call has added to its result, up to and without the completion of its source.\<close>

definition hash_result_ok :: "int list \<Rightarrow> assignment_result \<Rightarrow> bool" where
  "hash_result_ok created r =
     (orderly (partition_updates r) \<and> list_all update_ok (partition_updates r) \<and>
      upd_partition_id ` set (partition_updates r) \<subseteq> set created \<and> set (sealed_partitions r) \<subseteq> set created)"

lemma hash_ok_replicated_splits: "hash_ok (a\<lparr>hsh_replicated_splits := d\<rparr>) = hash_ok a"
  by (simp add: hash_ok_def)

lemma hash_ok_completed: "hash_ok (a\<lparr>hsh_completed_sources := d\<rparr>) = hash_ok a"
  by (simp add: hash_ok_def)

lemma hash_deliver_ok:
  assumes "hash_ok a" and "hsh_all_task_partitions_created a" and "hash_deliver src sps nm (a, r) = (res, (b, r'))"
    and "partition_updates r = []" and "sealed_partitions r = []"
  shows "hash_frame a b \<and> hash_result_ok (hsh_created_task_partitions a) r' \<and> partitions_added r' = partitions_added r \<and>
         (src \<notin> set (hsh_replicated_sources a) \<longrightarrow> foldS (hash_place_split src) sps (a, r) = (res, (b, r'))) \<and>
         (src \<in> set (hsh_replicated_sources a) \<longrightarrow>
            partition_updates r' = map (\<lambda>p. upd p src sps nm False) (hsh_created_task_partitions a))"
proof (cases "src \<in> set (hsh_replicated_sources a)")
  case True
  have d: "distinct (hsh_created_task_partitions a)"
    using hash_okD(5) [OF assms(1)] by (metis distinct_upto)
  have b: "b = a\<lparr>hsh_replicated_splits :=
               dict_set src (dict_get_default (hsh_replicated_splits a) src [] @ sps) (hsh_replicated_splits a)\<rparr>"
    and r': "r' = add_updates (map (\<lambda>p. upd p src sps nm False) (hsh_created_task_partitions a)) r"
    using assms(3) True by (auto simp: hash_deliver_def Let_def hash_emit_loop sort_created [OF assms(1)])
  have "hash_frame a b" using assms(1,2) by (simp add: hash_frame_def b hash_ok_replicated_splits)
  moreover have "hash_result_ok (hsh_created_task_partitions a) r'"
    using assms(4,5) d by (auto simp: hash_result_ok_def r' orderly_per_partition update_ok_def list_all_iff)
  ultimately show ?thesis using True assms(4) by (simp add: r')
next
  case False
  have p: "foldS (hash_place_split src) sps (a, r) = (res, (b, r'))" using assms(3) False by (simp add: hash_deliver_def Let_def)
  have fr: "hash_frame a a" using assms(1,2) by (simp add: hash_frame_def)
  obtain us where us: "partition_updates r' = partition_updates r @ us"
    and ready: "ready_updates src (hsh_created_task_partitions a) us"
    and rest: "hash_frame a b" "partitions_added r' = partitions_added r" "sealed_partitions r' = sealed_partitions r"
    using hash_place_splits_ok [OF fr p] by blast
  have "orderly us" using ready by (intro orderly_not_closing) (auto simp: ready_updates_def list_all_iff)
  then have "hash_result_ok (hsh_created_task_partitions a) r'"
    using us ready rest(3) assms(4,5) by (auto simp: hash_result_ok_def ready_updates_def list_all_iff update_ok_def)
  then show ?thesis using rest p False by simp
qed

lemma fold_append_seal:
  "partition_updates (fold append_seal ps r) = partition_updates r"
  "partitions_added (fold append_seal ps r) = partitions_added r"
  "set (sealed_partitions (fold append_seal ps r)) = set ps \<union> set (sealed_partitions r)"
  by (induction ps arbitrary: r) auto

lemma hash_complete_ok:
  assumes "hash_frame a b" and "hash_complete src (b, r) = (res, (b', r'))"
  shows "res = Inr () \<and> hash_frame a b' \<and> partitions_added r' = partitions_added r \<and>
         partition_updates r' = partition_updates r @ map (\<lambda>p. upd p src [] True False) (hsh_created_task_partitions a) \<and>
         hsh_completed_sources b' = set_add src (hsh_completed_sources b) \<and>
         set (sealed_partitions r') = set (sealed_partitions r) \<union>
           (if set (hsh_all_sources a) \<subseteq> insert src (set (hsh_completed_sources b))
            then set (hsh_created_task_partitions a) else {})"
proof -
  let ?b = "b\<lparr>hsh_completed_sources := set_add src (hsh_completed_sources b)\<rparr>"
  have ok: "hash_ok ?b" using assms(1) by (simp add: hash_frame_def hash_ok_completed)
  note s = sort_created [OF ok]
  show ?thesis
    using assms s
    by (auto simp: hash_complete_def bindS_def hash_emit_loop hash_frame_def hash_ok_completed
        hash_ok_replicated_splits fold_append_seal split: if_splits)
qed

lemma hash_result_ok_complete:
  assumes "hash_result_ok created r"
    and "partition_updates r' = partition_updates r @ map (\<lambda>p. upd p src [] True False) created"
    and "set (sealed_partitions r') \<subseteq> set (sealed_partitions r) \<union> set created"
  shows "hash_result_ok created r'"
  using assms by (auto simp: hash_result_ok_def orderly_append update_ok_def list_all_iff)

lemma hash_ok_irrelevant:
  "hash_ok (a\<lparr>hsh_source_sequences := qs\<rparr>) = hash_ok a"
  "hash_ok (a\<lparr>hsh_partitioned_sources := ps, hsh_all_sources := al\<rparr>) = hash_ok a"
  by (simp_all add: hash_ok_def)

text \<open>A call, taken apart into its steps.\<close>

definition hash_started :: "string \<Rightarrow> int \<Rightarrow> hash_assigner \<Rightarrow> hash_assigner" where
  "hash_started src n a =
     (let a1 = a\<lparr>hsh_source_sequences := dict_set src n (hsh_source_sequences a)\<rparr> in
      if hsh_all_sources a1 = []
      then a1\<lparr>hsh_partitioned_sources := set_add src (hsh_partitioned_sources a1), hsh_all_sources := [src]\<rparr>
      else a1)"

lemma hash_started_fields [simp]:
  "hash_ok (hash_started src n a) = hash_ok a"
  "hsh_all_task_partitions_created (hash_started src n a) = hsh_all_task_partitions_created a"
  "hsh_created_task_partitions (hash_started src n a) = hsh_created_task_partitions a"
  "hsh_replicated_sources (hash_started src n a) = hsh_replicated_sources a"
  "hsh_mapping (hash_started src n a) = hsh_mapping a"
  "hsh_store (hash_started src n a) = hsh_store a"
  "hsh_source_partition_count (hash_started src n a) = hsh_source_partition_count a"
  by (simp_all add: hash_started_def Let_def hash_ok_irrelevant)

lemma hash_assign_steps:
  assumes ok: "hash_ok a" and asg: "hash_assign src inputs nm a = (res, b)"
    and sp: "splits_from_inputs src inputs (dict_get_default (hsh_source_sequences a) src 0) = Inr (sps, n)"
  obtains a1 r1 d a2 r2 where
    "hash_create_task_partitions (hash_started src n a, empty_result) = (Inr (), (a1, r1))"
    "hash_deliver src sps nm (a1, r1) = (d, (a2, r2))"
    "\<And>r. res = Inr r \<Longrightarrow> d = Inr () \<and> (if nm then hash_complete src (a2, r2) = (Inr (), (b, r)) else (b, r) = (a2, r2))"
    "isl res \<Longrightarrow> b = a2"
proof -
  obtain c a1 r1 where c: "hash_create_task_partitions (hash_started src n a, empty_result) = (c, (a1, r1))"
    by (metis surj_pair)
  have c1: "c = Inr ()" and ok1: "hash_ok a1" and cr1: "hsh_all_task_partitions_created a1"
    using hash_create_ok [OF _ c] ok by simp_all
  have empty: "partition_updates r1 = []" "sealed_partitions r1 = []"
    using hash_create_ok [OF _ c] ok by simp_all
  obtain d a2 r2 where d: "hash_deliver src sps nm (a1, r1) = (d, (a2, r2))" by (metis surj_pair)
  obtain e b3 r3 where e: "hash_complete src (a2, r2) = (e, (b3, r3))" by (metis surj_pair)
  have e1: "e = Inr ()" using hash_complete_ok [OF _ e] hash_deliver_ok [OF ok1 cr1 d empty] by blast
  have "hash_assign src inputs nm a =
      (let (res, (a3, r)) = bindS hash_create_task_partitions (\<lambda>_. bindS (hash_deliver src sps nm) (\<lambda>_.
           if nm then hash_complete src else retS ())) (hash_started src n a, empty_result)
       in case res of Inl e \<Rightarrow> (Inl e, a3) | Inr _ \<Rightarrow> (Inr r, a3))"
    by (simp add: hash_assign_def sp hash_started_def Let_def)
  then have eq: "(res, b) = (case d of
       Inl x \<Rightarrow> (Inl x, a2)
     | Inr _ \<Rightarrow> (if nm then (Inr r3, b3) else (Inr r2, a2)))"
    using asg c c1 d e e1 by (cases d; cases nm) (simp_all add: bindS_def)
  show ?thesis
    using eq e e1 c c1 d by (intro that [of a1 r1 d a2 r2]) (auto split: sum.splits if_splits)
qed

lemma hash_assign_contract:
  assumes ok: "hash_ok a" and asg: "hash_assign src inputs nm a = (res, b)"
  shows "hash_ok b \<and> (\<forall>r. res = Inr r \<longrightarrow> hash_result_ok (hsh_created_task_partitions b) r \<and>
           map info_partition_id (partitions_added r) =
             (if hsh_all_task_partitions_created a then [] else hsh_created_task_partitions b) \<and>
           hsh_all_task_partitions_created b \<and>
           (hsh_all_task_partitions_created a \<longrightarrow> hsh_created_task_partitions b = hsh_created_task_partitions a))"
proof (cases "splits_from_inputs src inputs (dict_get_default (hsh_source_sequences a) src 0)")
  case (Inl e)
  then show ?thesis using asg ok by (auto simp: hash_assign_def)
next
  case (Inr p)
  obtain sps n where p: "p = (sps, n)" by fastforce
  obtain a1 r1 d a2 r2 where
    c: "hash_create_task_partitions (hash_started src n a, empty_result) = (Inr (), (a1, r1))"
    and d: "hash_deliver src sps nm (a1, r1) = (d, (a2, r2))"
    and good: "\<And>r. res = Inr r \<Longrightarrow> d = Inr () \<and>
        (if nm then hash_complete src (a2, r2) = (Inr (), (b, r)) else (b, r) = (a2, r2))"
    and bad: "isl res \<Longrightarrow> b = a2"
    using hash_assign_steps [OF ok asg Inr [unfolded p]] by blast
  have ok0: "hash_ok (hash_started src n a)" using ok by simp
  note cr = hash_create_ok [OF ok0 c]
  have ok1: "hash_ok a1" and cr1: "hsh_all_task_partitions_created a1"
    and empty: "partition_updates r1 = []" "sealed_partitions r1 = []"
    using cr by simp_all
  have dl: "hash_frame a1 a2" "hash_result_ok (hsh_created_task_partitions a1) r2" "partitions_added r2 = partitions_added r1"
    using hash_deliver_ok [OF ok1 cr1 d empty] by blast+
  show ?thesis
  proof (cases res)
    case (Inl e)
    then show ?thesis using bad dl(1) by (simp add: hash_frame_def)
  next
    case (Inr r)
    have f: "hash_frame a1 b \<and> hash_result_ok (hsh_created_task_partitions a1) r \<and> partitions_added r = partitions_added r2"
    proof (cases nm)
      case True
      then have e: "hash_complete src (a2, r2) = (Inr (), (b, r))" using good [OF Inr] by simp
      note f = hash_complete_ok [OF dl(1) e]
      have "hash_result_ok (hsh_created_task_partitions a1) r"
        by (rule hash_result_ok_complete [OF dl(2)]) (use f in auto)
      then show ?thesis using f by blast
    next
      case False
      then show ?thesis using good [OF Inr] dl by simp
    qed
    have cre: "hsh_created_task_partitions b = hsh_created_task_partitions a1" "hash_ok b" "hsh_all_task_partitions_created b"
      using f by (simp_all add: hash_frame_def)
    show ?thesis using f cr dl(3) cre Inr by (auto split: if_splits)
  qed
qed

definition hash_known :: "hash_assigner \<Rightarrow> int set" where
  "hash_known a = set (hsh_created_task_partitions a)"

interpretation hash: split_assigner hash_assign hash_known hash_ok
proof
  fix s src inputs no_more
  assume "hash_ok s"
  then show "hash_ok (snd (hash_assign src inputs no_more s))"
    using hash_assign_contract by (metis prod.collapse)
next
  fix s src inputs no_more r t
  assume ok: "hash_ok s" and asg: "hash_assign src inputs no_more s = (Inr r, t)"
  have c: "hash_result_ok (hsh_created_task_partitions t) r"
    "map info_partition_id (partitions_added r) =
       (if hsh_all_task_partitions_created s then [] else hsh_created_task_partitions t)"
    "hsh_all_task_partitions_created s \<Longrightarrow> hsh_created_task_partitions t = hsh_created_task_partitions s"
    using hash_assign_contract [OF ok asg] by blast+
  then show "orderly (partition_updates r)" and "list_all update_ok (partition_updates r)"
    by (simp_all add: hash_result_ok_def)
  have none: "hsh_created_task_partitions s = []" if "\<not> hsh_all_task_partitions_created s"
    using ok that by (simp add: hash_ok_def)
  have added: "info_partition_id ` set (partitions_added r) =
      (if hsh_all_task_partitions_created s then {} else set (hsh_created_task_partitions t))"
    using c(2) by (metis list.set(1) list.set_map)
  show ann: "hash_known t = hash_known s \<union> info_partition_id ` set (partitions_added r)"
    using c(3) none by (auto simp: hash_known_def added)
  show "result_refers (hash_known s) r"
    using c(1) unfolding result_refers_def Let_def ann [symmetric] by (simp add: hash_result_ok_def hash_known_def)
qed

section \<open>Where the splits go\<close>

text \<open>The splits of a list whose source partition is bound to the object at \<open>i\<close>.\<close>

definition bound_to :: "(int, nat) dict \<Rightarrow> nat \<Rightarrow> fte_split list \<Rightarrow> fte_split list" where
  "bound_to m i sps = filter (\<lambda>sp. dict_get m (source_partition_id sp) = Some i) sps"

lemma delivered_route:
  "distinct ps \<Longrightarrow> delivered (map (\<lambda>q. upd q src [sp] nm rd) ps) p src = (if p \<in> set ps then [sp] else [])"
  by (induction ps) auto

text \<open>What the object at \<open>i\<close> brings to one of its task partitions.\<close>

definition share :: "string \<Rightarrow> hash_task_partition \<Rightarrow> int \<Rightarrow> fte_split list \<Rightarrow> fte_split list" where
  "share src h p mine =
     (if htp_split_by_source h = Some src
      then nths mine {k. htp_task_partition_ids h !
                           ((nat (htp_next_sub_partition h) + k) mod length (htp_task_partition_ids h)) = p}
      else mine)"

lemma share_Nil [simp]: "share src h p [] = []"
  by (simp add: share_def)

lemma share_Cons:
  assumes "0 \<le> htp_next_sub_partition h" and "htp_next_sub_partition h < htp_sub_partition_count h"
    and "int (length (htp_task_partition_ids h)) = htp_sub_partition_count h"
    and "p \<in> set (htp_task_partition_ids h)"
  shows "share src h p (sp # mine) = (if p \<in> set (route_ids src h) then [sp] else []) @ share src (advance src h) p mine"
proof (cases "htp_split_by_source h = Some src")
  case True
  let ?n = "length (htp_task_partition_ids h)" and ?k = "nat (htp_next_sub_partition h)"
  have lt: "?k < ?n" and pos: "0 < ?n" using assms(1-3) by linarith+
  have "nat ((htp_next_sub_partition h + 1) mod int ?n) = Suc ?k mod ?n"
    using assms(1) by (simp add: nat_mod_distrib nat_add_distrib)
  then have adv: "nat (htp_next_sub_partition (advance src h)) = Suc ?k mod ?n"
    using True assms(3) by (simp add: advance_def)
  have shift: "(Suc ?k mod ?n + k) mod ?n = (?k + Suc k) mod ?n" for k by (simp add: mod_add_left_eq)
  have "?k mod ?n = ?k" using lt by simp
  then show ?thesis using True by (simp add: share_def nths_Cons route_ids_def adv shift eq_commute)
next
  case False
  then show ?thesis using assms(4) by (simp add: share_def route_ids_def advance_def)
qed

lemma hash_route_loop:
  assumes "hash_frame a b" and "foldS (hash_place_split src) sps (b, r) = (Inr (), (b', r'))"
    and "i \<in> set (dict_values (hsh_mapping a))" and "p \<in> set (htp_task_partition_ids (hsh_store b ! i))"
  shows "delivered (partition_updates r') p src =
         delivered (partition_updates r) p src @ share src (hsh_store b ! i) p (bound_to (hsh_mapping a) i sps)"
  using assms
proof (induction sps arbitrary: b r)
  case Nil
  then show ?case by (simp add: bound_to_def)
next
  case (Cons sp sps)
  have ok: "hash_ok b" and cr: "hsh_all_task_partitions_created b" and m: "hsh_mapping b = hsh_mapping a"
    using Cons.prems(1) by (auto simp: hash_frame_def)
  have blocks: "blocks_ok (hsh_store b) (set (dict_values (hsh_mapping b))) (int (length (hsh_created_task_partitions b)))"
    using ok cr by (simp add: hash_ok_def)
  have ib: "i \<in> set (dict_values (hsh_mapping b))" using Cons.prems(3) m by simp
  have il: "i < length (hsh_store b)" using blocks_ok_visited(5) [OF blocks ib] .
  show ?case
  proof (rule hash_place_split_cases [OF ok cr, of src sp r])
    fix e assume "hash_place_split src sp (b, r) = (Inl e, (b, r))"
    then show ?thesis using Cons.prems(2) by (simp add: bindS_def)
  next
    fix j
    let ?h = "hsh_store b ! j"
    let ?b = "b\<lparr>hsh_store := (hsh_store b)[j := advance src ?h]\<rparr>"
    let ?us = "map (\<lambda>q. upd q src [sp] False True) (route_ids src ?h)"
    assume j: "dict_get (hsh_mapping b) (source_partition_id sp) = Some j"
      and pl: "hash_place_split src sp (b, r) = (Inr (), (?b, add_updates ?us r))"
    have rest: "foldS (hash_place_split src) sps (?b, add_updates ?us r) = (Inr (), (b', r'))"
      using Cons.prems(2) by (simp add: bindS_def pl)
    have fr: "hash_frame a ?b" using Cons.prems(1) hash_ok_advance [OF ok, of j src] by (simp add: hash_frame_def)
    have jb: "j \<in> set (dict_values (hsh_mapping b))" using hash_ok_mapping(1) [OF ok j] by (rule conjunct2)
    have here: "delivered ?us p src = (if p \<in> set (route_ids src ?h) then [sp] else [])"
      by (rule delivered_route [OF route_ids_created(2) [OF ok cr j]])
    have ids: "htp_task_partition_ids (hsh_store ?b ! i) = htp_task_partition_ids (hsh_store b ! i)"
      using il by (cases "i = j") simp_all
    have IH: "delivered (partition_updates r') p src =
        (delivered (partition_updates r) p src @ delivered ?us p src) @
        share src (hsh_store ?b ! i) p (bound_to (hsh_mapping a) i sps)"
      using Cons.IH [OF fr rest Cons.prems(3)] Cons.prems(4) ids by simp
    show ?thesis
    proof (cases "j = i")
      case True
      then have "share src (hsh_store b ! i) p (bound_to (hsh_mapping a) i (sp # sps)) =
          delivered ?us p src @ share src (hsh_store ?b ! i) p (bound_to (hsh_mapping a) i sps)"
        using j m il here Cons.prems(4)
          share_Cons [OF blocks_ok_next [OF blocks ib] blocks_ok_visited(3) [OF blocks ib]]
        by (simp add: bound_to_def)
      then show ?thesis using IH by simp
    next
      case False
      have "set (htp_task_partition_ids (hsh_store b ! i)) \<inter> set (htp_task_partition_ids ?h) = {}"
        using blocks False ib jb unfolding blocks_ok_def by blast
      moreover have "set (route_ids src ?h) \<subseteq> set (htp_task_partition_ids ?h)"
      proof -
        have "nat (htp_next_sub_partition ?h) < length (htp_task_partition_ids ?h)"
          using blocks_ok_next [OF blocks jb] blocks_ok_visited(3) [OF blocks jb] by linarith
        then show ?thesis by (simp add: route_ids_def)
      qed
      ultimately have "delivered ?us p src = []" using here Cons.prems(4) by auto
      then show ?thesis using IH False j m by (simp add: bound_to_def)
    qed
  qed
qed

section \<open>Objects across a call\<close>

text \<open>The configuration of an object, which no call changes.\<close>

definition same_config :: "hash_task_partition list \<Rightarrow> hash_task_partition list \<Rightarrow> bool" where
  "same_config s t =
     (length t = length s \<and>
      (\<forall>i<length s. htp_split_by_source (t ! i) = htp_split_by_source (s ! i) \<and>
                    htp_sub_partition_count (t ! i) = htp_sub_partition_count (s ! i)))"

lemma ensure_ids_frame:
  "ensure_ids n h = (h', n') \<Longrightarrow>
   htp_split_by_source h' = htp_split_by_source h \<and> htp_sub_partition_count h' = htp_sub_partition_count h \<and>
   htp_next_sub_partition h' = htp_next_sub_partition h"
  by (auto simp: ensure_ids_simp Let_def)

lemma collect_frame:
  assumes "collect_task_partitions m reqs ks n acc store = (Inr acc', store')"
  shows "same_config store store' \<and>
         (\<forall>i<length store. htp_next_sub_partition (store' ! i) = htp_next_sub_partition (store ! i))"
  using assms
proof (induction ks arbitrary: n acc store)
  case (Cons k ks)
  from Cons.prems obtain i nr where i: "dict_get m k = Some i" and nr: "dict_get reqs k = Some nr"
    by (auto split: option.splits)
  obtain h n1 where h: "ensure_ids n (store ! i) = (h, n1)" by fastforce
  have rest: "collect_task_partitions m reqs ks n1 (fold (\<lambda>p d. dict_setdefault p nr d) (htp_task_partition_ids h) acc)
      (store[i := h]) = (Inr acc', store')"
    using Cons.prems i nr h by simp
  note IH = Cons.IH [OF rest]
  have "htp_split_by_source (store[i := h] ! j) = htp_split_by_source (store ! j) \<and>
        htp_sub_partition_count (store[i := h] ! j) = htp_sub_partition_count (store ! j) \<and>
        htp_next_sub_partition (store[i := h] ! j) = htp_next_sub_partition (store ! j)" if "j < length store" for j
    using ensure_ids_frame [OF h] that by (cases "j = i") simp_all
  then show ?case using IH by (simp add: same_config_def)
qed (simp add: same_config_def)

lemma hash_create_frame:
  assumes "hash_create_task_partitions (a, r) = (Inr (), (b, r'))"
  shows "same_config (hsh_store a) (hsh_store b) \<and>
         (\<forall>i<length (hsh_store a). htp_next_sub_partition (hsh_store b ! i) = htp_next_sub_partition (hsh_store a ! i))"
  using assms
  by (auto simp: hash_create_task_partitions_def Let_def same_config_def
      split: if_splits prod.splits sum.splits dest!: collect_frame)

lemma hash_place_splits_frame:
  assumes "hash_frame a b" and "foldS (hash_place_split src) sps (b, r) = (res, (b', r'))"
  shows "same_config (hsh_store b) (hsh_store b') \<and>
         (\<forall>i<length (hsh_store b). htp_task_partition_ids (hsh_store b' ! i) = htp_task_partition_ids (hsh_store b ! i))"
  using assms
proof (induction sps arbitrary: b r)
  case Nil
  then show ?case by (simp add: same_config_def)
next
  case (Cons sp sps)
  have ok: "hash_ok b" and cr: "hsh_all_task_partitions_created b" using Cons.prems(1) by (auto simp: hash_frame_def)
  show ?case
  proof (rule hash_place_split_cases [OF ok cr, of src sp r])
    fix e assume "hash_place_split src sp (b, r) = (Inl e, (b, r))"
    then have "(b', r') = (b, r)" using Cons.prems(2) by (simp add: bindS_def)
    then show ?thesis by (simp add: same_config_def)
  next
    fix j
    let ?b = "b\<lparr>hsh_store := (hsh_store b)[j := advance src (hsh_store b ! j)]\<rparr>"
    let ?us = "map (\<lambda>q. upd q src [sp] False True) (route_ids src (hsh_store b ! j))"
    assume "hash_place_split src sp (b, r) = (Inr (), (?b, add_updates ?us r))"
    then have rest: "foldS (hash_place_split src) sps (?b, add_updates ?us r) = (res, (b', r'))"
      using Cons.prems(2) by (simp add: bindS_def)
    have fr: "hash_frame a ?b" using Cons.prems(1) hash_ok_advance [OF ok, of j src] by (simp add: hash_frame_def)
    have "htp_split_by_source (hsh_store ?b ! i) = htp_split_by_source (hsh_store b ! i) \<and>
          htp_sub_partition_count (hsh_store ?b ! i) = htp_sub_partition_count (hsh_store b ! i) \<and>
          htp_task_partition_ids (hsh_store ?b ! i) = htp_task_partition_ids (hsh_store b ! i)"
      if "i < length (hsh_store b)" for i
      using that by (cases "i = j") simp_all
    then show ?thesis using Cons.IH [OF fr rest] by (simp add: same_config_def)
  qed
qed

lemma hash_complete_store:
  "hash_complete src (b, r) = (res, (b', r')) \<Longrightarrow> hsh_store b' = hsh_store b"
  by (auto simp: hash_complete_def bindS_def hash_emit_loop split: if_splits)

section \<open>Construction\<close>

definition fresh_object :: "hash_task_partition \<Rightarrow> bool" where
  "fresh_object h = (0 < htp_sub_partition_count h \<and> htp_task_partition_ids h = [] \<and> htp_next_sub_partition h = 0)"

lemma mk_hash_task_partition_fresh: "mk_hash_task_partition n sb = Inr h \<Longrightarrow> fresh_object h"
  by (auto simp: mk_hash_task_partition_def fresh_object_def split: if_splits)

lemma coerce_fresh:
  assumes "coerce_hash_task_partition v store = (Inr i, store')" and "\<forall>h\<in>set store. fresh_object h"
    and "\<And>j. v = Obj j \<Longrightarrow> j < length store"
  shows "(\<forall>h\<in>set store'. fresh_object h) \<and> length store \<le> length store' \<and> i < length store'"
proof (cases v)
  case (Obj j)
  then show ?thesis using assms by (simp add: coerce_hash_task_partition_def)
next
  case (Raw w)
  then obtain h where "fresh_object h" "store' = store @ [h]" "i = length store"
    using assms(1) by (auto simp: coerce_hash_task_partition_def Let_def res_simps split: pyval.splits sum.splits
        dest: mk_hash_task_partition_fresh)
  then show ?thesis using assms(2) by auto
qed

lemma build_mapping_fresh:
  assumes "build_mapping m ks store = (Inr mp, store')" and "\<forall>h\<in>set store. fresh_object h"
    and "\<And>k j. dict_get m k = Some (Obj j) \<Longrightarrow> j < length store"
  shows "(\<forall>h\<in>set store'. fresh_object h) \<and> length store \<le> length store' \<and> dict_keys mp = ks \<and>
         (\<forall>i\<in>set (dict_values mp). i < length store')"
  using assms
proof (induction ks arbitrary: store mp)
  case (Cons k ks)
  then obtain v i store1 rest where v: "dict_get m k = Some v"
    and c: "coerce_hash_task_partition v store = (Inr i, store1)"
    and b: "build_mapping m ks store1 = (Inr rest, store')" and mp: "mp = (k, i) # rest"
    by (auto simp: bindS_eq_Inr split: option.splits)
  have c1: "(\<forall>h\<in>set store1. fresh_object h) \<and> length store \<le> length store1 \<and> i < length store1"
    using Cons.prems v by (intro coerce_fresh [OF c]) auto
  have "(\<forall>h\<in>set store'. fresh_object h) \<and> length store1 \<le> length store' \<and> dict_keys rest = ks \<and>
         (\<forall>i\<in>set (dict_values rest). i < length store')"
    using c1 Cons.prems(3) by (intro Cons.IH [OF b]) (auto intro: less_le_trans)
  then show ?case using c1 mp by auto
qed simp

lemma mapE_keys: "mapE (\<lambda>k. bindE (f k) (\<lambda>nr. Inr (k, nr))) ks = Inr ys \<Longrightarrow> dict_keys ys = ks"
  by (induction ks arbitrary: ys) (auto simp: res_simps)

lemma normalize_node_requirements_keys:
  "normalize_node_requirements cat m n = Inr nrs \<Longrightarrow> dict_keys nrs = [0..n - 1]"
  unfolding normalize_node_requirements_def by (rule mapE_keys)

text \<open>The objects a mapping refers to are in the store.\<close>

definition refs_below :: "nat \<Rightarrow> (int, nat ref) dict option \<Rightarrow> bool" where
  "refs_below n mapping =
     (case mapping of None \<Rightarrow> True
      | Some m \<Rightarrow> list_all (\<lambda>v. case v of Obj j \<Rightarrow> j < n | Raw _ \<Rightarrow> True) (dict_values m))"

lemma mk_hash_ok:
  assumes "mk_hash n parts repls mapping reqs cat store = Inr a" and "\<forall>h\<in>set store. fresh_object h"
    and "refs_below (length store) mapping"
  shows "hash_ok a \<and> hsh_created_task_partitions a = [] \<and> \<not> hsh_all_task_partitions_created a"
proof -
  define ms where "ms = (case mapping of None \<Rightarrow> one_task_per_source_partition n store | Some m \<Rightarrow> (m, store))"
  obtain m store1 where m: "ms = (m, store1)" by fastforce
  have n: "0 < n" using assms(1) by (auto simp: mk_hash_def split: if_splits)
  obtain mp store2 nrs where b: "build_mapping m [0..n - 1] store1 = (Inr mp, store2)"
    and q: "normalize_node_requirements cat reqs n = Inr nrs"
    and a: "hsh_source_partition_count a = n" "hsh_mapping a = mp" "hsh_node_requirements a = nrs"
      "hsh_store a = store2" "hsh_created_task_partitions a = []" "hsh_all_task_partitions_created a = False"
    using assms(1) n m unfolding mk_hash_def ms_def [symmetric]
    by (auto simp: res_simps split: if_splits prod.splits sum.splits)
  have "(\<forall>h\<in>set store1. fresh_object h) \<and> (\<forall>k j. dict_get m k = Some (Obj j) \<longrightarrow> j < length store1)"
  proof (cases mapping)
    case None
    then have m1: "m = map (\<lambda>k. (k, Obj (length store + nat k))) [0..n - 1]"
      and s1: "store1 = store @ replicate (nat n) \<lparr>htp_sub_partition_count = 1, htp_split_by_source = None,
                                htp_task_partition_ids = [], htp_next_sub_partition = 0\<rparr>"
      using m by (auto simp: ms_def one_task_per_source_partition_def)
    have "j < length store1" if "dict_get m k = Some (Obj j)" for k j
      using map_of_SomeD [OF that] n by (auto simp: m1 s1)
    then show ?thesis using assms(2) by (auto simp: s1 fresh_object_def)
  next
    case (Some m')
    have "j < length store" if "dict_get m' k = Some (Obj j)" for k j
      using map_of_SomeD [OF that] assms(3) Some by (force simp: refs_below_def list_all_iff)
    then show ?thesis using Some m assms(2) by (auto simp: ms_def)
  qed
  then have f: "(\<forall>h\<in>set store2. fresh_object h) \<and> length store1 \<le> length store2 \<and> dict_keys mp = [0..n - 1] \<and>
         (\<forall>i\<in>set (dict_values mp). i < length store2)"
    by (intro build_mapping_fresh [OF b]) blast+
  then have "blocks_ok store2 {} 0" by (auto simp: blocks_ok_def fresh_object_def)
  then have "hash_ok a"
    using f n normalize_node_requirements_keys [OF q] unfolding hash_ok_def a by (simp del: set_map)
  then show ?thesis using a by simp
qed

lemma hash_started_count [simp]:
  "hsh_source_partition_count (hash_started src n a) = hsh_source_partition_count a"
  "hsh_store (hash_started src n a) = hsh_store a"
  by (simp_all add: hash_started_def Let_def)

lemma hash_assign_count:
  assumes "hash_ok a" and "hash_assign src inputs nm a = (Inr r, b)"
  shows "hsh_source_partition_count b = hsh_source_partition_count a"
proof -
  obtain sps n where sp: "splits_from_inputs src inputs (dict_get_default (hsh_source_sequences a) src 0) = Inr (sps, n)"
    using assms(2) by (auto simp: hash_assign_def split: sum.splits)
  obtain a1 r1 a2 r2 where c: "hash_create_task_partitions (hash_started src n a, empty_result) = (Inr (), (a1, r1))"
    and d: "hash_deliver src sps nm (a1, r1) = (Inr (), (a2, r2))"
    and e: "if nm then hash_complete src (a2, r2) = (Inr (), (b, r)) else (b, r) = (a2, r2)"
    by (rule hash_assign_steps [OF assms sp]) blast
  have ok1: "hash_ok a1" and cr1: "hsh_all_task_partitions_created a1" and empty: "partition_updates r1 = []" "sealed_partitions r1 = []"
    and n1: "hsh_source_partition_count a1 = hsh_source_partition_count a"
    using hash_create_ok [OF _ c] assms(1) by simp_all
  have fr: "hash_frame a1 a2" using hash_deliver_ok [OF ok1 cr1 d empty] by blast
  show ?thesis
  proof (cases nm)
    case True
    then show ?thesis using hash_complete_ok [OF fr, of src r2 "Inr ()" b r] e n1 by (simp add: hash_frame_def)
  next
    case False
    then show ?thesis using e fr n1 by (simp add: hash_frame_def)
  qed
qed

lemma mk_hash_count: "mk_hash n parts repls mapping reqs cat store = Inr a \<Longrightarrow> hsh_source_partition_count a = n"
  by (auto simp: mk_hash_def Let_def res_simps split: if_splits prod.splits sum.splits)

lemma delivered_all:
  "distinct ps \<Longrightarrow> p \<in> set ps \<Longrightarrow> delivered (map (\<lambda>q. upd q src sps nm rd) ps) p src = sps"
proof (induction ps)
  case (Cons q ps)
  have "delivered (map (\<lambda>q. upd q src sps nm rd) ps) q src = []"
    using Cons.prems(1) by (intro delivered_other) auto
  then show ?case using Cons by auto
qed simp

text \<open>
  Three source partitions: the first two share an object split by \<open>fact\<close> into two sub-partitions,
  the third has an object of its own.
\<close>

definition sample_store :: "hash_task_partition list" where
  "sample_store =
     [\<lparr>htp_sub_partition_count = 2, htp_split_by_source = Some ''fact'', htp_task_partition_ids = [], htp_next_sub_partition = 0\<rparr>,
      \<lparr>htp_sub_partition_count = 1, htp_split_by_source = None, htp_task_partition_ids = [], htp_next_sub_partition = 0\<rparr>]"

definition sample_mapping :: "(int, nat ref) dict" where
  "sample_mapping = [(0, Obj 0), (1, Obj 0), (2, Obj 1)]"

definition sample_hash :: "hash_assigner res" where
  "sample_hash = mk_hash 3 (Some [''fact'']) (Some [''dim'']) (Some sample_mapping) None None sample_store"

definition routed_input :: "int \<Rightarrow> (string, pyval) dict" where
  "routed_input k = [(''source_partition_id'', PInt k), (''kind'', PStr ''file'')]"

definition routed_inputs :: "(string, pyval) dict list" where
  "routed_inputs = map routed_input [0, 2, 1, 0]"

definition sample_facts :: "hash_assigner \<Rightarrow> assignment_result \<Rightarrow> hash_assigner \<Rightarrow> bool" where
  "sample_facts a r b =
     (hsh_source_sequences a = [] \<and> hsh_replicated_sources a = [''dim''] \<and> hsh_mapping a = [(0, 0), (1, 0), (2, 1)] \<and>
      length (partitions_added r) = 3 \<and> map htp_task_partition_ids (hsh_store b) = [[0, 1], [2]] \<and>
      htp_split_by_source (hsh_store b ! 1) = None)"

definition sample_hash_ok :: bool where
  "sample_hash_ok =
     (case sample_hash of Inl _ \<Rightarrow> False
      | Inr a \<Rightarrow> (case hash_assign ''fact'' routed_inputs False a of
            (Inl _, _) \<Rightarrow> False
          | (Inr r, b) \<Rightarrow> sample_facts a r b))"

lemma sample_hash_run: "sample_hash_ok"
  by code_simp

lemma sample_hash_run_parts:
  obtains a r b where "mk_hash 3 (Some [''fact'']) (Some [''dim'']) (Some sample_mapping) None None sample_store = Inr a"
    and "hash_assign ''fact'' routed_inputs False a = (Inr r, b)" and "sample_facts a r b"
proof -
  obtain a where a: "sample_hash = Inr a" using sample_hash_run unfolding sample_hash_ok_def by (auto split: sum.splits)
  obtain x b where x: "hash_assign ''fact'' routed_inputs False a = (x, b)" by fastforce
  show thesis
    using sample_hash_run a x unfolding sample_hash_ok_def by (cases x) (auto simp: sample_hash_def intro: that)
qed

lemma sample_store_fresh: "(\<forall>h\<in>set sample_store. fresh_object h)" "refs_below (length sample_store) (Some sample_mapping)"
  by (simp_all add: sample_store_def sample_mapping_def fresh_object_def refs_below_def)


section \<open>Properties\<close>

text \<open>
  C14. The first successful \<open>assign\<close> of a hash-distributed assigner announces its task partitions as
  0, 1, 2, \<dots>: every task partition object the source partitions are bound to owns a block of as
  many consecutive ids as its sub-partition count, and the blocks of different objects are disjoint,
  also where several source partitions share an object.
\<close>

theorem hash_first_assign_numbers:
  assumes "mk_hash n parts repls mapping reqs cat store = Inr a" and "\<forall>h\<in>set store. fresh_object h"
    and "refs_below (length store) mapping"
    and "hash_assign src inputs nm a = (Inr r, b)"
  shows "map info_partition_id (partitions_added r) = [0..int (length (partitions_added r)) - 1] \<and>
         (\<forall>k\<in>{0..<n}. \<exists>i c. dict_get (hsh_mapping b) k = Some i \<and> 0 \<le> c \<and>
            c + htp_sub_partition_count (hsh_store b ! i) \<le> int (length (partitions_added r)) \<and>
            htp_task_partition_ids (hsh_store b ! i) = [c..c + htp_sub_partition_count (hsh_store b ! i) - 1]) \<and>
         (\<forall>i\<in>set (dict_values (hsh_mapping b)). \<forall>j\<in>set (dict_values (hsh_mapping b)). i \<noteq> j \<longrightarrow>
            set (htp_task_partition_ids (hsh_store b ! i)) \<inter> set (htp_task_partition_ids (hsh_store b ! j)) = {})"
proof -
  have a: "hash_ok a" "\<not> hsh_all_task_partitions_created a" using mk_hash_ok [OF assms(1-3)] by blast+
  have b: "hash_ok b" "hsh_all_task_partitions_created b"
    and ids: "map info_partition_id (partitions_added r) = hsh_created_task_partitions b"
    using hash_assign_contract [OF a(1) assms(4)] a(2) by simp_all
  have len: "length (partitions_added r) = length (hsh_created_task_partitions b)" using ids by (metis length_map)
  have n: "hsh_source_partition_count b = n"
    using hash_assign_count [OF a(1) assms(4)] mk_hash_count [OF assms(1)] by simp
  have blocks: "blocks_ok (hsh_store b) (set (dict_values (hsh_mapping b))) (int (length (hsh_created_task_partitions b)))"
    using b by (simp add: hash_ok_def)
  have "\<exists>i c. dict_get (hsh_mapping b) k = Some i \<and> 0 \<le> c \<and>
            c + htp_sub_partition_count (hsh_store b ! i) \<le> int (length (partitions_added r)) \<and>
            htp_task_partition_ids (hsh_store b ! i) = [c..c + htp_sub_partition_count (hsh_store b ! i) - 1]"
    if "k \<in> {0..<n}" for k
  proof -
    have "k \<in> set (dict_keys (hsh_mapping b))" using hash_okD(2) [OF b(1)] that n by simp
    then obtain i where i: "dict_get (hsh_mapping b) k = Some i" using map_of_eq_None_iff [of "hsh_mapping b" k]
      by (cases "dict_get (hsh_mapping b) k") simp_all
    have "i \<in> set (dict_values (hsh_mapping b))" using hash_ok_mapping(1) [OF b(1) i] by blast
    then show ?thesis using blocks i unfolding blocks_ok_def block_of_def len by blast
  qed
  then show ?thesis
    using ids len hash_okD(5) [OF b(1)] blocks unfolding blocks_ok_def by simp
qed

theorem hash_first_assign_numbers_witness:
  "\<exists>a r b. sample_hash = Inr a \<and> hash_assign ''fact'' routed_inputs False a = (Inr r, b) \<and>
           map info_partition_id (partitions_added r) = [0, 1, 2]"
proof -
  obtain a r b where p: "mk_hash 3 (Some [''fact'']) (Some [''dim'']) (Some sample_mapping) None None sample_store = Inr a"
    "hash_assign ''fact'' routed_inputs False a = (Inr r, b)" "sample_facts a r b"
    by (rule sample_hash_run_parts)
  have "map info_partition_id (partitions_added r) = [0..int 3 - 1]"
    using hash_first_assign_numbers [OF p(1) sample_store_fresh p(2)] p(3) by (simp add: sample_facts_def)
  also have "[0..int 3 - 1] = [0, 1, 2]" by code_simp
  finally show ?thesis using p by (auto simp: sample_hash_def)
qed

text \<open>
  C13. A successful \<open>assign\<close> routes by source partition.  For a partitioned source, a task partition
  receives the splits of the call whose source partition is bound to its object, in order: all of
  them, or, when the object is split by this source, the positions that round robin over the ids of
  the object, continuing at its cursor, gives to that task partition.  A replicated source sends all
  its splits to every task partition.
\<close>

theorem hash_assign_routes:
  assumes "hash_ok a" and "hash_assign src inputs nm a = (Inr r, b)"
    and "splits_from_inputs src inputs (dict_get_default (hsh_source_sequences a) src 0) = Inr (sps, n)"
  shows "(src \<in> set (hsh_replicated_sources a) \<longrightarrow>
            (\<forall>p\<in>set (hsh_created_task_partitions b). delivered (partition_updates r) p src = sps)) \<and>
         (src \<notin> set (hsh_replicated_sources a) \<longrightarrow>
            (\<forall>i\<in>set (dict_values (hsh_mapping a)). \<forall>p\<in>set (htp_task_partition_ids (hsh_store b ! i)).
               delivered (partition_updates r) p src =
               share src ((hsh_store b ! i)\<lparr>htp_next_sub_partition := htp_next_sub_partition (hsh_store a ! i)\<rparr>) p
                 (bound_to (hsh_mapping a) i sps)))"
proof -
  obtain a1 r1 a2 r2 where c: "hash_create_task_partitions (hash_started src n a, empty_result) = (Inr (), (a1, r1))"
    and d: "hash_deliver src sps nm (a1, r1) = (Inr (), (a2, r2))"
    and e: "if nm then hash_complete src (a2, r2) = (Inr (), (b, r)) else (b, r) = (a2, r2)"
    by (rule hash_assign_steps [OF assms]) blast
  have ok1: "hash_ok a1" and cr1: "hsh_all_task_partitions_created a1" and empty: "partition_updates r1 = []" "sealed_partitions r1 = []"
    and repl: "hsh_replicated_sources a1 = hsh_replicated_sources a" and mp: "hsh_mapping a1 = hsh_mapping a"
    using hash_create_ok [OF _ c] assms(1) by simp_all
  note dl = hash_deliver_ok [OF ok1 cr1 d empty]
  have upds: "delivered (partition_updates r) = delivered (partition_updates r2)"
    and cre: "hsh_created_task_partitions b = hsh_created_task_partitions a1" and st: "hsh_store b = hsh_store a2"
  proof -
    have "delivered (partition_updates r) = delivered (partition_updates r2) \<and>
      hsh_created_task_partitions b = hsh_created_task_partitions a1 \<and> hsh_store b = hsh_store a2"
    proof (cases nm)
      case True
      then have h: "hash_complete src (a2, r2) = (Inr (), (b, r))" using e by simp
      show ?thesis using hash_complete_ok [OF _ h] hash_complete_store [OF h] dl
        by (simp add: hash_frame_def delivered_closing fun_eq_iff)
    next
      case False
      then show ?thesis using e dl by (simp add: hash_frame_def)
    qed
    then show "delivered (partition_updates r) = delivered (partition_updates r2)"
      "hsh_created_task_partitions b = hsh_created_task_partitions a1" "hsh_store b = hsh_store a2" by blast+
  qed
  have "delivered (partition_updates r) p src = sps"
    if "src \<in> set (hsh_replicated_sources a)" "p \<in> set (hsh_created_task_partitions b)" for p
  proof -
    have "distinct (hsh_created_task_partitions a1)" using hash_okD(5) [OF ok1] by (metis distinct_upto)
    moreover have "partition_updates r2 = map (\<lambda>p. upd p src sps nm False) (hsh_created_task_partitions a1)"
      using dl that(1) repl by simp
    ultimately show ?thesis using that(2) cre upds by (simp add: delivered_all)
  qed
  moreover have "delivered (partition_updates r) p src =
      share src ((hsh_store b ! i)\<lparr>htp_next_sub_partition := htp_next_sub_partition (hsh_store a ! i)\<rparr>) p
        (bound_to (hsh_mapping a) i sps)"
    if "src \<notin> set (hsh_replicated_sources a)" and i: "i \<in> set (dict_values (hsh_mapping a))"
      and p: "p \<in> set (htp_task_partition_ids (hsh_store b ! i))" for i p
  proof -
    have loop: "foldS (hash_place_split src) sps (a1, r1) = (Inr (), (a2, r2))" using dl that(1) repl by simp
    have fr: "hash_frame a1 a1" using ok1 cr1 by (simp add: hash_frame_def)
    have il: "i < length (hsh_store a)" using hash_okD(4) [OF assms(1)] i by blast
    have cf: "same_config (hsh_store a) (hsh_store a1)"
      "htp_next_sub_partition (hsh_store a1 ! i) = htp_next_sub_partition (hsh_store a ! i)"
      using hash_create_frame [OF c] il by simp_all
    have pf: "same_config (hsh_store a1) (hsh_store a2)"
      "htp_task_partition_ids (hsh_store a2 ! i) = htp_task_partition_ids (hsh_store a1 ! i)"
      using hash_place_splits_frame [OF fr loop] il cf(1) by (simp_all add: same_config_def)
    have "share src ((hsh_store b ! i)\<lparr>htp_next_sub_partition := htp_next_sub_partition (hsh_store a ! i)\<rparr>) p
        (bound_to (hsh_mapping a) i sps) = share src (hsh_store a1 ! i) p (bound_to (hsh_mapping a) i sps)"
      using cf pf il st by (simp add: share_def same_config_def)
    then show ?thesis
      using hash_route_loop [OF fr loop, of i p] i p mp pf(2) st upds empty(1) by simp
  qed
  ultimately show ?thesis by blast
qed

theorem hash_assign_routes_witness:
  "\<exists>a r b sps n. sample_hash = Inr a \<and> hash_assign ''fact'' routed_inputs False a = (Inr r, b) \<and>
     splits_from_inputs ''fact'' routed_inputs 0 = Inr (sps, n) \<and>
     delivered (partition_updates r) 2 ''fact'' = bound_to [(0, 0), (1, 0), (2, 1)] 1 sps"
proof -
  obtain a r b where p: "mk_hash 3 (Some [''fact'']) (Some [''dim'']) (Some sample_mapping) None None sample_store = Inr a"
    "hash_assign ''fact'' routed_inputs False a = (Inr r, b)" "sample_facts a r b"
    by (rule sample_hash_run_parts)
  have a: "hash_ok a" using mk_hash_ok [OF p(1) sample_store_fresh] by blast
  have ids: "htp_task_partition_ids (hsh_store b ! 1) = [2]"
    using p(3) nth_map [of 1 "hsh_store b" htp_task_partition_ids]
    by (auto simp: sample_facts_def dest: arg_cong [where f = length])
  have sp: "\<not> isl (splits_from_inputs ''fact'' routed_inputs 0)" by code_simp
  then obtain sps n where sp: "splits_from_inputs ''fact'' routed_inputs 0 = Inr (sps, n)"
    by (metis isl_def sum.exhaust_sel surj_pair)
  have "delivered (partition_updates r) 2 ''fact'' = bound_to [(0, 0), (1, 0), (2, 1)] 1 sps"
    using hash_assign_routes [OF a p(2), of sps n] sp ids p(3) by (simp add: dict_get_default_def share_def sample_facts_def)
  then show ?thesis using p sp by (auto simp: sample_hash_def)
qed

end
