(* ===== verification/Output_Buffers.thy ===== *)
theory Output_Buffers
  imports Fte_Failures
begin

text \<open>
  Versioned output buffers of a task (\<open>src/duckdb/runners/fte/fte_descriptor.py\<close>, the functions on
  \<open>output_buffers\<close>): normalisation of the payload aliases, the checks on a transition to a newer
  version, the merge of an update into the current buffers, and the status a worker reports.

  A payload is a \<open>pyval\<close>; a normalised payload is a dictionary.
\<close>

section \<open>Payload keys\<close>

definition output_buffer_type_keys :: "string list" where
  "output_buffer_type_keys = [''type'', ''@type'', ''kind'', ''buffer_type'']"

definition output_buffer_no_more_keys :: "string list" where
  "output_buffer_no_more_keys =
     [''no_more_buffer_ids'', ''noMoreBufferIds'', ''no_more_buffers'', ''noMoreBuffers'', ''sealed'']"

definition output_buffer_partition_count_keys :: "string list" where
  "output_buffer_partition_count_keys =
     [''output_partition_count'', ''outputPartitionCount'', ''partition_count'', ''partitionCount'']"

definition output_buffer_exchange_sink_keys :: "string list" where
  "output_buffer_exchange_sink_keys =
     [''exchange_sink_instance'', ''exchangeSinkInstanceHandle'', ''exchange_sink_instance_handle'', ''sink_instance'']"

definition output_buffer_ids_keys :: "string list" where
  "output_buffer_ids_keys = [''buffers'', ''buffer_ids'', ''bufferIds'']"

definition output_buffer_alias_keys :: "string list" where
  "output_buffer_alias_keys =
     output_buffer_type_keys @ output_buffer_no_more_keys @ output_buffer_partition_count_keys @
     output_buffer_exchange_sink_keys @ ''version'' # output_buffer_ids_keys"

definition first_present :: "(string, pyval) dict \<Rightarrow> string list \<Rightarrow> pyval" where
  "first_present payload keys =
     (case find (dict_has payload) keys of None \<Rightarrow> PNone | Some k \<Rightarrow> dict_get_default payload k PNone)"

section \<open>Normalisation\<close>

text \<open>
  Keys are strings and distinct, so sorting the pairs of a mapping never compares two values.
\<close>

fun freeze_output_buffer_value :: "pyval \<Rightarrow> pyval"
  and freeze_list :: "pyval list \<Rightarrow> pyval list"
  and freeze_items :: "(string \<times> pyval) list \<Rightarrow> (string \<times> pyval) list" where
  "freeze_output_buffer_value (PDict kvs) =
     PTuple (map (\<lambda>(k, v). PTuple [PStr k, v]) (sort_key fst (freeze_items kvs)))"
| "freeze_output_buffer_value (PSet xs) = PTuple (sort_key py_repr (freeze_list xs))"
| "freeze_output_buffer_value (PList xs) = PTuple (freeze_list xs)"
| "freeze_output_buffer_value (PTuple xs) = PTuple (freeze_list xs)"
| "freeze_output_buffer_value v = v"
| "freeze_list [] = []"
| "freeze_list (x # xs) = freeze_output_buffer_value x # freeze_list xs"
| "freeze_items [] = []"
| "freeze_items ((k, v) # kvs) = (k, freeze_output_buffer_value v) # freeze_items kvs"

definition output_buffer_bool :: "pyval \<Rightarrow> bool" where
  "output_buffer_bool v =
     (case v of
        PStr s \<Rightarrow> let t = lower (strip s) in
                   if t \<in> set false_values then False
                   else if t \<in> set true_values then True
                   else py_truthy v
      | _ \<Rightarrow> py_truthy v)"

text \<open>\<open>int(payload.get("version", 0) or 0)\<close>.\<close>

definition output_buffer_version :: "(string, pyval) dict \<Rightarrow> int res" where
  "output_buffer_version payload =
     (let v = dict_get_default payload ''version'' (PInt 0) in py_int (if py_truthy v then v else PInt 0))"

definition normalize_buffers :: "pyval \<Rightarrow> (string, pyval) dict res" where
  "normalize_buffers v =
     (case v of
        PNone \<Rightarrow> Inr []
      | PDict kvs \<Rightarrow> Inr [(''buffers'', PDict kvs)]
      | PSet xs \<Rightarrow> Inr [(''buffers'', PList (map (PStr \<circ> py_str) (sort_key py_str xs)))]
      | PList xs \<Rightarrow> Inr [(''buffers'', PList (map (PStr \<circ> py_str) xs))]
      | PTuple xs \<Rightarrow> Inr [(''buffers'', PList (map (PStr \<circ> py_str) xs))]
      | _ \<Rightarrow> Inl (ValueError ''output_buffers buffers must be a mapping or sequence''))"

definition normalize_partition_count :: "pyval \<Rightarrow> (string, pyval) dict res" where
  "normalize_partition_count v =
     (if v = PNone then Inr []
      else bindE (py_int v) (\<lambda>n.
           if n < 0 then Inl (ValueError ''output_buffers partition count must be non-negative'')
           else Inr [(''output_partition_count'', PInt n)]))"

definition normalize_type :: "pyval \<Rightarrow> (string, pyval) dict" where
  "normalize_type v =
     (if v \<noteq> PNone \<and> strip (py_str v) \<noteq> [] then [(''type'', PStr (lower (strip (py_str v))))] else [])"

text \<open>
  The entries are assigned in this order to a new dictionary; they are different keys, so each
  assignment appends.
\<close>

definition normalize_mapping :: "(string, pyval) dict \<Rightarrow> (string, pyval) dict res" where
  "normalize_mapping payload =
     bindE (output_buffer_version payload) (\<lambda>version.
     if version < 0 then Inl (ValueError ''output_buffers version must be non-negative'')
     else
       bindE (normalize_buffers (first_present payload output_buffer_ids_keys)) (\<lambda>buffers.
       let no_more = first_present payload output_buffer_no_more_keys;
           sink = first_present payload output_buffer_exchange_sink_keys in
       bindE (normalize_partition_count (first_present payload output_buffer_partition_count_keys)) (\<lambda>count.
       Inr ([(''version'', PInt version)] @
            normalize_type (first_present payload output_buffer_type_keys) @ buffers @
            (if no_more \<noteq> PNone \<and> output_buffer_bool no_more then [(''no_more_buffer_ids'', PBool True)] else []) @
            count @
            (if sink \<noteq> PNone then [(''exchange_sink_instance'', sink)] else []) @
            filter (\<lambda>(k, v). k \<notin> set output_buffer_alias_keys) payload))))"

definition normalize_output_buffers :: "pyval \<Rightarrow> (string, pyval) dict option res" where
  "normalize_output_buffers payload =
     (case payload of
        PNone \<Rightarrow> Inr None
      | PDict d \<Rightarrow> bindE (normalize_mapping d) (\<lambda>n. Inr (Some n))
      | _ \<Rightarrow> Inl (ValueError ''output_buffers must be a mapping''))"

section \<open>Reading a normalised payload\<close>

definition output_buffer_type :: "(string, pyval) dict \<Rightarrow> string option" where
  "output_buffer_type payload =
     (let v = dict_get_default payload ''type'' PNone in
      if v = PNone then None
      else let t = lower (strip (py_str v)) in if t = [] then None else Some t)"

definition output_buffers_sealed :: "(string, pyval) dict \<Rightarrow> bool" where
  "output_buffers_sealed payload = py_truthy (dict_get_default payload ''no_more_buffer_ids'' PNone)"

definition output_buffer_partition_count :: "(string, pyval) dict \<Rightarrow> int option res" where
  "output_buffer_partition_count payload =
     (case map_of payload ''output_partition_count'' of
        None \<Rightarrow> Inr None
      | Some v \<Rightarrow> bindE (py_int v) (\<lambda>n. Inr (Some n)))"

definition output_buffer_assignments :: "(string, pyval) dict \<Rightarrow> (string, pyval) dict res" where
  "output_buffer_assignments payload =
     (case dict_get_default payload ''buffers'' PNone of
        PNone \<Rightarrow> Inr []
      | PDict kvs \<Rightarrow> Inr (map (\<lambda>(k, v). (k, freeze_output_buffer_value v)) kvs)
      | PList xs \<Rightarrow> Inr (dict_merge [] (map (\<lambda>x. (py_str x, PNone)) xs))
      | PTuple xs \<Rightarrow> Inr (dict_merge [] (map (\<lambda>x. (py_str x, PNone)) xs))
      | PSet xs \<Rightarrow> Inr (dict_merge [] (map (\<lambda>x. (py_str x, PNone)) xs))
      | _ \<Rightarrow> Inl (ValueError ''output_buffers buffers must be a mapping or sequence''))"

section \<open>Transitions and merging\<close>

definition both_differ :: "'a option \<Rightarrow> 'a option \<Rightarrow> bool" where
  "both_differ a b = (a \<noteq> None \<and> b \<noteq> None \<and> a \<noteq> b)"

definition validate_buffer_assignments :: "(string, pyval) dict \<Rightarrow> (string, pyval) dict \<Rightarrow> unit res" where
  "validate_buffer_assignments current update =
     (if list_ex (\<lambda>k. \<not> dict_has update k) (dict_keys current)
      then Inl (ValueError ''output_buffers cannot remove buffers'')
      else if list_ex (\<lambda>k. \<not> py_eq (dict_get_default current k PNone) (dict_get_default update k PNone)) (dict_keys current)
      then Inl (ValueError ''output_buffers assignment cannot change for buffer'')
      else Inr ())"

definition validate_output_buffer_transition :: "(string, pyval) dict \<Rightarrow> (string, pyval) dict \<Rightarrow> unit res" where
  "validate_output_buffer_transition current update =
     (if both_differ (output_buffer_type current) (output_buffer_type update)
      then Inl (ValueError ''output_buffers type cannot change'')
      else if output_buffers_sealed current \<and> \<not> py_eq (PDict current) (PDict update)
      then Inl (ValueError ''output_buffers are sealed and cannot be changed'')
      else
        bindE (output_buffer_partition_count current) (\<lambda>c.
        bindE (output_buffer_partition_count update) (\<lambda>u.
        if both_differ c u then Inl (ValueError ''output_buffers output_partition_count cannot change'')
        else
          bindE (output_buffer_assignments current) (\<lambda>cb.
          bindE (output_buffer_assignments update) (\<lambda>ub.
          validate_buffer_assignments cb ub)))))"

definition merge_output_buffers :: "pyval \<Rightarrow> pyval \<Rightarrow> ((string, pyval) dict option \<times> bool) res" where
  "merge_output_buffers current update =
     bindE (normalize_output_buffers update) (\<lambda>un.
     case un of
       None \<Rightarrow> bindE (normalize_output_buffers current) (\<lambda>cn. Inr (cn, False))
     | Some u \<Rightarrow>
         bindE (normalize_output_buffers current) (\<lambda>cn.
         case cn of
           None \<Rightarrow> Inr (Some u, True)
         | Some c \<Rightarrow>
             bindE (output_buffer_version c) (\<lambda>cv.
             bindE (output_buffer_version u) (\<lambda>uv.
             if uv < cv then Inr (Some c, False)
             else if uv = cv then
               (if py_eq (PDict u) (PDict c) then Inr (Some c, False)
                else Inl (ValueError ''output_buffers version contains conflicting content''))
             else bindE (validate_output_buffer_transition c u) (\<lambda>_. Inr (Some u, True))))))"

definition output_buffer_status :: "pyval \<Rightarrow> (string, pyval) dict option res" where
  "output_buffer_status payload =
     bindE (normalize_output_buffers payload) (\<lambda>n.
     case n of
       None \<Rightarrow> Inr None
     | Some d \<Rightarrow>
         bindE (output_buffer_version d) (\<lambda>version.
         bindE (output_buffer_assignments d) (\<lambda>assignments.
         bindE (output_buffer_partition_count d) (\<lambda>count.
         Inr (Some (
           [(''version'', PInt version), (''buffer_count'', PInt (int (length assignments))),
            (''sealed'', PBool (output_buffers_sealed d))] @
           (case output_buffer_type d of None \<Rightarrow> [] | Some t \<Rightarrow> [(''type'', PStr t)]) @
           (case count of None \<Rightarrow> [] | Some c \<Rightarrow> [(''output_partition_count'', PInt c)]) @
           (if dict_has d ''exchange_sink_instance'' then [(''has_exchange_sink_instance'', PBool True)] else [])))))))"

section \<open>Normalised payloads\<close>

lemmas output_buffer_keys =
  output_buffer_type_keys_def output_buffer_no_more_keys_def output_buffer_partition_count_keys_def
  output_buffer_exchange_sink_keys_def output_buffer_ids_keys_def output_buffer_alias_keys_def

lemma lower_char_ws [simp]: "py_ws (lower_char c) = py_ws c"
  by (cases "65 \<le> code_of c \<and> code_of c \<le> 90") (auto simp: lower_char_def py_ws_def Let_def)

lemma lower_char_idem [simp]: "lower_char (lower_char c) = lower_char c"
  by (cases "65 \<le> code_of c \<and> code_of c \<le> 90") (auto simp: lower_char_def Let_def)

lemma lower_idem [simp]: "lower (lower s) = lower s"
  by (simp add: lower_def)

lemma lower_Nil [simp]: "lower s = [] \<longleftrightarrow> s = []"
  by (simp add: lower_def)

lemma strip_lower [simp]: "strip (lower s) = lower (strip s)"
  by (simp add: strip_def lower_def dropWhile_map rev_map comp_def)

text \<open>The entries a normalised payload may have under the aliased keys.\<close>

lemma normalize_buffers_Inr:
  "normalize_buffers v = Inr b \<Longrightarrow> b = [] \<or> (\<exists>w. b = [(''buffers'', w)] \<and> w \<noteq> PNone \<and> normalize_buffers w = Inr b)"
  by (cases v) (auto simp: normalize_buffers_def comp_def)

lemma normalize_partition_count_Inr:
  "normalize_partition_count v = Inr c \<Longrightarrow> c = [] \<or> (\<exists>n\<ge>0. c = [(''output_partition_count'', PInt n)])"
  by (auto simp: normalize_partition_count_def res_simps split: if_splits)

lemma normalize_type_cases:
  "normalize_type v = [] \<or> (\<exists>t. t \<noteq> [] \<and> lower t = t \<and> strip t = t \<and> normalize_type v = [(''type'', PStr t)])"
  by (auto simp: normalize_type_def)

text \<open>What a normalised payload looks like.\<close>

definition normal_form ::
  "int \<Rightarrow> (string, pyval) dict \<Rightarrow> (string, pyval) dict \<Rightarrow> bool \<Rightarrow> (string, pyval) dict \<Rightarrow> pyval \<Rightarrow>
   (string, pyval) dict \<Rightarrow> (string, pyval) dict" where
  "normal_form version ty buffers no_more count sink rest =
     [(''version'', PInt version)] @ ty @ buffers @
     (if no_more then [(''no_more_buffer_ids'', PBool True)] else []) @ count @
     (if sink \<noteq> PNone then [(''exchange_sink_instance'', sink)] else []) @ rest"

lemma normalize_mapping_normal_form:
  assumes "normalize_mapping payload = Inr n"
  obtains version ty buffers no_more count sink rest where
    "n = normal_form version ty buffers no_more count sink rest" and "0 \<le> version"
    and "ty = [] \<or> (\<exists>t. t \<noteq> [] \<and> lower t = t \<and> strip t = t \<and> ty = [(''type'', PStr t)])"
    and "buffers = [] \<or> (\<exists>w. buffers = [(''buffers'', w)] \<and> w \<noteq> PNone \<and> normalize_buffers w = Inr buffers)"
    and "count = [] \<or> (\<exists>n\<ge>0. count = [(''output_partition_count'', PInt n)])"
    and "rest = filter (\<lambda>(k, v). k \<notin> set output_buffer_alias_keys) payload"
    and "normalize_buffers (first_present payload output_buffer_ids_keys) = Inr buffers"
    and "sink = first_present payload output_buffer_exchange_sink_keys"
proof -
  let ?ty = "normalize_type (first_present payload output_buffer_type_keys)"
  let ?nm = "first_present payload output_buffer_no_more_keys \<noteq> PNone \<and>
    output_buffer_bool (first_present payload output_buffer_no_more_keys)"
  let ?sink = "first_present payload output_buffer_exchange_sink_keys"
  let ?rest = "filter (\<lambda>(k, v). k \<notin> set output_buffer_alias_keys) payload"
  from assms obtain version where
    "(if version < 0 then Inl (ValueError ''output_buffers version must be non-negative'')
     else
       bindE (normalize_buffers (first_present payload output_buffer_ids_keys)) (\<lambda>buffers.
       bindE (normalize_partition_count (first_present payload output_buffer_partition_count_keys)) (\<lambda>count.
       Inr (normal_form version ?ty buffers ?nm count ?sink ?rest)))) = Inr n"
    unfolding normalize_mapping_def normal_form_def Let_def bindE_eq_Inr by blast
  then have v: "0 \<le> version" and
    "bindE (normalize_buffers (first_present payload output_buffer_ids_keys)) (\<lambda>buffers.
       bindE (normalize_partition_count (first_present payload output_buffer_partition_count_keys)) (\<lambda>count.
       Inr (normal_form version ?ty buffers ?nm count ?sink ?rest))) = Inr n"
    by (cases "version < 0"; simp)+
  then obtain buffers count where
      b: "normalize_buffers (first_present payload output_buffer_ids_keys) = Inr buffers"
    and c: "normalize_partition_count (first_present payload output_buffer_partition_count_keys) = Inr count"
    and n: "n = normal_form version ?ty buffers ?nm count ?sink ?rest"
    unfolding bindE_eq_Inr by blast
  show ?thesis
    by (rule that [OF n v normalize_type_cases normalize_buffers_Inr [OF b] normalize_partition_count_Inr [OF c] refl b refl])
qed

lemma rest_lookup:
  "k \<in> set output_buffer_alias_keys \<Longrightarrow> map_of (filter (\<lambda>(k, v). k \<notin> set output_buffer_alias_keys) d) k = None"
  by (auto simp: map_of_eq_None_iff)

definition normal_parts ::
  "int \<Rightarrow> (string, pyval) dict \<Rightarrow> (string, pyval) dict \<Rightarrow> (string, pyval) dict \<Rightarrow> (string, pyval) dict \<Rightarrow> bool" where
  "normal_parts version ty buffers count rest =
     (0 \<le> version \<and>
      (ty = [] \<or> (\<exists>t. t \<noteq> [] \<and> lower t = t \<and> strip t = t \<and> ty = [(''type'', PStr t)])) \<and>
      (buffers = [] \<or> (\<exists>w. buffers = [(''buffers'', w)] \<and> w \<noteq> PNone \<and> normalize_buffers w = Inr buffers)) \<and>
      (count = [] \<or> (\<exists>n\<ge>0. count = [(''output_partition_count'', PInt n)])) \<and>
      filter (\<lambda>(k, v). k \<notin> set output_buffer_alias_keys) rest = rest)"

lemma normalize_mapping_parts:
  assumes "normalize_mapping payload = Inr n"
  obtains version ty buffers no_more count sink rest where
    "n = normal_form version ty buffers no_more count sink rest" and "normal_parts version ty buffers count rest"
  by (rule normalize_mapping_normal_form [OF assms]) (simp add: normal_parts_def that filter_id_conv split: prod.splits)

lemma nf_lookup:
  fixes no_more :: bool and sink :: pyval
  assumes "normal_parts version ty buffers count rest"
  defines "n \<equiv> normal_form version ty buffers no_more count sink rest"
  shows "map_of n ''version'' = Some (PInt version)"
    and "map_of n ''type'' = map_of ty ''type''"
    and "map_of n ''buffers'' = map_of buffers ''buffers''"
    and "map_of n ''no_more_buffer_ids'' = (if no_more then Some (PBool True) else None)"
    and "map_of n ''output_partition_count'' = map_of count ''output_partition_count''"
    and "map_of n ''exchange_sink_instance'' = (if sink \<noteq> PNone then Some sink else None)"
    and "k \<in> set output_buffer_alias_keys \<Longrightarrow>
         k \<notin> {''version'', ''type'', ''buffers'', ''no_more_buffer_ids'', ''output_partition_count'', ''exchange_sink_instance''} \<Longrightarrow>
         map_of n k = None"
proof -
  have rest: "k \<in> set output_buffer_alias_keys \<Longrightarrow> map_of rest k = None" for k
    using assms(1) rest_lookup [of k rest] by (simp add: normal_parts_def)
  have ty: "k \<noteq> ''type'' \<Longrightarrow> map_of ty k = None" and bf: "k \<noteq> ''buffers'' \<Longrightarrow> map_of buffers k = None"
    and ct: "k \<noteq> ''output_partition_count'' \<Longrightarrow> map_of count k = None" for k
    using assms(1) by (auto simp: normal_parts_def)
  note simps = n_def normal_form_def map_add_def ty bf ct rest output_buffer_keys
  show "map_of n ''version'' = Some (PInt version)" by (simp add: simps)
  show "map_of n ''type'' = map_of ty ''type''" by (simp add: simps split: option.splits)
  show "map_of n ''buffers'' = map_of buffers ''buffers''" by (simp add: simps split: option.splits)
  show "map_of n ''no_more_buffer_ids'' = (if no_more then Some (PBool True) else None)" by (simp add: simps)
  show "map_of n ''output_partition_count'' = map_of count ''output_partition_count''"
    by (simp add: simps split: option.splits)
  show "map_of n ''exchange_sink_instance'' = (if sink \<noteq> PNone then Some sink else None)" by (simp add: simps)
  show "map_of n k = None" if "k \<in> set output_buffer_alias_keys"
    "k \<notin> {''version'', ''type'', ''buffers'', ''no_more_buffer_ids'', ''output_partition_count'', ''exchange_sink_instance''}"
    using that rest [OF that(1)] by (simp add: n_def normal_form_def map_add_def ty bf ct)
qed

lemma nf_version:
  "normal_parts version ty buffers count rest \<Longrightarrow>
   output_buffer_version (normal_form version ty buffers no_more count sink rest) = Inr version"
  by (simp add: output_buffer_version_def dict_get_default_def nf_lookup)

lemma nf_first_present:
  fixes no_more :: bool and sink :: pyval
  assumes "normal_parts version ty buffers count rest"
  defines "n \<equiv> normal_form version ty buffers no_more count sink rest"
  shows "first_present n output_buffer_type_keys = (case map_of ty ''type'' of None \<Rightarrow> PNone | Some v \<Rightarrow> v)"
    and "first_present n output_buffer_ids_keys = (case map_of buffers ''buffers'' of None \<Rightarrow> PNone | Some v \<Rightarrow> v)"
    and "first_present n output_buffer_no_more_keys = (if no_more then PBool True else PNone)"
    and "first_present n output_buffer_partition_count_keys =
         (case map_of count ''output_partition_count'' of None \<Rightarrow> PNone | Some v \<Rightarrow> v)"
    and "first_present n output_buffer_exchange_sink_keys = sink"
proof -
  have none: "k \<in> set output_buffer_alias_keys \<Longrightarrow>
      k \<notin> {''version'', ''type'', ''buffers'', ''no_more_buffer_ids'', ''output_partition_count'', ''exchange_sink_instance''} \<Longrightarrow>
      \<not> dict_has n k" for k
    using nf_lookup(7) [OF assms(1)] by (simp add: dict_has_def n_def)
  note found = nf_lookup(1-6) [OF assms(1), of no_more sink, folded n_def]
  note s = first_present_def dict_get_default_def dict_has_def found
  show "first_present n output_buffer_type_keys = (case map_of ty ''type'' of None \<Rightarrow> PNone | Some v \<Rightarrow> v)"
    using none [of "''@type''"] none [of "''kind''"] none [of "''buffer_type''"]
    by (simp add: s output_buffer_keys split: option.splits)
  show "first_present n output_buffer_ids_keys = (case map_of buffers ''buffers'' of None \<Rightarrow> PNone | Some v \<Rightarrow> v)"
    using none [of "''buffer_ids''"] none [of "''bufferIds''"]
    by (simp add: s output_buffer_keys split: option.splits)
  show "first_present n output_buffer_no_more_keys = (if no_more then PBool True else PNone)"
    using none [of "''noMoreBufferIds''"] none [of "''no_more_buffers''"] none [of "''noMoreBuffers''"] none [of "''sealed''"]
    by (simp add: s output_buffer_keys)
  show "first_present n output_buffer_partition_count_keys =
         (case map_of count ''output_partition_count'' of None \<Rightarrow> PNone | Some v \<Rightarrow> v)"
    using none [of "''outputPartitionCount''"] none [of "''partition_count''"] none [of "''partitionCount''"]
    by (simp add: s output_buffer_keys split: option.splits)
  show "first_present n output_buffer_exchange_sink_keys = sink"
    using none [of "''exchangeSinkInstanceHandle''"] none [of "''exchange_sink_instance_handle''"] none [of "''sink_instance''"]
    by (simp add: s output_buffer_keys)
qed

lemma nf_rest:
  assumes "normal_parts version ty buffers count rest"
  shows "filter (\<lambda>(k, v). k \<notin> set output_buffer_alias_keys) (normal_form version ty buffers no_more count sink rest) = rest"
  using assms by (auto simp: normal_parts_def normal_form_def output_buffer_keys)

lemma normalize_normal_form:
  assumes "normal_parts version ty buffers count rest"
  shows "normalize_mapping (normal_form version ty buffers no_more count sink rest) =
         Inr (normal_form version ty buffers no_more count sink rest)"
proof -
  have "normalize_type (case map_of ty ''type'' of None \<Rightarrow> PNone | Some v \<Rightarrow> v) = ty"
    using assms by (auto simp: normal_parts_def normalize_type_def)
  moreover have "normalize_buffers (case map_of buffers ''buffers'' of None \<Rightarrow> PNone | Some v \<Rightarrow> v) = Inr buffers"
    using assms by (auto simp: normal_parts_def normalize_buffers_def)
  moreover have "normalize_partition_count (case map_of count ''output_partition_count'' of None \<Rightarrow> PNone | Some v \<Rightarrow> v) = Inr count"
    using assms by (auto simp: normal_parts_def normalize_partition_count_def)
  moreover have "0 \<le> version" using assms by (simp add: normal_parts_def)
  ultimately show ?thesis
    unfolding normalize_mapping_def Let_def nf_version [OF assms] nf_first_present [OF assms] nf_rest [OF assms]
    by (simp add: normal_form_def output_buffer_bool_def)
qed

lemma normalize_mapping_idem: "normalize_mapping payload = Inr n \<Longrightarrow> normalize_mapping n = Inr n"
  by (erule normalize_mapping_parts) (simp add: normalize_normal_form)

lemma normalize_mapping_version:
  "normalize_mapping payload = Inr n \<Longrightarrow> \<exists>v\<ge>0. output_buffer_version n = Inr v \<and> map_of n ''version'' = Some (PInt v)"
  by (erule normalize_mapping_parts) (auto simp: nf_version nf_lookup normal_parts_def)

section \<open>Well-formedness\<close>

lemma wf_pyval_get: "wf_pyval (PDict d) \<Longrightarrow> map_of d k = Some v \<Longrightarrow> wf_pyval v"
  by (auto simp: wf_pyval_items_alt dest: map_of_SomeD)

lemma wf_first_present: "wf_pyval (PDict d) \<Longrightarrow> wf_pyval (first_present d keys)"
  by (auto simp: first_present_def dict_get_default_def split: option.splits intro: wf_pyval_get)

lemma wf_normalize_buffers: "wf_pyval v \<Longrightarrow> normalize_buffers v = Inr b \<Longrightarrow> wf_pyval_items b"
  by (cases v) (auto simp: normalize_buffers_def wf_pyval_list_alt)

lemma normal_parts_keys:
  assumes "normal_parts version ty buffers count rest" and "wf_dict rest"
  shows "wf_dict (normal_form version ty buffers no_more count sink rest)"
proof -
  have r: "k \<in> set output_buffer_alias_keys \<Longrightarrow> k \<notin> fst ` set rest" for k
    using assms(1) rest_lookup [of k rest] by (auto simp: normal_parts_def map_of_eq_None_iff)
  have "''version'' \<notin> fst ` set rest" "''type'' \<notin> fst ` set rest" "''buffers'' \<notin> fst ` set rest"
    "''no_more_buffer_ids'' \<notin> fst ` set rest" "''output_partition_count'' \<notin> fst ` set rest"
    "''exchange_sink_instance'' \<notin> fst ` set rest"
    by (rule r, simp add: output_buffer_keys)+
  moreover have "map fst ty = [] \<or> map fst ty = [''type'']" "map fst buffers = [] \<or> map fst buffers = [''buffers'']"
    "map fst count = [] \<or> map fst count = [''output_partition_count'']"
    using assms(1) by (auto simp: normal_parts_def)
  ultimately show ?thesis
    using assms(2) unfolding wf_dict_def normal_form_def map_append distinct_append
    by (elim disjE; cases no_more; cases "sink = PNone"; simp)
qed

lemma normalize_mapping_wf:
  assumes "wf_pyval (PDict d)" and "normalize_mapping d = Inr n"
  shows "wf_pyval (PDict n)"
proof (rule normalize_mapping_normal_form [OF assms(2)])
  fix version ty buffers no_more count sink rest
  assume n: "n = normal_form version ty buffers no_more count sink rest" and v: "0 \<le> version"
    and ty: "ty = [] \<or> (\<exists>t. t \<noteq> [] \<and> lower t = t \<and> strip t = t \<and> ty = [(''type'', PStr t)])"
    and bf: "buffers = [] \<or> (\<exists>w. buffers = [(''buffers'', w)] \<and> w \<noteq> PNone \<and> normalize_buffers w = Inr buffers)"
    and ct: "count = [] \<or> (\<exists>n\<ge>0. count = [(''output_partition_count'', PInt n)])"
    and rest: "rest = filter (\<lambda>(k, v). k \<notin> set output_buffer_alias_keys) d"
    and b: "normalize_buffers (first_present d output_buffer_ids_keys) = Inr buffers"
    and sink: "sink = first_present d output_buffer_exchange_sink_keys"
  have wf: "wf_dict rest" using assms(1) rest by (simp add: wf_dict_def distinct_map_filter)
  have "normal_parts version ty buffers count rest"
    using v ty bf ct rest by (simp add: normal_parts_def)
  then have "wf_dict n" unfolding n using wf by (rule normal_parts_keys)
  moreover have "wf_pyval_items ty" "wf_pyval_items count" using ty ct by auto
  moreover have "wf_pyval_items rest" using assms(1) rest by (auto simp: wf_pyval_items_alt)
  moreover have "wf_pyval_items buffers" by (rule wf_normalize_buffers [OF wf_first_present [OF assms(1)] b])
  moreover have "wf_pyval sink" using wf_first_present [OF assms(1)] sink by simp
  ultimately show ?thesis by (auto simp: n normal_form_def wf_pyval_items_alt)
qed

section \<open>Merging\<close>

lemma merge_output_buffers_current:
  assumes "merge_output_buffers cur upd = Inr (res, changed)" and "normalize_output_buffers cur = Inr (Some c)"
  obtains "res = Some c" "\<not> changed"
  | r v w where "res = Some r" "changed" "normalize_output_buffers upd = Inr (Some r)"
    "output_buffer_version c = Inr v" "output_buffer_version r = Inr w" "v < w"
    "validate_output_buffer_transition c r = Inr ()"
  using assms by (auto simp: merge_output_buffers_def res_simps split: option.splits if_splits)

lemma normalize_output_buffers_Some:
  "normalize_output_buffers p = Inr (Some n) \<longleftrightarrow> (\<exists>d. p = PDict d \<and> normalize_mapping d = Inr n)"
  by (cases p) (auto simp: normalize_output_buffers_def res_simps)

lemma py_eq_get:
  assumes "py_eq (PDict c) (PDict r)" and "map_of c k = Some v"
  shows "\<exists>w. map_of r k = Some w \<and> py_eq v w"
  using assms map_of_SomeD [OF assms(2)] by (auto simp: py_sub_items_alt)

lemma validate_transition_keeps:
  assumes "validate_output_buffer_transition c r = Inr ()"
    and "output_buffer_version c = Inr v" and "output_buffer_version r = Inr w" and "v < w"
    and "map_of c ''version'' = Some (PInt v)" and "map_of r ''version'' = Some (PInt w)"
  shows "\<not> output_buffers_sealed c \<and> \<not> both_differ (output_buffer_type c) (output_buffer_type r) \<and>
     (\<exists>m n. output_buffer_partition_count c = Inr m \<and> output_buffer_partition_count r = Inr n \<and> \<not> both_differ m n) \<and>
     (\<exists>cb rb. output_buffer_assignments c = Inr cb \<and> output_buffer_assignments r = Inr rb \<and>
        (\<forall>k x. map_of cb k = Some x \<longrightarrow> (\<exists>y. map_of rb k = Some y \<and> py_eq x y)))"
proof -
  have "\<not> py_eq (PDict c) (PDict r)" using py_eq_get [of c r, OF _ assms(5)] assms(4,6) by auto
  then have sealed: "\<not> output_buffers_sealed c"
    using assms(1) by (auto simp: validate_output_buffer_transition_def split: if_splits)
  from assms(1) obtain m n cb rb where t: "\<not> both_differ (output_buffer_type c) (output_buffer_type r)"
    and c: "output_buffer_partition_count c = Inr m" "output_buffer_partition_count r = Inr n" "\<not> both_differ m n"
    and a: "output_buffer_assignments c = Inr cb" "output_buffer_assignments r = Inr rb"
    and val: "validate_buffer_assignments cb rb = Inr ()"
    by (auto simp: validate_output_buffer_transition_def res_simps split: if_splits)
  have "\<exists>y. map_of rb k = Some y \<and> py_eq x y" if "map_of cb k = Some x" for k x
  proof -
    have "k \<in> set (dict_keys cb)" using that by (force dest: map_of_SomeD)
    then show ?thesis using val that
      by (auto simp: validate_buffer_assignments_def list_ex_iff dict_has_def dict_get_default_def split: if_splits option.splits)
  qed
  then show ?thesis using sealed t c a by blast
qed

text \<open>
  C33. Output buffers only move forward. Merging an update either leaves the current buffers as they
  are, or replaces them by a strictly newer version, and then the current ones were not sealed, every buffer keeps its
  assignment, and the type and the partition count are the same where the current buffers and the new ones both have one.
  A new version may leave either of them out.
\<close>

theorem merge_output_buffers_monotone:
  assumes "merge_output_buffers cur upd = Inr (res, changed)" and "normalize_output_buffers cur = Inr (Some c)"
  shows "\<exists>r. res = Some r \<and> (\<not> changed \<longrightarrow> r = c) \<and>
     (changed \<longrightarrow>
        (\<exists>v w. output_buffer_version c = Inr v \<and> output_buffer_version r = Inr w \<and> v < w) \<and>
        \<not> output_buffers_sealed c \<and>
        (\<forall>x y. output_buffer_type c = Some x \<and> output_buffer_type r = Some y \<longrightarrow> x = y) \<and>
        (\<exists>m n. output_buffer_partition_count c = Inr m \<and> output_buffer_partition_count r = Inr n \<and>
           (\<forall>x y. m = Some x \<and> n = Some y \<longrightarrow> x = y)) \<and>
        (\<exists>cb rb. output_buffer_assignments c = Inr cb \<and> output_buffer_assignments r = Inr rb \<and>
           (\<forall>k x. map_of cb k = Some x \<longrightarrow> (\<exists>y. map_of rb k = Some y \<and> py_eq x y))))"
  using assms
proof (cases rule: merge_output_buffers_current)
  case 1
  then show ?thesis by simp
next
  case (2 r v w)
  have "map_of c ''version'' = Some (PInt v)" "map_of r ''version'' = Some (PInt w)"
    using assms(2) 2(3-5) normalize_mapping_version by (fastforce simp: normalize_output_buffers_Some)+
  then show ?thesis using validate_transition_keeps [OF 2(7,4,5,6)] 2 by (auto simp: both_differ_def)
qed

definition sample_buffers :: "int \<Rightarrow> string list \<Rightarrow> pyval" where
  "sample_buffers v ids = PDict [(''version'', PInt v), (''kind'', PStr '' Partitioned ''), (''buffer_ids'', PList (map PStr ids))]"

theorem merge_output_buffers_monotone_witness:
  "\<exists>c r. normalize_output_buffers (sample_buffers 1 [''0'']) = Inr (Some c) \<and>
     merge_output_buffers (sample_buffers 1 [''0'']) (sample_buffers 2 [''0'', ''1'']) = Inr (Some r, True) \<and>
     (\<exists>v w. output_buffer_version c = Inr v \<and> output_buffer_version r = Inr w \<and> v < w)"
proof -
  have "case normalize_output_buffers (sample_buffers 1 [''0'']) of Inr (Some _) \<Rightarrow> True | _ \<Rightarrow> False"
    and "case merge_output_buffers (sample_buffers 1 [''0'']) (sample_buffers 2 [''0'', ''1'']) of Inr (Some _, True) \<Rightarrow> True | _ \<Rightarrow> False"
    by code_simp+
  then obtain c r where n: "normalize_output_buffers (sample_buffers 1 [''0'']) = Inr (Some c)"
    and m: "merge_output_buffers (sample_buffers 1 [''0'']) (sample_buffers 2 [''0'', ''1'']) = Inr (Some r, True)"
    by (auto split: sum.splits option.splits prod.splits bool.splits)
  then show ?thesis using merge_output_buffers_monotone [OF m n] by auto
qed

text \<open>Over two updates the type can change: the first leaves it out and the second brings another one.\<close>

lemma type_changes_over_two_merges:
  "case merge_output_buffers (PDict [(''version'', PInt 1), (''type'', PStr ''a'')]) (PDict [(''version'', PInt 2)]) of
     Inr (Some r, True) \<Rightarrow>
       (case merge_output_buffers (PDict r) (PDict [(''version'', PInt 3), (''type'', PStr ''b'')]) of
          Inr (Some r', True) \<Rightarrow> output_buffer_type r' = Some ''b''
        | _ \<Rightarrow> False)
   | _ \<Rightarrow> False"
  by code_simp

lemma merge_again:
  assumes "wf_pyval upd" and "merge_output_buffers cur upd = Inr (Some r, changed)"
  shows "merge_output_buffers (PDict r) upd = Inr (Some r, False)"
proof -
  have idem: "normalize_output_buffers (PDict n) = Inr (Some n)" if "normalize_output_buffers p = Inr (Some n)" for p n
    using that normalize_mapping_idem by (auto simp: normalize_output_buffers_Some)
  have refl: "py_eq (PDict n) (PDict n)" if "normalize_output_buffers upd = Inr (Some n)" for n
    using that assms(1) by (intro py_eq_refl) (auto simp: normalize_output_buffers_Some intro: normalize_mapping_wf simp del: wf_pyval.simps)
  have ver: "\<exists>v. output_buffer_version n = Inr v" if "normalize_output_buffers p = Inr (Some n)" for p n
    using that normalize_mapping_version by (auto simp: normalize_output_buffers_Some)
  show ?thesis
  proof (cases "normalize_output_buffers upd")
    case (Inl e)
    then show ?thesis using assms(2) by (simp add: merge_output_buffers_def)
  next
    case (Inr un)
    show ?thesis
    proof (cases un)
      case None
      then have "normalize_output_buffers cur = Inr (Some r)"
        using assms(2) Inr by (auto simp: merge_output_buffers_def res_simps)
      then show ?thesis using Inr None idem by (simp add: merge_output_buffers_def)
    next
      case (Some u)
      note u = Inr [unfolded Some]
      obtain uv where uv: "output_buffer_version u = Inr uv" using ver [OF u] by blast
      have again: "merge_output_buffers (PDict u) upd = Inr (Some u, False)"
        using u uv idem [OF u] refl [OF u] by (simp add: merge_output_buffers_def)
      from assms(2) u obtain cn where cn: "normalize_output_buffers cur = Inr cn"
        by (cases "normalize_output_buffers cur") (auto simp: merge_output_buffers_def)
      show ?thesis
      proof (cases cn)
        case None
        then show ?thesis using assms(2) u cn again by (simp add: merge_output_buffers_def)
      next
        case (Some c)
        then have c: "normalize_output_buffers cur = Inr (Some c)" using cn by simp
        obtain cv where cv: "output_buffer_version c = Inr cv" using ver [OF c] by blast
        show ?thesis
          using assms(2) u c cv uv again idem [OF c]
          by (auto simp: merge_output_buffers_def res_simps split: if_splits)
      qed
    qed
  qed
qed

text \<open>
  Delivering an update twice is the same as delivering it once: after a successful merge the same
  update leaves the merged buffers unchanged, whatever was delivered before.
\<close>

theorem merge_output_buffers_redelivery:
  assumes "wf_pyval upd" and "merge_output_buffers cur upd = Inr (Some r, changed)"
  shows "merge_output_buffers (PDict r) upd = Inr (Some r, False)"
  using assms by (rule merge_again)

theorem merge_output_buffers_redelivery_witness:
  "\<exists>r. merge_output_buffers (sample_buffers 1 [''0'']) (sample_buffers 2 [''0'', ''1'']) = Inr (Some r, True) \<and>
       merge_output_buffers (PDict r) (sample_buffers 2 [''0'', ''1'']) = Inr (Some r, False)"
proof -
  have "case merge_output_buffers (sample_buffers 1 [''0'']) (sample_buffers 2 [''0'', ''1'']) of Inr (Some _, True) \<Rightarrow> True | _ \<Rightarrow> False"
    by code_simp
  then obtain r where m: "merge_output_buffers (sample_buffers 1 [''0'']) (sample_buffers 2 [''0'', ''1'']) = Inr (Some r, True)"
    by (auto split: sum.splits option.splits prod.splits bool.splits)
  have "wf_pyval (sample_buffers 2 [''0'', ''1''])" by (simp add: sample_buffers_def wf_dict_def)
  from merge_output_buffers_redelivery [OF this m] m show ?thesis by blast
qed

end
