(* ===== verification/Transition.thy ===== *)
theory Transition
  imports Py_Prelude
begin

text \<open>
  State machines: the components whose operations may be called in any order are step relations on
  their state, where a step is one call, returning or raising. This theory holds the interface
  every such component provides, an invariant and a preorder along which its state can only move,
  and what follows from it for all sequences of calls.
\<close>

locale monotone_system =
  fixes step :: "'s \<Rightarrow> 's \<Rightarrow> bool" and inv :: "'s \<Rightarrow> bool" and grows :: "'s \<Rightarrow> 's \<Rightarrow> bool"
  assumes inv_step: "inv s \<Longrightarrow> step s t \<Longrightarrow> inv t"
    and grows_step: "inv s \<Longrightarrow> step s t \<Longrightarrow> grows s t"
    and grows_refl: "grows s s"
    and grows_trans: "grows s t \<Longrightarrow> grows t u \<Longrightarrow> grows s u"
begin

lemma reach_inv:
  assumes "inv s" and "step\<^sup>*\<^sup>* s t"
  shows "inv t"
  using assms(2,1) by (induction rule: rtranclp_induct) (blast intro: inv_step)+

lemma reach_grows:
  assumes "inv s" and "step\<^sup>*\<^sup>* s t"
  shows "grows s t"
  using assms(2,1)
proof (induction rule: rtranclp_induct)
  case (step t u)
  then show ?case using reach_inv grows_step grows_trans by blast
qed (rule grows_refl)

end

end
