(* ===== verification/Fte_Exchange.thy ===== *)
theory Fte_Exchange
  imports Fte_Types Transition
begin

text \<open>
  Exchange bookkeeping of the coordinator (\<open>src/duckdb/runners/fte/fte_exchange.py\<close>): sink and source
  handles, the derivation of a sink instance for one attempt, the selector that picks one finished
  attempt per partition, and the tracker of sinks and attempts built on it.
\<close>

section \<open>Handles\<close>

record exchange_sink_handle =
  snk_query_id :: string
  snk_exchange_id :: string
  snk_partition_id :: int

definition sink_handle_to_dict :: "exchange_sink_handle \<Rightarrow> (string, pyval) dict" where
  "sink_handle_to_dict h =
     [(''query_id'', PStr (snk_query_id h)), (''exchange_id'', PStr (snk_exchange_id h)),
      (''partition_id'', PInt (snk_partition_id h))]"

record exchange_sink_instance_handle =
  ins_sink_handle :: exchange_sink_handle
  ins_attempt_id :: int
  ins_attempt_path :: "string option"

definition sink_instance_to_dict :: "exchange_sink_instance_handle \<Rightarrow> (string, pyval) dict" where
  "sink_instance_to_dict h =
     [(''sink_handle'', PDict (sink_handle_to_dict (ins_sink_handle h))), (''attempt_id'', PInt (ins_attempt_id h))]
     @ (case ins_attempt_path h of None \<Rightarrow> [] | Some p \<Rightarrow> [(''attempt_path'', PStr p)])"

record exchange_source_handle =
  esh_sink_handle :: exchange_sink_handle
  esh_attempt_id :: int
  esh_attempt_path :: "string option"
  esh_files :: "string list"

definition source_handle_to_dict :: "exchange_source_handle \<Rightarrow> (string, pyval) dict" where
  "source_handle_to_dict h =
     [(''sink_handle'', PDict (sink_handle_to_dict (esh_sink_handle h))), (''attempt_id'', PInt (esh_attempt_id h))]
     @ (case esh_attempt_path h of None \<Rightarrow> [] | Some p \<Rightarrow> [(''attempt_path'', PStr p)])
     @ (if esh_files h \<noteq> [] then [(''files'', PList (map PStr (esh_files h)))] else [])"

section \<open>Sink instances of an attempt\<close>

text \<open>A sink instance is a handle object, which has \<open>to_dict\<close>, or a raw payload.\<close>

type_synonym sink_instance = "exchange_sink_instance_handle ref"

abbreviation no_sink_instance :: sink_instance where
  "no_sink_instance \<equiv> Raw PNone"

fun sink_instance_payload :: "sink_instance \<Rightarrow> (string, pyval) dict" where
  "sink_instance_payload (Obj h) = sink_instance_to_dict h"
| "sink_instance_payload (Raw (PDict d)) = d"
| "sink_instance_payload (Raw v) = []"

text \<open>
  \<open>re.sub\<close> with the pattern \<open>(__attempt_)\d+$\<close>. The dollar also matches before a final newline. The
  digits before it are the whole run of digits there, since the text the pattern wants in front of
  them ends with an underscore; so there is at most one match.
\<close>

definition split_newline :: "string \<Rightarrow> string \<times> string" where
  "split_newline s = (if s \<noteq> [] \<and> last s = CHR 0x0A then (butlast s, [CHR 0x0A]) else (s, []))"

definition split_digits :: "string \<Rightarrow> string \<times> string" where
  "split_digits s = (rev (dropWhile is_digit (rev s)), rev (takeWhile is_digit (rev s)))"

definition sub_attempt :: "int \<Rightarrow> string \<Rightarrow> string" where
  "sub_attempt attempt s =
     (let (body, tail) = split_newline s; (pre, digits) = split_digits body in
      if digits \<noteq> [] \<and> ends_with ''__attempt_'' pre then pre @ int_str attempt @ tail else s)"

text \<open>\<open>re.sub\<close> with the pattern \<open>(__sink_)\d+(__attempt_)\d+$\<close>.\<close>

definition sub_sink_attempt :: "int \<Rightarrow> int \<Rightarrow> string \<Rightarrow> string" where
  "sub_sink_attempt part attempt s =
     (let (body, tail) = split_newline s; (pre, digits) = split_digits body in
      if digits \<noteq> [] \<and> ends_with ''__attempt_'' pre then
        (let (pre2, digits2) = split_digits (take (length pre - length ''__attempt_'') pre) in
         if digits2 \<noteq> [] \<and> ends_with ''__sink_'' pre2
         then pre2 @ int_str part @ ''__attempt_'' @ int_str attempt @ tail
         else s)
      else s)"

text \<open>The new location of the derived instance, lines 101 to 117.\<close>

definition derive_location :: "int \<Rightarrow> int option \<Rightarrow> bool \<Rightarrow> (string, pyval) dict \<Rightarrow> (string, pyval) dict" where
  "derive_location attempt part preserve derived =
     (let loc = dict_get_default derived ''output_location'' PNone;
          location = (if py_truthy loc then loc else dict_get_default derived ''attempt_path'' PNone) in
      if location = PNone then derived
      else
        let text = py_str location;
            replaced = (case part of
                          Some p \<Rightarrow> if preserve then sub_attempt attempt text else sub_sink_attempt p attempt text
                        | None \<Rightarrow> sub_attempt attempt text) in
        if replaced \<noteq> text then
          let d1 = dict_set ''output_location'' (PStr replaced) derived in
          if dict_has d1 ''attempt_path'' then dict_set ''attempt_path'' (PStr replaced) d1 else d1
        else if dict_has derived ''attempt_path'' \<and> \<not> dict_has derived ''output_location''
        then dict_set ''output_location'' (PStr text) derived
        else derived)"

text \<open>\<open>dict(value or {})\<close> for a value that should be a mapping.\<close>

definition mapping_or_empty :: "pyval \<Rightarrow> (string, pyval) dict res" where
  "mapping_or_empty v =
     (if \<not> py_truthy v then Inr []
      else case v of PDict d \<Rightarrow> Inr d | _ \<Rightarrow> Inl (TypeError ''cannot convert to a dictionary''))"

definition derive_exchange_sink_instance_for_attempt ::
  "sink_instance \<Rightarrow> int \<Rightarrow> int option \<Rightarrow> sink_instance res" where
  "derive_exchange_sink_instance_for_attempt inst attempt part =
     (let payload = sink_instance_payload inst in
      if payload = [] then Inr inst
      else
        bindE (check_non_negative ''attempt_id'' attempt) (\<lambda>attempt.
        let derived = dict_set ''attempt_id'' (PInt attempt) payload;
            preserve = py_truthy (dict_get_default derived ''preserve_plan_exchange_sink_instance'' PNone) in
        bindE (case part of
                 None \<Rightarrow> Inr derived
               | Some p \<Rightarrow>
                   bindE (check_non_negative ''task_partition_id'' p) (\<lambda>p.
                   if preserve then Inr derived
                   else
                     let d1 = dict_set ''partition_id'' (PInt p) (dict_set ''task_partition_id'' (PInt p) derived) in
                     bindE (mapping_or_empty (dict_get_default d1 ''sink_handle'' PNone)) (\<lambda>handle.
                     Inr (dict_set ''sink_handle''
                            (PDict (dict_set ''partition_id'' (PInt p) (dict_set ''task_partition_id'' (PInt p) handle)))
                            d1))))
          (\<lambda>derived. Inr (Raw (PDict (derive_location attempt part preserve derived))))))"

text \<open>
  A path is its list of components. \<open>str.isdigit\<close> also accepts the three superscript digits below
  code point 256.
\<close>

definition isdigit_char :: "char \<Rightarrow> bool" where
  "isdigit_char c = (is_digit c \<or> code_of c \<in> {178, 179, 185})"

definition relative_parts :: "string list \<Rightarrow> string list \<Rightarrow> string list" where
  "relative_parts path root = (if take (length root) path = root then drop (length root) path else path)"

definition partition_token :: "string \<Rightarrow> string option" where
  "partition_token component =
     (if starts_with ''partition_'' component then
        let token = takeWhile (\<lambda>c. c \<noteq> CHR ''_'') (drop (length ''partition_'') component) in
        if token \<noteq> [] \<and> list_all isdigit_char token then Some token else None
      else None)"

definition partition_key_from_arrow_path :: "string list \<Rightarrow> string list \<Rightarrow> string" where
  "partition_key_from_arrow_path path root =
     (case List.map_filter partition_token (rev (relative_parts path root)) of
        [] \<Rightarrow> ''unknown'' | token # _ \<Rightarrow> token)"

section \<open>The output selector\<close>

record output_selector =
  sel_selected_attempts :: "(int, int) dict"
  sel_finished_attempts :: "(int, int list) dict"
  sel_aborted_attempts :: "(int, int list) dict"
  sel_final :: bool
  sel_final_required :: "int list option"

definition mk_selector :: output_selector where
  "mk_selector = \<lparr>sel_selected_attempts = [], sel_finished_attempts = [], sel_aborted_attempts = [],
                  sel_final = False, sel_final_required = None\<rparr>"

text \<open>\<open>d.setdefault(k, set()).add(v)\<close>.\<close>

definition add_to_set :: "'k \<Rightarrow> 'v \<Rightarrow> ('k, 'v list) dict \<Rightarrow> ('k, 'v list) dict" where
  "add_to_set k v d = dict_set k (set_add v (dict_get_default d k [])) d"

definition record_finished :: "int \<Rightarrow> int \<Rightarrow> (output_selector, bool) op" where
  "record_finished p a s =
     (case bindE (check_non_negative ''partition_id'' p) (\<lambda>_. check_non_negative ''attempt_id'' a) of
        Inl e \<Rightarrow> (Inl e, s)
      | Inr _ \<Rightarrow>
          let s1 = s\<lparr>sel_finished_attempts := add_to_set p a (sel_finished_attempts s)\<rparr> in
          if sel_final s then
            (case sel_final_required s of
               None \<Rightarrow> (Inl (RuntimeError ''cannot record a finished attempt after selector is final''), s)
             | Some req \<Rightarrow>
                 if p \<notin> set req
                 then (Inl (RuntimeError ''cannot record a finished attempt after selector is final''), s)
                 else (Inr False, s1))
          else if dict_has (sel_selected_attempts s1) p then (Inr False, s1)
          else (Inr True, s1\<lparr>sel_selected_attempts := dict_set p a (sel_selected_attempts s1)\<rparr>))"

definition record_aborted :: "int \<Rightarrow> int \<Rightarrow> (output_selector, unit) op" where
  "record_aborted p a s =
     (if sel_final s then (Inr (), s)
      else case bindE (check_non_negative ''partition_id'' p) (\<lambda>_. check_non_negative ''attempt_id'' a) of
        Inl e \<Rightarrow> (Inl e, s)
      | Inr _ \<Rightarrow> (Inr (), s\<lparr>sel_aborted_attempts := add_to_set p a (sel_aborted_attempts s)\<rparr>))"

definition selector_selected_attempt :: "int \<Rightarrow> output_selector \<Rightarrow> int option res" where
  "selector_selected_attempt p s =
     bindE (check_non_negative ''partition_id'' p) (\<lambda>p. Inr (dict_get (sel_selected_attempts s) p))"

definition try_mark_final :: "int list \<Rightarrow> (output_selector, bool) op" where
  "try_mark_final ps s =
     (case mapE (check_non_negative ''partition_id'') ps of
        Inl e \<Rightarrow> (Inl e, s)
      | Inr required \<Rightarrow>
          if required = [] then
            (if sel_selected_attempts s \<noteq> []
             then (Inl (RuntimeError ''cannot mark selector final with unrequired selected partitions''), s)
             else (Inr False, s))
          else if sel_final s then
            (case sel_final_required s of
               Some req \<Rightarrow>
                 if set req \<noteq> set required
                 then (Inl (RuntimeError ''cannot mark selector final with different required partitions''), s)
                 else (Inr False, s)
             | None \<Rightarrow> (Inl (RuntimeError ''cannot mark selector final with different required partitions''), s))
          else if \<not> set (dict_keys (sel_selected_attempts s)) \<subseteq> set required
          then (Inl (RuntimeError ''cannot mark selector final with unrequired selected partitions''), s)
          else if \<not> set required \<subseteq> set (dict_keys (sel_selected_attempts s)) then (Inr False, s)
          else (Inr True, s\<lparr>sel_final := True, sel_final_required := Some (remdups required)\<rparr>))"

section \<open>The tracker\<close>

record exchange_tracker =
  trk_query_id :: string
  trk_exchange_id :: string
  trk_sinks :: "(int, exchange_sink_handle) dict"
  trk_finished_attempts :: "(int, int list) dict"
  trk_aborted_attempts :: "(int, int list) dict"
  trk_selected_attempts :: "(int, int) dict"
  trk_output_selector :: output_selector

definition mk_tracker :: "string \<Rightarrow> string \<Rightarrow> exchange_tracker" where
  "mk_tracker query_id exchange_id =
     \<lparr>trk_query_id = query_id, trk_exchange_id = exchange_id, trk_sinks = [], trk_finished_attempts = [],
      trk_aborted_attempts = [], trk_selected_attempts = [], trk_output_selector = mk_selector\<rparr>"

definition require_sink :: "exchange_sink_handle \<Rightarrow> exchange_tracker \<Rightarrow> unit res" where
  "require_sink h t =
     (if dict_get (trk_sinks t) (snk_partition_id h) \<noteq> Some h then Inl (KeyError ''unknown exchange sink'') else Inr ())"

definition add_sink :: "int \<Rightarrow> (exchange_tracker, exchange_sink_handle) op" where
  "add_sink p t =
     (case check_non_negative ''partition_id'' p of
        Inl e \<Rightarrow> (Inl e, t)
      | Inr p \<Rightarrow>
          (case dict_get (trk_sinks t) p of
             Some h \<Rightarrow> (Inr h, t)
           | None \<Rightarrow>
               if sel_final (trk_output_selector t)
               then (Inl (RuntimeError ''cannot add exchange sink after selector is final''), t)
               else
                 let h = \<lparr>snk_query_id = trk_query_id t, snk_exchange_id = trk_exchange_id t, snk_partition_id = p\<rparr> in
                 (Inr h, t\<lparr>trk_sinks := dict_set p h (trk_sinks t)\<rparr>)))"

definition instantiate_sink ::
  "exchange_sink_handle \<Rightarrow> int \<Rightarrow> exchange_tracker \<Rightarrow> exchange_sink_instance_handle res" where
  "instantiate_sink h a t =
     bindE (require_sink h t) (\<lambda>_.
     bindE (check_non_negative ''attempt_id'' a) (\<lambda>a.
     Inr \<lparr>ins_sink_handle = h, ins_attempt_id = a, ins_attempt_path = None\<rparr>))"

definition sink_finished :: "exchange_sink_handle \<Rightarrow> int \<Rightarrow> (exchange_tracker, unit) op" where
  "sink_finished h a t =
     (case bindE (require_sink h t) (\<lambda>_. check_non_negative ''attempt_id'' a) of
        Inl e \<Rightarrow> (Inl e, t)
      | Inr a \<Rightarrow>
          let p = snk_partition_id h; (res, sel) = record_finished p a (trk_output_selector t);
              t1 = t\<lparr>trk_output_selector := sel\<rparr> in
          case res of
            Inl e \<Rightarrow> (Inl e, t1)
          | Inr selected \<Rightarrow>
              let t2 = t1\<lparr>trk_finished_attempts := add_to_set p a (trk_finished_attempts t1)\<rparr> in
              (Inr (), if selected then t2\<lparr>trk_selected_attempts := dict_set p a (trk_selected_attempts t2)\<rparr> else t2))"

definition sink_aborted :: "exchange_sink_handle \<Rightarrow> int \<Rightarrow> (exchange_tracker, unit) op" where
  "sink_aborted h a t =
     (case bindE (require_sink h t) (\<lambda>_. check_non_negative ''attempt_id'' a) of
        Inl e \<Rightarrow> (Inl e, t\<lparr>trk_aborted_attempts :=
          (if require_sink h t = Inr () then dict_setdefault (snk_partition_id h) [] (trk_aborted_attempts t)
           else trk_aborted_attempts t)\<rparr>)
      | Inr a \<Rightarrow>
          let p = snk_partition_id h; t1 = t\<lparr>trk_aborted_attempts := add_to_set p a (trk_aborted_attempts t)\<rparr>;
              (res, sel) = record_aborted p a (trk_output_selector t1) in
          (res, t1\<lparr>trk_output_selector := sel\<rparr>))"

definition tracker_selected_attempt :: "exchange_sink_handle \<Rightarrow> exchange_tracker \<Rightarrow> int option res" where
  "tracker_selected_attempt h t =
     bindE (require_sink h t) (\<lambda>_. Inr (dict_get (trk_selected_attempts t) (snk_partition_id h)))"

definition finalize :: "(exchange_tracker, bool) op" where
  "finalize t =
     (let (res, sel) = try_mark_final (dict_keys (trk_sinks t)) (trk_output_selector t) in
      (res, t\<lparr>trk_output_selector := sel\<rparr>))"

definition tracker_is_final :: "exchange_tracker \<Rightarrow> bool" where
  "tracker_is_final t = sel_final (trk_output_selector t)"

definition get_source_handles :: "exchange_tracker \<Rightarrow> exchange_source_handle list res" where
  "get_source_handles t =
     mapE (\<lambda>(p, a). case dict_get (trk_sinks t) p of
                      None \<Rightarrow> Inl (KeyError ''exchange sink'')
                    | Some h \<Rightarrow> Inr \<lparr>esh_sink_handle = h, esh_attempt_id = a, esh_attempt_path = None, esh_files = []\<rparr>)
       (sort (trk_selected_attempts t))"

section \<open>Calls in any order\<close>

inductive tracker_step :: "exchange_tracker \<Rightarrow> exchange_tracker \<Rightarrow> bool" where
  AddSink: "tracker_step t (snd (add_sink p t))"
| Finished: "tracker_step t (snd (sink_finished h a t))"
| Aborted: "tracker_step t (snd (sink_aborted h a t))"
| Finalize: "tracker_step t (snd (finalize t))"

inductive_cases tracker_stepE: "tracker_step t u"

definition tracker_ok :: "exchange_tracker \<Rightarrow> bool" where
  "tracker_ok t =
     (sel_selected_attempts (trk_output_selector t) = trk_selected_attempts t \<and>
      wf_dict (trk_selected_attempts t) \<and> wf_dict (trk_sinks t) \<and>
      (\<forall>p h. dict_get (trk_sinks t) p = Some h \<longrightarrow>
         0 \<le> p \<and> h = \<lparr>snk_query_id = trk_query_id t, snk_exchange_id = trk_exchange_id t, snk_partition_id = p\<rparr>) \<and>
      (\<forall>p a. dict_get (trk_selected_attempts t) p = Some a \<longrightarrow>
         dict_has (trk_sinks t) p \<and> a \<in> set (dict_get_default (trk_finished_attempts t) p [])) \<and>
      (tracker_is_final t \<longrightarrow>
         (\<forall>p. dict_has (trk_sinks t) p \<longrightarrow> dict_has (trk_selected_attempts t) p) \<and>
         (\<exists>req. sel_final_required (trk_output_selector t) = Some req \<and> set req = set (dict_keys (trk_sinks t)))))"

definition tracker_grows :: "exchange_tracker \<Rightarrow> exchange_tracker \<Rightarrow> bool" where
  "tracker_grows t u =
     ((\<forall>p h. dict_get (trk_sinks t) p = Some h \<longrightarrow> dict_get (trk_sinks u) p = Some h) \<and>
      (\<forall>p a. dict_get (trk_selected_attempts t) p = Some a \<longrightarrow> dict_get (trk_selected_attempts u) p = Some a) \<and>
      (tracker_is_final t \<longrightarrow>
         tracker_is_final u \<and> trk_sinks u = trk_sinks t \<and> trk_selected_attempts u = trk_selected_attempts t))"

lemma add_to_set_get [simp]:
  "dict_get_default (add_to_set k v d) k' [] =
   (if k' = k then set_add v (dict_get_default d k []) else dict_get_default d k' [])"
  by (auto simp: add_to_set_def dict_get_default_def)

lemma tracker_ok_init: "tracker_ok (mk_tracker q e)"
  by (simp add: tracker_ok_def mk_tracker_def mk_selector_def tracker_is_final_def)

lemma add_sink_ok:
  assumes "tracker_ok t"
  shows "tracker_ok (snd (add_sink p t)) \<and> tracker_grows t (snd (add_sink p t))"
  using assms
  by (auto simp: add_sink_def tracker_ok_def tracker_grows_def tracker_is_final_def Let_def dict_has_def
      check_non_negative_def split: option.splits sum.splits if_splits)

lemma tracker_frame:
  assumes "tracker_ok t" and "trk_sinks u = trk_sinks t" and "trk_selected_attempts u = trk_selected_attempts t"
    and "trk_query_id u = trk_query_id t" and "trk_exchange_id u = trk_exchange_id t"
    and "\<And>p. set (dict_get_default (trk_finished_attempts t) p []) \<subseteq> set (dict_get_default (trk_finished_attempts u) p [])"
    and "sel_selected_attempts (trk_output_selector u) = sel_selected_attempts (trk_output_selector t)"
    and "sel_final (trk_output_selector u) = sel_final (trk_output_selector t)"
    and "sel_final_required (trk_output_selector u) = sel_final_required (trk_output_selector t)"
  shows "tracker_ok u \<and> tracker_grows t u"
  using assms(1,6) unfolding tracker_ok_def tracker_grows_def tracker_is_final_def assms(2-5,7-9) by blast

lemma record_aborted_frame:
  "record_aborted p a s = (res, s') \<Longrightarrow>
   sel_selected_attempts s' = sel_selected_attempts s \<and> sel_final s' = sel_final s \<and> sel_final_required s' = sel_final_required s"
  by (auto simp: record_aborted_def split: if_splits sum.splits)

lemma sink_aborted_ok:
  assumes "tracker_ok t"
  shows "tracker_ok (snd (sink_aborted h a t)) \<and> tracker_grows t (snd (sink_aborted h a t))"
proof (cases "bindE (require_sink h t) (\<lambda>_. check_non_negative ''attempt_id'' a)")
  case (Inl e)
  then show ?thesis by (intro tracker_frame [OF assms]) (simp_all add: sink_aborted_def)
next
  case (Inr b)
  obtain res sel where r: "record_aborted (snk_partition_id h) b (trk_output_selector t) = (res, sel)" by fastforce
  show ?thesis
    using Inr r record_aborted_frame [OF r] by (intro tracker_frame [OF assms]) (simp_all add: sink_aborted_def)
qed

lemma finalize_ok:
  assumes "tracker_ok t"
  shows "tracker_ok (snd (finalize t)) \<and> tracker_grows t (snd (finalize t))"
proof -
  obtain res sel where tm: "try_mark_final (dict_keys (trk_sinks t)) (trk_output_selector t) = (res, sel)" by fastforce
  have pos: "mapE (check_non_negative ''partition_id'') (dict_keys (trk_sinks t)) = Inr (dict_keys (trk_sinks t))"
    using assms mapE_total [of "dict_keys (trk_sinks t)" "check_non_negative ''partition_id''" id]
    by (force simp: tracker_ok_def wf_dict_get)
  have "sel = trk_output_selector t \<or>
    (\<not> sel_final (trk_output_selector t) \<and> set (dict_keys (trk_sinks t)) = set (dict_keys (sel_selected_attempts (trk_output_selector t))) \<and>
     sel = (trk_output_selector t)\<lparr>sel_final := True, sel_final_required := Some (remdups (dict_keys (trk_sinks t)))\<rparr>)"
    using tm pos by (auto simp: try_mark_final_def split: if_splits option.splits)
  then show ?thesis
  proof
    assume "sel = trk_output_selector t"
    then show ?thesis using tm by (intro tracker_frame [OF assms]) (simp_all add: finalize_def)
  next
    assume a: "\<not> sel_final (trk_output_selector t) \<and>
      set (dict_keys (trk_sinks t)) = set (dict_keys (sel_selected_attempts (trk_output_selector t))) \<and>
      sel = (trk_output_selector t)\<lparr>sel_final := True, sel_final_required := Some (remdups (dict_keys (trk_sinks t)))\<rparr>"
    show ?thesis
      using assms a
      by (auto simp: finalize_def tm tracker_ok_def tracker_grows_def tracker_is_final_def dict_has_keys simp del: set_map)
  qed
qed

lemma sink_finished_cases:
  assumes "tracker_ok t"
  obtains "snd (sink_finished h a t) = t"
  | sel where "dict_get (trk_sinks t) (snk_partition_id h) = Some h" "0 \<le> a"
    "\<not> dict_has (trk_selected_attempts t) (snk_partition_id h)" "\<not> tracker_is_final t"
    "snd (sink_finished h a t) = t\<lparr>trk_output_selector := sel,
       trk_finished_attempts := add_to_set (snk_partition_id h) a (trk_finished_attempts t),
       trk_selected_attempts := dict_set (snk_partition_id h) a (trk_selected_attempts t)\<rparr>"
    "sel_selected_attempts sel = dict_set (snk_partition_id h) a (trk_selected_attempts t)" "\<not> sel_final sel"
  | sel where "snd (sink_finished h a t) = t\<lparr>trk_output_selector := sel,
       trk_finished_attempts := add_to_set (snk_partition_id h) a (trk_finished_attempts t)\<rparr>"
    "sel_selected_attempts sel = sel_selected_attempts (trk_output_selector t)"
    "sel_final sel = sel_final (trk_output_selector t)"
    "sel_final_required sel = sel_final_required (trk_output_selector t)"
proof (cases "dict_get (trk_sinks t) (snk_partition_id h) = Some h \<and> 0 \<le> a")
  case False
  then have "snd (sink_finished h a t) = t"
    by (auto simp: sink_finished_def require_sink_def check_non_negative_def)
  then show thesis by (rule that(1))
next
  case True
  let ?p = "snk_partition_id h" and ?s = "trk_output_selector t"
  let ?s1 = "?s\<lparr>sel_finished_attempts := add_to_set ?p a (sel_finished_attempts ?s)\<rparr>"
  have sel: "sel_selected_attempts ?s = trk_selected_attempts t" using assms by (simp add: tracker_ok_def)
  have p: "0 \<le> ?p" using assms True by (auto simp: tracker_ok_def)
  have start: "sink_finished h a t =
      (let (res, sel) = record_finished ?p a ?s; t1 = t\<lparr>trk_output_selector := sel\<rparr> in
       case res of
         Inl e \<Rightarrow> (Inl e, t1)
       | Inr selected \<Rightarrow>
           let t2 = t1\<lparr>trk_finished_attempts := add_to_set ?p a (trk_finished_attempts t1)\<rparr> in
           (Inr (), if selected then t2\<lparr>trk_selected_attempts := dict_set ?p a (trk_selected_attempts t2)\<rparr> else t2))"
    using True by (simp add: sink_finished_def require_sink_def Let_def)
  show thesis
  proof (cases "sel_final ?s")
    case fin: True
    then obtain req where req: "sel_final_required ?s = Some req" "set req = set (dict_keys (trk_sinks t))"
      using assms by (auto simp: tracker_ok_def tracker_is_final_def)
    have "?p \<in> set req" using True req(2) by (force dest: map_of_SomeD)
    then have "record_finished ?p a ?s = (Inr False, ?s1)"
      using fin req(1) p True by (simp add: record_finished_def)
    then show thesis using start fin by (intro that(3) [of ?s1]) simp_all
  next
    case nf: False
    show thesis
    proof (cases "dict_has (trk_selected_attempts t) ?p")
      case has: True
      then have "record_finished ?p a ?s = (Inr False, ?s1)"
        using nf p True sel by (simp add: record_finished_def)
      then show thesis using start by (intro that(3) [of ?s1]) simp_all
    next
      case hasn: False
      let ?s2 = "?s1\<lparr>sel_selected_attempts := dict_set ?p a (trk_selected_attempts t)\<rparr>"
      have "record_finished ?p a ?s = (Inr True, ?s2)"
        using nf p True sel hasn by (simp add: record_finished_def)
      then show thesis using start nf True hasn by (intro that(2) [of ?s2]) (simp_all add: tracker_is_final_def)
    qed
  qed
qed

lemma sink_finished_ok:
  assumes "tracker_ok t"
  shows "tracker_ok (snd (sink_finished h a t)) \<and> tracker_grows t (snd (sink_finished h a t))"
  using assms
proof (cases rule: sink_finished_cases [of t h a])
  case 1
  then show ?thesis using assms by (simp add: tracker_grows_def)
next
  case (2 sel)
  then show ?thesis using assms unfolding 2(5)
    by (auto simp: tracker_ok_def tracker_grows_def tracker_is_final_def dict_has_def)
next
  case (3 sel)
  then show ?thesis unfolding 3(1) by (intro tracker_frame [OF assms]) auto
qed

interpretation tracker: monotone_system tracker_step tracker_ok tracker_grows
proof
  fix s t assume "tracker_ok s" "tracker_step s t"
  then show "tracker_ok t" and "tracker_grows s t"
    by (auto elim!: tracker_stepE simp: add_sink_ok sink_finished_ok sink_aborted_ok finalize_ok)
next
  show "tracker_grows s s" for s by (simp add: tracker_grows_def)
next
  show "tracker_grows s u" if "tracker_grows s t" "tracker_grows t u" for s t u
    using that by (simp add: tracker_grows_def)
qed

section \<open>Properties\<close>

lemma selected_sorted:
  assumes "wf_dict (d :: (int, int) dict)"
  shows "map fst (sort d) = sort (dict_keys d)"
proof (rule sorted_distinct_set_unique)
  show "sorted (map fst (sort d))"
    unfolding sorted_map by (rule sorted_wrt_mono_rel [OF _ sorted_sort]) (auto simp: less_eq_prod_def)
  show "distinct (map fst (sort d))" using assms by (simp add: wf_dict_def distinct_map)
qed (simp_all add: assms [unfolded wf_dict_def])

lemma source_handles_ok:
  assumes "tracker_ok t"
  shows "\<exists>hs. get_source_handles t = Inr hs \<and>
     map (\<lambda>h. (snk_partition_id (esh_sink_handle h), esh_attempt_id h)) hs = sort (trk_selected_attempts t)"
proof -
  define g where "g = (\<lambda>(p, a). \<lparr>esh_sink_handle = \<lparr>snk_query_id = trk_query_id t, snk_exchange_id = trk_exchange_id t,
    snk_partition_id = p\<rparr>, esh_attempt_id = a, esh_attempt_path = None, esh_files = []\<rparr>)"
  have "get_source_handles t = Inr (map g (sort (trk_selected_attempts t)))"
    unfolding get_source_handles_def
  proof (rule mapE_total)
    fix x assume "x \<in> set (sort (trk_selected_attempts t))"
    moreover have "wf_dict (trk_selected_attempts t)" using assms by (simp add: tracker_ok_def)
    ultimately obtain p a where x: "x = (p, a)" and pa: "dict_get (trk_selected_attempts t) p = Some a"
      by (metis set_sort surj_pair wf_dict_get)
    have "dict_has (trk_sinks t) p" using assms pa by (auto simp: tracker_ok_def)
    then obtain h where h: "dict_get (trk_sinks t) p = Some h" by (auto simp: dict_has_def)
    then have "h = \<lparr>snk_query_id = trk_query_id t, snk_exchange_id = trk_exchange_id t, snk_partition_id = p\<rparr>"
      using assms by (simp add: tracker_ok_def)
    then show "(case x of (p, a) \<Rightarrow> case dict_get (trk_sinks t) p of None \<Rightarrow> Inl (KeyError ''exchange sink'')
        | Some h \<Rightarrow> Inr \<lparr>esh_sink_handle = h, esh_attempt_id = a, esh_attempt_path = None, esh_files = []\<rparr>) = Inr (g x)"
      using h x by (simp add: g_def)
  qed
  moreover have "map (\<lambda>h. (snk_partition_id (esh_sink_handle h), esh_attempt_id h)) (map g xs) = xs" for xs
    by (induction xs) (auto simp: g_def)
  ultimately show ?thesis by blast
qed

text \<open>
  C28. One attempt per partition, for good. Whatever sequence of sink registrations, finished and
  aborted attempts and finalisations the tracker sees, an attempt selected for a partition stays
  selected, and it is an attempt that finished. Once the tracker is final, its source handles never
  change: exactly one for every registered sink, in partition order.
\<close>

theorem tracker_selection_stable:
  assumes "tracker_step\<^sup>*\<^sup>* (mk_tracker q e) t" and "tracker_step\<^sup>*\<^sup>* t u"
  shows "(\<forall>p a. dict_get (trk_selected_attempts t) p = Some a \<longrightarrow>
            dict_get (trk_selected_attempts u) p = Some a \<and> a \<in> set (dict_get_default (trk_finished_attempts t) p [])) \<and>
         (tracker_is_final t \<longrightarrow>
            tracker_is_final u \<and> get_source_handles u = get_source_handles t \<and>
            (\<exists>hs. get_source_handles t = Inr hs \<and>
               map (\<lambda>h. snk_partition_id (esh_sink_handle h)) hs = sort (dict_keys (trk_sinks t)) \<and>
               (\<forall>h\<in>set hs. dict_get (trk_selected_attempts t) (snk_partition_id (esh_sink_handle h)) = Some (esh_attempt_id h))))"
proof -
  have ok: "tracker_ok t" using tracker.reach_inv [OF tracker_ok_init assms(1)] .
  have gr: "tracker_grows t u" using tracker.reach_grows [OF ok assms(2)] .
  obtain hs where hs: "get_source_handles t = Inr hs"
    "map (\<lambda>h. (snk_partition_id (esh_sink_handle h), esh_attempt_id h)) hs = sort (trk_selected_attempts t)"
    using source_handles_ok [OF ok] by blast
  have wf: "wf_dict (trk_selected_attempts t)" "wf_dict (trk_sinks t)" using ok by (simp_all add: tracker_ok_def)
  have "map fst (map (\<lambda>h. (snk_partition_id (esh_sink_handle h), esh_attempt_id h)) hs) = sort (dict_keys (trk_selected_attempts t))"
    unfolding hs(2) by (rule selected_sorted [OF wf(1)])
  then have ids: "map (\<lambda>h. snk_partition_id (esh_sink_handle h)) hs = sort (dict_keys (trk_selected_attempts t))"
    by (simp add: comp_def)
  have "(snk_partition_id (esh_sink_handle h), esh_attempt_id h) \<in> set (trk_selected_attempts t)" if "h \<in> set hs" for h
    using arg_cong [OF hs(2), of set] that by force
  then have sel: "dict_get (trk_selected_attempts t) (snk_partition_id (esh_sink_handle h)) = Some (esh_attempt_id h)"
    if "h \<in> set hs" for h using that wf(1) by (simp add: wf_dict_get)
  have same: "sort (dict_keys (trk_selected_attempts t)) = sort (dict_keys (trk_sinks t))" if "tracker_is_final t"
  proof (rule sorted_distinct_set_unique)
    show "set (sort (dict_keys (trk_selected_attempts t))) = set (sort (dict_keys (trk_sinks t)))"
      using ok that by (auto simp: tracker_ok_def dict_has_keys [symmetric] dict_has_def simp del: set_map)
  qed (use wf in \<open>simp_all add: wf_dict_def\<close>)
  have "get_source_handles u = get_source_handles t" if "tracker_is_final t"
    using gr that by (simp add: tracker_grows_def get_source_handles_def)
  then show ?thesis using ok gr hs(1) ids sel same by (auto simp: tracker_ok_def tracker_grows_def)
qed

text \<open>Two sinks; attempt 1 of the first finishes before attempt 0 does.\<close>

definition sample_tracker :: exchange_tracker where
  "sample_tracker =
     (let t1 = snd (add_sink 0 (mk_tracker ''q'' ''x'')); t2 = snd (add_sink 1 t1);
          h = (\<lambda>p. \<lparr>snk_query_id = ''q'', snk_exchange_id = ''x'', snk_partition_id = p\<rparr>);
          t3 = snd (sink_finished (h 0) 1 t2); t4 = snd (sink_finished (h 0) 0 t3); t5 = snd (sink_finished (h 1) 0 t4) in
      snd (finalize t5))"

lemmas tracker_then = rtranclp.rtrancl_into_rtrancl [where r = tracker_step]

lemma sample_tracker_reached: "tracker_step\<^sup>*\<^sup>* (mk_tracker ''q'' ''x'') sample_tracker"
  unfolding sample_tracker_def Let_def
  by (rule tracker_then [OF _ Finalize], rule tracker_then [OF _ Finished], rule tracker_then [OF _ Finished],
      rule tracker_then [OF _ Finished], rule tracker_then [OF _ AddSink], rule tracker_then [OF _ AddSink], rule rtranclp.rtrancl_refl)

theorem tracker_selection_stable_witness:
  "dict_get (trk_selected_attempts sample_tracker) 0 = Some 1 \<and> tracker_is_final sample_tracker \<and>
   (\<exists>hs. get_source_handles sample_tracker = Inr hs \<and> map (\<lambda>h. snk_partition_id (esh_sink_handle h)) hs = [0, 1])"
proof -
  have "dict_get (trk_selected_attempts sample_tracker) 0 = Some 1" "tracker_is_final sample_tracker"
    "sort (dict_keys (trk_sinks sample_tracker)) = [0, 1]"
    by code_simp+
  then show ?thesis
    using tracker_selection_stable [OF sample_tracker_reached rtranclp.rtrancl_refl] by auto
qed

section \<open>Locations of derived instances\<close>

lemma split_digits_append:
  assumes "pre = [] \<or> \<not> is_digit (last pre)"
  shows "split_digits (pre @ nat_str n) = (pre, nat_str n)"
proof -
  have all: "\<forall>c\<in>set (rev (nat_str n)). is_digit c" using nat_str_chars by auto
  have "takeWhile is_digit (rev pre) = []" "dropWhile is_digit (rev pre) = rev pre"
    using assms by (cases pre rule: rev_cases; simp)+
  moreover have "takeWhile is_digit (rev (nat_str n) @ rev pre) = rev (nat_str n) @ takeWhile is_digit (rev pre)"
    "dropWhile is_digit (rev (nat_str n) @ rev pre) = dropWhile is_digit (rev pre)"
    using all by (auto intro!: takeWhile_append2 dropWhile_append2)
  ultimately show ?thesis by (simp add: split_digits_def)
qed

lemma take_minus_suffix: "take (length (xs @ ys) - length ys) (xs @ ys) = xs"
  by simp

lemma starts_with_append [simp]: "starts_with p (p @ s)"
  by (induction p) auto

lemma ends_with_append [simp]: "ends_with p (s @ p)"
  by (simp add: ends_with_def)

lemma int_str_nat: "0 \<le> i \<Longrightarrow> int_str i = nat_str (nat i)"
  by (simp add: int_str_def)

lemma last_nat_str_newline: "split_newline (pre @ nat_str n) = (pre @ nat_str n, [])"
proof -
  have "last (nat_str n) \<in> set (nat_str n)" by simp
  then have "\<not> py_ws (last (nat_str n))" using nat_str_chars by blast
  then have "last (nat_str n) \<noteq> CHR 0x0A" by (auto simp: py_ws_def)
  then show ?thesis by (simp add: split_newline_def)
qed

lemma underscore_not_digit: "\<not> is_digit (last (s @ ''__attempt_''))" "\<not> is_digit (last (s @ ''__sink_''))"
  by (simp_all add: is_digit_def)

lemma sub_sink_attempt_match:
  "sub_sink_attempt part attempt (base @ ''__sink_'' @ nat_str m @ ''__attempt_'' @ nat_str n) =
   base @ ''__sink_'' @ int_str part @ ''__attempt_'' @ int_str attempt"
proof -
  let ?pre = "(base @ ''__sink_'' @ nat_str m) @ ''__attempt_''"
  have s: "base @ ''__sink_'' @ nat_str m @ ''__attempt_'' @ nat_str n = ?pre @ nat_str n" by simp
  have d1: "split_digits (?pre @ nat_str n) = (?pre, nat_str n)"
    by (intro split_digits_append disjI2 underscore_not_digit)
  have t: "take (length ?pre - length ''__attempt_'') ?pre = (base @ ''__sink_'') @ nat_str m"
    unfolding take_minus_suffix by (rule append_assoc [symmetric])
  have d2: "split_digits ((base @ ''__sink_'') @ nat_str m) = (base @ ''__sink_'', nat_str m)"
    by (intro split_digits_append disjI2 underscore_not_digit)
  show ?thesis
    unfolding sub_sink_attempt_def s last_nat_str_newline prod.case Let_def d1 t d2
    using ends_with_append [of "''__attempt_''" "base @ ''__sink_'' @ nat_str m"]
    by (simp only: ends_with_append nat_str_nonempty not_False_eq_True simp_thms if_True append_assoc append_Nil2)
qed

lemma int_str_inject: "int_str i = int_str j \<longleftrightarrow> i = j"
  by (metis option.inject parse_int_str)

lemma sink_attempt_inject:
  assumes "0 \<le> p" and "0 \<le> a" and "0 \<le> p'" and "0 \<le> a'"
  shows "base @ ''__sink_'' @ int_str p @ ''__attempt_'' @ int_str a =
         base @ ''__sink_'' @ int_str p' @ ''__attempt_'' @ int_str a' \<longleftrightarrow> p = p' \<and> a = a'"
proof
  assume eq: "base @ ''__sink_'' @ int_str p @ ''__attempt_'' @ int_str a =
         base @ ''__sink_'' @ int_str p' @ ''__attempt_'' @ int_str a'"
  have d: "split_digits ((int_str p @ ''__attempt_'') @ nat_str (nat a)) = (int_str p @ ''__attempt_'', nat_str (nat a))" for p a
    by (intro split_digits_append disjI2 underscore_not_digit)
  have "(int_str p @ ''__attempt_'') @ nat_str (nat a) = (int_str p' @ ''__attempt_'') @ nat_str (nat a')"
    using eq assms by (simp add: int_str_nat)
  then have "int_str p @ ''__attempt_'' = int_str p' @ ''__attempt_'' \<and> nat_str (nat a) = nat_str (nat a')"
    using d [of p a] d [of p' a'] by simp
  then show "p = p' \<and> a = a'" using assms by (metis append_same_eq int_str_inject int_str_nat)
qed simp

lemma derive_location_get:
  assumes "dict_get d ''output_location'' = Some (PStr loc)" and "loc \<noteq> []" and "sub_sink_attempt p a loc = new"
  shows "dict_get (derive_location a (Some p) False d) ''output_location'' = Some (PStr new)"
    and "k \<notin> {''output_location'', ''attempt_path''} \<Longrightarrow> dict_get (derive_location a (Some p) False d) k = dict_get d k"
  using assms by (auto simp: derive_location_def dict_get_default_def Let_def)

lemma derive_sink_attempt:
  assumes "dict_get d ''output_location'' = Some (PStr (base @ ''__sink_'' @ nat_str m @ ''__attempt_'' @ nat_str n))"
    and "\<not> py_truthy (dict_get_default d ''preserve_plan_exchange_sink_instance'' PNone)"
    and "mapping_or_empty (dict_get_default d ''sink_handle'' PNone) = Inr sh" and "0 \<le> p" and "0 \<le> a"
  shows "\<exists>e. derive_exchange_sink_instance_for_attempt (Raw (PDict d)) a (Some p) = Inr (Raw (PDict e)) \<and>
     dict_get e ''attempt_id'' = Some (PInt a) \<and> dict_get e ''partition_id'' = Some (PInt p) \<and>
     dict_get e ''output_location'' = Some (PStr (base @ ''__sink_'' @ int_str p @ ''__attempt_'' @ int_str a))"
proof -
  define d1 where "d1 = dict_set ''partition_id'' (PInt p) (dict_set ''task_partition_id'' (PInt p) (dict_set ''attempt_id'' (PInt a) d))"
  define d2 where "d2 = dict_set ''sink_handle'' (PDict (dict_set ''partition_id'' (PInt p) (dict_set ''task_partition_id'' (PInt p) sh))) d1"
  let ?loc = "base @ ''__sink_'' @ nat_str m @ ''__attempt_'' @ nat_str n"
  let ?new = "base @ ''__sink_'' @ int_str p @ ''__attempt_'' @ int_str a"
  have ne: "d \<noteq> []" using assms(1) by auto
  have "dict_get_default (dict_set ''attempt_id'' (PInt a) d) ''preserve_plan_exchange_sink_instance'' PNone =
      dict_get_default d ''preserve_plan_exchange_sink_instance'' PNone"
    "dict_get_default d1 ''sink_handle'' PNone = dict_get_default d ''sink_handle'' PNone"
    by (simp_all add: d1_def dict_get_default_def)
  then have "derive_exchange_sink_instance_for_attempt (Raw (PDict d)) a (Some p) =
      Inr (Raw (PDict (derive_location a (Some p) False d2)))"
    using assms(2-5) ne by (simp add: derive_exchange_sink_instance_for_attempt_def Let_def d1_def [symmetric] d2_def)
  moreover have g: "dict_get d2 ''output_location'' = Some (PStr ?loc)" "dict_get d2 ''attempt_id'' = Some (PInt a)"
      "dict_get d2 ''partition_id'' = Some (PInt p)"
    using assms(1) by (simp_all add: d1_def d2_def)
  have "dict_get (derive_location a (Some p) False d2) ''attempt_id'' = Some (PInt a) \<and>
      dict_get (derive_location a (Some p) False d2) ''partition_id'' = Some (PInt p) \<and>
      dict_get (derive_location a (Some p) False d2) ''output_location'' = Some (PStr ?new)"
    using derive_location_get [OF g(1) _ sub_sink_attempt_match] g(2,3) by simp
  ultimately show ?thesis by blast
qed

text \<open>
  C32. From a sink instance payload whose \<open>output_location\<close> ends in \<open>__sink_N__attempt_M\<close>, that does not set
  \<open>preserve_plan_exchange_sink_instance\<close> and whose \<open>sink_handle\<close>, if any, is a mapping, the instance derived for an attempt of a
  task partition names that attempt and partition, and two derived locations agree only for the same partition and attempt. So
  attempts of such a sink do not share a location; a payload with the flag set or with another form of location is not covered.
\<close>

theorem derived_sink_locations_distinct:
  assumes "dict_get d ''output_location'' = Some (PStr (base @ ''__sink_'' @ nat_str m @ ''__attempt_'' @ nat_str n))"
    and "\<not> py_truthy (dict_get_default d ''preserve_plan_exchange_sink_instance'' PNone)"
    and "mapping_or_empty (dict_get_default d ''sink_handle'' PNone) = Inr sh"
    and "0 \<le> p" and "0 \<le> a" and "0 \<le> p'" and "0 \<le> a'"
  shows "\<exists>e e'. derive_exchange_sink_instance_for_attempt (Raw (PDict d)) a (Some p) = Inr (Raw (PDict e)) \<and>
     derive_exchange_sink_instance_for_attempt (Raw (PDict d)) a' (Some p') = Inr (Raw (PDict e')) \<and>
     dict_get e ''attempt_id'' = Some (PInt a) \<and> dict_get e ''partition_id'' = Some (PInt p) \<and>
     (dict_get e ''output_location'' = dict_get e' ''output_location'' \<longleftrightarrow> p = p' \<and> a = a')"
proof -
  obtain e e' where e: "derive_exchange_sink_instance_for_attempt (Raw (PDict d)) a (Some p) = Inr (Raw (PDict e))"
      "dict_get e ''attempt_id'' = Some (PInt a)" "dict_get e ''partition_id'' = Some (PInt p)"
      "dict_get e ''output_location'' = Some (PStr (base @ ''__sink_'' @ int_str p @ ''__attempt_'' @ int_str a))"
    and e': "derive_exchange_sink_instance_for_attempt (Raw (PDict d)) a' (Some p') = Inr (Raw (PDict e'))"
      "dict_get e' ''output_location'' = Some (PStr (base @ ''__sink_'' @ int_str p' @ ''__attempt_'' @ int_str a'))"
    using derive_sink_attempt [OF assms(1-3) assms(4,5)] derive_sink_attempt [OF assms(1-3) assms(6,7)] by blast
  then show ?thesis using sink_attempt_inject [OF assms(4-7), of base]
    by (intro exI [of _ e] exI [of _ e']) (simp only: option.inject pyval.inject simp_thms)
qed

theorem derived_sink_locations_distinct_witness:
  "\<exists>e e'. derive_exchange_sink_instance_for_attempt (Raw (PDict [(''output_location'', PStr ''out/x__sink_0__attempt_0'')])) 2 (Some 1)
           = Inr (Raw (PDict e)) \<and>
     derive_exchange_sink_instance_for_attempt (Raw (PDict [(''output_location'', PStr ''out/x__sink_0__attempt_0'')])) 3 (Some 1)
           = Inr (Raw (PDict e')) \<and>
     dict_get e ''output_location'' \<noteq> dict_get e' ''output_location''"
proof -
  have "nat_str 0 = ''0''" by (simp add: nat_str.simps digit_char_def)
  then have loc: "dict_get [(''output_location'', PStr ''out/x__sink_0__attempt_0'')] ''output_location'' =
      Some (PStr (''out/x'' @ ''__sink_'' @ nat_str 0 @ ''__attempt_'' @ nat_str 0))"
    by simp
  show ?thesis
    using derived_sink_locations_distinct [OF loc, of "[]" 1 2 1 3]
    by (auto simp: dict_get_default_def mapping_or_empty_def)
qed

end
