(* ===== verification/Fte_Descriptor.thy ===== *)
theory Fte_Descriptor
  imports Output_Buffers Fte_Exchange Split_Assigner "HOL-Library.Sublist"
begin

text \<open>
  Task update requests and task descriptors (\<open>src/duckdb/runners/fte/fte_descriptor.py\<close>): parsing and
  printing of updates, the descriptor of a task partition with its splits per source, the
  deduplication of splits by sequence id, the application of an update, and the request that
  creates a task attempt from a descriptor.

  Python sets that are only tested, extended and sorted are duplicate-free lists. A fragment plan is
  an opaque object; the model value stands for the object itself, so that \<open>is\<close> is equality.
\<close>

section \<open>Initial splits\<close>

text \<open>What a caller may pass as the splits of a source: split objects and payloads, or one payload value.\<close>

datatype split_items = Items "fte_split ref list" | Payload pyval

fun items_of :: "split_items \<Rightarrow> fte_split ref list res" where
  "items_of (Items xs) = Inr xs"
| "items_of (Payload v) = bindE (py_iter v) (\<lambda>xs. Inr (map Raw xs))"

fun split_of :: "string \<Rightarrow> fte_split ref \<Rightarrow> fte_split res" where
  "split_of src (Obj s) = Inr s"
| "split_of src (Raw (PDict d)) = split_from_dict src d"
| "split_of src (Raw v) = Inl (AttributeError ''get'')"

definition normalize_initial_splits ::
  "(string, split_items) dict \<Rightarrow> (string, fte_split list) dict res" where
  "normalize_initial_splits initial =
     mapE (\<lambda>(src, items).
            bindE (items_of items) (\<lambda>xs. bindE (mapE (split_of src) xs) (\<lambda>splits. Inr (src, splits)))) initial"

section \<open>Task updates\<close>

record fte_task_update_request =
  req_initial_splits :: "(string, fte_split list) dict"
  req_no_more_splits :: "string list"
  req_output_buffers :: "(string, pyval) dict option"
  req_dynamic_filter_domains :: "(string, pyval) dict"
  req_context :: "(string, pyval) dict"
  req_resource_request :: "(string, pyval) dict"
  req_fragment_plan :: pyval
  req_fragment_plan_present :: bool
  req_source_node_ids :: "string list"
  req_dynamic_scan_source_node_ids :: "string list"
  req_dynamic_exchange_source_node_ids :: "string list"

text \<open>\<open>for x in (v or [])\<close>, and the set of the texts of its items.\<close>

definition iter_or_empty :: "pyval \<Rightarrow> pyval list res" where
  "iter_or_empty v = (if py_truthy v then py_iter v else Inr [])"

definition source_set :: "pyval \<Rightarrow> string list res" where
  "source_set v = bindE (iter_or_empty v) (\<lambda>xs. Inr (normalize_sources (Some (map py_str xs))))"

definition opt_dict :: "(string, pyval) dict option \<Rightarrow> pyval" where
  "opt_dict d = (case d of None \<Rightarrow> PNone | Some d \<Rightarrow> PDict d)"

definition mk_task_update_request ::
  "(string, split_items) dict \<Rightarrow> pyval \<Rightarrow> pyval \<Rightarrow> pyval \<Rightarrow> pyval \<Rightarrow> pyval \<Rightarrow> pyval \<Rightarrow> bool \<Rightarrow> pyval \<Rightarrow> pyval \<Rightarrow> pyval \<Rightarrow>
   fte_task_update_request res" where
  "mk_task_update_request initial no_more buffers domains context resource plan plan_present srcs scans exchanges =
     bindE (normalize_initial_splits initial) (\<lambda>splits.
     bindE (source_set no_more) (\<lambda>no_more.
     bindE (normalize_output_buffers buffers) (\<lambda>buffers.
     bindE (mapping_or_empty domains) (\<lambda>domains.
     bindE (mapping_or_empty context) (\<lambda>context.
     bindE (mapping_or_empty resource) (\<lambda>resource.
     bindE (source_set srcs) (\<lambda>srcs.
     bindE (source_set scans) (\<lambda>scans.
     bindE (source_set exchanges) (\<lambda>exchanges.
     Inr \<lparr>req_initial_splits = splits, req_no_more_splits = no_more, req_output_buffers = buffers,
          req_dynamic_filter_domains = domains, req_context = context, req_resource_request = resource,
          req_fragment_plan = plan, req_fragment_plan_present = (plan_present \<or> plan \<noteq> PNone),
          req_source_node_ids = srcs, req_dynamic_scan_source_node_ids = scans,
          req_dynamic_exchange_source_node_ids = exchanges\<rparr>)))))))))"

definition source_id_from_assignment :: "(string, pyval) dict \<Rightarrow> string res" where
  "source_id_from_assignment d =
     (case List.map_filter
             (\<lambda>k. case dict_get d k of
                    None \<Rightarrow> None | Some v \<Rightarrow> if v \<noteq> PNone \<and> strip (py_str v) \<noteq> [] then Some (py_str v) else None)
             [''source_node_id'', ''plan_node_id'', ''node_id'', ''source''] of
        [] \<Rightarrow> Inl (ValueError ''split assignment is missing source_node_id'')
      | src # _ \<Rightarrow> Inr src)"

text \<open>\<open>initial_splits.setdefault(source_id, []).extend(assignment_splits)\<close>.\<close>

definition extend_splits :: "string \<Rightarrow> pyval \<Rightarrow> (string, pyval) dict \<Rightarrow> (string, pyval) dict res" where
  "extend_splits src v splits =
     (case dict_get_default splits src (PList []) of
        PList xs \<Rightarrow> bindE (py_iter v) (\<lambda>ys. Inr (dict_set src (PList (xs @ ys)) splits))
      | _ \<Rightarrow> Inl (AttributeError ''extend''))"

definition apply_assignment :: "pyval \<Rightarrow> ((string, pyval) dict \<times> string list, unit) op" where
  "apply_assignment asg s =
     (case asg of
        PDict d \<Rightarrow>
          (case source_id_from_assignment d of
             Inl e \<Rightarrow> (Inl e, s)
           | Inr src \<Rightarrow>
               let v = dict_get_default d ''splits'' PNone in
               case (if py_truthy v then extend_splits src v (fst s) else Inr (fst s)) of
                 Inl e \<Rightarrow> (Inl e, s)
               | Inr splits \<Rightarrow>
                   (Inr (), (splits,
                      if py_truthy (dict_get_default d ''no_more_splits'' PNone) \<or>
                         py_truthy (dict_get_default d ''noMoreSplits'' PNone)
                      then set_add src (snd s) else snd s)))
      | _ \<Rightarrow> (Inl (AttributeError ''get''), s))"

text \<open>
  \<open>from_dict\<close> on the caller's payload, which is the state: the lists of splits are shared with it, so
  extending the list of a source that the payload already lists changes the payload as well.
\<close>

definition share_extended :: "(string, pyval) dict \<Rightarrow> (string, pyval) dict \<Rightarrow> (string, pyval) dict" where
  "share_extended splits payload =
     (case dict_get payload ''initial_splits'' of
        Some (PDict orig) \<Rightarrow>
          dict_set ''initial_splits'' (PDict (map (\<lambda>(k, v). (k, dict_get_default splits k v)) orig)) payload
      | _ \<Rightarrow> payload)"

definition first_key :: "(string, pyval) dict \<Rightarrow> string list \<Rightarrow> pyval option" where
  "first_key payload keys = (case find (dict_has payload) keys of None \<Rightarrow> None | Some k \<Rightarrow> dict_get payload k)"

definition task_update_from_dict :: "((string, pyval) dict, fte_task_update_request) op" where
  "task_update_from_dict payload =
     (let get = (\<lambda>k. dict_get_default payload k PNone) in
      case bindE (mapping_or_empty (get ''initial_splits'')) (\<lambda>splits.
           bindE (source_set (get ''no_more_splits'')) (\<lambda>no_more.
           bindE (iter_or_empty (get ''split_assignments'')) (\<lambda>asgs. Inr (splits, no_more, asgs)))) of
        Inl e \<Rightarrow> (Inl e, payload)
      | Inr (splits, no_more, asgs) \<Rightarrow>
          let (res, (splits, no_more)) = foldS apply_assignment asgs (splits, no_more) in
          (bindE res (\<lambda>_.
           bindE (case first_key payload [''output_buffers'', ''outputIds'', ''output_buffer_update''] of
                    None \<Rightarrow> Inr None
                  | Some v \<Rightarrow> normalize_output_buffers (if py_truthy v then v else PDict [])) (\<lambda>buffers.
           bindE (case first_key payload [''dynamic_filter_domains'', ''dynamicFilterDomains'', ''dynamic_filters''] of
                    None \<Rightarrow> Inr []
                  | Some v \<Rightarrow> mapping_or_empty v) (\<lambda>domains.
           mk_task_update_request (map (\<lambda>(k, v). (k, Payload v)) splits) (PSet (map PStr no_more)) (opt_dict buffers)
             (PDict domains) (get ''context'') (get ''resource_request'') (get ''fragment_plan'')
             (dict_has payload ''fragment_plan'') (get ''source_node_ids'') (get ''dynamic_scan_source_node_ids'')
             (get ''dynamic_exchange_source_node_ids'')))),
           share_extended splits payload))"

definition empty_update :: "fte_task_update_request res" where
  "empty_update = mk_task_update_request [] PNone PNone PNone PNone PNone PNone False PNone PNone PNone"

text \<open>\<open>coerce\<close>, with the result and what it leaves of the caller's payload.\<close>

definition task_update_coerce ::
  "(fte_task_update_request ref, fte_task_update_request) op" where
  "task_update_coerce update =
     (case update of
        Obj r \<Rightarrow> (Inr r, update)
      | Raw v \<Rightarrow>
          if v = PNone then (empty_update, update)
          else case mapping_or_empty v of
                 Inl e \<Rightarrow> (Inl e, update)
               | Inr d \<Rightarrow> let (res, d') = task_update_from_dict d in
                           (res, if py_truthy v then Raw (PDict d') else update))"

definition splits_to_dict :: "(string, fte_split list) dict \<Rightarrow> (string, pyval) dict" where
  "splits_to_dict m = map (\<lambda>(src, splits). (src, PList (map (\<lambda>s. PDict (split_to_dict s)) splits))) m"

definition sorted_strs :: "string list \<Rightarrow> pyval" where
  "sorted_strs xs = PList (map PStr (sort xs))"

definition task_update_to_dict :: "fte_task_update_request \<Rightarrow> (string, pyval) dict" where
  "task_update_to_dict r =
     (if req_initial_splits r \<noteq> [] then [(''initial_splits'', PDict (splits_to_dict (req_initial_splits r)))] else [])
     @ (if req_no_more_splits r \<noteq> [] then [(''no_more_splits'', sorted_strs (req_no_more_splits r))] else [])
     @ (case req_output_buffers r of None \<Rightarrow> [] | Some b \<Rightarrow> [(''output_buffers'', PDict b)])
     @ (if req_dynamic_filter_domains r \<noteq> [] then [(''dynamic_filter_domains'', PDict (req_dynamic_filter_domains r))] else [])
     @ (if req_context r \<noteq> [] then [(''context'', PDict (req_context r))] else [])
     @ (if req_resource_request r \<noteq> [] then [(''resource_request'', PDict (req_resource_request r))] else [])
     @ (if req_fragment_plan_present r then [(''fragment_plan'', req_fragment_plan r)] else [])
     @ (if req_source_node_ids r \<noteq> [] then [(''source_node_ids'', sorted_strs (req_source_node_ids r))] else [])
     @ (if req_dynamic_scan_source_node_ids r \<noteq> []
        then [(''dynamic_scan_source_node_ids'', sorted_strs (req_dynamic_scan_source_node_ids r))] else [])
     @ (if req_dynamic_exchange_source_node_ids r \<noteq> []
        then [(''dynamic_exchange_source_node_ids'', sorted_strs (req_dynamic_exchange_source_node_ids r))] else [])"

section \<open>Task descriptors\<close>

record task_descriptor =
  dsc_task_id :: fte_task_id
  dsc_fragment_id :: string
  dsc_context :: "(string, pyval) dict"
  dsc_initial_splits :: "(string, fte_split list) dict"
  dsc_no_more_splits :: "string list"
  dsc_resource_request :: "(string, pyval) dict"
  dsc_fragment_plan :: pyval
  dsc_fragment_registration_result :: pyval
  dsc_exchange_sink_instance :: sink_instance
  dsc_task_context_info :: "(string, pyval) dict"
  dsc_output_buffers :: "(string, pyval) dict option"
  dsc_dynamic_filter_domains :: "(string, pyval) dict"
  dsc_descriptor_version :: int
  dsc_sealed :: bool
  dsc_source_node_ids :: "string list"
  dsc_dynamic_scan_source_node_ids :: "string list"
  dsc_dynamic_exchange_source_node_ids :: "string list"
  dsc_seen_sequences :: "(string, int list) dict"

text \<open>The arguments of the constructor beside the identity, and their defaults.\<close>

record descriptor_args =
  darg_context :: pyval
  darg_initial_splits :: "(string, split_items) dict"
  darg_no_more_splits :: "string list"
  darg_resource_request :: pyval
  darg_fragment_plan :: pyval
  darg_fragment_registration_result :: pyval
  darg_exchange_sink_instance :: sink_instance
  darg_task_context_info :: pyval
  darg_output_buffers :: pyval
  darg_dynamic_filter_domains :: pyval
  darg_descriptor_version :: int
  darg_sealed :: bool
  darg_source_node_ids :: "string list"
  darg_dynamic_scan_source_node_ids :: "string list"
  darg_dynamic_exchange_source_node_ids :: "string list"
  darg_seen_sequences :: "(string, int list) dict"

definition descriptor_defaults :: descriptor_args where
  "descriptor_defaults =
     \<lparr>darg_context = PNone, darg_initial_splits = [], darg_no_more_splits = [], darg_resource_request = PNone,
      darg_fragment_plan = PNone, darg_fragment_registration_result = PNone,
      darg_exchange_sink_instance = no_sink_instance, darg_task_context_info = PNone, darg_output_buffers = PNone,
      darg_dynamic_filter_domains = PNone, darg_descriptor_version = 0, darg_sealed = False,
      darg_source_node_ids = [], darg_dynamic_scan_source_node_ids = [], darg_dynamic_exchange_source_node_ids = [],
      darg_seen_sequences = []\<rparr>"

text \<open>The loop at the end of \<open>__post_init__\<close>: every source with splits is known and its sequence ids are seen.\<close>

definition register_splits :: "string \<times> fte_split list \<Rightarrow> task_descriptor \<Rightarrow> task_descriptor" where
  "register_splits entry d =
     d\<lparr>dsc_source_node_ids := set_add (fst entry) (dsc_source_node_ids d),
       dsc_seen_sequences :=
         dict_set (fst entry)
           (fold set_add (map sequence_id (snd entry)) (dict_get_default (dsc_seen_sequences d) (fst entry) []))
           (dsc_seen_sequences d)\<rparr>"

definition mk_descriptor :: "fte_task_id ref \<Rightarrow> string \<Rightarrow> descriptor_args \<Rightarrow> task_descriptor res" where
  "mk_descriptor task_id fragment_id c =
     bindE (task_id_coerce task_id) (\<lambda>t.
     let f = strip fragment_id in
     if f = [] then Inl (ValueError ''fragment_id must be non-empty'')
     else
       bindE (mapping_or_empty (darg_context c)) (\<lambda>context.
       bindE (mapping_or_empty (darg_resource_request c)) (\<lambda>resource.
       bindE (mapping_or_empty (darg_task_context_info c)) (\<lambda>info.
       bindE (normalize_output_buffers (darg_output_buffers c)) (\<lambda>buffers.
       bindE (mapping_or_empty (darg_dynamic_filter_domains c)) (\<lambda>domains.
       bindE (normalize_initial_splits (darg_initial_splits c)) (\<lambda>splits.
       let d = \<lparr>dsc_task_id = t, dsc_fragment_id = f, dsc_context = context, dsc_initial_splits = splits,
                dsc_no_more_splits = remdups (darg_no_more_splits c), dsc_resource_request = resource,
                dsc_fragment_plan = darg_fragment_plan c,
                dsc_fragment_registration_result = darg_fragment_registration_result c,
                dsc_exchange_sink_instance = darg_exchange_sink_instance c, dsc_task_context_info = info,
                dsc_output_buffers = buffers, dsc_dynamic_filter_domains = domains,
                dsc_descriptor_version = darg_descriptor_version c, dsc_sealed = darg_sealed c,
                dsc_source_node_ids = remdups (darg_source_node_ids c),
                dsc_dynamic_scan_source_node_ids = remdups (darg_dynamic_scan_source_node_ids c),
                dsc_dynamic_exchange_source_node_ids = remdups (darg_dynamic_exchange_source_node_ids c),
                dsc_seen_sequences = map (\<lambda>(k, v). (k, remdups v)) (darg_seen_sequences c)\<rparr>;
           d1 = fold register_splits splits d in
       Inr (d1\<lparr>dsc_source_node_ids := fold set_add (dsc_no_more_splits d1) (dsc_source_node_ids d1)\<rparr>))))))))"

section \<open>Adding splits\<close>

definition append_one :: "string \<Rightarrow> fte_split \<Rightarrow> (task_descriptor \<times> fte_split list, unit) op" where
  "append_one src s st =
     (let (d, added) = st; seen = dict_get_default (dsc_seen_sequences d) src [] in
      if split_source_node_id s \<noteq> src
      then (Inl (ValueError ''split source_node_id does not match descriptor update source''), st)
      else if sequence_id s \<in> set seen then (Inr (), st)
      else (Inr (), (d\<lparr>dsc_seen_sequences := dict_set src (set_add (sequence_id s) seen) (dsc_seen_sequences d),
                       dsc_initial_splits :=
                         dict_set src (dict_get_default (dsc_initial_splits d) src [] @ [s]) (dsc_initial_splits d)\<rparr>,
                     added @ [s])))"

definition append_start :: "string \<Rightarrow> fte_split list \<Rightarrow> task_descriptor \<Rightarrow> task_descriptor" where
  "append_start src normalized d =
     d\<lparr>dsc_source_node_ids := (if normalized \<noteq> [] then set_add src (dsc_source_node_ids d) else dsc_source_node_ids d),
       dsc_initial_splits := dict_setdefault src [] (dsc_initial_splits d),
       dsc_seen_sequences := dict_setdefault src [] (dsc_seen_sequences d)\<rparr>"

definition append_splits :: "string \<Rightarrow> fte_split ref list \<Rightarrow> (task_descriptor, fte_split list) op" where
  "append_splits src splits d =
     (if src \<in> set (dsc_no_more_splits d) \<and> splits \<noteq> []
      then (Inl (RuntimeError ''source is already marked no_more_splits''), d)
      else case normalize_initial_splits [(src, Items splits)] of
        Inl e \<Rightarrow> (Inl e, d)
      | Inr m \<Rightarrow>
          let normalized = dict_get_default m src [];
              (res, (d', added)) = foldS (append_one src) normalized (append_start src normalized d, []) in
          (bindE res (\<lambda>_. Inr added), d'))"

definition mark_no_more_splits :: "string \<Rightarrow> task_descriptor \<Rightarrow> bool \<times> task_descriptor" where
  "mark_no_more_splits src d =
     (let d1 = d\<lparr>dsc_source_node_ids := set_add src (dsc_source_node_ids d)\<rparr> in
      if src \<in> set (dsc_no_more_splits d1) then (False, d1)
      else (True, d1\<lparr>dsc_no_more_splits := set_add src (dsc_no_more_splits d1)\<rparr>))"

section \<open>Applying an update\<close>

text \<open>The steps work on the descriptor and the flag \<open>changed\<close>.\<close>

definition apply_source_splits ::
  "string \<times> fte_split list \<Rightarrow> (task_descriptor \<times> bool, unit) op" where
  "apply_source_splits entry st =
     (case append_splits (fst entry) (map Obj (snd entry)) (fst st) of
        (Inl e, d) \<Rightarrow> (Inl e, (d, snd st))
      | (Inr added, d) \<Rightarrow> (Inr (), (d, added \<noteq> [] \<or> snd st)))"

definition apply_no_more :: "string \<Rightarrow> task_descriptor \<times> bool \<Rightarrow> task_descriptor \<times> bool" where
  "apply_no_more src st =
     (let (marked, d) = mark_no_more_splits src (fst st) in (d, marked \<or> snd st))"

definition merge_changed ::
  "(string, pyval) dict \<Rightarrow> (string, pyval) dict \<Rightarrow> (string, pyval) dict \<times> bool" where
  "merge_changed current update =
     (if update = [] then (current, False)
      else let merged = dict_merge current update in
           if py_eq (PDict merged) (PDict current) then (current, False) else (merged, True))"

text \<open>
  The code compares fragment plans with \<open>is\<close>. Values carry no identity here, so whether two of them are the same object is the
  parameter \<open>same\<close>.
\<close>

definition apply_metadata ::
  "(pyval \<Rightarrow> pyval \<Rightarrow> bool) \<Rightarrow> fte_task_update_request \<Rightarrow> task_descriptor \<times> bool \<Rightarrow> task_descriptor \<times> bool" where
  "apply_metadata same r st =
     (let (context, c1) = merge_changed (dsc_context (fst st)) (req_context r);
          (resource, c2) = merge_changed (dsc_resource_request (fst st)) (req_resource_request r);
          c3 = (req_fragment_plan_present r \<and> \<not> same (dsc_fragment_plan (fst st)) (req_fragment_plan r)) in
      ((fst st)\<lparr>dsc_context := context, dsc_resource_request := resource,
                dsc_fragment_plan := (if c3 then req_fragment_plan r else dsc_fragment_plan (fst st))\<rparr>,
       snd st \<or> c1 \<or> c2 \<or> c3))"

definition apply_output_buffers ::
  "fte_task_update_request \<Rightarrow> (task_descriptor \<times> bool, unit) op" where
  "apply_output_buffers r st =
     (case req_output_buffers r of
        None \<Rightarrow> (Inr (), st)
      | Some u \<Rightarrow>
          (case merge_output_buffers (opt_dict (dsc_output_buffers (fst st))) (PDict u) of
             Inl e \<Rightarrow> (Inl e, st)
           | Inr (buffers, changed) \<Rightarrow>
               (Inr (), if changed then ((fst st)\<lparr>dsc_output_buffers := buffers\<rparr>, True) else st)))"

definition union_changed :: "string list \<Rightarrow> string list \<Rightarrow> string list \<times> bool" where
  "union_changed current new =
     (if set new \<subseteq> set current then (current, False) else (fold set_add new current, True))"

definition apply_domains_and_sources ::
  "fte_task_update_request \<Rightarrow> task_descriptor \<times> bool \<Rightarrow> task_descriptor \<times> bool" where
  "apply_domains_and_sources r st =
     (let (domains, c1) = merge_changed (dsc_dynamic_filter_domains (fst st)) (req_dynamic_filter_domains r);
          (srcs, c2) = union_changed (dsc_source_node_ids (fst st)) (req_source_node_ids r);
          (scans, c3) = union_changed (dsc_dynamic_scan_source_node_ids (fst st)) (req_dynamic_scan_source_node_ids r);
          (exchanges, c4) =
            union_changed (dsc_dynamic_exchange_source_node_ids (fst st)) (req_dynamic_exchange_source_node_ids r) in
      ((fst st)\<lparr>dsc_dynamic_filter_domains := domains, dsc_source_node_ids := srcs,
                dsc_dynamic_scan_source_node_ids := scans, dsc_dynamic_exchange_source_node_ids := exchanges\<rparr>,
       snd st \<or> c1 \<or> c2 \<or> c3 \<or> c4))"

definition descriptor_apply_task_update ::
  "(pyval \<Rightarrow> pyval \<Rightarrow> bool) \<Rightarrow> fte_task_update_request \<Rightarrow> (task_descriptor, bool) op" where
  "descriptor_apply_task_update same r d =
     (let (res, (d', changed)) =
        bindS (foldS apply_source_splits (req_initial_splits r)) (\<lambda>_.
        bindS (modS (fold apply_no_more (sort (req_no_more_splits r)))) (\<lambda>_.
        bindS (modS (apply_metadata same r)) (\<lambda>_.
        bindS (apply_output_buffers r) (\<lambda>_.
        bindS (modS (apply_domains_and_sources r)) (\<lambda>_.
        modS (\<lambda>(d, changed).
          (if changed then d\<lparr>dsc_descriptor_version := dsc_descriptor_version d + 1\<rparr> else d, changed))))))) (d, False)
      in (bindE res (\<lambda>_. Inr changed), d'))"

section \<open>Creating an attempt\<close>

definition instance_value :: "sink_instance \<Rightarrow> pyval" where
  "instance_value i = (case i of Obj h \<Rightarrow> PDict (sink_instance_to_dict h) | Raw v \<Rightarrow> v)"

definition to_create_task_request ::
  "task_descriptor \<Rightarrow> int \<Rightarrow> sink_instance \<Rightarrow> (string, pyval) dict res" where
  "to_create_task_request d n inst =
     bindE (mk_attempt_id (dsc_task_id d) n) (\<lambda>a.
     let sink = (if inst \<noteq> no_sink_instance then inst else dsc_exchange_sink_instance d) in
     Inr ([(''task_id'', PDict (attempt_id_to_dict a)), (''fragment_id'', PStr (dsc_fragment_id d)),
           (''context'', PDict (dsc_context d)), (''initial_splits'', PDict (splits_to_dict (dsc_initial_splits d))),
           (''no_more_splits'', sorted_strs (dsc_no_more_splits d)), (''resource_request'', PDict (dsc_resource_request d)),
           (''fragment_plan'', dsc_fragment_plan d),
           (''fragment_registration_result'', dsc_fragment_registration_result d),
           (''descriptor_version'', PInt (dsc_descriptor_version d)), (''worker_runtime'', PStr ''fte'')]
          @ (case dsc_output_buffers d of None \<Rightarrow> [] | Some b \<Rightarrow> [(''output_buffers'', PDict b)])
          @ (if dsc_dynamic_filter_domains d \<noteq> []
             then [(''dynamic_filter_domains'', PDict (dsc_dynamic_filter_domains d))] else [])
          @ (if dsc_source_node_ids d \<noteq> [] then [(''source_node_ids'', sorted_strs (dsc_source_node_ids d))] else [])
          @ (if dsc_dynamic_scan_source_node_ids d \<noteq> []
             then [(''dynamic_scan_source_node_ids'', sorted_strs (dsc_dynamic_scan_source_node_ids d))] else [])
          @ (if dsc_dynamic_exchange_source_node_ids d \<noteq> []
             then [(''dynamic_exchange_source_node_ids'', sorted_strs (dsc_dynamic_exchange_source_node_ids d))] else [])
          @ (if sink \<noteq> no_sink_instance then [(''exchange_sink_instance'', instance_value sink)] else [])))"

end
