(* ===== verification/Fte_Events.thy ===== *)
theory Fte_Events
  imports Fte_State Fte_Descriptor Py_Float
begin

text \<open>
  The records that describe attempts (\<open>src/duckdb/runners/fte/fte_attempts.py\<close>), and the events a query
  scheduler handles and the commands it sends to workers (\<open>src/duckdb/runners/fte/fte_events.py\<close>).

  A worker handle is an opaque object; the model knows it by its identity. Times are floats.
\<close>

section \<open>Attempts\<close>

type_synonym worker = nat

record ready_task =
  rdy_task_id :: fte_task_id
  rdy_reason :: string

record running_attempt =
  run_attempt_id :: fte_task_attempt_id
  run_worker_id :: "string option"
  run_remote_handle :: "worker option"
  run_sink_instance :: sink_instance
  run_started_at :: rat

record scheduled_attempt =
  sch_attempt_id :: fte_task_attempt_id
  sch_descriptor :: task_descriptor
  sch_request :: "(string, pyval) dict"
  sch_sink_instance :: sink_instance
  sch_worker_id :: "string option"

record execution_class_transition =
  tra_task_id :: fte_task_id
  tra_new_execution_class :: exec_class
  tra_running_attempts :: "running_attempt list"

record revoked_attempt =
  rev_attempt_id :: fte_task_attempt_id
  rev_worker_id :: "string option"
  rev_remote_handle :: "worker option"
  rev_retry_ready :: bool

record finished_attempt =
  fin_attempt_id :: fte_task_attempt_id
  fin_sink_instance :: sink_instance
  fin_output_stats :: pyval

section \<open>Worker commands\<close>

datatype worker_command =
    FteCreateTaskCommand (cmd_query_id: string) (cmd_fragment_id: string) (cmd_worker_id: "string option")
      (cmd_worker: "worker option") (cmd_attempt_id: fte_task_attempt_id)
      (cmd_partition_id: int) (cmd_request: "(string, pyval) dict")
  | FteAddSplitsCommand (cmd_query_id: string) (cmd_fragment_id: string) (cmd_worker_id: "string option")
      (cmd_worker: "worker option") (cmd_attempt_id: fte_task_attempt_id)
      (cmd_source_node_id: string) (cmd_splits: "(string, pyval) dict list")
  | FteNoMoreSplitsCommand (cmd_query_id: string) (cmd_fragment_id: string) (cmd_worker_id: "string option")
      (cmd_worker: "worker option") (cmd_attempt_id: fte_task_attempt_id)
      (cmd_source_node_id: string)
  | FteTaskUpdateCommand (cmd_query_id: string) (cmd_fragment_id: string) (cmd_worker_id: "string option")
      (cmd_worker: "worker option") (cmd_attempt_id: fte_task_attempt_id)
      (cmd_update: "(string, pyval) dict")

fun command_type :: "worker_command \<Rightarrow> string" where
  "command_type (FteCreateTaskCommand _ _ _ _ _ _ _) = ''FteCreateTaskCommand''"
| "command_type (FteAddSplitsCommand _ _ _ _ _ _ _) = ''FteAddSplitsCommand''"
| "command_type (FteNoMoreSplitsCommand _ _ _ _ _ _) = ''FteNoMoreSplitsCommand''"
| "command_type (FteTaskUpdateCommand _ _ _ _ _ _) = ''FteTaskUpdateCommand''"

record mutation_result =
  mut_scheduled_attempts :: "scheduled_attempt list"
  mut_worker_commands :: "worker_command list"

definition mutation_from_attempts ::
  "scheduled_attempt list \<Rightarrow> worker_command list option \<Rightarrow> mutation_result" where
  "mutation_from_attempts scheduled commands =
     \<lparr>mut_scheduled_attempts = scheduled,
      mut_worker_commands = (case commands of None \<Rightarrow> [] | Some cs \<Rightarrow> cs)\<rparr>"

definition mutation_len :: "mutation_result \<Rightarrow> int" where
  "mutation_len m = int (length (mut_scheduled_attempts m))"

text \<open>Indexing with an int: negative indices count from the end.\<close>

definition mutation_getitem :: "mutation_result \<Rightarrow> int \<Rightarrow> scheduled_attempt res" where
  "mutation_getitem m i =
     (let n = mutation_len m; j = (if i < 0 then i + n else i) in
      if 0 \<le> j \<and> j < n then Inr (mut_scheduled_attempts m ! nat j)
      else Inl (IndexError ''tuple index out of range''))"

section \<open>Scheduler events\<close>

datatype fte_event =
    SplitEventsSubmitted (event_query_id: string) "(string, pyval) dict list"
  | SourceInputExhausted (event_query_id: string) "string list"
  | TaskStatusChanged (event_query_id: string) fte_task_attempt_id "(string, pyval) dict"
  | WorkerFailed (event_query_id: string) string pyval "string list option"
  | MemoryPressureDetected (event_query_id: string) "int option"
  | ResourceAdmissionChanged (event_query_id: string) "string option" bool
  | WorkerReservationCompleted (event_query_id: string) int string int int "string option" pyval
  | RetryDelayExpired (event_query_id: string) int
  | ExchangeSelectorUpdated (event_query_id: string) string string "(string, pyval) dict"
  | QueryAbort (event_query_id: string) pyval

fun event_type :: "fte_event \<Rightarrow> string" where
  "event_type (SplitEventsSubmitted _ _) = ''SplitEventsSubmitted''"
| "event_type (SourceInputExhausted _ _) = ''SourceInputExhausted''"
| "event_type (TaskStatusChanged _ _ _) = ''TaskStatusChanged''"
| "event_type (WorkerFailed _ _ _ _) = ''WorkerFailed''"
| "event_type (MemoryPressureDetected _ _) = ''MemoryPressureDetected''"
| "event_type (ResourceAdmissionChanged _ _ _) = ''ResourceAdmissionChanged''"
| "event_type (WorkerReservationCompleted _ _ _ _ _ _ _) = ''WorkerReservationCompleted''"
| "event_type (RetryDelayExpired _ _) = ''RetryDelayExpired''"
| "event_type (ExchangeSelectorUpdated _ _ _ _) = ''ExchangeSelectorUpdated''"
| "event_type (QueryAbort _ _) = ''QueryAbort''"

definition from_events :: "string \<Rightarrow> (string, pyval) dict list \<Rightarrow> fte_event" where
  "from_events query_id events = SplitEventsSubmitted query_id events"

definition from_source_node_ids :: "string \<Rightarrow> pyval list \<Rightarrow> fte_event" where
  "from_source_node_ids query_id sources = SourceInputExhausted query_id (remdups (map py_str sources))"

definition from_status :: "string \<Rightarrow> fte_task_attempt_id ref \<Rightarrow> (string, pyval) dict \<Rightarrow> fte_event res" where
  "from_status query_id attempt_id status =
     bindE (attempt_id_coerce attempt_id) (\<lambda>a. Inr (TaskStatusChanged query_id a status))"

definition from_selector ::
  "string \<Rightarrow> string \<Rightarrow> string \<Rightarrow> (string, pyval) dict option \<Rightarrow> fte_event res" where
  "from_selector query_id consumer source selector =
     (case selector of
        None \<Rightarrow> Inl (ValueError ''FTE exchange selector update requires selector payload'')
      | Some payload \<Rightarrow> Inr (ExchangeSelectorUpdated query_id consumer source payload))"

end
