(* ===== verification/Descriptor_Updates.thy ===== *)
theory Descriptor_Updates
  imports Fte_Descriptor
begin

text \<open>
  What the operations on a task descriptor guarantee: splits are taken exactly once, an update can be
  delivered again, its wire form is lossless, and the request of an attempt carries the whole descriptor.
\<close>

section \<open>Deduplication of splits\<close>

text \<open>
  The invariant of a descriptor: per source the seen sequence ids are those of its splits, no two
  splits of a source have the same id, and every split is filed under its own source.
\<close>

definition descriptor_ok :: "task_descriptor \<Rightarrow> bool" where
  "descriptor_ok d =
     (\<forall>src. let splits = dict_get_default (dsc_initial_splits d) src [] in
        distinct (map sequence_id splits) \<and>
        set (dict_get_default (dsc_seen_sequences d) src []) = set (map sequence_id splits) \<and>
        (\<forall>s\<in>set splits. split_source_node_id s = src))"

lemma dict_get_default_set [simp]:
  "dict_get_default (dict_set k v d) k' x = (if k' = k then v else dict_get_default d k' x)"
  by (simp add: dict_get_default_def)

lemma dict_get_default_setdefault [simp]:
  "dict_get_default (dict_setdefault k v d) k' v = dict_get_default d k' v"
  by (auto simp: dict_setdefault_def dict_get_default_def dict_has_def)

lemma dict_has_setdefault [simp]: "dict_has (dict_setdefault k v d) k' = (k' = k \<or> dict_has d k')"
  by (auto simp: dict_setdefault_def)

lemma normalize_objects [simp]: "normalize_initial_splits [(src, Items (map Obj splits))] = Inr [(src, splits)]"
proof -
  have "mapE (split_of src) (map Obj splits) = Inr splits" by (induction splits) auto
  then show ?thesis by (simp add: normalize_initial_splits_def)
qed

text \<open>The splits of a list that a descriptor does not know yet: the first of each new sequence id.\<close>

fun novel :: "int set \<Rightarrow> fte_split list \<Rightarrow> fte_split list" where
  "novel seen [] = []"
| "novel seen (s # ss) = (if sequence_id s \<in> seen then novel seen ss else s # novel (insert (sequence_id s) seen) ss)"

lemma novel_properties:
  "subseq (novel seen ss) ss \<and> distinct (map sequence_id (novel seen ss)) \<and>
   set (map sequence_id (novel seen ss)) \<inter> seen = {} \<and>
   seen \<union> set (map sequence_id (novel seen ss)) = seen \<union> set (map sequence_id ss)"
proof (induction ss arbitrary: seen)
  case (Cons s ss)
  show ?case using Cons.IH [of seen] Cons.IH [of "insert (sequence_id s) seen"] by auto
qed simp

lemma novel_nothing: "set (map sequence_id ss) \<subseteq> seen \<Longrightarrow> novel seen ss = []"
  by (induction ss) auto

lemma set_novel: "set (novel seen ss) \<subseteq> set ss"
  by (induction ss arbitrary: seen) auto

text \<open>A descriptor after new splits of one source.\<close>

definition with_splits :: "string \<Rightarrow> fte_split list \<Rightarrow> task_descriptor \<Rightarrow> task_descriptor" where
  "with_splits src new d =
     (if new = [] then d
      else d\<lparr>dsc_seen_sequences := dict_set src
               (dict_get_default (dsc_seen_sequences d) src [] @ map sequence_id new) (dsc_seen_sequences d),
             dsc_initial_splits := dict_set src (dict_get_default (dsc_initial_splits d) src [] @ new) (dsc_initial_splits d)\<rparr>)"

lemma dict_set_twice [simp]: "dict_set k v (dict_set k w d) = dict_set k v d"
  by (induction d) auto

lemma with_splits_Cons:
  "with_splits src new (with_splits src [s] d) = with_splits src (s # new) d"
  by (cases new) (simp_all add: with_splits_def)

lemma append_one_simp:
  assumes "split_source_node_id s = src"
  shows "append_one src s (d, added) =
     (if sequence_id s \<in> set (dict_get_default (dsc_seen_sequences d) src []) then (Inr (), (d, added))
      else (Inr (), (with_splits src [s] d, added @ [s])))"
  using assms by (simp add: append_one_def with_splits_def set_add_def)

lemma with_splits_seen:
  "set (dict_get_default (dsc_seen_sequences (with_splits src new d)) src []) =
   set (dict_get_default (dsc_seen_sequences d) src []) \<union> set (map sequence_id new)"
  by (simp add: with_splits_def)

lemma append_loop:
  assumes "\<forall>s\<in>set ss. split_source_node_id s = src"
  shows "foldS (append_one src) ss (d, added) =
     (let new = novel (set (dict_get_default (dsc_seen_sequences d) src [])) ss in
      (Inr (), (with_splits src new d, added @ new)))"
  using assms
proof (induction ss arbitrary: d added)
  case Nil
  then show ?case by (simp add: with_splits_def)
next
  case (Cons s ss)
  then have s: "split_source_node_id s = src" and ss: "\<forall>s\<in>set ss. split_source_node_id s = src" by auto
  show ?case
    using Cons.IH [OF ss, of d added] Cons.IH [OF ss, of "with_splits src [s] d" "added @ [s]"] s
    by (simp add: bindS_def append_one_simp Let_def with_splits_seen with_splits_Cons)
qed

lemma append_splits_simp:
  assumes "src \<notin> set (dsc_no_more_splits d) \<or> splits = []" and "\<forall>s\<in>set splits. split_source_node_id s = src"
  shows "append_splits src (map Obj splits) d =
     (let new = novel (set (dict_get_default (dsc_seen_sequences d) src [])) splits in
      (Inr new, with_splits src new (append_start src splits d)))"
proof -
  have seen: "dict_get_default (dsc_seen_sequences (append_start src splits d)) src [] =
      dict_get_default (dsc_seen_sequences d) src []"
    by (simp add: append_start_def)
  show ?thesis
    using assms append_loop [OF assms(2), of "append_start src splits d" "[]"]
    by (auto simp: append_splits_def dict_get_default_def [of "[(src, splits)]"] Let_def seen)
qed

lemma append_splits_ok:
  assumes "descriptor_ok d" and "\<forall>s\<in>set splits. split_source_node_id s = src"
  shows "descriptor_ok (with_splits src (novel (set (dict_get_default (dsc_seen_sequences d) src [])) splits) (append_start src splits d))"
proof -
  let ?new = "novel (set (dict_get_default (dsc_seen_sequences d) src [])) splits"
  note n = novel_properties [of "set (dict_get_default (dsc_seen_sequences d) src [])" splits]
  have src: "\<forall>s\<in>set ?new. split_source_node_id s = src" using assms(2) set_novel by blast
  have start: "descriptor_ok (append_start src splits d)"
    using assms(1) by (simp add: descriptor_ok_def append_start_def)
  show ?thesis
  proof (cases "?new = []")
    case True
    then show ?thesis using start by (simp add: with_splits_def)
  next
    case False
    then show ?thesis
      using assms(1) n src by (auto simp: descriptor_ok_def with_splits_def append_start_def Let_def)
  qed
qed

lemma append_one_source: "append_one src s st = (Inr x, st') \<Longrightarrow> split_source_node_id s = src"
  by (cases "split_source_node_id s = src") (simp_all add: append_one_def split: prod.splits)

lemma append_loop_sources:
  "foldS (append_one src) ss st = (Inr (), st') \<Longrightarrow> \<forall>s\<in>set ss. split_source_node_id s = src"
proof (induction ss arbitrary: st)
  case (Cons s ss)
  then obtain x st1 where "append_one src s st = (Inr x, st1)" "foldS (append_one src) ss st1 = (Inr (), st')"
    unfolding foldS.simps bindS_eq_Inr by blast
  then show ?case using Cons.IH append_one_source by simp
qed simp

lemma append_splits_Inr:
  assumes "append_splits src (map Obj splits) d = (Inr added, d')"
  shows "src \<notin> set (dsc_no_more_splits d) \<or> splits = []" and "\<forall>s\<in>set splits. split_source_node_id s = src"
proof -
  show a: "src \<notin> set (dsc_no_more_splits d) \<or> splits = []"
    using assms by (cases "src \<in> set (dsc_no_more_splits d) \<and> splits \<noteq> []") (simp_all add: append_splits_def)
  obtain res d1 ad where f: "foldS (append_one src) splits (append_start src splits d, []) = (res, (d1, ad))"
    by (metis surj_pair)
  have "append_splits src (map Obj splits) d = (bindE res (\<lambda>_. Inr ad), d1)"
    using a f by (auto simp: append_splits_def dict_get_default_def)
  then have "res = Inr ()" using assms by (cases res) simp_all
  then show "\<forall>s\<in>set splits. split_source_node_id s = src" using f append_loop_sources by blast
qed

text \<open>Splits that are all known change nothing.\<close>

lemma append_splits_again:
  assumes "src \<notin> set (dsc_no_more_splits d) \<or> splits = []" and "\<forall>s\<in>set splits. split_source_node_id s = src"
    and "dict_has (dsc_initial_splits d) src" and "dict_has (dsc_seen_sequences d) src"
    and "set (map sequence_id splits) \<subseteq> set (dict_get_default (dsc_seen_sequences d) src [])"
    and "splits \<noteq> [] \<Longrightarrow> src \<in> set (dsc_source_node_ids d)"
  shows "append_splits src (map Obj splits) d = (Inr [], d)"
proof -
  have "append_start src splits d = d"
    using assms(3,4,6) by (auto simp: append_start_def dict_setdefault_def set_add_def)
  then show ?thesis
    using append_splits_simp [OF assms(1,2)] novel_nothing [OF assms(5)] by (simp add: with_splits_def)
qed

lemma append_start_fields [simp]:
  "dsc_no_more_splits (append_start src splits d) = dsc_no_more_splits d"
  "dict_get_default (dsc_initial_splits (append_start src splits d)) k [] = dict_get_default (dsc_initial_splits d) k []"
  "dict_get_default (dsc_seen_sequences (append_start src splits d)) k [] = dict_get_default (dsc_seen_sequences d) k []"
  by (simp_all add: append_start_def)

lemma with_splits_fields [simp]:
  "dsc_no_more_splits (with_splits src new d) = dsc_no_more_splits d"
  "dsc_source_node_ids (with_splits src new d) = dsc_source_node_ids d"
  "dict_get_default (dsc_initial_splits (with_splits src new d)) k [] =
     dict_get_default (dsc_initial_splits d) k [] @ (if k = src then new else [])"
  "set (dict_get_default (dsc_seen_sequences (with_splits src new d)) k []) =
     set (dict_get_default (dsc_seen_sequences d) k []) \<union> (if k = src then set (map sequence_id new) else {})"
  by (simp_all add: with_splits_def)

lemma with_splits_has:
  "dict_has (dsc_initial_splits d) k \<Longrightarrow> dict_has (dsc_initial_splits (with_splits src new d)) k"
  "dict_has (dsc_seen_sequences d) k \<Longrightarrow> dict_has (dsc_seen_sequences (with_splits src new d)) k"
  by (simp_all add: with_splits_def)

lemma append_start_has:
  "dict_has (dsc_initial_splits (append_start src splits d)) src" "dict_has (dsc_seen_sequences (append_start src splits d)) src"
  "splits \<noteq> [] \<Longrightarrow> src \<in> set (dsc_source_node_ids (append_start src splits d))"
  by (simp_all add: append_start_def)

text \<open>
  C24. Splits are taken exactly once. A successful \<open>append_splits\<close> returns, in their order, the splits
  with sequence ids the descriptor had not seen, one for each new id, and adds exactly these to the
  source; no other source changes, the bookkeeping of seen ids stays exact, and delivering the
  same splits again adds nothing and changes nothing.
\<close>

theorem append_splits_exactly_once:
  assumes "descriptor_ok d" and "append_splits src (map Obj splits) d = (Inr added, d')"
  shows "descriptor_ok d' \<and> subseq added splits \<and> distinct (map sequence_id added) \<and>
     (let known = set (dict_get_default (dsc_seen_sequences d) src []) in
        set (map sequence_id added) \<inter> known = {} \<and>
        known \<union> set (map sequence_id added) = known \<union> set (map sequence_id splits)) \<and>
     (\<forall>k. dict_get_default (dsc_initial_splits d') k [] =
        dict_get_default (dsc_initial_splits d) k [] @ (if k = src then added else [])) \<and>
     append_splits src (map Obj splits) d' = (Inr [], d')"
proof -
  note c = append_splits_Inr [OF assms(2)]
  let ?new = "novel (set (dict_get_default (dsc_seen_sequences d) src [])) splits"
  have added: "added = ?new" and d': "d' = with_splits src ?new (append_start src splits d)"
    using append_splits_simp [OF c] assms(2) by (simp_all add: Let_def)
  note n = novel_properties [of "set (dict_get_default (dsc_seen_sequences d) src [])" splits]
  have "set (map sequence_id splits) \<subseteq> set (dict_get_default (dsc_seen_sequences d') src [])"
    using n unfolding d' with_splits_fields append_start_fields by simp
  then have "append_splits src (map Obj splits) d' = (Inr [], d')"
    using c(1) unfolding d'
    by (intro append_splits_again [OF _ c(2)] with_splits_has append_start_has)
      (simp_all add: append_start_has)
  moreover have "descriptor_ok d'" unfolding d' by (rule append_splits_ok [OF assms(1) c(2)])
  moreover have "\<forall>k. dict_get_default (dsc_initial_splits d') k [] =
      dict_get_default (dsc_initial_splits d) k [] @ (if k = src then added else [])"
    unfolding d' added with_splits_fields append_start_fields by simp
  ultimately show ?thesis using n unfolding added Let_def by blast
qed

definition plain_split :: "string \<Rightarrow> int \<Rightarrow> fte_split" where
  "plain_split src n = \<lparr>split_source_node_id = src, sequence_id = n, split_kind = ''file'', split_data = PNone,
     source_partition_id = 0, size_bytes = None, addresses = [], remotely_accessible = True, split_catalog = None\<rparr>"

definition plain_descriptor :: "task_descriptor res" where
  "plain_descriptor = mk_descriptor (Obj (FteTaskId ''q'' 0 0)) ''f'' descriptor_defaults"

theorem append_splits_exactly_once_witness:
  "\<exists>d d'. plain_descriptor = Inr d \<and>
     append_splits ''scan'' (map Obj [plain_split ''scan'' 3, plain_split ''scan'' 3, plain_split ''scan'' 4]) d
       = (Inr [plain_split ''scan'' 3, plain_split ''scan'' 4], d') \<and>
     append_splits ''scan'' (map Obj [plain_split ''scan'' 3, plain_split ''scan'' 3, plain_split ''scan'' 4]) d' = (Inr [], d')"
proof -
  have "\<exists>d. plain_descriptor = Inr d \<and> dsc_initial_splits d = [] \<and> dsc_seen_sequences d = [] \<and> dsc_no_more_splits d = []"
    by (simp add: plain_descriptor_def mk_descriptor_def descriptor_defaults_def mapping_or_empty_def
        normalize_output_buffers_def normalize_initial_splits_def strip_def py_ws_def)
  then obtain d where d: "plain_descriptor = Inr d" "dsc_initial_splits d = []" "dsc_seen_sequences d = []" "dsc_no_more_splits d = []"
    by blast
  let ?splits = "[plain_split ''scan'' 3, plain_split ''scan'' 3, plain_split ''scan'' 4]"
  have ok: "descriptor_ok d" by (simp add: descriptor_ok_def d dict_get_default_def)
  have "\<exists>d'. append_splits ''scan'' (map Obj ?splits) d = (Inr [plain_split ''scan'' 3, plain_split ''scan'' 4], d')"
    using d by (subst append_splits_simp) (simp_all add: plain_split_def dict_get_default_def Let_def)
  then show ?thesis using append_splits_exactly_once [OF ok] d(1) by blast
qed

section \<open>Delivering an update again\<close>

lemma dict_set_same: "map_of d k = Some v \<Longrightarrow> dict_set k v d = d"
  by (induction d) (auto split: if_splits)

lemma dict_merge_absorb:
  "(\<And>k v. (k, v) \<in> set u \<Longrightarrow> map_of d k = Some v) \<Longrightarrow> dict_merge d u = d"
  unfolding dict_merge_def
proof (induction u)
  case (Cons kv u)
  obtain k v where kv: "kv = (k, v)" by fastforce
  then have "dict_set k v d = d" using Cons.prems by (intro dict_set_same) simp
  then show ?case using Cons by (simp add: kv)
qed simp

lemma dict_merge_idem:
  assumes "wf_dict u"
  shows "dict_merge (dict_merge d u) u = dict_merge d u"
proof (rule dict_merge_absorb)
  fix k v assume "(k, v) \<in> set u"
  then have "map_of u k = Some v" using assms by (simp add: wf_dict_get)
  then show "map_of (dict_merge d u) k = Some v" by (simp add: dict_get_merge [OF assms])
qed

lemma wf_pyval_merge:
  assumes "wf_pyval (PDict d)" and "wf_pyval (PDict u)"
  shows "wf_pyval (PDict (dict_merge d u))"
proof -
  have wf: "wf_dict d" "wf_dict u" using assms by simp_all
  have "wf_pyval v" if "(k, v) \<in> set (dict_merge d u)" for k v
  proof -
    have "map_of (dict_merge d u) k = Some v" using that wf by (simp add: wf_dict_get [symmetric])
    then have "map_of u k = Some v \<or> map_of d k = Some v" by (auto simp: dict_get_merge [OF wf(2)] split: option.splits)
    then show ?thesis using assms by (blast intro: wf_pyval_get)
  qed
  then show ?thesis using wf by (auto simp: wf_pyval_items_alt)
qed

lemma merge_changed_again:
  assumes "wf_pyval (PDict d)" and "wf_pyval (PDict u)"
  shows "merge_changed (fst (merge_changed d u)) u = (fst (merge_changed d u), False)"
proof (cases "u = [] \<or> py_eq (PDict (dict_merge d u)) (PDict d)")
  case True
  then show ?thesis by (auto simp: merge_changed_def Let_def)
next
  case False
  have "py_eq (PDict (dict_merge d u)) (PDict (dict_merge d u))"
    by (rule py_eq_refl [OF wf_pyval_merge [OF assms]])
  then show ?thesis using False assms(2) by (simp add: merge_changed_def Let_def dict_merge_idem del: py_eq.simps)
qed

lemma merge_changed_wf:
  "wf_pyval (PDict d) \<Longrightarrow> wf_pyval (PDict u) \<Longrightarrow> wf_pyval (PDict (fst (merge_changed d u)))"
  by (auto simp: merge_changed_def Let_def simp del: wf_pyval.simps intro: wf_pyval_merge)

lemma set_fold_set_add [simp]: "set (fold set_add xs ys) = set xs \<union> set ys"
  by (induction xs arbitrary: ys) auto

lemma union_changed_set [simp]: "set (fst (union_changed xs ys)) = set xs \<union> set ys"
  by (auto simp: union_changed_def)

lemma union_changed_again [simp]: "union_changed (fst (union_changed xs ys)) ys = (fst (union_changed xs ys), False)"
  by (auto simp: union_changed_def)

lemma union_changed_absorb: "set ys \<subseteq> set xs \<Longrightarrow> union_changed xs ys = (xs, False)"
  by (simp add: union_changed_def)

text \<open>An update that extends a source and closes it as well.\<close>

definition extends_and_closes :: "fte_task_update_request \<Rightarrow> bool" where
  "extends_and_closes r = list_ex (\<lambda>e. snd e \<noteq> [] \<and> fst e \<in> set (req_no_more_splits r)) (req_initial_splits r)"

text \<open>The payload dictionaries of an update have distinct keys.\<close>

definition update_wf :: "fte_task_update_request \<Rightarrow> bool" where
  "update_wf r =
     (wf_pyval (PDict (req_context r)) \<and> wf_pyval (PDict (req_resource_request r)) \<and>
      wf_pyval (PDict (req_dynamic_filter_domains r)) \<and> wf_pyval (opt_dict (req_output_buffers r)))"

text \<open>The payload dictionaries of a descriptor have distinct keys, and its output buffers are normalised.\<close>

definition payloads_ok :: "task_descriptor \<Rightarrow> bool" where
  "payloads_ok d =
     (wf_pyval (PDict (dsc_context d)) \<and> wf_pyval (PDict (dsc_resource_request d)) \<and>
      wf_pyval (PDict (dsc_dynamic_filter_domains d)) \<and>
      normalize_output_buffers (opt_dict (dsc_output_buffers d)) = Inr (dsc_output_buffers d))"

text \<open>
  Every stage of an update has nothing left to do on the descriptor. Splits of a source that is closed are refused all the
  same, and a fragment plan that is another object is stored again.
\<close>

definition entry_settled :: "task_descriptor \<Rightarrow> string \<times> fte_split list \<Rightarrow> bool" where
  "entry_settled d e =
     ((\<forall>s\<in>set (snd e). split_source_node_id s = fst e) \<and>
      dict_has (dsc_initial_splits d) (fst e) \<and> dict_has (dsc_seen_sequences d) (fst e) \<and>
      set (map sequence_id (snd e)) \<subseteq> set (dict_get_default (dsc_seen_sequences d) (fst e) []) \<and>
      (snd e \<noteq> [] \<longrightarrow> fst e \<in> set (dsc_source_node_ids d)))"

definition settled :: "fte_task_update_request \<Rightarrow> task_descriptor \<Rightarrow> bool" where
  "settled r d =
     (list_all (entry_settled d) (req_initial_splits r) \<and>
      set (req_no_more_splits r) \<subseteq> set (dsc_no_more_splits d) \<and>
      set (req_no_more_splits r) \<subseteq> set (dsc_source_node_ids d) \<and>
      merge_changed (dsc_context d) (req_context r) = (dsc_context d, False) \<and>
      merge_changed (dsc_resource_request d) (req_resource_request r) = (dsc_resource_request d, False) \<and>
      (req_fragment_plan_present r \<longrightarrow> dsc_fragment_plan d = req_fragment_plan r) \<and>
      (\<forall>u. req_output_buffers r = Some u \<longrightarrow>
         merge_output_buffers (opt_dict (dsc_output_buffers d)) (PDict u) = Inr (dsc_output_buffers d, False)) \<and>
      merge_changed (dsc_dynamic_filter_domains d) (req_dynamic_filter_domains r) = (dsc_dynamic_filter_domains d, False) \<and>
      set (req_source_node_ids r) \<subseteq> set (dsc_source_node_ids d) \<and>
      set (req_dynamic_scan_source_node_ids r) \<subseteq> set (dsc_dynamic_scan_source_node_ids d) \<and>
      set (req_dynamic_exchange_source_node_ids r) \<subseteq> set (dsc_dynamic_exchange_source_node_ids d))"

lemma entry_settled_again:
  assumes "entry_settled d e" and "snd e = [] \<or> fst e \<notin> set (dsc_no_more_splits d)"
  shows "apply_source_splits e (d, c) = (Inr (), (d, c))"
proof -
  have "append_splits (fst e) (map Obj (snd e)) d = (Inr [], d)"
    using assms unfolding entry_settled_def by (elim conjE) (rule append_splits_again; blast)
  then show ?thesis by (simp add: apply_source_splits_def)
qed

lemma entry_refused:
  assumes "snd e \<noteq> []" and "fst e \<in> set (dsc_no_more_splits d)"
  shows "apply_source_splits e (d, c) = (Inl (RuntimeError ''source is already marked no_more_splits''), (d, c))"
  using assms by (simp add: apply_source_splits_def append_splits_def)

definition closed_entry :: "task_descriptor \<Rightarrow> string \<times> fte_split list \<Rightarrow> bool" where
  "closed_entry d e = (snd e \<noteq> [] \<and> fst e \<in> set (dsc_no_more_splits d))"

lemma settled_entries:
  assumes "list_all (entry_settled d) es"
  shows "foldS apply_source_splits es (d, c) =
     (if list_ex (closed_entry d) es then Inl (RuntimeError ''source is already marked no_more_splits'') else Inr (), (d, c))"
  using assms
proof (induction es)
  case (Cons e es)
  show ?case
  proof (cases "closed_entry d e")
    case True
    then show ?thesis by (simp add: bindS_def closed_entry_def entry_refused)
  next
    case False
    then show ?thesis using Cons by (simp add: bindS_def closed_entry_def entry_settled_again)
  qed
qed simp

text \<open>The update brings a fragment plan that is not the object the descriptor has.\<close>

definition other_plan :: "(pyval \<Rightarrow> pyval \<Rightarrow> bool) \<Rightarrow> fte_task_update_request \<Rightarrow> bool" where
  "other_plan same r = (req_fragment_plan_present r \<and> \<not> same (req_fragment_plan r) (req_fragment_plan r))"

lemma settled_update:
  assumes "settled r d"
  shows "descriptor_apply_task_update same r d =
     (if list_ex (closed_entry d) (req_initial_splits r)
      then (Inl (RuntimeError ''source is already marked no_more_splits''), d)
      else (Inr (other_plan same r), d\<lparr>dsc_descriptor_version := dsc_descriptor_version d + of_bool (other_plan same r)\<rparr>))"
proof -
  note 1 = settled_entries [of d "req_initial_splits r" False]
  have "fold apply_no_more xs (d, False) = (d, False)" if "set xs \<subseteq> set (dsc_no_more_splits d)" "set xs \<subseteq> set (dsc_source_node_ids d)" for xs
    using that by (induction xs) (simp_all add: apply_no_more_def mark_no_more_splits_def set_add_def)
  then have 2: "fold apply_no_more (sort (req_no_more_splits r)) (d, False) = (d, False)"
    using assms by (simp add: settled_def)
  have 3: "apply_metadata same r (d, False) = (d, other_plan same r)"
  proof -
    have "d\<lparr>dsc_context := dsc_context d, dsc_resource_request := dsc_resource_request d, dsc_fragment_plan := dsc_fragment_plan d\<rparr> = d"
      by simp
    then show ?thesis using assms by (auto simp: apply_metadata_def settled_def other_plan_def Let_def)
  qed
  have 4: "apply_output_buffers r (d, c) = (Inr (), (d, c))" for c
    using assms by (cases "req_output_buffers r") (simp_all add: apply_output_buffers_def settled_def)
  have 5: "apply_domains_and_sources r (d, c) = (d, c)" for c
    using assms by (simp add: apply_domains_and_sources_def settled_def union_changed_absorb)
  show ?thesis using assms by (simp add: settled_def descriptor_apply_task_update_def bindS_def 1 2 3 4 5)
qed

text \<open>The stages only add to what the entries look at.\<close>

definition sources_grow :: "task_descriptor \<Rightarrow> task_descriptor \<Rightarrow> bool" where
  "sources_grow d d' =
     ((\<forall>k. dict_has (dsc_initial_splits d) k \<longrightarrow> dict_has (dsc_initial_splits d') k) \<and>
      (\<forall>k. dict_has (dsc_seen_sequences d) k \<longrightarrow> dict_has (dsc_seen_sequences d') k) \<and>
      (\<forall>k. set (dict_get_default (dsc_seen_sequences d) k []) \<subseteq> set (dict_get_default (dsc_seen_sequences d') k [])) \<and>
      set (dsc_source_node_ids d) \<subseteq> set (dsc_source_node_ids d'))"

lemma sources_grow_refl [simp]: "sources_grow d d"
  by (simp add: sources_grow_def)

lemma sources_grow_trans: "sources_grow a b \<Longrightarrow> sources_grow b c \<Longrightarrow> sources_grow a c"
  unfolding sources_grow_def by (metis subset_trans)

lemma entry_settled_grow:
  assumes "entry_settled d e" and "sources_grow d d'"
  shows "entry_settled d' e"
  using assms unfolding entry_settled_def sources_grow_def
  by (elim conjE, intro conjI) (blast intro: subset_trans)+

text \<open>The fields that the first stage leaves alone.\<close>

definition same_rest :: "task_descriptor \<Rightarrow> task_descriptor \<Rightarrow> bool" where
  "same_rest d d' =
     (dsc_context d' = dsc_context d \<and> dsc_resource_request d' = dsc_resource_request d \<and>
      dsc_fragment_plan d' = dsc_fragment_plan d \<and> dsc_output_buffers d' = dsc_output_buffers d \<and>
      dsc_dynamic_filter_domains d' = dsc_dynamic_filter_domains d \<and>
      dsc_descriptor_version d' = dsc_descriptor_version d)"

lemma apply_source_splits_grow:
  assumes "apply_source_splits e (d, c) = (Inr (), (d', c'))"
  shows "entry_settled d' e \<and> sources_grow d d' \<and> dsc_no_more_splits d' = dsc_no_more_splits d \<and> same_rest d d' \<and>
         \<not> closed_entry d e"
proof -
  obtain added where a: "append_splits (fst e) (map Obj (snd e)) d = (Inr added, d')"
    using assms by (auto simp: apply_source_splits_def split: prod.splits sum.splits)
  note c = append_splits_Inr [OF a]
  let ?new = "novel (set (dict_get_default (dsc_seen_sequences d) (fst e) [])) (snd e)"
  have d': "d' = with_splits (fst e) ?new (append_start (fst e) (snd e) d)"
    using append_splits_simp [OF c] a by (simp add: Let_def)
  have seqs: "set (map sequence_id (snd e)) \<subseteq> set (dict_get_default (dsc_seen_sequences d') (fst e) [])"
    using novel_properties [of "set (dict_get_default (dsc_seen_sequences d) (fst e) [])" "snd e"]
    unfolding d' with_splits_fields append_start_fields by simp
  have "entry_settled d' e"
    unfolding entry_settled_def using c seqs
    by (simp add: d' with_splits_has append_start_has)
  moreover have "sources_grow d d'"
    unfolding sources_grow_def d' with_splits_fields append_start_fields
    by (auto intro: with_splits_has simp: append_start_def)
  moreover have "same_rest d d'" by (simp add: same_rest_def d' with_splits_def append_start_def)
  ultimately show ?thesis using c by (auto simp: d' closed_entry_def)
qed

lemma apply_splits_loop:
  assumes "foldS apply_source_splits es (d, c) = (Inr (), (d', c'))"
  shows "list_all (entry_settled d') es \<and> sources_grow d d' \<and> dsc_no_more_splits d' = dsc_no_more_splits d \<and> same_rest d d' \<and>
         \<not> list_ex (closed_entry d) es"
  using assms
proof (induction es arbitrary: d c)
  case Nil
  then show ?case by (simp add: same_rest_def)
next
  case (Cons e es)
  obtain x d1 c1 where e: "apply_source_splits e (d, c) = (Inr x, (d1, c1))"
    and rest: "foldS apply_source_splits es (d1, c1) = (Inr (), (d', c'))"
    using Cons.prems unfolding foldS.simps bindS_eq_Inr by (metis surj_pair)
  have 1: "entry_settled d1 e" "sources_grow d d1" "dsc_no_more_splits d1 = dsc_no_more_splits d" "same_rest d d1"
    "\<not> closed_entry d e"
    using apply_source_splits_grow [of e d c d1 c1] e by simp_all
  have 2: "list_all (entry_settled d') es" "sources_grow d1 d'" "dsc_no_more_splits d' = dsc_no_more_splits d1" "same_rest d1 d'"
    "\<not> list_ex (closed_entry d1) es"
    using Cons.IH [OF rest] by blast+
  have "entry_settled d' e" by (rule entry_settled_grow [OF 1(1) 2(2)])
  moreover have "closed_entry d1 = closed_entry d" by (simp add: fun_eq_iff closed_entry_def 1(3))
  ultimately show ?case using 1 2 sources_grow_trans by (auto simp: same_rest_def)
qed

lemma apply_no_more_loop:
  assumes "fold apply_no_more xs (d, c) = (d', c')"
  shows "sources_grow d d' \<and> set (dsc_no_more_splits d') = set (dsc_no_more_splits d) \<union> set xs \<and>
         set xs \<subseteq> set (dsc_source_node_ids d') \<and> same_rest d d'"
  using assms
proof (induction xs arbitrary: d c)
  case Nil
  then show ?case by (simp add: same_rest_def)
next
  case (Cons x xs)
  obtain d1 c1 where x: "apply_no_more x (d, c) = (d1, c1)" by fastforce
  have 1: "sources_grow d d1" "set (dsc_no_more_splits d1) = insert x (set (dsc_no_more_splits d))"
    "x \<in> set (dsc_source_node_ids d1)" "same_rest d d1"
    using x by (auto simp: apply_no_more_def mark_no_more_splits_def sources_grow_def same_rest_def Let_def split: if_splits)
  have 2: "sources_grow d1 d'" "set (dsc_no_more_splits d') = set (dsc_no_more_splits d1) \<union> set xs"
    "set xs \<subseteq> set (dsc_source_node_ids d')" "same_rest d1 d'"
    using Cons.IH [of d1 c1] Cons.prems x by simp_all
  have "x \<in> set (dsc_source_node_ids d')" using 1(3) 2(1) by (auto simp: sources_grow_def)
  then show ?case using 1 2 sources_grow_trans by (auto simp: same_rest_def)
qed

lemma apply_metadata_fields:
  assumes "apply_metadata same r (d, c) = (d', c')" and "\<And>a b. same a b \<Longrightarrow> a = b"
  shows "dsc_context d' = fst (merge_changed (dsc_context d) (req_context r))"
    and "dsc_resource_request d' = fst (merge_changed (dsc_resource_request d) (req_resource_request r))"
    and "req_fragment_plan_present r \<Longrightarrow> dsc_fragment_plan d' = req_fragment_plan r"
    and "sources_grow d d' \<and> dsc_no_more_splits d' = dsc_no_more_splits d \<and> dsc_output_buffers d' = dsc_output_buffers d \<and>
         dsc_dynamic_filter_domains d' = dsc_dynamic_filter_domains d \<and> dsc_descriptor_version d' = dsc_descriptor_version d"
  using assms by (auto simp: apply_metadata_def sources_grow_def Let_def split: prod.splits if_splits)

lemma apply_output_buffers_fields:
  assumes "apply_output_buffers r (d, c) = (Inr (), (d', c'))"
    and "normalize_output_buffers (opt_dict (dsc_output_buffers d)) = Inr (dsc_output_buffers d)"
    and "wf_pyval (opt_dict (req_output_buffers r))"
  shows "\<forall>u. req_output_buffers r = Some u \<longrightarrow>
      merge_output_buffers (opt_dict (dsc_output_buffers d')) (PDict u) = Inr (dsc_output_buffers d', False)"
    and "\<exists>b. d' = d\<lparr>dsc_output_buffers := b\<rparr>"
proof -
  show "\<exists>b. d' = d\<lparr>dsc_output_buffers := b\<rparr>"
  proof
    show "d' = d\<lparr>dsc_output_buffers := dsc_output_buffers d'\<rparr>"
      using assms(1) by (auto simp: apply_output_buffers_def split: option.splits sum.splits if_splits)
  qed
  show "\<forall>u. req_output_buffers r = Some u \<longrightarrow>
      merge_output_buffers (opt_dict (dsc_output_buffers d')) (PDict u) = Inr (dsc_output_buffers d', False)"
  proof (intro allI impI)
    fix u assume u: "req_output_buffers r = Some u"
    then obtain b ch where m: "merge_output_buffers (opt_dict (dsc_output_buffers d)) (PDict u) = Inr (b, ch)"
      and d': "d' = (if ch then d\<lparr>dsc_output_buffers := b\<rparr> else d)"
      using assms(1) by (auto simp: apply_output_buffers_def split: sum.splits if_splits)
    have wf: "wf_pyval (PDict u)" using assms(3) u by (simp add: opt_dict_def)
    show "merge_output_buffers (opt_dict (dsc_output_buffers d')) (PDict u) = Inr (dsc_output_buffers d', False)"
    proof (cases "dsc_output_buffers d")
      case None
      then have "ch" using m by (auto simp: merge_output_buffers_def opt_dict_def normalize_output_buffers_def res_simps)
      moreover obtain x where x: "b = Some x"
        using m None by (auto simp: merge_output_buffers_def opt_dict_def normalize_output_buffers_def res_simps)
      ultimately show ?thesis using merge_again [OF wf m [unfolded x]] d' x by (simp add: opt_dict_def)
    next
      case (Some c0)
      have n: "normalize_output_buffers (opt_dict (dsc_output_buffers d)) = Inr (Some c0)" using assms(2) Some by simp
      from m n show ?thesis
      proof (cases rule: merge_output_buffers_current)
        case 1
        then show ?thesis using m d' Some by (simp add: opt_dict_def)
      next
        case (2 x v w)
        then show ?thesis using merge_again [OF wf m [unfolded 2(1)]] d' by (simp add: opt_dict_def)
      qed
    qed
  qed
qed

lemma apply_domains_fields:
  assumes "apply_domains_and_sources r (d, c) = (d', c')"
  shows "dsc_dynamic_filter_domains d' = fst (merge_changed (dsc_dynamic_filter_domains d) (req_dynamic_filter_domains r))"
    and "set (req_source_node_ids r) \<subseteq> set (dsc_source_node_ids d')"
    and "set (req_dynamic_scan_source_node_ids r) \<subseteq> set (dsc_dynamic_scan_source_node_ids d')"
    and "set (req_dynamic_exchange_source_node_ids r) \<subseteq> set (dsc_dynamic_exchange_source_node_ids d')"
    and "sources_grow d d' \<and> dsc_no_more_splits d' = dsc_no_more_splits d \<and> dsc_output_buffers d' = dsc_output_buffers d \<and>
         dsc_context d' = dsc_context d \<and> dsc_resource_request d' = dsc_resource_request d \<and>
         dsc_fragment_plan d' = dsc_fragment_plan d \<and> dsc_descriptor_version d' = dsc_descriptor_version d"
proof -
  obtain dm sr sc ex where d': "d' = d\<lparr>dsc_dynamic_filter_domains := fst dm, dsc_source_node_ids := fst sr,
      dsc_dynamic_scan_source_node_ids := fst sc, dsc_dynamic_exchange_source_node_ids := fst ex\<rparr>"
    and e: "dm = merge_changed (dsc_dynamic_filter_domains d) (req_dynamic_filter_domains r)"
    "sr = union_changed (dsc_source_node_ids d) (req_source_node_ids r)"
    "sc = union_changed (dsc_dynamic_scan_source_node_ids d) (req_dynamic_scan_source_node_ids r)"
    "ex = union_changed (dsc_dynamic_exchange_source_node_ids d) (req_dynamic_exchange_source_node_ids r)"
    using assms by (auto simp: apply_domains_and_sources_def split: prod.splits)
  show "dsc_dynamic_filter_domains d' = fst (merge_changed (dsc_dynamic_filter_domains d) (req_dynamic_filter_domains r))"
    "set (req_source_node_ids r) \<subseteq> set (dsc_source_node_ids d')"
    "set (req_dynamic_scan_source_node_ids r) \<subseteq> set (dsc_dynamic_scan_source_node_ids d')"
    "set (req_dynamic_exchange_source_node_ids r) \<subseteq> set (dsc_dynamic_exchange_source_node_ids d')"
    "sources_grow d d' \<and> dsc_no_more_splits d' = dsc_no_more_splits d \<and> dsc_output_buffers d' = dsc_output_buffers d \<and>
         dsc_context d' = dsc_context d \<and> dsc_resource_request d' = dsc_resource_request d \<and>
         dsc_fragment_plan d' = dsc_fragment_plan d \<and> dsc_descriptor_version d' = dsc_descriptor_version d"
    by (simp_all add: d' e sources_grow_def)
qed

lemma update_stages:
  assumes "descriptor_apply_task_update same r d = (Inr changed, d')"
  obtains d1 c1 d2 c2 d3 c3 d4 c4 d5 where
    "foldS apply_source_splits (req_initial_splits r) (d, False) = (Inr (), (d1, c1))"
    "fold apply_no_more (sort (req_no_more_splits r)) (d1, c1) = (d2, c2)"
    "apply_metadata same r (d2, c2) = (d3, c3)" "apply_output_buffers r (d3, c3) = (Inr (), (d4, c4))"
    "apply_domains_and_sources r (d4, c4) = (d5, changed)"
    "d' = (if changed then d5\<lparr>dsc_descriptor_version := dsc_descriptor_version d5 + 1\<rparr> else d5)"
proof -
  let ?op = "bindS (foldS apply_source_splits (req_initial_splits r)) (\<lambda>_.
        bindS (modS (fold apply_no_more (sort (req_no_more_splits r)))) (\<lambda>_.
        bindS (modS (apply_metadata same r)) (\<lambda>_.
        bindS (apply_output_buffers r) (\<lambda>_.
        bindS (modS (apply_domains_and_sources r)) (\<lambda>_.
        modS (\<lambda>(d, changed).
          (if changed then d\<lparr>dsc_descriptor_version := dsc_descriptor_version d + 1\<rparr> else d, changed)))))))"
  define out where "out = ?op (d, False)"
  have "descriptor_apply_task_update same r d = (bindE (fst out) (\<lambda>_. Inr (snd (snd out))), fst (snd out))"
    unfolding descriptor_apply_task_update_def out_def [symmetric] Let_def split_beta ..
  then have "bindE (fst out) (\<lambda>_. Inr (snd (snd out))) = Inr changed" "fst (snd out) = d'" using assms by simp_all
  then have "out = (Inr (), (d', changed))" by (cases out; cases "fst out") auto
  then have "?op (d, False) = (Inr (), (d', changed))" unfolding out_def .
  then obtain x1 s1 x4 s4 where s1: "foldS apply_source_splits (req_initial_splits r) (d, False) = (Inr x1, s1)"
    and s4: "apply_output_buffers r (apply_metadata same r (fold apply_no_more (sort (req_no_more_splits r)) s1)) = (Inr x4, s4)"
    and s5: "(case apply_domains_and_sources r s4 of (d, changed) \<Rightarrow>
       (if changed then d\<lparr>dsc_descriptor_version := dsc_descriptor_version d + 1\<rparr> else d, changed)) = (d', changed)"
    unfolding bindS_eq_Inr modS_simp prod.inject by blast
  obtain d1 c1 where e1: "s1 = (d1, c1)" by fastforce
  obtain d2 c2 where e2: "fold apply_no_more (sort (req_no_more_splits r)) (d1, c1) = (d2, c2)" by fastforce
  obtain d3 c3 where e3: "apply_metadata same r (d2, c2) = (d3, c3)" by fastforce
  obtain d4 c4 where e4: "s4 = (d4, c4)" by fastforce
  obtain d5 c5 where e5: "apply_domains_and_sources r (d4, c4) = (d5, c5)" by fastforce
  have "c5 = changed" "d' = (if changed then d5\<lparr>dsc_descriptor_version := dsc_descriptor_version d5 + 1\<rparr> else d5)"
    using s5 unfolding e4 e5 prod.case prod.inject by auto
  moreover have "x1 = ()" "x4 = ()" by simp_all
  ultimately show ?thesis
    using s1 s4 e1 e2 e3 e4 e5 by (intro that [of d1 c1 d2 c2 d3 c3 d4 c4 d5]) (simp_all only:)
qed

lemma update_settles:
  assumes "update_wf r" and "payloads_ok d" and "descriptor_apply_task_update same r d = (Inr changed, d')"
    and "\<And>a b. same a b \<Longrightarrow> a = b"
  shows "settled r d' \<and> dsc_descriptor_version d' = dsc_descriptor_version d + of_bool changed \<and>
         list_ex (closed_entry d') (req_initial_splits r) = extends_and_closes r"
proof (rule update_stages [OF assms(3)])
  fix d1 c1 d2 c2 d3 c3 d4 c4 d5
  assume s1: "foldS apply_source_splits (req_initial_splits r) (d, False) = (Inr (), (d1, c1))"
    and s2: "fold apply_no_more (sort (req_no_more_splits r)) (d1, c1) = (d2, c2)"
    and s3: "apply_metadata same r (d2, c2) = (d3, c3)" and s4: "apply_output_buffers r (d3, c3) = (Inr (), (d4, c4))"
    and s5: "apply_domains_and_sources r (d4, c4) = (d5, changed)"
    and d': "d' = (if changed then d5\<lparr>dsc_descriptor_version := dsc_descriptor_version d5 + 1\<rparr> else d5)"
  note f1 = apply_splits_loop [OF s1] and f2 = apply_no_more_loop [OF s2, unfolded set_sort] and f3 = apply_metadata_fields [OF s3 assms(4)]
    and f5 = apply_domains_fields [OF s5]
  have r: "wf_pyval (PDict (req_context r))" "wf_pyval (PDict (req_resource_request r))"
      "wf_pyval (PDict (req_dynamic_filter_domains r))" "wf_pyval (opt_dict (req_output_buffers r))"
    using assms(1) unfolding update_wf_def by blast+
  have d: "wf_pyval (PDict (dsc_context d))" "wf_pyval (PDict (dsc_resource_request d))"
      "wf_pyval (PDict (dsc_dynamic_filter_domains d))"
      "normalize_output_buffers (opt_dict (dsc_output_buffers d)) = Inr (dsc_output_buffers d)"
    using assms(2) unfolding payloads_ok_def by blast+
  have same: "same_rest d d2" using f1 f2 by (simp add: same_rest_def)
  have "normalize_output_buffers (opt_dict (dsc_output_buffers d3)) = Inr (dsc_output_buffers d3)"
    using d(4) same f3(4) by (simp add: same_rest_def)
  note f4 = apply_output_buffers_fields [OF s4 this r(4)]
  obtain b where d4: "d4 = d3\<lparr>dsc_output_buffers := b\<rparr>" using f4(2) by blast
  have grow: "sources_grow d1 d5" "sources_grow d2 d5"
  proof -
    have "sources_grow d3 d4" by (simp add: d4 sources_grow_def)
    then show "sources_grow d2 d5" using f3(4) f5(5) sources_grow_trans by blast
    then show "sources_grow d1 d5" using f2 sources_grow_trans by blast
  qed
  have nm: "set (dsc_no_more_splits d5) = set (dsc_no_more_splits d1) \<union> set (req_no_more_splits r)"
    using f2 f3(4) f5(5) by (simp add: d4)
  have "settled r d5"
    unfolding settled_def
  proof (intro conjI)
    show "list_all (entry_settled d5) (req_initial_splits r)"
      unfolding list_all_iff
    proof
      fix e assume e: "e \<in> set (req_initial_splits r)"
      then have "entry_settled d1 e" using f1 by (simp add: list_all_iff)
      then show "entry_settled d5 e" by (rule entry_settled_grow [OF _ grow(1)])
    qed
    show "set (req_no_more_splits r) \<subseteq> set (dsc_no_more_splits d5)" using nm by simp
    show "set (req_no_more_splits r) \<subseteq> set (dsc_source_node_ids d5)"
      using f2 grow(2) unfolding sources_grow_def by blast
    show "merge_changed (dsc_context d5) (req_context r) = (dsc_context d5, False)"
      using f5(5) f3(1) same merge_changed_again [OF d(1) r(1)] by (simp add: d4 same_rest_def)
    show "merge_changed (dsc_resource_request d5) (req_resource_request r) = (dsc_resource_request d5, False)"
      using f5(5) f3(2) same merge_changed_again [OF d(2) r(2)] by (simp add: d4 same_rest_def)
    show "req_fragment_plan_present r \<longrightarrow> dsc_fragment_plan d5 = req_fragment_plan r"
      using f5(5) f3(3) by (simp add: d4)
    show "\<forall>u. req_output_buffers r = Some u \<longrightarrow>
         merge_output_buffers (opt_dict (dsc_output_buffers d5)) (PDict u) = Inr (dsc_output_buffers d5, False)"
      using f4(1) f5(5) by simp
    show "merge_changed (dsc_dynamic_filter_domains d5) (req_dynamic_filter_domains r) = (dsc_dynamic_filter_domains d5, False)"
      using f5(1) f3(4) same merge_changed_again [OF d(3) r(3)] by (simp add: d4 same_rest_def)
  qed (use f5 in blast)+
  then have "settled r d'" by (simp add: d' settled_def list_all_iff entry_settled_def)
  moreover have "list_ex (closed_entry d') (req_initial_splits r) = extends_and_closes r"
  proof -
    have "set (dsc_no_more_splits d') = set (dsc_no_more_splits d) \<union> set (req_no_more_splits r)"
      using nm f1 by (simp add: d')
    then show ?thesis using f1 by (auto simp: list_ex_iff extends_and_closes_def closed_entry_def)
  qed
  moreover have "dsc_descriptor_version d5 = dsc_descriptor_version d"
    using f5(5) f3(4) same by (simp add: d4 same_rest_def)
  ultimately show ?thesis by (simp add: d')
qed

text \<open>
  C25. What a second delivery of a successful task update does. The descriptor version has grown by one if the first delivery
  changed anything and not at all otherwise. If the update closes no source that it also extends, the second delivery leaves every
  field as it is and reports no change, and the version stays, unless the update brings a fragment plan that is another object than the one
  stored: the plan is compared with \<open>is\<close>, so an equal copy counts as a change. If the update extends a source
  and closes it too, the second delivery raises, since the source is closed by then, and the descriptor stays as it is. The
  payload dictionaries have distinct keys, and objects that are the same are equal.
\<close>

theorem descriptor_update_idempotent:
  assumes "update_wf r" and "payloads_ok d" and "\<And>a b. same a b \<Longrightarrow> a = b"
    and "descriptor_apply_task_update same r d = (Inr changed, d')"
  shows "dsc_descriptor_version d' = dsc_descriptor_version d + of_bool changed \<and>
         descriptor_apply_task_update same' r d' =
           (if list_ex (\<lambda>(source, splits). splits \<noteq> [] \<and> source \<in> set (req_no_more_splits r)) (req_initial_splits r)
            then (Inl (RuntimeError ''source is already marked no_more_splits''), d')
            else if req_fragment_plan_present r \<and> \<not> same' (req_fragment_plan r) (req_fragment_plan r)
            then (Inr True, d'\<lparr>dsc_descriptor_version := dsc_descriptor_version d' + 1\<rparr>)
            else (Inr False, d'))"
proof -
  have "list_ex (\<lambda>(source, splits). splits \<noteq> [] \<and> source \<in> set (req_no_more_splits r)) (req_initial_splits r) = extends_and_closes r"
    by (simp add: extends_and_closes_def case_prod_unfold)
  then show ?thesis using update_settles [OF assms(1,2,4,3)] settled_update [of r d' same'] by (auto simp: other_plan_def)
qed

definition sample_request :: fte_task_update_request where
  "sample_request =
     \<lparr>req_initial_splits = [(''scan'', [plain_split ''scan'' 0, plain_split ''scan'' 1])],
      req_no_more_splits = [''dim''], req_output_buffers = Some [(''version'', PInt 1)],
      req_dynamic_filter_domains = [], req_context = [(''k'', PInt 7)], req_resource_request = [],
      req_fragment_plan = PNone, req_fragment_plan_present = False, req_source_node_ids = [],
      req_dynamic_scan_source_node_ids = [''scan''], req_dynamic_exchange_source_node_ids = []\<rparr>"

definition closing_request :: fte_task_update_request where
  "closing_request = sample_request\<lparr>req_no_more_splits := [''scan'']\<rparr>"

theorem descriptor_update_idempotent_witness:
  "\<exists>d d' d''. plain_descriptor = Inr d \<and> descriptor_apply_task_update (=) sample_request d = (Inr True, d') \<and>
     descriptor_apply_task_update (=) sample_request d' = (Inr False, d') \<and>
     dsc_descriptor_version d' = dsc_descriptor_version d + 1 \<and>
     descriptor_apply_task_update (=) closing_request d = (Inr True, d'') \<and>
     descriptor_apply_task_update (=) closing_request d'' = (Inl (RuntimeError ''source is already marked no_more_splits''), d'')"
proof -
  have "case plain_descriptor of Inl _ \<Rightarrow> False
     | Inr d \<Rightarrow> fst (descriptor_apply_task_update (=) sample_request d) = Inr True \<and>
         fst (descriptor_apply_task_update (=) closing_request d) = Inr True \<and> dsc_context d = [] \<and>
         dsc_resource_request d = [] \<and> dsc_dynamic_filter_domains d = [] \<and> dsc_output_buffers d = None"
    by code_simp
  then obtain d where d: "plain_descriptor = Inr d" and f: "fst (descriptor_apply_task_update (=) sample_request d) = Inr True"
    "fst (descriptor_apply_task_update (=) closing_request d) = Inr True"
    and e: "dsc_context d = []" "dsc_resource_request d = []" "dsc_dynamic_filter_domains d = []" "dsc_output_buffers d = None"
    by (auto split: sum.splits)
  have ok: "payloads_ok d" by (simp add: payloads_ok_def e opt_dict_def normalize_output_buffers_def)
  have wf: "update_wf sample_request" "update_wf closing_request"
    by (simp_all add: update_wf_def closing_request_def sample_request_def opt_dict_def wf_dict_def)
  obtain d' d'' where d': "descriptor_apply_task_update (=) sample_request d = (Inr True, d')"
    and d'': "descriptor_apply_task_update (=) closing_request d = (Inr True, d'')" using f by (metis prod.collapse)
  have "descriptor_apply_task_update (=) sample_request d' = (Inr False, d') \<and> dsc_descriptor_version d' = dsc_descriptor_version d + 1"
    using descriptor_update_idempotent [OF wf(1) ok _ d', of "(=)"] by (simp add: sample_request_def)
  moreover have "descriptor_apply_task_update (=) closing_request d'' = (Inl (RuntimeError ''source is already marked no_more_splits''), d'')"
    using descriptor_update_idempotent [OF wf(2) ok _ d'', of "(=)"] by (simp add: closing_request_def sample_request_def plain_split_def)
  ultimately show ?thesis using d d' d'' by blast
qed

section \<open>Wire forms\<close>

lemma map_of_if: "map_of (if c then [(k', v)] else []) k = (if c \<and> k = k' then Some v else None)"
  by simp

lemma mapE_map: "mapE f (map g xs) = mapE (f \<circ> g) xs"
  by (induction xs) simp_all

lemma map_of_opt: "map_of (case x of None \<Rightarrow> [] | Some v \<Rightarrow> [(k', f v)]) k = (if k = k' then map_option f x else None)"
  by (cases x) simp_all

lemma mapping_or_empty_PDict [simp]: "mapping_or_empty (PDict d) = Inr d"
  by (simp add: mapping_or_empty_def)

lemma mapping_or_empty_PNone [simp]: "mapping_or_empty PNone = Inr []"
  by (simp add: mapping_or_empty_def)

lemma source_set_PNone [simp]: "source_set PNone = Inr []"
  by (simp add: source_set_def iter_or_empty_def normalize_sources_def)

lemma source_set_strs:
  assumes "distinct xs"
  shows "source_set (if xs \<noteq> [] then PList (map PStr xs) else PNone) = Inr xs" "source_set (PSet (map PStr xs)) = Inr xs"
  using assms by (simp_all add: source_set_def iter_or_empty_def normalize_sources_def distinct_remdups_id)

definition splits_valid :: "(string, fte_split list) dict \<Rightarrow> bool" where
  "splits_valid m = (wf_dict m \<and> (\<forall>(src, splits)\<in>set m. \<forall>s\<in>set splits. valid_split s))"

lemma normalize_printed_splits:
  assumes "splits_valid m"
  shows "normalize_initial_splits (map (\<lambda>(k, v). (k, Payload v)) (splits_to_dict m)) = Inr m"
proof -
  have "normalize_initial_splits (map (\<lambda>(k, v). (k, Payload v)) (splits_to_dict m)) = Inr (map id m)"
    unfolding normalize_initial_splits_def splits_to_dict_def map_map
    unfolding mapE_map
  proof (rule mapE_total)
    fix e assume e: "e \<in> set m"
    obtain src splits where es: "e = (src, splits)" by fastforce
    have valid: "valid_split s" if "s \<in> set splits" for s
      using assms e that unfolding splits_valid_def es by blast
    have "mapE (split_of src) (map (\<lambda>s. Raw (PDict (split_to_dict s))) splits) = Inr (map id splits)"
      unfolding mapE_map by (rule mapE_total) (simp add: split_from_to_dict valid)
    then show "((\<lambda>(src, items). bindE (items_of items) (\<lambda>xs. bindE (mapE (split_of src) xs) (\<lambda>splits. Inr (src, splits)))) \<circ>
        ((\<lambda>(k, v). (k, Payload v)) \<circ> (\<lambda>(src, splits). (src, PList (map (\<lambda>s. PDict (split_to_dict s)) splits))))) e = Inr (id e)"
      by (simp add: es comp_def)
  qed
  then show ?thesis by simp
qed

definition request_ok :: "fte_task_update_request \<Rightarrow> bool" where
  "request_ok r =
     (splits_valid (req_initial_splits r) \<and> distinct (req_no_more_splits r) \<and>
      normalize_output_buffers (opt_dict (req_output_buffers r)) = Inr (req_output_buffers r) \<and>
      (req_fragment_plan_present r \<or> req_fragment_plan r = PNone) \<and> distinct (req_source_node_ids r) \<and>
      distinct (req_dynamic_scan_source_node_ids r) \<and> distinct (req_dynamic_exchange_source_node_ids r))"

text \<open>The same request with its sets listed in sorted order.\<close>

definition canonical :: "fte_task_update_request \<Rightarrow> fte_task_update_request" where
  "canonical r =
     r\<lparr>req_no_more_splits := sort (req_no_more_splits r), req_source_node_ids := sort (req_source_node_ids r),
       req_dynamic_scan_source_node_ids := sort (req_dynamic_scan_source_node_ids r),
       req_dynamic_exchange_source_node_ids := sort (req_dynamic_exchange_source_node_ids r)\<rparr>"

lemma printed_get:
  "dict_get (task_update_to_dict r) ''initial_splits'' =
     (if req_initial_splits r \<noteq> [] then Some (PDict (splits_to_dict (req_initial_splits r))) else None)"
  "dict_get (task_update_to_dict r) ''no_more_splits'' =
     (if req_no_more_splits r \<noteq> [] then Some (sorted_strs (req_no_more_splits r)) else None)"
  "dict_get (task_update_to_dict r) ''output_buffers'' = map_option PDict (req_output_buffers r)"
  "dict_get (task_update_to_dict r) ''dynamic_filter_domains'' =
     (if req_dynamic_filter_domains r \<noteq> [] then Some (PDict (req_dynamic_filter_domains r)) else None)"
  "dict_get (task_update_to_dict r) ''context'' = (if req_context r \<noteq> [] then Some (PDict (req_context r)) else None)"
  "dict_get (task_update_to_dict r) ''resource_request'' =
     (if req_resource_request r \<noteq> [] then Some (PDict (req_resource_request r)) else None)"
  "dict_get (task_update_to_dict r) ''fragment_plan'' =
     (if req_fragment_plan_present r then Some (req_fragment_plan r) else None)"
  "dict_get (task_update_to_dict r) ''source_node_ids'' =
     (if req_source_node_ids r \<noteq> [] then Some (sorted_strs (req_source_node_ids r)) else None)"
  "dict_get (task_update_to_dict r) ''dynamic_scan_source_node_ids'' =
     (if req_dynamic_scan_source_node_ids r \<noteq> [] then Some (sorted_strs (req_dynamic_scan_source_node_ids r)) else None)"
  "dict_get (task_update_to_dict r) ''dynamic_exchange_source_node_ids'' =
     (if req_dynamic_exchange_source_node_ids r \<noteq> [] then Some (sorted_strs (req_dynamic_exchange_source_node_ids r)) else None)"
  unfolding task_update_to_dict_def map_of_append map_add_def map_of_if map_of_opt
  by (simp_all split: if_split option.split)

lemma printed_get_absent:
  "dict_get (task_update_to_dict r) ''split_assignments'' = None"
  "dict_get (task_update_to_dict r) ''outputIds'' = None"
  "dict_get (task_update_to_dict r) ''output_buffer_update'' = None"
  "dict_get (task_update_to_dict r) ''dynamicFilterDomains'' = None"
  "dict_get (task_update_to_dict r) ''dynamic_filters'' = None"
  unfolding task_update_to_dict_def map_of_append map_add_def map_of_if map_of_opt
  by simp_all

lemma printed_source_set:
  assumes "distinct xs"
  shows "source_set (case if xs \<noteq> [] then Some (sorted_strs xs) else None of None \<Rightarrow> PNone | Some v \<Rightarrow> v) = Inr (sort xs)"
proof -
  have "sort xs = [] \<longleftrightarrow> xs = []" by (metis length_0_conv length_sort)
  then show ?thesis using source_set_strs(1) [of "sort xs"] assms by (auto simp: sorted_strs_def split: if_splits)
qed

lemma printed_mapping:
  "mapping_or_empty (case if d \<noteq> [] then Some (PDict d) else None of None \<Rightarrow> PNone | Some v \<Rightarrow> v) = Inr d"
  by simp

lemma printed_splits_shared:
  assumes "wf_dict m"
  shows "map (\<lambda>(k, v). (k, dict_get_default (splits_to_dict m) k v)) (splits_to_dict m) = splits_to_dict m"
proof -
  have "wf_dict (splits_to_dict m)" using assms by (simp add: wf_dict_def splits_to_dict_def comp_def split_beta)
  then have "map_of (splits_to_dict m) k = Some v" if "(k, v) \<in> set (splits_to_dict m)" for k v
    using that by (simp add: wf_dict_get)
  then show ?thesis by (intro map_idI) (auto simp: dict_get_default_def)
qed

lemma task_update_from_to_dict:
  assumes "request_ok r"
  shows "task_update_from_dict (task_update_to_dict r) = (Inr (canonical r), task_update_to_dict r)"
proof -
  let ?d = "task_update_to_dict r"
  have ok: "splits_valid (req_initial_splits r)" "distinct (req_no_more_splits r)"
    "normalize_output_buffers (opt_dict (req_output_buffers r)) = Inr (req_output_buffers r)"
    "req_fragment_plan_present r \<or> req_fragment_plan r = PNone" "distinct (req_source_node_ids r)"
    "distinct (req_dynamic_scan_source_node_ids r)" "distinct (req_dynamic_exchange_source_node_ids r)"
    using assms unfolding request_ok_def by blast+
  have wf: "wf_dict (req_initial_splits r)" using ok(1) by (simp add: splits_valid_def)
  have init: "mapping_or_empty (dict_get_default ?d ''initial_splits'' PNone) = Inr (splits_to_dict (req_initial_splits r))"
    by (simp add: dict_get_default_def printed_get splits_to_dict_def)
  have asgs: "iter_or_empty (dict_get_default ?d ''split_assignments'' PNone) = Inr []"
    by (simp add: dict_get_default_def printed_get_absent iter_or_empty_def)
  have buffers: "(case first_key ?d [''output_buffers'', ''outputIds'', ''output_buffer_update''] of
        None \<Rightarrow> Inr None | Some v \<Rightarrow> normalize_output_buffers (if py_truthy v then v else PDict [])) = Inr (req_output_buffers r)"
    using ok(3) by (cases "req_output_buffers r") (auto simp: first_key_def dict_has_def printed_get printed_get_absent opt_dict_def)
  have domains: "(case first_key ?d [''dynamic_filter_domains'', ''dynamicFilterDomains'', ''dynamic_filters''] of
        None \<Rightarrow> Inr [] | Some v \<Rightarrow> mapping_or_empty v) = Inr (req_dynamic_filter_domains r)"
    by (simp add: first_key_def dict_has_def printed_get printed_get_absent)
  have shared: "share_extended (splits_to_dict (req_initial_splits r)) ?d = ?d"
  proof (cases "req_initial_splits r = []")
    case True
    then show ?thesis by (simp add: share_extended_def printed_get)
  next
    case False
    then have g: "dict_get ?d ''initial_splits'' = Some (PDict (splits_to_dict (req_initial_splits r)))" by (simp add: printed_get)
    then show ?thesis unfolding share_extended_def g by (simp add: printed_splits_shared [OF wf] dict_set_same [OF g])
  qed
  have get: "source_set (dict_get_default ?d ''no_more_splits'' PNone) = Inr (sort (req_no_more_splits r))"
    "mapping_or_empty (dict_get_default ?d ''context'' PNone) = Inr (req_context r)"
    "mapping_or_empty (dict_get_default ?d ''resource_request'' PNone) = Inr (req_resource_request r)"
    "source_set (dict_get_default ?d ''source_node_ids'' PNone) = Inr (sort (req_source_node_ids r))"
    "source_set (dict_get_default ?d ''dynamic_scan_source_node_ids'' PNone) = Inr (sort (req_dynamic_scan_source_node_ids r))"
    "source_set (dict_get_default ?d ''dynamic_exchange_source_node_ids'' PNone) = Inr (sort (req_dynamic_exchange_source_node_ids r))"
    unfolding dict_get_default_def printed_get
    by (rule printed_source_set printed_mapping ok)+
  have plan: "dict_get_default ?d ''fragment_plan'' PNone = req_fragment_plan r"
    "dict_has ?d ''fragment_plan'' = req_fragment_plan_present r"
    using ok(4) by (auto simp: dict_get_default_def dict_has_def printed_get)
  have nm: "source_set (PSet (map PStr (sort (req_no_more_splits r)))) = Inr (sort (req_no_more_splits r))"
    by (rule source_set_strs(2)) (simp add: ok(2))
  have "mk_task_update_request (map (\<lambda>(k, v). (k, Payload v)) (splits_to_dict (req_initial_splits r)))
      (PSet (map PStr (sort (req_no_more_splits r)))) (opt_dict (req_output_buffers r)) (PDict (req_dynamic_filter_domains r))
      (dict_get_default ?d ''context'' PNone) (dict_get_default ?d ''resource_request'' PNone) (req_fragment_plan r)
      (req_fragment_plan_present r) (dict_get_default ?d ''source_node_ids'' PNone)
      (dict_get_default ?d ''dynamic_scan_source_node_ids'' PNone) (dict_get_default ?d ''dynamic_exchange_source_node_ids'' PNone)
      = Inr (canonical r)"
    using ok(4) unfolding mk_task_update_request_def normalize_printed_splits [OF ok(1)] nm ok(3) get
    by (auto simp: canonical_def)
  then show ?thesis
    unfolding task_update_from_dict_def Let_def init get(1) asgs
    by (simp add: buffers domains plan shared)
qed

text \<open>
  C34. The wire form of an update is lossless: reading back the dictionary printed for a request gives
  the request, its sets in sorted order, and leaves the dictionary as it was.
\<close>

theorem task_update_dict_roundtrip:
  assumes "request_ok r"
  shows "task_update_coerce (Raw (PDict (task_update_to_dict r))) =
         (Inr (canonical r), Raw (PDict (task_update_to_dict r)))"
  using task_update_from_to_dict [OF assms] by (auto simp: task_update_coerce_def)

theorem task_update_dict_roundtrip_witness:
  "task_update_coerce (Raw (PDict (task_update_to_dict sample_request))) =
   (Inr (canonical sample_request), Raw (PDict (task_update_to_dict sample_request)))"
proof (rule task_update_dict_roundtrip)
  have "normalize_output_buffers (PDict [(''version'', PInt 1)]) = Inr (Some [(''version'', PInt 1)])" by code_simp
  then show "request_ok sample_request"
    by (simp add: request_ok_def sample_request_def splits_valid_def wf_dict_def valid_split_def plain_split_def
        strip_def py_ws_def opt_dict_def)
qed

lemma create_request_get:
  assumes "to_create_task_request d n inst = Inr req"
  shows "dict_get req ''task_id'' = Some (PDict (attempt_id_to_dict (FteTaskAttemptId (dsc_task_id d) n)))"
    and "dict_get req ''initial_splits'' = Some (PDict (splits_to_dict (dsc_initial_splits d)))"
    and "dict_get req ''no_more_splits'' = Some (sorted_strs (dsc_no_more_splits d))"
    and "dict_get req ''descriptor_version'' = Some (PInt (dsc_descriptor_version d))"
  using assms
  by (auto simp: to_create_task_request_def bindE_eq_Inr mk_attempt_id_Inr Let_def simp del: attempt_id_to_dict.simps)

text \<open>
  An attempt starts with everything the descriptor holds: the create request names the attempt,
  and what a worker reads from it are exactly the splits per source and the closed sources of the
  descriptor at that moment.
\<close>

theorem create_request_carries_descriptor:
  assumes "valid_task_id (dsc_task_id d)" and "0 \<le> n" and "splits_valid (dsc_initial_splits d)"
    and "distinct (dsc_no_more_splits d)"
  shows "\<exists>req t m v. to_create_task_request d n inst = Inr req \<and>
     dict_get req ''task_id'' = Some (PDict t) \<and> attempt_id_from_dict t = Inr (FteTaskAttemptId (dsc_task_id d) n) \<and>
     dict_get req ''initial_splits'' = Some (PDict m) \<and>
     normalize_initial_splits (map (\<lambda>(k, v). (k, Payload v)) m) = Inr (dsc_initial_splits d) \<and>
     dict_get req ''no_more_splits'' = Some v \<and> source_set v = Inr (sort (dsc_no_more_splits d)) \<and>
     dict_get req ''descriptor_version'' = Some (PInt (dsc_descriptor_version d))"
proof -
  let ?a = "FteTaskAttemptId (dsc_task_id d) n"
  have mk: "mk_attempt_id (dsc_task_id d) n = Inr ?a" using assms(2) by (simp add: mk_attempt_id_def)
  have "source_set (sorted_strs (dsc_no_more_splits d)) = Inr (sort (dsc_no_more_splits d))"
    using assms(4) by (simp add: source_set_def iter_or_empty_def sorted_strs_def normalize_sources_def distinct_remdups_id)
  moreover have "attempt_id_from_dict (attempt_id_to_dict ?a) = Inr ?a"
    using assms(1,2) by (intro attempt_id_from_to_dict) simp
  moreover obtain req where "to_create_task_request d n inst = Inr req"
    by (simp add: to_create_task_request_def mk Let_def)
  ultimately show ?thesis using create_request_get [of d n inst] normalize_printed_splits [OF assms(3)] by blast
qed

theorem create_request_carries_descriptor_witness:
  "\<exists>d d' added req. plain_descriptor = Inr d \<and>
     append_splits ''scan'' (map Obj [plain_split ''scan'' 3]) d = (Inr added, d') \<and>
     to_create_task_request d' 1 no_sink_instance = Inr req \<and>
     (\<exists>m. dict_get req ''initial_splits'' = Some (PDict m) \<and>
          normalize_initial_splits (map (\<lambda>(k, v). (k, Payload v)) m) = Inr [(''scan'', [plain_split ''scan'' 3])])"
proof -
  have "case plain_descriptor of Inl _ \<Rightarrow> False
     | Inr d \<Rightarrow> (case append_splits ''scan'' (map Obj [plain_split ''scan'' 3]) d of
          (Inl _, _) \<Rightarrow> False
        | (Inr _, d') \<Rightarrow> dsc_task_id d' = FteTaskId ''q'' 0 0 \<and> dsc_initial_splits d' = [(''scan'', [plain_split ''scan'' 3])] \<and>
            dsc_no_more_splits d' = [])"
    by code_simp
  then obtain d added d' where d: "plain_descriptor = Inr d"
    and a: "append_splits ''scan'' (map Obj [plain_split ''scan'' 3]) d = (Inr added, d')"
    and t: "dsc_task_id d' = FteTaskId ''q'' 0 0" "dsc_initial_splits d' = [(''scan'', [plain_split ''scan'' 3])]" "dsc_no_more_splits d' = []"
    unfolding case_res_ok case_op_ok by blast
  have "valid_task_id (dsc_task_id d')" "splits_valid (dsc_initial_splits d')" "distinct (dsc_no_more_splits d')"
    by (simp_all add: t splits_valid_def wf_dict_def valid_split_def plain_split_def strip_def py_ws_def)
  from create_request_carries_descriptor [OF this(1) _ this(2,3), of 1 no_sink_instance] show ?thesis
    using d a t(2) by auto
qed

section \<open>Two surprises\<close>

text \<open>
  \<open>from_dict\<close> changes its argument: splits of an assignment are appended to the list of that source in
  the caller's own payload, so parsing the payload again reads them twice.
\<close>

definition shared_payload :: "(string, pyval) dict" where
  "shared_payload =
     [(''initial_splits'', PDict [(''scan'', PList [PDict (split_to_dict (plain_split ''scan'' 0))])]),
      (''split_assignments'', PList [PDict [(''source_node_id'', PStr ''scan''),
         (''splits'', PList [PDict (split_to_dict (plain_split ''scan'' 1))])]])]"

lemma from_dict_extends_caller:
  "case task_update_from_dict shared_payload of
     (Inl _, _) \<Rightarrow> False
   | (Inr r, payload) \<Rightarrow>
       map (map sequence_id \<circ> snd) (req_initial_splits r) = [[0, 1]] \<and> payload \<noteq> shared_payload \<and>
       (case task_update_from_dict payload of
          (Inl _, _) \<Rightarrow> False
        | (Inr r2, _) \<Rightarrow> map (map sequence_id \<circ> snd) (req_initial_splits r2) = [[0, 1, 1]])"
  by code_simp

text \<open>
  An update that fails on its output buffers has already filed its splits. They count as seen, so
  delivering them again in a valid update reports no change, and the version has not moved.
\<close>

definition splits_update :: "(string, pyval) dict option \<Rightarrow> fte_task_update_request" where
  "splits_update buffers =
     sample_request\<lparr>req_initial_splits := [(''scan'', [plain_split ''scan'' 5])], req_no_more_splits := [],
       req_output_buffers := buffers, req_context := [], req_dynamic_scan_source_node_ids := []\<rparr>"

lemma failed_update_hides_splits:
  "case plain_descriptor of
     Inl _ \<Rightarrow> False
   | Inr d0 \<Rightarrow>
       (case descriptor_apply_task_update (=) sample_request d0 of
          (Inl _, _) \<Rightarrow> False
        | (Inr _, d) \<Rightarrow>
            let (res, d1) = descriptor_apply_task_update (=) (splits_update (Some [(''version'', PInt 1), (''type'', PStr ''x'')])) d;
                (again, d2) = descriptor_apply_task_update (=) (splits_update None) d1 in
            isl res \<and> again = Inr False \<and> map sequence_id (dict_get_default (dsc_initial_splits d2) ''scan'' []) = [0, 1, 5] \<and>
            dsc_descriptor_version d2 = dsc_descriptor_version d)"
  by code_simp

end
