(* ===== verification/Fte_Partition.thy ===== *)
theory Fte_Partition
  imports Fte_Events Descriptor_Updates Fte_Failures
begin

text \<open>
  One task partition and its attempts (\<open>src/duckdb/runners/fte/fte_execution.py\<close>, class
  \<open>FteTaskPartition\<close>): starting an attempt, its outcome, the budget of attempts, and the flags that
  say when the partition may be scheduled. The readings of the clock are arguments.
\<close>

section \<open>State\<close>

record task_partition =
  prt_task_id :: fte_task_id
  prt_descriptor :: task_descriptor
  prt_max_attempts :: int
  prt_remaining_attempts :: int
  prt_sink_handle :: "exchange_sink_handle option"
  prt_node_requirements :: "node_requirements option"
  prt_memory_requirement_bytes :: "int option"
  prt_execution_class :: exec_class
  prt_sealed :: bool
  prt_finished :: bool
  prt_failed :: bool
  prt_failure_observed :: bool
  prt_running_attempts :: "(int, running_attempt) dict"
  prt_running_task_stats :: "(int, pyval) dict"
  prt_selected_attempt :: "int option"
  prt_finished_attempts :: "(int, finished_attempt) dict"
  prt_selected_output_stats :: pyval
  prt_failures :: "pyval list"
  prt_ready_for_scheduling :: bool
  prt_execution_ready_deferred :: bool
  prt_node_wait_started_at :: "rat option"
  prt_no_matching_node_started_at :: "rat option"

definition mk_partition ::
  "fte_task_id ref \<Rightarrow> task_descriptor \<Rightarrow> int \<Rightarrow> exchange_sink_handle option \<Rightarrow> node_requirements option \<Rightarrow>
   int option \<Rightarrow> exec_class ref \<Rightarrow> task_partition res" where
  "mk_partition task_id d max_attempts sink node memory cls =
     (if max_attempts \<le> 0 then Inl (ValueError ''max_attempts must be positive'')
      else
        bindE (task_id_coerce task_id) (\<lambda>t.
        if dsc_task_id d \<noteq> t then Inl (ValueError ''descriptor task_id does not match partition'')
        else
          bindE (exec_class_coerce cls) (\<lambda>c.
          Inr \<lparr>prt_task_id = t, prt_descriptor = d, prt_max_attempts = max_attempts,
               prt_remaining_attempts = max_attempts, prt_sink_handle = sink, prt_node_requirements = node,
               prt_memory_requirement_bytes = map_option (max 0) memory, prt_execution_class = c,
               prt_sealed = dsc_sealed d, prt_finished = False, prt_failed = False, prt_failure_observed = False,
               prt_running_attempts = [], prt_running_task_stats = [], prt_selected_attempt = None,
               prt_finished_attempts = [], prt_selected_output_stats = PNone, prt_failures = [],
               prt_ready_for_scheduling = dsc_sealed d, prt_execution_ready_deferred = False,
               prt_node_wait_started_at = None, prt_no_matching_node_started_at = None\<rparr>)))"

definition partition_state :: "task_partition \<Rightarrow> fte_partition_state" where
  "partition_state p =
     (if prt_finished p then PartFinished
      else if prt_failed p then PartFailed
      else if prt_running_attempts p \<noteq> [] then PartRunning
      else if prt_sealed p then PartSealed
      else PartOpen)"

definition running_attempt_of :: "task_partition \<Rightarrow> running_attempt option res" where
  "running_attempt_of p =
     (case prt_running_attempts p of
        [] \<Rightarrow> Inr None
      | [(n, r)] \<Rightarrow> Inr (Some r)
      | _ \<Rightarrow> Inl (RuntimeError ''partition has multiple running attempts''))"

section \<open>Attempts\<close>

definition next_attempt_number :: "task_partition \<Rightarrow> int res" where
  "next_attempt_number p =
     (if prt_remaining_attempts p \<le> 0 then Inl (RuntimeError ''partition has no attempts remaining'')
      else Inr (prt_max_attempts p - prt_remaining_attempts p))"

text \<open>The create request of an attempt, lines 187 to 195.\<close>

definition attempt_request :: "sink_instance \<Rightarrow> task_partition \<Rightarrow> (fte_task_attempt_id \<times> (string, pyval) dict) res" where
  "attempt_request inst p =
     bindE (next_attempt_number p) (\<lambda>n.
     bindE (mk_attempt_id (prt_task_id p) n) (\<lambda>a.
     bindE (to_create_task_request (prt_descriptor p) n inst) (\<lambda>req.
     let req1 = (case prt_memory_requirement_bytes p of
                   None \<Rightarrow> req | Some m \<Rightarrow> dict_set ''memory_requirement_bytes'' (PInt m) req) in
     Inr (a, dict_set ''execution_class'' (PStr (exec_class_value (prt_execution_class p))) req1))))"

definition start_attempt ::
  "rat \<Rightarrow> sink_instance \<Rightarrow> string option \<Rightarrow> worker option \<Rightarrow> (task_partition, scheduled_attempt) op" where
  "start_attempt now inst worker_id handle p =
     (if prt_finished p \<or> prt_failed p then (Inl (RuntimeError ''cannot schedule terminal partition''), p)
      else if prt_running_attempts p \<noteq> [] then (Inl (RuntimeError ''partition already has a running attempt''), p)
      else case attempt_request inst p of
        Inl e \<Rightarrow> (Inl e, p)
      | Inr (a, req) \<Rightarrow>
          (Inr \<lparr>sch_attempt_id = a, sch_descriptor = prt_descriptor p, sch_request = req,
                sch_sink_instance = inst, sch_worker_id = worker_id\<rparr>,
           p\<lparr>prt_execution_ready_deferred := False, prt_node_wait_started_at := None,
             prt_no_matching_node_started_at := None,
             prt_running_attempts :=
               dict_set (attempt_number a)
                 \<lparr>run_attempt_id = a, run_worker_id = worker_id, run_remote_handle = handle,
                  run_sink_instance = inst, run_started_at = now\<rparr> (prt_running_attempts p),
             prt_running_task_stats := dict_pop (attempt_number a) (prt_running_task_stats p)\<rparr>))"

section \<open>Waiting and readiness\<close>

definition mark_waiting_for_node :: "rat \<Rightarrow> task_partition \<Rightarrow> task_partition" where
  "mark_waiting_for_node now p =
     (if prt_node_wait_started_at p = None then p\<lparr>prt_node_wait_started_at := Some now\<rparr> else p)"

text \<open>The first reading of the clock is used only when the partition was not waiting already.\<close>

definition mark_no_matching_node :: "rat \<Rightarrow> rat \<Rightarrow> task_partition \<Rightarrow> rat \<times> task_partition" where
  "mark_no_matching_node first now p =
     (let started = (case prt_no_matching_node_started_at p of None \<Rightarrow> first | Some t \<Rightarrow> t) in
      (fl (now - started), p\<lparr>prt_no_matching_node_started_at := Some started\<rparr>))"

definition reset_no_matching_node :: "task_partition \<Rightarrow> task_partition" where
  "reset_no_matching_node p = p\<lparr>prt_no_matching_node_started_at := None\<rparr>"

definition mark_ready_for_execution :: "task_partition \<Rightarrow> task_partition" where
  "mark_ready_for_execution p = p\<lparr>prt_ready_for_scheduling := True, prt_execution_ready_deferred := False\<rparr>"

definition defer_ready_for_execution :: "task_partition \<Rightarrow> task_partition" where
  "defer_ready_for_execution p =
     (if prt_finished p \<or> prt_failed p \<or> prt_running_attempts p \<noteq> [] then p
      else p\<lparr>prt_ready_for_scheduling := False, prt_execution_ready_deferred := True\<rparr>)"

definition seal :: "(task_partition, exec_class option) op" where
  "seal p =
     (if prt_finished p \<or> prt_failed p then (Inl (RuntimeError ''cannot seal terminal partition''), p)
      else
        let old = prt_execution_class p;
            p1 = p\<lparr>prt_sealed := True, prt_descriptor := (prt_descriptor p)\<lparr>dsc_sealed := True\<rparr>\<rparr> in
        if is_speculative old
        then (Inr (Some old), mark_ready_for_execution (p1\<lparr>prt_execution_class := STANDARD\<rparr>))
        else (Inr None, mark_ready_for_execution p1))"

definition partition_set_execution_class :: "exec_class ref \<Rightarrow> (task_partition, bool) op" where
  "partition_set_execution_class cls p =
     (case exec_class_coerce cls of
        Inl e \<Rightarrow> (Inl e, p)
      | Inr c \<Rightarrow>
          if prt_execution_class p = c then (Inr False, p)
          else if \<not> can_transition_to (prt_execution_class p) c
          then (Inl (ValueError ''cannot change partition execution class''), p)
          else (Inr True, p\<lparr>prt_execution_class := c\<rparr>))"

section \<open>Outcomes\<close>

definition validate_attempt_task :: "fte_task_attempt_id \<Rightarrow> task_partition \<Rightarrow> unit res" where
  "validate_attempt_task a p =
     (if attempt_task_id a \<noteq> prt_task_id p then Inl (ValueError ''attempt task_id does not match partition'') else Inr ())"

definition coerce_attempt :: "fte_task_attempt_id ref \<Rightarrow> task_partition \<Rightarrow> fte_task_attempt_id res" where
  "coerce_attempt attempt_id p =
     bindE (attempt_id_coerce attempt_id) (\<lambda>a. bindE (validate_attempt_task a p) (\<lambda>_. Inr a))"

text \<open>The selected output statistics, lines 275 to 282.\<close>

definition select_output_stats :: "pyval option \<Rightarrow> pyval \<Rightarrow> pyval" where
  "select_output_stats task_stats output_stats =
     (case (task_stats, output_stats) of
        (Some (PDict t), PDict out) \<Rightarrow> PDict (dict_merge t out)
      | _ \<Rightarrow> if output_stats \<noteq> PNone then output_stats
             else (case task_stats of None \<Rightarrow> PNone | Some t \<Rightarrow> t))"

definition mark_attempt_finished :: "fte_task_attempt_id ref \<Rightarrow> pyval \<Rightarrow> (task_partition, bool) op" where
  "mark_attempt_finished attempt_id output_stats p =
     (case coerce_attempt attempt_id p of
        Inl e \<Rightarrow> (Inl e, p)
      | Inr a \<Rightarrow>
          let n = attempt_number a in
          (case dict_get (prt_running_attempts p) n of
             None \<Rightarrow> (Inr False, p)
           | Some running \<Rightarrow>
               let stats = select_output_stats (dict_get (prt_running_task_stats p) n) output_stats in
               (Inr True,
                p\<lparr>prt_finished := True, prt_failed := False, prt_selected_attempt := Some n,
                  prt_selected_output_stats := stats,
                  prt_finished_attempts :=
                    dict_set n \<lparr>fin_attempt_id = a, fin_sink_instance = run_sink_instance running,
                                fin_output_stats = stats\<rparr> (prt_finished_attempts p),
                  prt_running_attempts := [], prt_running_task_stats := []\<rparr>)))"

text \<open>What a failed and a revoked attempt have in common, lines 303 to 310 and 339 to 345.\<close>

definition drop_attempt :: "int \<Rightarrow> pyval \<Rightarrow> task_partition \<Rightarrow> task_partition" where
  "drop_attempt n error p =
     p\<lparr>prt_running_attempts := dict_pop n (prt_running_attempts p), prt_failure_observed := True,
       prt_failures := prt_failures p @ [error], prt_remaining_attempts := max 0 (prt_remaining_attempts p - 1)\<rparr>"

definition mark_attempt_failed ::
  "fte_task_attempt_id ref \<Rightarrow> pyval \<Rightarrow> bool \<Rightarrow> (task_partition, ready_task option) op" where
  "mark_attempt_failed attempt_id error retryable p =
     (case coerce_attempt attempt_id p of
        Inl e \<Rightarrow> (Inl e, p)
      | Inr a \<Rightarrow>
          if prt_finished p then (Inr None, p)
          else
            let n = attempt_number a in
            if \<not> dict_has (prt_running_attempts p) n then (Inr None, p)
            else
              let p1 = (drop_attempt n error p)\<lparr>prt_running_task_stats := dict_pop n (prt_running_task_stats p)\<rparr> in
              if retryable \<and> 0 < prt_remaining_attempts p1
              then (Inr (Some \<lparr>rdy_task_id = prt_task_id p, rdy_reason = ''retry''\<rparr>), p1)
              else (Inr None, p1\<lparr>prt_failed := True\<rparr>))"

definition update_running_task_stats :: "fte_task_attempt_id ref \<Rightarrow> pyval \<Rightarrow> (task_partition, bool) op" where
  "update_running_task_stats attempt_id task_stats p =
     (case task_stats of
        PDict stats \<Rightarrow>
          (case coerce_attempt attempt_id p of
             Inl e \<Rightarrow> (Inl e, p)
           | Inr a \<Rightarrow>
               if \<not> dict_has (prt_running_attempts p) (attempt_number a) then (Inr False, p)
               else (Inr True, p\<lparr>prt_running_task_stats :=
                       dict_set (attempt_number a) (PDict stats) (prt_running_task_stats p)\<rparr>))
      | _ \<Rightarrow> (Inr False, p))"

definition revoke_attempt :: "fte_task_attempt_id ref \<Rightarrow> pyval \<Rightarrow> (task_partition, revoked_attempt option) op" where
  "revoke_attempt attempt_id error p =
     (case coerce_attempt attempt_id p of
        Inl e \<Rightarrow> (Inl e, p)
      | Inr a \<Rightarrow>
          if prt_finished p then (Inr None, p)
          else
            let n = attempt_number a in
            (case dict_get (prt_running_attempts p) n of
               None \<Rightarrow> (Inr None, p)
             | Some running \<Rightarrow>
                 let p1 = drop_attempt n error p; exhausted = (prt_remaining_attempts p1 \<le> 0);
                     retry_ready = (if exhausted then False else prt_sealed p) in
                 (Inr (Some \<lparr>rev_attempt_id = a, rev_worker_id = run_worker_id running,
                            rev_remote_handle = run_remote_handle running, rev_retry_ready = retry_ready\<rparr>),
                  p1\<lparr>prt_failed := (if exhausted then True else prt_failed p1), prt_ready_for_scheduling := retry_ready\<rparr>)))"

section \<open>Calls in any order\<close>

text \<open>
  A step is one call of a method, returning or raising, or a change of the descriptor that keeps its
  identity: the fragment execution updates the descriptor of its partitions directly.
\<close>

inductive partition_step :: "task_partition \<Rightarrow> task_partition \<Rightarrow> bool" where
  Start: "partition_step p (snd (start_attempt now inst worker_id handle p))"
| Waiting: "partition_step p (mark_waiting_for_node now p)"
| NoMatchingNode: "partition_step p (snd (mark_no_matching_node first now p))"
| ResetNoMatching: "partition_step p (reset_no_matching_node p)"
| Ready: "partition_step p (mark_ready_for_execution p)"
| Defer: "partition_step p (defer_ready_for_execution p)"
| Seal: "partition_step p (snd (seal p))"
| SetClass: "partition_step p (snd (partition_set_execution_class cls p))"
| Finished: "partition_step p (snd (mark_attempt_finished attempt_id stats p))"
| Failed: "partition_step p (snd (mark_attempt_failed attempt_id error retryable p))"
| Stats: "partition_step p (snd (update_running_task_stats attempt_id task_stats p))"
| Revoke: "partition_step p (snd (revoke_attempt attempt_id error p))"
| Descriptor: "dsc_task_id d = dsc_task_id (prt_descriptor p) \<Longrightarrow> partition_step p (p\<lparr>prt_descriptor := d\<rparr>)"

inductive_cases partition_stepE: "partition_step p q"

text \<open>
  The number of failures fixes everything about attempts: the budget that is left, the number of the
  running attempt, and the number of the attempt that finished.
\<close>

definition current_attempt :: "task_partition \<Rightarrow> fte_task_attempt_id" where
  "current_attempt p = FteTaskAttemptId (prt_task_id p) (int (length (prt_failures p)))"

definition outcome_ok :: "task_partition \<Rightarrow> bool" where
  "outcome_ok p =
     (if prt_finished p
      then \<not> prt_failed p \<and> prt_running_attempts p = [] \<and>
           prt_selected_attempt p = Some (attempt_number (current_attempt p)) \<and>
           (\<exists>f. prt_finished_attempts p = [(attempt_number (current_attempt p), f)] \<and> fin_attempt_id f = current_attempt p)
      else prt_selected_attempt p = None \<and> prt_finished_attempts p = [])"

definition running_ok :: "task_partition \<Rightarrow> bool" where
  "running_ok p =
     (prt_running_attempts p = [] \<or>
      (\<exists>r. prt_running_attempts p = [(attempt_number (current_attempt p), r)] \<and> run_attempt_id r = current_attempt p))"

definition partition_ok :: "task_partition \<Rightarrow> bool" where
  "partition_ok p =
     (0 < prt_max_attempts p \<and> prt_remaining_attempts p = prt_max_attempts p - int (length (prt_failures p)) \<and>
      0 \<le> prt_remaining_attempts p \<and> (\<not> prt_failed p \<longrightarrow> 0 < prt_remaining_attempts p) \<and>
      dsc_task_id (prt_descriptor p) = prt_task_id p \<and> (prt_failure_observed p \<longleftrightarrow> prt_failures p \<noteq> []) \<and>
      (prt_failed p \<longrightarrow> prt_running_attempts p = [] \<and> prt_failures p \<noteq> []) \<and>
      (prt_execution_ready_deferred p \<longrightarrow> \<not> prt_ready_for_scheduling p \<and> prt_running_attempts p = []) \<and>
      outcome_ok p \<and> running_ok p)"

text \<open>The attempts that have been started: those that failed or were revoked, and the one that runs or has finished.\<close>

definition attempt_started :: "task_partition \<Rightarrow> int \<Rightarrow> bool" where
  "attempt_started p n =
     (n < int (length (prt_failures p)) \<or>
      n = int (length (prt_failures p)) \<and> (prt_running_attempts p \<noteq> [] \<or> prt_finished p))"

definition partition_grows :: "task_partition \<Rightarrow> task_partition \<Rightarrow> bool" where
  "partition_grows p q =
     (prt_task_id q = prt_task_id p \<and> prt_max_attempts q = prt_max_attempts p \<and>
      (\<exists>more. prt_failures q = prt_failures p @ more) \<and>
      (prt_finished p \<longrightarrow> prt_finished q \<and> prt_selected_attempt q = prt_selected_attempt p \<and>
         prt_finished_attempts q = prt_finished_attempts p \<and>
         prt_selected_output_stats q = prt_selected_output_stats p \<and> prt_failures q = prt_failures p) \<and>
      (prt_failed p \<longrightarrow> prt_failed q \<and> prt_failures q = prt_failures p) \<and>
      (prt_sealed p \<longrightarrow> prt_sealed q) \<and> can_transition_to (prt_execution_class p) (prt_execution_class q) \<and>
      (\<forall>n. attempt_started p n \<longrightarrow> attempt_started q n))"

named_theorems partition_defs \<open>definitions a partition invariant unfolds to\<close>

declare partition_ok_def [partition_defs] partition_grows_def [partition_defs] outcome_ok_def [partition_defs]
  running_ok_def [partition_defs] current_attempt_def [partition_defs] attempt_started_def [partition_defs]

lemma partition_okD:
  assumes "partition_ok p"
  shows "0 < prt_max_attempts p" and "prt_remaining_attempts p = prt_max_attempts p - int (length (prt_failures p))"
    and "0 \<le> prt_remaining_attempts p" and "\<not> prt_failed p \<Longrightarrow> 0 < prt_remaining_attempts p"
    and "dsc_task_id (prt_descriptor p) = prt_task_id p" and "prt_failure_observed p \<longleftrightarrow> prt_failures p \<noteq> []"
    and "prt_failed p \<Longrightarrow> prt_running_attempts p = []" and "prt_failed p \<Longrightarrow> prt_failures p \<noteq> []"
    and "prt_execution_ready_deferred p \<longrightarrow> \<not> prt_ready_for_scheduling p \<and> prt_running_attempts p = []"
    and "outcome_ok p" and "running_ok p"
  using assms unfolding partition_ok_def by blast+

text \<open>What the invariant and the order look at; everything else may change freely.\<close>

definition lifecycle_of :: "task_partition \<Rightarrow> _" where
  "lifecycle_of p = ((prt_task_id p, prt_max_attempts p, prt_remaining_attempts p, prt_failures p, prt_failure_observed p),
     (prt_finished p, prt_failed p, prt_running_attempts p, prt_selected_attempt p, prt_finished_attempts p),
     (prt_selected_output_stats p, dsc_task_id (prt_descriptor p)))"

lemma partition_frame:
  assumes "partition_ok p" and "lifecycle_of q = lifecycle_of p"
    and "prt_execution_ready_deferred q \<longrightarrow> \<not> prt_ready_for_scheduling q \<and> prt_running_attempts q = []"
    and "prt_sealed p \<longrightarrow> prt_sealed q" and "can_transition_to (prt_execution_class p) (prt_execution_class q)"
  shows "partition_ok q \<and> partition_grows p q"
proof -
  have eqs: "prt_task_id q = prt_task_id p" "prt_max_attempts q = prt_max_attempts p" "prt_failures q = prt_failures p"
    "prt_remaining_attempts q = prt_remaining_attempts p" "prt_failure_observed q = prt_failure_observed p"
    "prt_finished q = prt_finished p" "prt_failed q = prt_failed p" "prt_running_attempts q = prt_running_attempts p"
    "prt_selected_attempt q = prt_selected_attempt p" "prt_finished_attempts q = prt_finished_attempts p"
    "prt_selected_output_stats q = prt_selected_output_stats p" "dsc_task_id (prt_descriptor q) = dsc_task_id (prt_descriptor p)"
    using assms(2) unfolding lifecycle_of_def prod.inject by blast+
  have "outcome_ok q = outcome_ok p" "running_ok q = running_ok p"
    unfolding outcome_ok_def running_ok_def current_attempt_def eqs by (rule refl)+
  then have "partition_ok q" using partition_okD [OF assms(1)] assms(3) unfolding partition_ok_def eqs by blast
  then show ?thesis using assms(4,5) by (simp add: partition_grows_def attempt_started_def eqs)
qed

lemma start_attempt_cases:
  assumes "partition_ok p"
  obtains (Error) e where "start_attempt now inst w h p = (Inl e, p)"
  | (Started) sa r stats where
      "start_attempt now inst w h p =
         (Inr sa, p\<lparr>prt_execution_ready_deferred := False, prt_node_wait_started_at := None, prt_no_matching_node_started_at := None,
            prt_running_attempts := [(attempt_number (current_attempt p), r)], prt_running_task_stats := stats\<rparr>)"
      "run_attempt_id r = current_attempt p" "run_worker_id r = w" "run_remote_handle r = h" "run_sink_instance r = inst"
      "sch_attempt_id sa = current_attempt p" "sch_descriptor sa = prt_descriptor p"
      "attempt_request inst p = Inr (current_attempt p, sch_request sa)" "sch_worker_id sa = w"
      "\<not> prt_finished p" "\<not> prt_failed p" "prt_running_attempts p = []"
proof (cases "prt_finished p \<or> prt_failed p \<or> prt_running_attempts p \<noteq> []")
  case True
  then have "\<exists>e. start_attempt now inst w h p = (Inl e, p)" by (auto simp: start_attempt_def)
  then show thesis using that(1) by blast
next
  case idle: False
  show thesis
  proof (cases "attempt_request inst p")
    case (Inl e)
    then show thesis using idle by (intro that(1) [of e]) (simp add: start_attempt_def)
  next
    case (Inr ar)
    obtain a req where ar: "ar = (a, req)" by fastforce
    have "a = current_attempt p"
      using Inr ar partition_okD(2) [OF assms]
      by (auto simp: attempt_request_def next_attempt_number_def mk_attempt_id_def check_non_negative_def current_attempt_def
          bindE_eq_Inr Let_def split: if_splits)
    then show thesis using idle Inr ar by (intro that(2), simp add: start_attempt_def, simp_all)
  qed
qed

lemma start_attempt_ok:
  assumes "partition_ok p"
  shows "partition_ok (snd (start_attempt now inst w h p)) \<and> partition_grows p (snd (start_attempt now inst w h p))"
  using assms
proof (cases rule: start_attempt_cases [of p now inst w h])
  case (Started sa r stats)
  show ?thesis using partition_okD [OF assms] Started(2,10-12) unfolding Started(1)
    by (simp add: partition_defs)
qed (use assms in \<open>auto simp: partition_grows_def\<close>)

lemma flags_ok:
  assumes "partition_ok p"
  shows "partition_ok (mark_waiting_for_node now p) \<and> partition_grows p (mark_waiting_for_node now p)"
    and "partition_ok (snd (mark_no_matching_node first now p)) \<and> partition_grows p (snd (mark_no_matching_node first now p))"
    and "partition_ok (reset_no_matching_node p) \<and> partition_grows p (reset_no_matching_node p)"
    and "partition_ok (mark_ready_for_execution p) \<and> partition_grows p (mark_ready_for_execution p)"
    and "partition_ok (defer_ready_for_execution p) \<and> partition_grows p (defer_ready_for_execution p)"
  by (rule partition_frame [OF assms]; use partition_okD(9) [OF assms] in
      \<open>simp add: lifecycle_of_def mark_waiting_for_node_def mark_no_matching_node_def reset_no_matching_node_def Let_def
        mark_ready_for_execution_def defer_ready_for_execution_def\<close>)+

lemma seal_ok:
  assumes "partition_ok p"
  shows "partition_ok (snd (seal p)) \<and> partition_grows p (snd (seal p))"
proof (cases "prt_finished p \<or> prt_failed p")
  case True
  then show ?thesis using assms by (auto simp: seal_def partition_grows_def)
next
  case False
  let ?c = "if is_speculative (prt_execution_class p) then STANDARD else prt_execution_class p"
  have s: "snd (seal p) = p\<lparr>prt_sealed := True, prt_descriptor := (prt_descriptor p)\<lparr>dsc_sealed := True\<rparr>,
      prt_execution_class := ?c, prt_ready_for_scheduling := True, prt_execution_ready_deferred := False\<rparr>"
    using False by (simp add: seal_def Let_def mark_ready_for_execution_def)
  show ?thesis unfolding s by (rule partition_frame [OF assms]) (simp_all add: lifecycle_of_def can_transition_to_iff)
qed

lemma class_change_ok:
  assumes "partition_ok p" and "can_transition_to (prt_execution_class p) c"
  shows "partition_ok (p\<lparr>prt_execution_class := c\<rparr>) \<and> partition_grows p (p\<lparr>prt_execution_class := c\<rparr>)"
  by (rule partition_frame [OF assms(1)]) (use partition_okD(9) [OF assms(1)] assms(2) in \<open>simp_all add: lifecycle_of_def\<close>)

lemma set_class_cases:
  "snd (partition_set_execution_class c p) = p \<or>
   (\<exists>k. can_transition_to (prt_execution_class p) k \<and> snd (partition_set_execution_class c p) = p\<lparr>prt_execution_class := k\<rparr>)"
  by (auto simp: partition_set_execution_class_def split: sum.splits)

lemma partition_grows_refl: "partition_grows p p"
  by (simp add: partition_grows_def)

lemma set_class_ok:
  assumes "partition_ok p"
  shows "partition_ok (snd (partition_set_execution_class c p)) \<and> partition_grows p (snd (partition_set_execution_class c p))"
  using set_class_cases [of c p] class_change_ok [OF assms] assms partition_grows_refl by auto

lemma coerce_attempt_Inr:
  "coerce_attempt x p = Inr a \<longleftrightarrow> attempt_id_coerce x = Inr a \<and> attempt_task_id a = prt_task_id p"
  by (auto simp: coerce_attempt_def validate_attempt_task_def bindE_eq_Inr)

text \<open>In a well-formed partition the only attempt that can be running is the current one.\<close>

lemma running_is_current:
  assumes "partition_ok p" and "dict_get (prt_running_attempts p) n = Some r"
  shows "n = attempt_number (current_attempt p) \<and> prt_running_attempts p = [(n, r)] \<and> run_attempt_id r = current_attempt p \<and>
    \<not> prt_finished p \<and> \<not> prt_failed p"
  using assms by (auto simp: partition_ok_def running_ok_def outcome_ok_def split: if_splits)

lemma mark_attempt_finished_cases:
  assumes "partition_ok p"
  obtains (Error) e where "mark_attempt_finished x stats p = (Inl e, p)"
  | (Unknown) "mark_attempt_finished x stats p = (Inr False, p)"
  | (Done) r f out where "mark_attempt_finished x stats p =
      (Inr True, p\<lparr>prt_finished := True, prt_failed := False, prt_selected_attempt := Some (attempt_number (current_attempt p)),
         prt_selected_output_stats := out, prt_finished_attempts := [(attempt_number (current_attempt p), f)],
         prt_running_attempts := [], prt_running_task_stats := []\<rparr>)"
      "fin_attempt_id f = current_attempt p" "attempt_id_coerce x = Inr (current_attempt p)"
      "prt_running_attempts p = [(attempt_number (current_attempt p), r)]" "\<not> prt_finished p" "\<not> prt_failed p"
proof (cases "coerce_attempt x p")
  case (Inl e)
  then show thesis by (intro that(1)) (simp add: mark_attempt_finished_def)
next
  case (Inr a)
  then have a: "attempt_id_coerce x = Inr a" "attempt_task_id a = prt_task_id p" by (simp_all add: coerce_attempt_Inr)
  show thesis
  proof (cases "dict_get (prt_running_attempts p) (attempt_number a)")
    case None
    then show thesis using Inr by (intro that(2)) (simp add: mark_attempt_finished_def Let_def)
  next
    case (Some r)
    note r = running_is_current [OF assms Some]
    then have fa: "prt_finished_attempts p = []" using assms by (simp add: partition_ok_def outcome_ok_def)
    have "a = current_attempt p" using r a(2) by (cases a) (simp add: current_attempt_def)
    then show thesis using Inr Some r a fa
      by (intro that(3)) (auto simp: mark_attempt_finished_def Let_def)
  qed
qed

lemma mark_attempt_finished_ok:
  assumes "partition_ok p"
  shows "partition_ok (snd (mark_attempt_finished x stats p)) \<and> partition_grows p (snd (mark_attempt_finished x stats p))"
  using assms
proof (cases rule: mark_attempt_finished_cases [of p x stats])
  case (Done r f out)
  show ?thesis using assms Done unfolding Done(1) by (auto simp: partition_defs)
qed (use assms in \<open>auto simp: partition_grows_def\<close>)

lemma drop_attempt_fields [simp]:
  "prt_task_id (drop_attempt n e p) = prt_task_id p" "prt_failures (drop_attempt n e p) = prt_failures p @ [e]"
  "prt_max_attempts (drop_attempt n e p) = prt_max_attempts p" "prt_finished (drop_attempt n e p) = prt_finished p"
  "prt_failed (drop_attempt n e p) = prt_failed p" "prt_sealed (drop_attempt n e p) = prt_sealed p"
  "prt_descriptor (drop_attempt n e p) = prt_descriptor p" "prt_execution_class (drop_attempt n e p) = prt_execution_class p"
  "prt_running_attempts (drop_attempt n e p) = dict_pop n (prt_running_attempts p)"
  "prt_remaining_attempts (drop_attempt n e p) = max 0 (prt_remaining_attempts p - 1)"
  "prt_failure_observed (drop_attempt n e p) = True" "prt_sink_handle (drop_attempt n e p) = prt_sink_handle p"
  "prt_selected_attempt (drop_attempt n e p) = prt_selected_attempt p"
  "prt_finished_attempts (drop_attempt n e p) = prt_finished_attempts p"
  "prt_ready_for_scheduling (drop_attempt n e p) = prt_ready_for_scheduling p"
  "prt_execution_ready_deferred (drop_attempt n e p) = prt_execution_ready_deferred p"
  "prt_memory_requirement_bytes (drop_attempt n e p) = prt_memory_requirement_bytes p"
  by (simp_all add: drop_attempt_def)

lemma mark_attempt_failed_ok:
  assumes "partition_ok p"
  shows "partition_ok (snd (mark_attempt_failed x e retry p)) \<and> partition_grows p (snd (mark_attempt_failed x e retry p))"
proof (cases "\<exists>a r. coerce_attempt x p = Inr a \<and> dict_get (prt_running_attempts p) (attempt_number a) = Some r")
  case False
  then show ?thesis using assms
    by (auto simp: mark_attempt_failed_def Let_def dict_has_def partition_grows_def split: sum.split)
next
  case True
  then obtain a r where a: "coerce_attempt x p = Inr a" and r: "dict_get (prt_running_attempts p) (attempt_number a) = Some r" by blast
  note cur = running_is_current [OF assms r]
  show ?thesis using assms cur a
    by (auto simp: mark_attempt_failed_def Let_def dict_has_def partition_defs)
qed

lemma revoke_attempt_ok:
  assumes "partition_ok p"
  shows "partition_ok (snd (revoke_attempt x e p)) \<and> partition_grows p (snd (revoke_attempt x e p))"
proof (cases "\<exists>a r. coerce_attempt x p = Inr a \<and> dict_get (prt_running_attempts p) (attempt_number a) = Some r")
  case False
  then show ?thesis using assms
    by (auto simp: revoke_attempt_def Let_def partition_grows_def split: sum.split option.split)
next
  case True
  then obtain a r where a: "coerce_attempt x p = Inr a" and r: "dict_get (prt_running_attempts p) (attempt_number a) = Some r" by blast
  note cur = running_is_current [OF assms r]
  show ?thesis using assms cur a
    by (auto simp: revoke_attempt_def Let_def partition_defs)
qed

lemma task_stats_cases:
  "\<exists>stats. snd (update_running_task_stats x st p) = p\<lparr>prt_running_task_stats := stats\<rparr>"
proof -
  have "p = p\<lparr>prt_running_task_stats := prt_running_task_stats p\<rparr>" by simp
  moreover have "snd (update_running_task_stats x st p) = p \<or>
      (\<exists>stats. snd (update_running_task_stats x st p) = p\<lparr>prt_running_task_stats := stats\<rparr>)"
    by (cases st) (auto simp: update_running_task_stats_def split: sum.split)
  ultimately show ?thesis by metis
qed

lemma task_stats_ok:
  assumes "partition_ok p"
  shows "partition_ok (snd (update_running_task_stats x st p)) \<and> partition_grows p (snd (update_running_task_stats x st p))"
proof -
  obtain stats where s: "snd (update_running_task_stats x st p) = p\<lparr>prt_running_task_stats := stats\<rparr>"
    using task_stats_cases by blast
  show ?thesis unfolding s
    by (rule partition_frame [OF assms]) (use partition_okD(9) [OF assms] in \<open>simp_all add: lifecycle_of_def\<close>)
qed

lemma descriptor_change_ok:
  assumes "partition_ok p" and "dsc_task_id d = dsc_task_id (prt_descriptor p)"
  shows "partition_ok (p\<lparr>prt_descriptor := d\<rparr>) \<and> partition_grows p (p\<lparr>prt_descriptor := d\<rparr>)"
  by (rule partition_frame [OF assms(1)]) (use partition_okD(9) [OF assms(1)] assms(2) in \<open>simp_all add: lifecycle_of_def\<close>)

lemmas partition_op_ok = start_attempt_ok flags_ok seal_ok set_class_ok mark_attempt_finished_ok mark_attempt_failed_ok
  revoke_attempt_ok task_stats_ok descriptor_change_ok

lemma partition_grows_trans: "partition_grows p q \<Longrightarrow> partition_grows q r \<Longrightarrow> partition_grows p r"
  unfolding partition_grows_def by (elim conjE exE) (auto intro: can_transition_to_trans)

interpretation attempts: monotone_system partition_step partition_ok partition_grows
proof
  fix p q assume "partition_ok p" "partition_step p q"
  then show "partition_ok q" and "partition_grows p q" by (auto elim!: partition_stepE simp: partition_op_ok)
qed (fact partition_grows_refl, rule partition_grows_trans)

lemma mk_partition_ok: "mk_partition t d n sink node mem c = Inr p \<Longrightarrow> partition_ok p"
  by (auto simp: mk_partition_def partition_defs bindE_eq_Inr split: if_splits)

section \<open>Properties\<close>

text \<open>
  C35. The life of a partition. After any sequence of calls, returning or raising, at most one
  attempt is running; its number is the number of failures so far, which stays below the budget
  until the partition has failed. A finished partition stays finished with the attempt it selected,
  a failed one stays failed, and neither ever runs an attempt again. Failures are only ever added,
  and the execution class only ever becomes standard.
\<close>

theorem partition_lifecycle:
  assumes "mk_partition t d budget sink node mem cls = Inr p0"
    and "partition_step\<^sup>*\<^sup>* p0 p" and "partition_step\<^sup>*\<^sup>* p q"
  shows "prt_remaining_attempts p = budget - int (length (prt_failures p)) \<and> 0 \<le> prt_remaining_attempts p \<and>
    (prt_remaining_attempts p = 0 \<longrightarrow> prt_failed p) \<and>
    (\<exists>n r. prt_running_attempts p = [] \<or> prt_running_attempts p = [(n, r)] \<and> n = int (length (prt_failures p)) \<and> n < budget \<and>
       run_attempt_id r = FteTaskAttemptId (prt_task_id p0) n) \<and>
    (prt_finished p \<longrightarrow> prt_finished q \<and> \<not> prt_failed q \<and> prt_running_attempts q = [] \<and>
       prt_selected_attempt q = prt_selected_attempt p \<and> prt_selected_attempt p = Some (int (length (prt_failures p))) \<and>
       prt_selected_output_stats q = prt_selected_output_stats p) \<and>
    (prt_failed p \<longrightarrow> prt_failed q \<and> \<not> prt_finished q \<and> prt_running_attempts q = []) \<and>
    (\<exists>more. prt_failures q = prt_failures p @ more) \<and>
    (prt_execution_class q = prt_execution_class p \<or> prt_execution_class q = STANDARD)"
proof -
  note p0 = mk_partition_ok [OF assms(1)]
  note p = attempts.reach_inv [OF p0 assms(2)]
  note g0 = attempts.reach_grows [OF p0 assms(2)] and g = attempts.reach_grows [OF p assms(3)]
  note q = attempts.reach_inv [OF p assms(3)]
  have id: "prt_task_id p = prt_task_id p0" "prt_max_attempts p = budget"
    using g0 assms(1) by (auto simp: partition_grows_def mk_partition_def bindE_eq_Inr split: if_splits)
  have running: "\<exists>n r. prt_running_attempts p = [] \<or> prt_running_attempts p = [(n, r)] \<and> n = int (length (prt_failures p)) \<and> n < budget \<and>
       run_attempt_id r = FteTaskAttemptId (prt_task_id p0) n"
    using p id by (auto simp: partition_ok_def running_ok_def current_attempt_def)
  have fin: "prt_finished q \<Longrightarrow> \<not> prt_failed q \<and> prt_running_attempts q = []"
    "prt_failed q \<Longrightarrow> \<not> prt_finished q \<and> prt_running_attempts q = []"
    using q by (auto simp: partition_ok_def outcome_ok_def split: if_splits)
  have sel: "prt_finished p \<Longrightarrow> prt_selected_attempt p = Some (int (length (prt_failures p)))"
    using p by (simp add: partition_ok_def outcome_ok_def current_attempt_def)
  show ?thesis
    using p running fin sel g unfolding partition_grows_def can_transition_to_iff id(2) [symmetric] by (auto simp: partition_ok_def)
qed

lemma rtranclp_two: "r a b \<Longrightarrow> r b c \<Longrightarrow> r\<^sup>*\<^sup>* a c"
  by auto

definition sample_partition :: "task_partition res" where
  "sample_partition =
     bindE plain_descriptor (\<lambda>d. mk_partition (Obj (FteTaskId ''q'' 0 0)) d 2 None None (Some 1) (Obj SPECULATIVE))"

lemma sample_partition_run:
  "case sample_partition of
     Inl _ \<Rightarrow> False
   | Inr p0 \<Rightarrow>
       let p1 = snd (start_attempt 0 no_sink_instance None None p0);
           p2 = snd (mark_attempt_failed (Obj (FteTaskAttemptId (FteTaskId ''q'' 0 0) 0)) PNone True p1);
           p3 = snd (start_attempt 0 no_sink_instance None None p2);
           p4 = snd (mark_attempt_finished (Obj (FteTaskAttemptId (FteTaskId ''q'' 0 0) 1)) PNone p3) in
       prt_failures p2 = [PNone] \<and> partition_state p1 = PartRunning \<and> partition_state p2 = PartOpen \<and> prt_finished p4 \<and>
       prt_failures p4 = [PNone] \<and> prt_task_id p0 = FteTaskId ''q'' 0 0"
  by code_simp

theorem partition_lifecycle_witness:
  "\<exists>p0 p q. sample_partition = Inr p0 \<and> partition_step\<^sup>*\<^sup>* p0 p \<and> partition_step\<^sup>*\<^sup>* p q \<and>
     prt_remaining_attempts p = 1 \<and> prt_finished q \<and> prt_failures q = [PNone] \<and> prt_selected_attempt q = Some 1"
proof -
  let ?a = "\<lambda>n. Obj (FteTaskAttemptId (FteTaskId ''q'' 0 0) n)"
  obtain p0 where p0: "sample_partition = Inr p0" and run: "let p1 = snd (start_attempt 0 no_sink_instance None None p0);
           p2 = snd (mark_attempt_failed (?a 0) PNone True p1);
           p3 = snd (start_attempt 0 no_sink_instance None None p2);
           p4 = snd (mark_attempt_finished (?a 1) PNone p3) in
       prt_failures p2 = [PNone] \<and> partition_state p1 = PartRunning \<and> partition_state p2 = PartOpen \<and> prt_finished p4 \<and>
       prt_failures p4 = [PNone] \<and> prt_task_id p0 = FteTaskId ''q'' 0 0"
    using sample_partition_run unfolding case_res_ok by blast
  define p1 where "p1 = snd (start_attempt 0 no_sink_instance None None p0)"
  define p2 where "p2 = snd (mark_attempt_failed (?a 0) PNone True p1)"
  define p3 where "p3 = snd (start_attempt 0 no_sink_instance None None p2)"
  define p4 where "p4 = snd (mark_attempt_finished (?a 1) PNone p3)"
  have f: "prt_failures p2 = [PNone]" "prt_finished p4" "prt_failures p4 = [PNone]"
    using run unfolding Let_def p1_def [symmetric] p2_def [symmetric] p3_def [symmetric] p4_def [symmetric] by blast+
  obtain d where mk: "mk_partition (Obj (FteTaskId ''q'' 0 0)) d 2 None None (Some 1) (Obj SPECULATIVE) = Inr p0"
    using p0 unfolding sample_partition_def bindE_eq_Inr by blast
  have s1: "partition_step\<^sup>*\<^sup>* p0 p2" unfolding p2_def p1_def by (rule rtranclp_two) (rule Start Failed)+
  have s2: "partition_step\<^sup>*\<^sup>* p2 p4" unfolding p4_def p3_def by (rule rtranclp_two) (rule Start Finished)+
  note s = rtranclp_trans [OF s1 s2]
  show ?thesis
    using p0 s1 s2 f partition_lifecycle [OF mk s1 s2] partition_lifecycle [OF mk s rtranclp.rtrancl_refl] by auto
qed

text \<open>
  C37. An attempt starts exactly when it may. From any state a partition can reach, \<open>start_attempt\<close>
  returns if the partition is open or sealed, and then the partition runs the attempt whose number
  is the number of failures, under the worker it was given, and the request names that attempt and
  the execution class. While an attempt runs, and once the partition has finished or failed, it raises
  and changes nothing.
\<close>

theorem start_attempt_exact:
  assumes "mk_partition t d budget sink node mem cls = Inr p0" and "partition_step\<^sup>*\<^sup>* p0 p"
  shows "if partition_state p \<in> {PartOpen, PartSealed}
    then \<exists>sa p'. start_attempt now inst w h p = (Inr sa, p') \<and> partition_state p' = PartRunning \<and>
           sch_attempt_id sa = FteTaskAttemptId (prt_task_id p0) (int (length (prt_failures p))) \<and> sch_worker_id sa = w \<and>
           dict_get (sch_request sa) ''task_id'' = Some (PDict (attempt_id_to_dict (sch_attempt_id sa))) \<and>
           dict_get (sch_request sa) ''execution_class'' = Some (PStr (exec_class_value (prt_execution_class p))) \<and>
           running_attempt_of p' = Inr (Some \<lparr>run_attempt_id = sch_attempt_id sa, run_worker_id = w, run_remote_handle = h,
             run_sink_instance = inst, run_started_at = now\<rparr>)
    else \<exists>e. start_attempt now inst w h p = (Inl e, p)"
proof -
  note p0 = mk_partition_ok [OF assms(1)]
  note p = attempts.reach_inv [OF p0 assms(2)]
  have id: "prt_task_id p = prt_task_id p0" using attempts.reach_grows [OF p0 assms(2)] by (simp add: partition_grows_def)
  show ?thesis
  proof (cases "partition_state p \<in> {PartOpen, PartSealed}")
    case False
    then have "prt_finished p \<or> prt_failed p \<or> prt_running_attempts p \<noteq> []" by (auto simp: partition_state_def split: if_splits)
    then show ?thesis using False by (auto simp: start_attempt_def)
  next
    case True
    then have idle: "\<not> prt_finished p" "\<not> prt_failed p" "prt_running_attempts p = []"
      by (auto simp: partition_state_def split: if_splits)
    let ?n = "int (length (prt_failures p))" and ?a = "current_attempt p"
    have n: "next_attempt_number p = Inr ?n" using p idle by (simp add: next_attempt_number_def partition_ok_def)
    obtain req where req: "to_create_task_request (prt_descriptor p) ?n inst = Inr req"
      "dict_get req ''task_id'' = Some (PDict (attempt_id_to_dict ?a))"
      using p by (auto simp: to_create_task_request_def mk_attempt_id_def check_non_negative_def Let_def partition_ok_def current_attempt_def)
    then obtain req' where req': "attempt_request inst p = Inr (?a, req')"
      "dict_get req' ''task_id'' = Some (PDict (attempt_id_to_dict ?a))"
      "dict_get req' ''execution_class'' = Some (PStr (exec_class_value (prt_execution_class p)))"
      using n by (auto simp: attempt_request_def mk_attempt_id_def check_non_negative_def current_attempt_def Let_def split: option.splits)
    show ?thesis using True idle req' id
      by (auto simp: start_attempt_def partition_state_def running_attempt_of_def current_attempt_def)
  qed
qed

theorem start_attempt_exact_witness:
  "\<exists>p0 sa p1 e. sample_partition = Inr p0 \<and> start_attempt 0 no_sink_instance None None p0 = (Inr sa, p1) \<and>
     sch_attempt_id sa = FteTaskAttemptId (FteTaskId ''q'' 0 0) 0 \<and> start_attempt 0 no_sink_instance None None p1 = (Inl e, p1)"
proof -
  obtain p0 where p0: "sample_partition = Inr p0" and id: "prt_task_id p0 = FteTaskId ''q'' 0 0"
    using sample_partition_run unfolding case_res_ok Let_def by blast
  obtain d where mk: "mk_partition (Obj (FteTaskId ''q'' 0 0)) d 2 None None (Some 1) (Obj SPECULATIVE) = Inr p0"
    using p0 unfolding sample_partition_def bindE_eq_Inr by blast
  have new: "partition_state p0 \<in> {PartOpen, PartSealed}" "prt_failures p0 = []"
    using mk by (auto simp: mk_partition_def partition_state_def bindE_eq_Inr split: if_splits)
  obtain sa p1 where s: "start_attempt 0 no_sink_instance None None p0 = (Inr sa, p1)" "partition_state p1 = PartRunning"
    "sch_attempt_id sa = FteTaskAttemptId (FteTaskId ''q'' 0 0) 0"
    using start_attempt_exact [OF mk rtranclp.rtrancl_refl, of 0 no_sink_instance None None] new id by auto
  have "partition_step p0 p1" using Start [of p0 0 no_sink_instance None None] s(1) by simp
  then have "\<exists>e. start_attempt 0 no_sink_instance None None p1 = (Inl e, p1)"
    using start_attempt_exact [OF mk r_into_rtranclp, of p1 0 no_sink_instance None None] s(2) by simp
  then show ?thesis using p0 s by blast
qed

text \<open>
  C38. Only the running attempt counts. From any state a partition can reach, the outcome of the
  running attempt decides its fate: finishing selects that attempt; a failure that may be retried
  leaves the partition open or sealed with the next attempt number as long as the budget allows it,
  and fails it otherwise; so does a revocation. The outcome of any other attempt, late or unknown,
  is ignored and changes nothing.
\<close>

theorem attempt_outcomes_exact:
  assumes "mk_partition t d budget sink node mem cls = Inr p0" and "partition_step\<^sup>*\<^sup>* p0 p"
    and "attempt_id_coerce x = Inr a" and "attempt_task_id a = prt_task_id p0"
  shows "if dict_has (prt_running_attempts p) (attempt_number a) then
      (\<exists>q. mark_attempt_finished x out p = (Inr True, q) \<and> partition_state q = PartFinished \<and>
           prt_selected_attempt q = Some (attempt_number a)) \<and>
      (if attempt_number a + 1 < budget
       then (\<exists>q. mark_attempt_failed x err True p = (Inr (Some \<lparr>rdy_task_id = prt_task_id p0, rdy_reason = ''retry''\<rparr>), q) \<and>
                 partition_state q \<in> {PartOpen, PartSealed} \<and> next_attempt_number q = Inr (attempt_number a + 1)) \<and>
            (\<exists>rev q. revoke_attempt x err p = (Inr (Some rev), q) \<and> rev_retry_ready rev = prt_sealed p \<and>
                 partition_state q \<in> {PartOpen, PartSealed} \<and> next_attempt_number q = Inr (attempt_number a + 1))
       else (\<exists>q. mark_attempt_failed x err True p = (Inr None, q) \<and> partition_state q = PartFailed) \<and>
            (\<exists>rev q. revoke_attempt x err p = (Inr (Some rev), q) \<and> \<not> rev_retry_ready rev \<and> partition_state q = PartFailed)) \<and>
      (\<exists>q. mark_attempt_failed x err False p = (Inr None, q) \<and> partition_state q = PartFailed)
    else mark_attempt_finished x out p = (Inr False, p) \<and> mark_attempt_failed x err retry p = (Inr None, p) \<and>
         revoke_attempt x err p = (Inr None, p)"
proof -
  note p0 = mk_partition_ok [OF assms(1)]
  note p = attempts.reach_inv [OF p0 assms(2)]
  have id: "prt_task_id p = prt_task_id p0" "prt_max_attempts p = budget"
    using attempts.reach_grows [OF p0 assms(2)] assms(1)
    by (auto simp: partition_grows_def mk_partition_def bindE_eq_Inr split: if_splits)
  have c: "coerce_attempt x p = Inr a" using assms(3,4) id by (simp add: coerce_attempt_Inr)
  show ?thesis
  proof (cases "dict_get (prt_running_attempts p) (attempt_number a)")
    case None
    then show ?thesis using c
      by (simp add: dict_has_def mark_attempt_finished_def mark_attempt_failed_def revoke_attempt_def Let_def)
  next
    case (Some r)
    note cur = running_is_current [OF p Some]
    have rem: "prt_remaining_attempts p = budget - attempt_number a" using partition_okD(2) [OF p] id(2) cur
      by (simp add: current_attempt_def)
    show ?thesis using c Some cur rem id
      by (simp add: dict_has_def mark_attempt_finished_def mark_attempt_failed_def revoke_attempt_def Let_def
          partition_state_def next_attempt_number_def)
  qed
qed

theorem attempt_outcomes_exact_witness:
  "\<exists>p0 p1 q. sample_partition = Inr p0 \<and> partition_step p0 p1 \<and>
     mark_attempt_failed (Obj (FteTaskAttemptId (FteTaskId ''q'' 0 0) 0)) PNone True p1 =
       (Inr (Some \<lparr>rdy_task_id = FteTaskId ''q'' 0 0, rdy_reason = ''retry''\<rparr>), q) \<and>
     next_attempt_number q = Inr 1 \<and>
     mark_attempt_failed (Obj (FteTaskAttemptId (FteTaskId ''q'' 0 0) 7)) PNone True p1 = (Inr None, p1)"
proof -
  obtain p0 where p0: "sample_partition = Inr p0" and id: "prt_task_id p0 = FteTaskId ''q'' 0 0"
    using sample_partition_run unfolding case_res_ok Let_def by blast
  obtain d where mk: "mk_partition (Obj (FteTaskId ''q'' 0 0)) d 2 None None (Some 1) (Obj SPECULATIVE) = Inr p0"
    using p0 unfolding sample_partition_def bindE_eq_Inr by blast
  define p1 where "p1 = snd (start_attempt 0 no_sink_instance None None p0)"
  have new: "prt_failures p0 = []" "\<not> prt_finished p0" "\<not> prt_failed p0" "prt_running_attempts p0 = []" "prt_max_attempts p0 = 2"
      "prt_remaining_attempts p0 = 2"
    using mk by (auto simp: mk_partition_def bindE_eq_Inr split: if_splits)
  have s: "partition_step p0 p1" unfolding p1_def by (rule Start)
  have run: "dict_has (prt_running_attempts p1) 0" "\<not> dict_has (prt_running_attempts p1) 7"
    using new id by (simp_all add: p1_def start_attempt_def attempt_request_def next_attempt_number_def mk_attempt_id_def
        check_non_negative_def to_create_task_request_def Let_def dict_has_def)
  note th = attempt_outcomes_exact [OF mk r_into_rtranclp [of partition_step, OF s] attempt_id_coerce.simps(1)]
  show ?thesis
    using p0 s run id th [of "FteTaskAttemptId (FteTaskId ''q'' 0 0) 0" PNone PNone True]
      th [of "FteTaskAttemptId (FteTaskId ''q'' 0 0) 7" PNone PNone True]
    by auto
qed

end
