(* ===== verification/Py_Path.thy ===== *)
theory Py_Path
  imports Py_Values
begin

text \<open>
  Paths of the standard library's \<open>pathlib\<close> (\<open>PurePosixPath\<close>), as the exchange and the descriptor storage use them: a path is
  the list of its parts, the first of which is the root if it is absolute; empty parts and \<open>.\<close> vanish when a path is made, and
  joining an absolute path discards what is on its left.
\<close>

section \<open>Paths\<close>

type_synonym path = "string list"

fun split_on :: "char \<Rightarrow> string \<Rightarrow> string list" where
  "split_on c [] = [[]]"
| "split_on c (x # xs) =
     (let rest = split_on c xs in if x = c then [] # rest else (case rest of [] \<Rightarrow> [[x]] | r # rs \<Rightarrow> (x # r) # rs))"

definition path_root :: "string \<Rightarrow> path" where
  "path_root s =
     (if starts_with ''//'' s \<and> \<not> starts_with ''///'' s then [''//''] else if starts_with ''/'' s then [''/''] else [])"

definition path_of_string :: "string \<Rightarrow> path" where
  "path_of_string s = path_root s @ filter (\<lambda>c. c \<noteq> [] \<and> c \<noteq> ''.'') (split_on CHR ''/'' s)"

definition path_is_absolute :: "path \<Rightarrow> bool" where
  "path_is_absolute p = (p \<noteq> [] \<and> hd p \<in> {''/'', ''//''})"

fun join_parts :: "string list \<Rightarrow> string" where
  "join_parts [] = []"
| "join_parts [x] = x"
| "join_parts (x # xs) = x @ ''/'' @ join_parts xs"

definition path_str :: "path \<Rightarrow> string" where
  "path_str p = (if p = [] then ''.'' else if path_is_absolute p then hd p @ join_parts (tl p) else join_parts p)"

definition path_join :: "path \<Rightarrow> path \<Rightarrow> path" where
  "path_join p r = (if path_is_absolute r then r else p @ r)"

definition path_name :: "path \<Rightarrow> string" where
  "path_name p = (if p = [] \<or> (path_is_absolute p \<and> tl p = []) then [] else last p)"

section \<open>File names\<close>

lemma split_on_none: "c \<notin> set s \<Longrightarrow> split_on c s = [s]"
  by (induction s) auto

text \<open>A name without a separator is one part, so joining it to a directory is injective.\<close>

lemma path_of_name:
  assumes "CHR ''/'' \<notin> set s" and "s \<noteq> []" and "s \<noteq> ''.''"
  shows "path_of_string s = [s]"
proof -
  have "path_root s = []" using assms(1) by (cases s) (auto simp: path_root_def)
  then show ?thesis using assms by (simp add: path_of_string_def split_on_none)
qed

lemma path_join_name:
  assumes "CHR ''/'' \<notin> set s" and "s \<noteq> []" and "s \<noteq> ''.''"
  shows "path_join p (path_of_string s) = p @ [s]"
  using assms by (auto simp: path_of_name path_join_def path_is_absolute_def)

end
