(* ===== verification/Descriptor_Storage.thy ===== *)
theory Descriptor_Storage
  imports Descriptor_Updates Py_Path
begin

text \<open>
  The storage of task descriptors (\<open>src/duckdb/runners/fte/fte_descriptor.py\<close>, class
  \<open>TaskDescriptorStorage\<close>): descriptors by task id, an index by query, and spilling of the oldest
  descriptors to files once more than a quota are in memory.

  The files of the spill directory are part of the state: a path holds a pickled descriptor
  (\<open>Some d\<close>) or something else (\<open>None\<close>). Whether a descriptor can be pickled and its file moved to a path is the
  parameter \<open>writable\<close> of the path and the descriptor; a failed spill raises and removes its temporary file.
  Reading and deleting a spill file do not fail. Descriptors are stored by value, as they were
  when \<open>put\<close> was called.
\<close>

section \<open>Configuration\<close>

text \<open>The value of an environment variable, if it is set.\<close>

definition fte_descriptor_max_in_memory :: "string option \<Rightarrow> int" where
  "fte_descriptor_max_in_memory env =
     (case py_int (PStr (case env of None \<Rightarrow> ''0'' | Some v \<Rightarrow> v)) of Inl _ \<Rightarrow> 0 | Inr n \<Rightarrow> max 0 n)"

definition fte_descriptor_spill_dir :: "string option \<Rightarrow> string option" where
  "fte_descriptor_spill_dir env =
     (let raw = strip (case env of None \<Rightarrow> '''' | Some v \<Rightarrow> v) in if raw = [] then None else Some raw)"

section \<open>The storage\<close>

record descriptor_storage =
  sto_descriptors :: "(fte_task_id, task_descriptor) dict"
  sto_query_index :: "(string, fte_task_id list) dict"
  sto_spill_paths :: "(fte_task_id, path) dict"
  sto_max_in_memory :: int
  sto_spill_dir :: "path option"
  sto_files :: "(path, task_descriptor option) dict"

definition mk_storage ::
  "int option \<Rightarrow> string option \<Rightarrow> string option \<Rightarrow> string option \<Rightarrow> (path, task_descriptor option) dict \<Rightarrow> descriptor_storage" where
  "mk_storage max_in_memory spill_dir env_max env_dir files =
     \<lparr>sto_descriptors = [], sto_query_index = [], sto_spill_paths = [],
      sto_max_in_memory = max 0 (case max_in_memory of None \<Rightarrow> fte_descriptor_max_in_memory env_max | Some n \<Rightarrow> n),
      sto_spill_dir = map_option path_of_string (case spill_dir of None \<Rightarrow> fte_descriptor_spill_dir env_dir | Some d \<Rightarrow> Some d),
      sto_files = files\<rparr>"

definition spill_name :: "fte_task_id \<Rightarrow> string" where
  "spill_name key =
     task_query_id key @ ''_'' @ int_str (task_fragment_execution_id key) @ ''_'' @ int_str (task_partition_id key) @ ''.pickle''"

definition spill_path :: "path \<Rightarrow> fte_task_id \<Rightarrow> path" where
  "spill_path dir key = path_join dir (path_of_string (spill_name key))"

definition remove_spill_file :: "fte_task_id \<Rightarrow> descriptor_storage \<Rightarrow> descriptor_storage" where
  "remove_spill_file key s =
     (case dict_get (sto_spill_paths s) key of
        None \<Rightarrow> s
      | Some path \<Rightarrow> s\<lparr>sto_spill_paths := dict_pop key (sto_spill_paths s), sto_files := dict_pop path (sto_files s)\<rparr>)"

text \<open>The body of \<open>_spill_descriptor\<close> once the directory is known.\<close>

definition spill_to :: "(path \<Rightarrow> task_descriptor \<Rightarrow> bool) \<Rightarrow> path \<Rightarrow> fte_task_id \<Rightarrow> (descriptor_storage, unit) op" where
  "spill_to writable dir key s =
     (case dict_get (sto_descriptors s) key of
        None \<Rightarrow> (Inr (), s)
      | Some d \<Rightarrow>
          let path = spill_path dir key in
          if \<not> writable path d then (Inl (OSError ''write''), s)
          else (Inr (), s\<lparr>sto_files := dict_set path (Some d) (sto_files s),
                         sto_descriptors := dict_pop key (sto_descriptors s),
                         sto_spill_paths := dict_set key path (sto_spill_paths s)\<rparr>))"

definition spill_descriptor :: "(path \<Rightarrow> task_descriptor \<Rightarrow> bool) \<Rightarrow> fte_task_id \<Rightarrow> (descriptor_storage, unit) op" where
  "spill_descriptor writable key s =
     (case sto_spill_dir s of None \<Rightarrow> (Inr (), s) | Some dir \<Rightarrow> spill_to writable dir key s)"

lemma spill_to_first_smaller:
  assumes "sto_descriptors s \<noteq> []" and "spill_to writable dir (fst (hd (sto_descriptors s))) s = (Inr x, s')"
  shows "length (sto_descriptors s') < length (sto_descriptors s)"
proof -
  obtain k d rest where s: "sto_descriptors s = (k, d) # rest" using assms(1) by (cases "sto_descriptors s") auto
  have "length (dict_pop k rest) \<le> length rest" by (simp add: dict_pop_filter)
  then have "length (dict_pop k ((k, d) # rest)) < length ((k, d) # rest)" by simp
  then show ?thesis using assms(2) s by (auto simp: spill_to_def Let_def split: if_splits)
qed

text \<open>The loop of \<open>_enforce_memory_quota\<close>: the quota is positive, so a descriptor is there to spill.\<close>

function enforce_loop :: "(path \<Rightarrow> task_descriptor \<Rightarrow> bool) \<Rightarrow> path \<Rightarrow> (descriptor_storage, unit) op" where
  "enforce_loop writable dir s =
     (if sto_descriptors s = [] \<or> int (length (sto_descriptors s)) \<le> sto_max_in_memory s then (Inr (), s)
      else case spill_to writable dir (fst (hd (sto_descriptors s))) s of
        (Inl e, s') \<Rightarrow> (Inl e, s')
      | (Inr _, s') \<Rightarrow> enforce_loop writable dir s')"
  by pat_completeness auto
termination
  by (relation "measure (\<lambda>(_, _, s). length (sto_descriptors s))") (auto dest: spill_to_first_smaller [OF _ sym])

declare enforce_loop.simps [simp del]

definition enforce_memory_quota :: "(path \<Rightarrow> task_descriptor \<Rightarrow> bool) \<Rightarrow> (descriptor_storage, unit) op" where
  "enforce_memory_quota writable s =
     (if sto_max_in_memory s \<le> 0 then (Inr (), s)
      else case sto_spill_dir s of None \<Rightarrow> (Inr (), s) | Some dir \<Rightarrow> enforce_loop writable dir s)"

definition index_add :: "fte_task_id \<Rightarrow> descriptor_storage \<Rightarrow> descriptor_storage" where
  "index_add key s = s\<lparr>sto_query_index := add_to_set (task_query_id key) key (sto_query_index s)\<rparr>"

definition storage_put ::
  "(path \<Rightarrow> task_descriptor \<Rightarrow> bool) \<Rightarrow> fte_task_id ref \<Rightarrow> task_descriptor \<Rightarrow> (descriptor_storage, unit) op" where
  "storage_put writable task_id d s =
     (case task_id_coerce task_id of
        Inl e \<Rightarrow> (Inl e, s)
      | Inr key \<Rightarrow>
          if dsc_task_id d \<noteq> key then (Inl (ValueError ''descriptor task_id does not match storage key''), s)
          else
            let s1 = s\<lparr>sto_descriptors := dict_set key d (sto_descriptors s)\<rparr> in
            enforce_memory_quota writable (remove_spill_file key (index_add key s1)))"

definition load_spilled_descriptor ::
  "(path \<Rightarrow> task_descriptor \<Rightarrow> bool) \<Rightarrow> fte_task_id \<Rightarrow> bool \<Rightarrow> (descriptor_storage, task_descriptor option) op" where
  "load_spilled_descriptor writable key keep_in_memory s =
     (case dict_get (sto_spill_paths s) key of
        None \<Rightarrow> (Inr None, s)
      | Some path \<Rightarrow>
          (case dict_get (sto_files s) path of
             None \<Rightarrow> (Inr None, s)
           | Some None \<Rightarrow> (Inl (TypeError ''spilled descriptor has invalid type''), s)
           | Some (Some d) \<Rightarrow>
               if keep_in_memory then
                 let s1 = s\<lparr>sto_descriptors := dict_set key d (sto_descriptors s)\<rparr>;
                     (res, s2) = enforce_memory_quota writable (index_add key (remove_spill_file key s1)) in
                 (bindE res (\<lambda>_. Inr (Some d)), s2)
               else (Inr (Some d), s)))"

definition storage_get ::
  "(path \<Rightarrow> task_descriptor \<Rightarrow> bool) \<Rightarrow> fte_task_id ref \<Rightarrow> (descriptor_storage, task_descriptor option) op" where
  "storage_get writable task_id s =
     (case task_id_coerce task_id of
        Inl e \<Rightarrow> (Inl e, s)
      | Inr key \<Rightarrow>
          (case dict_get (sto_descriptors s) key of
             Some d \<Rightarrow> (Inr (Some d), s)
           | None \<Rightarrow>
               if dict_has (sto_spill_paths s) key then load_spilled_descriptor writable key True s
               else (Inr None, s)))"

definition storage_require ::
  "(path \<Rightarrow> task_descriptor \<Rightarrow> bool) \<Rightarrow> fte_task_id ref \<Rightarrow> (descriptor_storage, task_descriptor) op" where
  "storage_require writable task_id s =
     (case task_id_coerce task_id of
        Inl e \<Rightarrow> (Inl e, s)
      | Inr key \<Rightarrow>
          (case storage_get writable (Obj key) s of
             (Inl e, s') \<Rightarrow> (Inl e, s')
           | (Inr None, s') \<Rightarrow> (Inl (KeyError (task_id_str key)), s')
           | (Inr (Some d), s') \<Rightarrow> (Inr d, s')))"

definition index_discard :: "fte_task_id \<Rightarrow> descriptor_storage \<Rightarrow> descriptor_storage" where
  "index_discard key s =
     (case dict_get (sto_query_index s) (task_query_id key) of
        None \<Rightarrow> s
      | Some ids \<Rightarrow>
          let ids' = removeAll key ids in
          s\<lparr>sto_query_index := (if ids' = [] then dict_pop (task_query_id key) (sto_query_index s)
                               else dict_set (task_query_id key) ids' (sto_query_index s))\<rparr>)"

definition storage_remove ::
  "(path \<Rightarrow> task_descriptor \<Rightarrow> bool) \<Rightarrow> fte_task_id ref \<Rightarrow> (descriptor_storage, task_descriptor option) op" where
  "storage_remove writable task_id s =
     (case task_id_coerce task_id of
        Inl e \<Rightarrow> (Inl e, s)
      | Inr key \<Rightarrow>
          let found = dict_get (sto_descriptors s) key;
              s1 = s\<lparr>sto_descriptors := dict_pop key (sto_descriptors s)\<rparr>;
              (res, s2) = (if found = None \<and> dict_has (sto_spill_paths s1) key
                           then load_spilled_descriptor writable key False s1 else (Inr found, s1)) in
          case res of
            Inl e \<Rightarrow> (Inl e, s2)
          | Inr d \<Rightarrow> (Inr d, index_discard key (remove_spill_file key s2)))"

definition destroy_key :: "fte_task_id \<Rightarrow> descriptor_storage \<times> int \<Rightarrow> descriptor_storage \<times> int" where
  "destroy_key key st =
     (let (s, removed) = st;
          hit = (dict_has (sto_descriptors s) key \<or> dict_has (sto_spill_paths s) key);
          s1 = s\<lparr>sto_descriptors := dict_pop key (sto_descriptors s)\<rparr> in
      (remove_spill_file key s1, if hit then removed + 1 else removed))"

definition storage_destroy_query :: "string \<Rightarrow> (descriptor_storage, int) op" where
  "storage_destroy_query query_id s =
     (let keys = dict_get_default (sto_query_index s) query_id [];
          s1 = s\<lparr>sto_query_index := dict_pop query_id (sto_query_index s)\<rparr>;
          (s2, removed) = fold destroy_key keys (s1, 0) in
      (Inr removed, s2))"

definition storage_len :: "descriptor_storage \<Rightarrow> int" where
  "storage_len s = int (length (sto_descriptors s)) + int (length (sto_spill_paths s))"

definition storage_stats :: "descriptor_storage \<Rightarrow> (string, int) dict" where
  "storage_stats s =
     [(''in_memory'', int (length (sto_descriptors s))), (''spilled'', int (length (sto_spill_paths s))),
      (''total'', storage_len s), (''max_in_memory'', sto_max_in_memory s)]"

section \<open>Spill paths\<close>

lemma int_str_no_underscore [simp]: "CHR ''_'' \<notin> set (int_str i)"
proof
  assume "CHR ''_'' \<in> set (int_str i)"
  then have "\<exists>n. CHR ''_'' \<in> set (nat_str n)" by (cases "i < 0") (auto simp: int_str_def)
  then have "is_digit (CHR ''_'')" using nat_str_chars by blast
  then show False by (simp add: is_digit_def)
qed

lemma underscore_split:
  assumes "a @ CHR ''_'' # b = a' @ CHR ''_'' # b'" and "CHR ''_'' \<notin> set b" and "CHR ''_'' \<notin> set b'"
  shows "a = a' \<and> b = b'"
proof -
  have "Some (a, b) = split_last (CHR ''_'') (a @ CHR ''_'' # b)" by (rule split_last_append [OF assms(2), symmetric])
  also have "\<dots> = split_last (CHR ''_'') (a' @ CHR ''_'' # b')" unfolding assms(1) ..
  also have "\<dots> = Some (a', b')" by (rule split_last_append [OF assms(3)])
  finally show ?thesis by simp
qed

text \<open>
  A query id with a separator puts the file elsewhere: two tasks can share a file then, or the directory of the file may not exist.
\<close>

definition plain_key :: "fte_task_id \<Rightarrow> bool" where
  "plain_key k = (CHR ''/'' \<notin> set (task_query_id k))"

lemma int_str_no_slash [simp]: "CHR ''/'' \<notin> set (int_str i)"
proof
  assume "CHR ''/'' \<in> set (int_str i)"
  then have "\<exists>n. CHR ''/'' \<in> set (nat_str n)" by (cases "i < 0") (auto simp: int_str_def)
  then have "is_digit (CHR ''/'')" using nat_str_chars by blast
  then show False by (simp add: is_digit_def)
qed

lemma spill_name_part:
  assumes "plain_key k"
  shows "CHR ''/'' \<notin> set (spill_name k)" and "spill_name k \<noteq> []" and "spill_name k \<noteq> ''.''"
  using assms by (auto simp: spill_name_def plain_key_def append_eq_Cons_conv)

lemma spill_path_plain: "plain_key k \<Longrightarrow> spill_path dir k = dir @ [spill_name k]"
  unfolding spill_path_def by (intro path_join_name spill_name_part)

lemma spill_name_inject: "spill_name k = spill_name k' \<longleftrightarrow> k = k'"
proof
  assume "spill_name k = spill_name k'"
  then have 1: "(task_query_id k @ ''_'' @ int_str (task_fragment_execution_id k)) @ CHR ''_'' # int_str (task_partition_id k) =
      (task_query_id k' @ ''_'' @ int_str (task_fragment_execution_id k')) @ CHR ''_'' # int_str (task_partition_id k')"
    by (simp add: spill_name_def)
  note 2 = underscore_split [OF 1 int_str_no_underscore int_str_no_underscore]
  have 3: "task_query_id k @ CHR ''_'' # int_str (task_fragment_execution_id k) =
      task_query_id k' @ CHR ''_'' # int_str (task_fragment_execution_id k')"
    using conjunct1 [OF 2] by (simp only: append_Cons append_Nil)
  note 4 = underscore_split [OF 3 int_str_no_underscore int_str_no_underscore]
  show "k = k'" using 2 4 by (cases k; cases k') (simp only: int_str_inject fte_task_id.sel fte_task_id.inject)
qed simp

lemma spill_path_inject: "plain_key k \<Longrightarrow> plain_key k' \<Longrightarrow> spill_path dir k = spill_path dir k' \<longleftrightarrow> k = k'"
  by (simp add: spill_path_plain spill_name_inject)

text \<open>The ids \<open>q\<close> and \<open>/spill/q\<close> name the same file of the directory \<open>/spill\<close>.\<close>

lemma spill_paths_collide:
  "spill_path (path_of_string ''/spill'') (FteTaskId ''q'' 0 0) = spill_path (path_of_string ''/spill'') (FteTaskId ''/spill/q'' 0 0)"
  by code_simp

section \<open>The invariant\<close>

text \<open>The descriptor a storage holds for a key, in memory or in a file.\<close>

definition stored :: "descriptor_storage \<Rightarrow> fte_task_id \<Rightarrow> task_descriptor option" where
  "stored s k =
     (case dict_get (sto_descriptors s) k of
        Some d \<Rightarrow> Some d
      | None \<Rightarrow> (case dict_get (sto_spill_paths s) k of
                   None \<Rightarrow> None
                 | Some path \<Rightarrow> (case dict_get (sto_files s) path of Some (Some d) \<Rightarrow> Some d | _ \<Rightarrow> None)))"

definition holds :: "descriptor_storage \<Rightarrow> fte_task_id \<Rightarrow> bool" where
  "holds s k = (dict_has (sto_descriptors s) k \<or> dict_has (sto_spill_paths s) k)"

definition indexed :: "descriptor_storage \<Rightarrow> fte_task_id \<Rightarrow> bool" where
  "indexed s k = (k \<in> set (dict_get_default (sto_query_index s) (task_query_id k) []))"

definition storage_ok :: "descriptor_storage \<Rightarrow> bool" where
  "storage_ok s =
     (wf_dict (sto_descriptors s) \<and> wf_dict (sto_spill_paths s) \<and>
      (\<forall>k. dict_has (sto_descriptors s) k \<longrightarrow> \<not> dict_has (sto_spill_paths s) k) \<and>
      (\<forall>k path. dict_get (sto_spill_paths s) k = Some path \<longrightarrow>
         (\<exists>dir d. sto_spill_dir s = Some dir \<and> path = spill_path dir k \<and> dict_get (sto_files s) path = Some (Some d))) \<and>
      (\<forall>k. indexed s k \<longleftrightarrow> holds s k) \<and> (\<forall>k. holds s k \<longrightarrow> plain_key k) \<and>
      (\<forall>q. \<forall>k\<in>set (dict_get_default (sto_query_index s) q []). task_query_id k = q) \<and>
      (\<forall>q. distinct (dict_get_default (sto_query_index s) q [])))"

lemma storage_okD:
  assumes "storage_ok s"
  shows "wf_dict (sto_descriptors s)" and "wf_dict (sto_spill_paths s)"
    and "dict_has (sto_descriptors s) k \<Longrightarrow> \<not> dict_has (sto_spill_paths s) k"
    and "dict_get (sto_spill_paths s) k = Some path \<Longrightarrow>
         \<exists>dir d. sto_spill_dir s = Some dir \<and> path = spill_path dir k \<and> dict_get (sto_files s) path = Some (Some d)"
    and "indexed s k \<longleftrightarrow> holds s k"
    and "k \<in> set (dict_get_default (sto_query_index s) q []) \<Longrightarrow> task_query_id k = q"
    and "distinct (dict_get_default (sto_query_index s) q [])"
    and "holds s k \<Longrightarrow> plain_key k"
  using assms unfolding storage_ok_def by blast+

lemma storage_okI:
  assumes "wf_dict (sto_descriptors s)" and "wf_dict (sto_spill_paths s)"
    and "\<And>k. dict_has (sto_descriptors s) k \<Longrightarrow> \<not> dict_has (sto_spill_paths s) k"
    and "\<And>k path. dict_get (sto_spill_paths s) k = Some path \<Longrightarrow>
         \<exists>dir d. sto_spill_dir s = Some dir \<and> path = spill_path dir k \<and> dict_get (sto_files s) path = Some (Some d)"
    and "\<And>k. indexed s k \<longleftrightarrow> holds s k"
    and "\<And>q k. k \<in> set (dict_get_default (sto_query_index s) q []) \<Longrightarrow> task_query_id k = q"
    and "\<And>q. distinct (dict_get_default (sto_query_index s) q [])"
    and "\<And>k. holds s k \<Longrightarrow> plain_key k"
  shows "storage_ok s"
  unfolding storage_ok_def using assms by blast

lemma stored_holds: "storage_ok s \<Longrightarrow> stored s k \<noteq> None \<longleftrightarrow> holds s k"
  using storage_okD(4) [of s k]
  by (auto simp: stored_def holds_def dict_has_def split: option.splits)

lemma spill_to_ok:
  assumes "storage_ok s" and "sto_spill_dir s = Some dir" and "spill_to writable dir key s = (res, s')"
  shows "storage_ok s' \<and> stored s' = stored s \<and> sto_spill_dir s' = Some dir \<and>
         sto_max_in_memory s' = sto_max_in_memory s \<and> ((\<forall>d. stored s key = Some d \<longrightarrow> writable (spill_path dir key) d) \<longrightarrow> res = Inr ())"
proof (cases "\<exists>d. dict_get (sto_descriptors s) key = Some d \<and> writable (spill_path dir key) d")
  case False
  then show ?thesis using assms by (auto simp: spill_to_def stored_def Let_def split: option.splits if_splits)
next
  case True
  then obtain d where d: "dict_get (sto_descriptors s) key = Some d" and w: "writable (spill_path dir key) d" by auto
  note ok = storage_okD [OF assms(1)]
  have res: "res = Inr ()" and s': "s' = s\<lparr>sto_files := dict_set (spill_path dir key) (Some d) (sto_files s),
      sto_descriptors := dict_pop key (sto_descriptors s), sto_spill_paths := dict_set key (spill_path dir key) (sto_spill_paths s)\<rparr>"
    using assms(3) d w by (simp_all add: spill_to_def Let_def)
  have key: "plain_key key" using ok(8) [of key] d by (simp add: holds_def dict_has_def)
  have paths: "path = spill_path dir k" "plain_key k" if "dict_get (sto_spill_paths s) k = Some path" for k path
    using ok(4) [OF that] ok(8) [of k] that assms(2) by (auto simp: holds_def dict_has_def)
  have "storage_ok s'"
  proof (rule storage_okI)
    show "\<exists>dr d. sto_spill_dir s' = Some dr \<and> path = spill_path dr k \<and> dict_get (sto_files s') path = Some (Some d)"
      if "dict_get (sto_spill_paths s') k = Some path" for k path
    proof (cases "k = key")
      case True
      then show ?thesis using that assms(2) by (simp add: s')
    next
      case False
      then have g: "dict_get (sto_spill_paths s) k = Some path" using that by (simp add: s')
      then have "path \<noteq> spill_path dir key" using paths [OF g] False key by (simp add: spill_path_inject)
      then show ?thesis using ok(4) [OF g] by (simp add: s')
    qed
    show "indexed s' k \<longleftrightarrow> holds s' k" for k
      using ok(5) [of k] d by (auto simp: s' indexed_def holds_def dict_has_def)
    show "plain_key k" if "holds s' k" for k
      using ok(8) [of k] that key by (cases "k = key") (auto simp: s' holds_def)
  qed (use ok d in \<open>auto simp: s' dict_has_def\<close>)
  moreover have "stored s' k = stored s k" for k
  proof (cases "k = key")
    case True
    then show ?thesis using d by (simp add: stored_def s')
  next
    case False
    then have "spill_path dir key \<noteq> path" if "dict_get (sto_spill_paths s) k = Some path" for path
      using paths [OF that] key by (auto simp: spill_path_inject)
    then show ?thesis using False by (auto simp: stored_def s' split: option.splits)
  qed
  ultimately show ?thesis using res assms(2) by (auto simp: s')
qed

lemma enforce_loop_ok:
  assumes "storage_ok s" and "sto_spill_dir s = Some dir" and "enforce_loop writable dir s = (res, s')"
  shows "storage_ok s' \<and> stored s' = stored s \<and> sto_spill_dir s' = sto_spill_dir s \<and> sto_max_in_memory s' = sto_max_in_memory s \<and>
         (res = Inr () \<longrightarrow> sto_descriptors s' = [] \<or> int (length (sto_descriptors s')) \<le> sto_max_in_memory s) \<and>
         ((\<forall>k d. stored s k = Some d \<longrightarrow> writable (spill_path dir k) d) \<longrightarrow> res = Inr ())"
  using assms
proof (induction writable dir s arbitrary: res s' rule: enforce_loop.induct)
  case (1 writable dir s)
  show ?case
  proof (cases "sto_descriptors s = [] \<or> int (length (sto_descriptors s)) \<le> sto_max_in_memory s")
    case True
    then show ?thesis using "1.prems" by (simp add: enforce_loop.simps [of writable dir s])
  next
    case False
    obtain x t where t: "spill_to writable dir (fst (hd (sto_descriptors s))) s = (x, t)" by fastforce
    note st = spill_to_ok [OF "1.prems"(1,2) t]
    show ?thesis
    proof (cases x)
      case (Inl e)
      then show ?thesis using "1.prems" False t st by (auto simp: enforce_loop.simps [of writable dir s])
    next
      case (Inr u)
      then have "enforce_loop writable dir t = (res, s')"
        using "1.prems"(3) False t by (simp add: enforce_loop.simps [of writable dir s])
      then show ?thesis using "1.IH" [OF False t [symmetric], of u res s'] Inr st "1.prems"(2) by simp
    qed
  qed
qed

text \<open>Every descriptor the storage holds can be spilled.\<close>

definition spillable :: "(path \<Rightarrow> task_descriptor \<Rightarrow> bool) \<Rightarrow> descriptor_storage \<Rightarrow> bool" where
  "spillable writable s = (\<forall>dir k d. sto_spill_dir s = Some dir \<and> stored s k = Some d \<longrightarrow> writable (spill_path dir k) d)"

definition within_quota :: "descriptor_storage \<Rightarrow> bool" where
  "within_quota s = (0 < sto_max_in_memory s \<and> sto_spill_dir s \<noteq> None \<longrightarrow>
     int (length (sto_descriptors s)) \<le> sto_max_in_memory s)"

lemma enforce_memory_quota_ok:
  assumes "storage_ok s" and "enforce_memory_quota writable s = (res, s')"
  shows "storage_ok s' \<and> stored s' = stored s \<and> sto_spill_dir s' = sto_spill_dir s \<and> sto_max_in_memory s' = sto_max_in_memory s \<and>
         (res = Inr () \<longrightarrow> within_quota s') \<and> (spillable writable s \<longrightarrow> res = Inr ())"
proof (cases "sto_max_in_memory s \<le> 0 \<or> sto_spill_dir s = None")
  case True
  then have "enforce_memory_quota writable s = (Inr (), s)" by (auto simp: enforce_memory_quota_def split: option.split)
  then show ?thesis using assms True by (auto simp: within_quota_def)
next
  case False
  then obtain dir where dir: "sto_spill_dir s = Some dir" by auto
  then have "enforce_loop writable dir s = (res, s')" using assms(2) False by (simp add: enforce_memory_quota_def)
  from enforce_loop_ok [OF assms(1) dir this] show ?thesis using False dir by (auto simp: within_quota_def spillable_def)
qed

section \<open>The operations\<close>

lemma add_to_set_mem: "x \<in> set (dict_get_default (add_to_set q v m) q' []) \<longleftrightarrow> q' = q \<and> x = v \<or> x \<in> set (dict_get_default m q' [])"
  by auto

text \<open>What \<open>put\<close> and a kept load do before they enforce the quota.\<close>

definition insert_key :: "fte_task_id \<Rightarrow> task_descriptor \<Rightarrow> descriptor_storage \<Rightarrow> descriptor_storage" where
  "insert_key key d s = remove_spill_file key (index_add key (s\<lparr>sto_descriptors := dict_set key d (sto_descriptors s)\<rparr>))"

lemma insert_key_alt:
  "index_add key (remove_spill_file key (s\<lparr>sto_descriptors := dict_set key d (sto_descriptors s)\<rparr>)) = insert_key key d s"
  by (simp add: insert_key_def remove_spill_file_def index_add_def split: option.split)

lemma remove_spill_file_fields:
  "sto_descriptors (remove_spill_file key s) = sto_descriptors s"
  "sto_query_index (remove_spill_file key s) = sto_query_index s"
  "sto_max_in_memory (remove_spill_file key s) = sto_max_in_memory s"
  "sto_spill_dir (remove_spill_file key s) = sto_spill_dir s"
  "sto_spill_paths (remove_spill_file key s) = dict_pop key (sto_spill_paths s)"
  by (auto simp: remove_spill_file_def dict_pop_absent dict_has_def split: option.split)

text \<open>Deleting the file of a key leaves the files of the other keys.\<close>

lemma remove_spill_file_files:
  assumes "\<And>k path. dict_get (sto_spill_paths s) k = Some path \<Longrightarrow> path = spill_path dir k \<and> plain_key k" and "k \<noteq> key" and "plain_key k"
  shows "dict_get (sto_files (remove_spill_file key s)) (spill_path dir k) = dict_get (sto_files s) (spill_path dir k)"
proof (cases "dict_get (sto_spill_paths s) key")
  case None
  then show ?thesis by (simp add: remove_spill_file_def)
next
  case (Some path)
  then have "path \<noteq> spill_path dir k" using assms(1) [OF Some] assms(2,3) by (simp add: spill_path_inject)
  then show ?thesis using Some by (simp add: remove_spill_file_def)
qed

lemma insert_key_ok:
  assumes "storage_ok s" and "plain_key key"
  shows "storage_ok (insert_key key d s) \<and> stored (insert_key key d s) = (stored s)(key \<mapsto> d) \<and>
         sto_max_in_memory (insert_key key d s) = sto_max_in_memory s \<and> sto_spill_dir (insert_key key d s) = sto_spill_dir s"
proof -
  let ?t = "insert_key key d s" and ?s1 = "index_add key (s\<lparr>sto_descriptors := dict_set key d (sto_descriptors s)\<rparr>)"
  note ok = storage_okD [OF assms(1)]
  have spilled: "plain_key k" if "dict_get (sto_spill_paths s) k = Some path" for k path
    using ok(8) [of k] that by (simp add: holds_def dict_has_def)
  have f: "sto_descriptors ?t = dict_set key d (sto_descriptors s)" "sto_spill_paths ?t = dict_pop key (sto_spill_paths s)"
    "sto_query_index ?t = add_to_set (task_query_id key) key (sto_query_index s)" "sto_spill_dir ?t = sto_spill_dir s"
    "sto_max_in_memory ?t = sto_max_in_memory s"
    by (simp_all add: insert_key_def remove_spill_file_fields index_add_def)
  have same_file: "dict_get (sto_files ?t) path = dict_get (sto_files s) path"
    if g: "dict_get (sto_spill_paths s) k = Some path" and k: "k \<noteq> key" for k path
  proof -
    obtain dir where dir: "sto_spill_dir s = Some dir" "path = spill_path dir k" using ok(4) [OF g] by blast
    have "dict_get (sto_files (remove_spill_file key ?s1)) (spill_path dir k) = dict_get (sto_files ?s1) (spill_path dir k)"
      by (rule remove_spill_file_files [OF _ k spilled [OF g]]) (use ok(4) spilled dir(1) in \<open>fastforce simp: index_add_def\<close>)
    then show ?thesis using dir(2) by (simp add: insert_key_def index_add_def)
  qed
  have "storage_ok ?t"
  proof (rule storage_okI)
    show "\<exists>dir d. sto_spill_dir ?t = Some dir \<and> path = spill_path dir k \<and> dict_get (sto_files ?t) path = Some (Some d)"
      if "dict_get (sto_spill_paths ?t) k = Some path" for k path
    proof -
      have k: "k \<noteq> key" and g: "dict_get (sto_spill_paths s) k = Some path" using that by (auto simp: f split: if_splits)
      then show ?thesis using ok(4) [OF g] same_file [OF g k] by (simp add: f)
    qed
    show "indexed ?t k \<longleftrightarrow> holds ?t k" for k
      using ok(5) [of k] by (auto simp: indexed_def holds_def f)
    show "task_query_id k = q" if "k \<in> set (dict_get_default (sto_query_index ?t) q [])" for q k
      using that ok(6) [of k q] by (auto simp: f split: if_splits)
    show "plain_key k" if "holds ?t k" for k
      using ok(8) [of k] that assms(2) by (auto simp: holds_def f split: if_splits)
  qed (use ok(1,2,3,7) in \<open>auto simp: f\<close>)
  moreover have "stored ?t k = ((stored s)(key \<mapsto> d)) k" for k
  proof (cases "k = key")
    case True
    then show ?thesis by (simp add: stored_def f)
  next
    case False
    then show ?thesis using same_file [of k] by (auto simp: stored_def f split: option.split)
  qed
  ultimately show ?thesis using f by (simp add: fun_eq_iff)
qed

lemma storage_put_ok:
  assumes "storage_ok s" and "dsc_task_id d = key" and "plain_key key" and "storage_put writable (Obj key) d s = (res, s')"
  shows "storage_ok s' \<and> stored s' = (stored s)(key \<mapsto> d) \<and> sto_spill_dir s' = sto_spill_dir s \<and> (res = Inr () \<longrightarrow> within_quota s') \<and>
         (spillable writable s \<and> (\<forall>dir. sto_spill_dir s = Some dir \<longrightarrow> writable (spill_path dir key) d) \<longrightarrow> res = Inr ())"
proof -
  have e: "enforce_memory_quota writable (insert_key key d s) = (res, s')"
    using assms(2,4) by (simp add: storage_put_def insert_key_def Let_def)
  note i = insert_key_ok [OF assms(1,3), of d]
  have "spillable writable (insert_key key d s)"
    if "spillable writable s" "\<forall>dir. sto_spill_dir s = Some dir \<longrightarrow> writable (spill_path dir key) d"
    using that i by (auto simp: spillable_def)
  then show ?thesis using enforce_memory_quota_ok [OF _ e] i by simp
qed

lemma storage_get_ok:
  assumes "storage_ok s" and "storage_get writable (Obj key) s = (res, s')"
  shows "storage_ok s' \<and> stored s' = stored s \<and> sto_spill_dir s' = sto_spill_dir s \<and> (\<forall>r. res = Inr r \<longrightarrow> r = stored s key) \<and>
         (within_quota s \<longrightarrow> (\<exists>r. res = Inr r) \<longrightarrow> within_quota s') \<and> (spillable writable s \<longrightarrow> \<not> isl res)"
proof (cases "dict_get (sto_descriptors s) key = None \<and> dict_has (sto_spill_paths s) key")
  case False
  then show ?thesis using assms by (auto simp: storage_get_def stored_def dict_has_def split: option.splits)
next
  case True
  then obtain path where path: "dict_get (sto_spill_paths s) key = Some path" by (auto simp: dict_has_def)
  then obtain d where d: "dict_get (sto_files s) path = Some (Some d)" using storage_okD(4) [OF assms(1)] by blast
  have key: "plain_key key" using storage_okD(8) [OF assms(1)] True by (simp add: holds_def)
  have st: "stored s key = Some d" using True path d by (simp add: stored_def)
  obtain r0 where e: "enforce_memory_quota writable (insert_key key d s) = (r0, s')" and r: "res = bindE r0 (\<lambda>_. Inr (Some d))"
    using assms(2) True path d
    by (auto simp: storage_get_def load_spilled_descriptor_def insert_key_alt Let_def split: prod.splits)
  have i: "storage_ok (insert_key key d s)" "stored (insert_key key d s) = stored s" "sto_spill_dir (insert_key key d s) = sto_spill_dir s"
    using insert_key_ok [OF assms(1) key, of d] st by (auto simp: fun_eq_iff)
  note q = enforce_memory_quota_ok [OF i(1) e]
  have "spillable writable (insert_key key d s) = spillable writable s" by (simp add: spillable_def i)
  then show ?thesis using q i st r by (cases r0) auto
qed

text \<open>Removal of a key from memory and disk, without the index.\<close>

definition drop_key :: "fte_task_id \<Rightarrow> descriptor_storage \<Rightarrow> descriptor_storage" where
  "drop_key key s = remove_spill_file key (s\<lparr>sto_descriptors := dict_pop key (sto_descriptors s)\<rparr>)"

definition store_ok :: "descriptor_storage \<Rightarrow> bool" where
  "store_ok s =
     (wf_dict (sto_descriptors s) \<and> wf_dict (sto_spill_paths s) \<and>
      (\<forall>k. dict_has (sto_descriptors s) k \<longrightarrow> \<not> dict_has (sto_spill_paths s) k) \<and>
      (\<forall>k path. dict_get (sto_spill_paths s) k = Some path \<longrightarrow>
         (\<exists>dir d. sto_spill_dir s = Some dir \<and> path = spill_path dir k \<and> dict_get (sto_files s) path = Some (Some d))) \<and>
      (\<forall>k. holds s k \<longrightarrow> plain_key k))"

lemma storage_ok_iff:
  "storage_ok s \<longleftrightarrow> store_ok s \<and> (\<forall>k. indexed s k \<longleftrightarrow> holds s k) \<and>
     (\<forall>q. \<forall>k\<in>set (dict_get_default (sto_query_index s) q []). task_query_id k = q) \<and>
     (\<forall>q. distinct (dict_get_default (sto_query_index s) q []))"
  unfolding storage_ok_def store_ok_def by blast

lemma drop_key_ok:
  assumes "store_ok s"
  shows "store_ok (drop_key key s) \<and> stored (drop_key key s) = (stored s)(key := None) \<and>
         (\<forall>k. holds (drop_key key s) k \<longleftrightarrow> k \<noteq> key \<and> holds s k) \<and> sto_query_index (drop_key key s) = sto_query_index s \<and>
         sto_max_in_memory (drop_key key s) = sto_max_in_memory s \<and> sto_spill_dir (drop_key key s) = sto_spill_dir s \<and>
         length (sto_descriptors (drop_key key s)) \<le> length (sto_descriptors s)"
proof -
  let ?t = "drop_key key s" and ?s1 = "s\<lparr>sto_descriptors := dict_pop key (sto_descriptors s)\<rparr>"
  have ok: "wf_dict (sto_descriptors s)" "wf_dict (sto_spill_paths s)"
    "\<And>k. dict_has (sto_descriptors s) k \<Longrightarrow> \<not> dict_has (sto_spill_paths s) k"
    "\<And>k path. dict_get (sto_spill_paths s) k = Some path \<Longrightarrow>
         \<exists>dir d. sto_spill_dir s = Some dir \<and> path = spill_path dir k \<and> dict_get (sto_files s) path = Some (Some d)"
    "\<And>k. holds s k \<Longrightarrow> plain_key k"
    using assms unfolding store_ok_def by blast+
  have spilled: "plain_key k" if "dict_get (sto_spill_paths s) k = Some path" for k path
    using ok(5) [of k] that by (simp add: holds_def dict_has_def)
  have f: "sto_descriptors ?t = dict_pop key (sto_descriptors s)" "sto_spill_paths ?t = dict_pop key (sto_spill_paths s)"
    "sto_query_index ?t = sto_query_index s" "sto_spill_dir ?t = sto_spill_dir s" "sto_max_in_memory ?t = sto_max_in_memory s"
    by (simp_all add: drop_key_def remove_spill_file_fields)
  have same_file: "dict_get (sto_files ?t) path = dict_get (sto_files s) path"
    if g: "dict_get (sto_spill_paths s) k = Some path" and k: "k \<noteq> key" for k path
  proof -
    obtain dir where dir: "sto_spill_dir s = Some dir" "path = spill_path dir k" using ok(4) [OF g] by blast
    have "dict_get (sto_files (remove_spill_file key ?s1)) (spill_path dir k) = dict_get (sto_files ?s1) (spill_path dir k)"
      by (rule remove_spill_file_files [OF _ k spilled [OF g]]) (use ok(4) spilled dir(1) in fastforce)
    then show ?thesis using dir(2) by (simp add: drop_key_def)
  qed
  have "\<exists>dir d. sto_spill_dir ?t = Some dir \<and> path = spill_path dir k \<and> dict_get (sto_files ?t) path = Some (Some d)"
    if "dict_get (sto_spill_paths ?t) k = Some path" for k path
  proof -
    have k: "k \<noteq> key" and g: "dict_get (sto_spill_paths s) k = Some path" using that by (auto simp: f split: if_splits)
    then show ?thesis using ok(4) [OF g] same_file [OF g k] by (simp add: f)
  qed
  moreover have "plain_key k" if "holds ?t k" for k using ok(5) [of k] that by (auto simp: holds_def f split: if_splits)
  ultimately have "store_ok ?t" using ok(1-3) unfolding store_ok_def by (auto simp: f)
  moreover have "stored ?t k = ((stored s)(key := None)) k" for k
  proof (cases "k = key")
    case True
    then show ?thesis by (simp add: stored_def f)
  next
    case False
    then show ?thesis using same_file [of k] by (auto simp: stored_def f split: option.split)
  qed
  moreover have "holds ?t k \<longleftrightarrow> k \<noteq> key \<and> holds s k" for k by (auto simp: holds_def f)
  moreover have "length (sto_descriptors ?t) \<le> length (sto_descriptors s)" by (simp add: f dict_pop_filter)
  ultimately show ?thesis using f by (simp add: fun_eq_iff)
qed

lemma index_discard_fields [simp]:
  "sto_descriptors (index_discard key s) = sto_descriptors s" "sto_spill_paths (index_discard key s) = sto_spill_paths s"
  "sto_files (index_discard key s) = sto_files s" "sto_spill_dir (index_discard key s) = sto_spill_dir s"
  "sto_max_in_memory (index_discard key s) = sto_max_in_memory s"
  by (simp_all add: index_discard_def Let_def split: option.split)

lemma store_ok_index_discard [simp]: "store_ok (index_discard key s) = store_ok s"
  unfolding store_ok_def holds_def index_discard_fields ..

lemma stored_index_discard [simp]: "stored (index_discard key s) = stored s"
  unfolding stored_def index_discard_fields ..

lemma removeAll_Nil: "removeAll x xs = [] \<longleftrightarrow> set xs \<subseteq> {x}"
  by (induction xs) auto

lemma index_discard_get:
  "set (dict_get_default (sto_query_index (index_discard key s)) q []) =
   set (dict_get_default (sto_query_index s) q []) - (if q = task_query_id key then {key} else {})"
  by (auto simp: index_discard_def dict_get_default_def Let_def removeAll_Nil split: option.splits if_splits)

lemma index_discard_distinct:
  "distinct (dict_get_default (sto_query_index s) q []) \<Longrightarrow>
   distinct (dict_get_default (sto_query_index (index_discard key s)) q [])"
  by (auto simp: index_discard_def dict_get_default_def Let_def distinct_removeAll split: option.splits if_splits)

lemma storage_remove_ok:
  assumes "storage_ok s" and "storage_remove writable (Obj key) s = (res, s')"
  shows "storage_ok s' \<and> stored s' = (stored s)(key := None) \<and> res = Inr (stored s key) \<and> (within_quota s \<longrightarrow> within_quota s') \<and>
         sto_spill_dir s' = sto_spill_dir s"
proof -
  have store: "store_ok s" and idx: "\<And>k. indexed s k \<longleftrightarrow> holds s k"
    "\<And>q k. k \<in> set (dict_get_default (sto_query_index s) q []) \<Longrightarrow> task_query_id k = q"
    "\<And>q. distinct (dict_get_default (sto_query_index s) q [])"
    using assms(1) unfolding storage_ok_iff by blast+
  have dk: "store_ok (drop_key key s)" "stored (drop_key key s) = (stored s)(key := None)"
    "\<And>k. holds (drop_key key s) k \<longleftrightarrow> k \<noteq> key \<and> holds s k" "sto_query_index (drop_key key s) = sto_query_index s"
    "sto_max_in_memory (drop_key key s) = sto_max_in_memory s" "sto_spill_dir (drop_key key s) = sto_spill_dir s"
    "length (sto_descriptors (drop_key key s)) \<le> length (sto_descriptors s)"
    using drop_key_ok [OF store, of key] by blast+
  have rs: "res = Inr (stored s key) \<and> s' = index_discard key (drop_key key s)"
  proof (cases "dict_get (sto_descriptors s) key")
    case (Some d)
    then show ?thesis using assms(2) by (simp add: storage_remove_def drop_key_def stored_def Let_def)
  next
    case None
    show ?thesis
    proof (cases "dict_get (sto_spill_paths s) key")
      case n: None
      then show ?thesis using assms(2) None by (simp add: storage_remove_def drop_key_def stored_def dict_has_def Let_def)
    next
      case (Some path)
      then obtain d where "dict_get (sto_files s) path = Some (Some d)" using storage_okD(4) [OF assms(1)] by blast
      then show ?thesis using assms(2) None Some
        by (simp add: storage_remove_def drop_key_def stored_def dict_has_def load_spilled_descriptor_def Let_def)
    qed
  qed
  then have s': "s' = index_discard key (drop_key key s)" by blast
  have "stored s' = (stored s)(key := None)" "store_ok s'" using dk(1,2) unfolding s' by simp_all
  moreover have "indexed s' k \<longleftrightarrow> holds s' k" for k
  proof -
    have "holds s' k \<longleftrightarrow> holds (drop_key key s) k" unfolding s' holds_def by simp
    moreover have "indexed s' k \<longleftrightarrow> k \<noteq> key \<and> indexed s k"
      unfolding s' indexed_def index_discard_get dk(4) by auto
    ultimately show ?thesis using idx(1) dk(3) by simp
  qed
  moreover have "task_query_id k = q" if "k \<in> set (dict_get_default (sto_query_index s') q [])" for q k
    using that idx(2) [of k q] unfolding s' index_discard_get dk(4) by blast
  moreover have "distinct (dict_get_default (sto_query_index s') q [])" for q
    using index_discard_distinct [of "drop_key key s" q key] idx(3) [of q] dk(4) unfolding s' by simp
  moreover have "within_quota s \<longrightarrow> within_quota s'" "sto_spill_dir s' = sto_spill_dir s"
    using dk(5-7) unfolding s' within_quota_def by auto
  ultimately show ?thesis using rs unfolding storage_ok_iff by blast
qed

lemma destroy_loop:
  assumes "store_ok s" and "fold destroy_key keys (s, n) = (s', m)" and "distinct keys"
  shows "store_ok s' \<and> stored s' = (\<lambda>k. if k \<in> set keys then None else stored s k) \<and>
         (\<forall>k. holds s' k \<longleftrightarrow> k \<notin> set keys \<and> holds s k) \<and> sto_query_index s' = sto_query_index s \<and>
         m = n + int (length (filter (holds s) keys)) \<and> sto_max_in_memory s' = sto_max_in_memory s \<and>
         sto_spill_dir s' = sto_spill_dir s \<and> length (sto_descriptors s') \<le> length (sto_descriptors s)"
  using assms
proof (induction keys arbitrary: s n)
  case Nil
  then show ?case by simp
next
  case (Cons key keys)
  have dk: "store_ok (drop_key key s)" "stored (drop_key key s) = (stored s)(key := None)"
    "\<And>k. holds (drop_key key s) k \<longleftrightarrow> k \<noteq> key \<and> holds s k" "sto_query_index (drop_key key s) = sto_query_index s"
    "sto_max_in_memory (drop_key key s) = sto_max_in_memory s" "sto_spill_dir (drop_key key s) = sto_spill_dir s"
    "length (sto_descriptors (drop_key key s)) \<le> length (sto_descriptors s)"
    using drop_key_ok [OF Cons.prems(1), of key] by blast+
  let ?n = "if holds s key then n + 1 else n"
  have step: "destroy_key key (s, n) = (drop_key key s, ?n)"
    by (simp add: destroy_key_def drop_key_def holds_def Let_def)
  have "fold destroy_key keys (drop_key key s, ?n) = (s', m)" using Cons.prems(2) by (simp add: step)
  note IH = Cons.IH [OF dk(1) this]
  have keys: "key \<notin> set keys" "distinct keys" using Cons.prems(3) by simp_all
  have "filter (\<lambda>a. a \<noteq> key \<and> holds s a) keys = filter (holds s) keys"
    using keys(1) by (intro filter_cong) auto
  then show ?case using IH [OF keys(2)] dk(2-7) keys(1) by (auto simp: fun_eq_iff)
qed

lemma storage_destroy_query_ok:
  assumes "storage_ok s" and "storage_destroy_query q s = (res, s')"
  shows "storage_ok s' \<and> stored s' = (\<lambda>k. if task_query_id k = q then None else stored s k) \<and>
         res = Inr (int (card {k. task_query_id k = q \<and> stored s k \<noteq> None})) \<and> (within_quota s \<longrightarrow> within_quota s') \<and>
         sto_spill_dir s' = sto_spill_dir s"
proof -
  let ?keys = "dict_get_default (sto_query_index s) q []"
  let ?s1 = "s\<lparr>sto_query_index := dict_pop q (sto_query_index s)\<rparr>"
  note ok = storage_okD [OF assms(1)]
  have keys: "k \<in> set ?keys \<longleftrightarrow> task_query_id k = q \<and> holds s k" for k
    using ok(5,6) [of k] by (auto simp: indexed_def)
  have f1: "sto_descriptors ?s1 = sto_descriptors s" "sto_spill_paths ?s1 = sto_spill_paths s"
    "sto_files ?s1 = sto_files s" "sto_spill_dir ?s1 = sto_spill_dir s" by simp_all
  have s1: "store_ok ?s1" "stored ?s1 = stored s" "holds ?s1 = holds s"
    using assms(1) unfolding storage_ok_iff store_ok_def stored_def holds_def fun_eq_iff f1 by simp_all
  obtain n where f: "fold destroy_key ?keys (?s1, 0) = (s', n)" and res: "res = Inr n"
    using assms(2) by (auto simp: storage_destroy_query_def Let_def split: prod.splits)
  note l = destroy_loop [OF s1(1) f ok(7)]
  have all: "filter (holds s) ?keys = ?keys" using keys by (intro filter_True) blast
  have "n = int (card (set ?keys))" using l by (simp add: s1 all distinct_card [OF ok(7)])
  moreover have "set ?keys = {k. task_query_id k = q \<and> stored s k \<noteq> None}" using keys stored_holds [OF assms(1)] by auto
  moreover have "indexed s' k \<longleftrightarrow> holds s' k" for k
    using l keys [of k] ok(5) [of k] by (auto simp: indexed_def s1 dict_get_default_def)
  moreover have "task_query_id k = q'" if "k \<in> set (dict_get_default (sto_query_index s') q' [])" for q' k
    using that l ok(6) [of k q'] by (auto simp: dict_get_default_def split: if_splits)
  moreover have "distinct (dict_get_default (sto_query_index s') q' [])" for q'
    using l ok(7) [of q'] by (auto simp: dict_get_default_def)
  moreover have "stored s' = (\<lambda>k. if task_query_id k = q then None else stored s k)"
  proof
    fix k
    have "stored s' k = (if k \<in> set ?keys then None else stored s k)" using l unfolding s1(2) by simp
    then show "stored s' k = (if task_query_id k = q then None else stored s k)"
      using keys [of k] stored_holds [OF assms(1), of k] by auto
  qed
  moreover have "within_quota s \<longrightarrow> within_quota s'" using l by (auto simp: within_quota_def)
  ultimately show ?thesis using l res by (simp add: storage_ok_iff)
qed

section \<open>A keyed store\<close>

text \<open>
  The calls a client makes of a store of values by key, the answers they give, and what they do to a
  plain map: the specification of the storage.
\<close>

datatype ('k, 'v, 'q) store_call = Put 'k 'v | Get 'k | Remove 'k | Destroy 'q

datatype 'v answer = Stored | Found "'v option" | Destroyed int

fun map_call :: "('q \<Rightarrow> 'k \<Rightarrow> bool) \<Rightarrow> ('k, 'v, 'q) store_call \<Rightarrow> ('k \<rightharpoonup> 'v) \<Rightarrow> 'v answer \<times> ('k \<rightharpoonup> 'v)" where
  "map_call belongs (Put k v) m = (Stored, m(k \<mapsto> v))"
| "map_call belongs (Get k) m = (Found (m k), m)"
| "map_call belongs (Remove k) m = (Found (m k), m(k := None))"
| "map_call belongs (Destroy q) m =
     (Destroyed (int (card {k. belongs q k \<and> m k \<noteq> None})), \<lambda>k. if belongs q k then None else m k)"

fun map_calls :: "('q \<Rightarrow> 'k \<Rightarrow> bool) \<Rightarrow> ('k, 'v, 'q) store_call list \<Rightarrow> ('k \<rightharpoonup> 'v) \<Rightarrow> 'v answer list \<times> ('k \<rightharpoonup> 'v)" where
  "map_calls belongs [] m = ([], m)"
| "map_calls belongs (c # cs) m =
     (let (a, m1) = map_call belongs c m; (as, m2) = map_calls belongs cs m1 in (a # as, m2))"

locale keyed_store =
  fixes call :: "('k, 'v, 'q) store_call \<Rightarrow> ('s, 'v answer) op"
    and lookup :: "'s \<Rightarrow> 'k \<Rightarrow> 'v option"
    and belongs :: "'q \<Rightarrow> 'k \<Rightarrow> bool"
    and inv :: "'s \<Rightarrow> bool"
    and bounded :: "'s \<Rightarrow> bool"
    and allowed :: "('k, 'v, 'q) store_call \<Rightarrow> bool"
  assumes call_inv: "inv s \<Longrightarrow> allowed c \<Longrightarrow> call c s = (r, s') \<Longrightarrow> inv s'"
    and call_answer: "inv s \<Longrightarrow> allowed c \<Longrightarrow> call c s = (Inr a, s') \<Longrightarrow> map_call belongs c (lookup s) = (a, lookup s')"
    and call_bounded: "inv s \<Longrightarrow> allowed c \<Longrightarrow> bounded s \<Longrightarrow> call c s = (Inr a, s') \<Longrightarrow> bounded s'"
begin

lemma calls_refine:
  assumes "inv s" and "list_all allowed cs" and "mapS call cs s = (Inr as, s')"
  shows "inv s' \<and> map_calls belongs cs (lookup s) = (as, lookup s') \<and> (bounded s \<longrightarrow> bounded s')"
  using assms
proof (induction cs arbitrary: s as)
  case Nil
  then show ?case by simp
next
  case (Cons c cs)
  from Cons.prems(3) obtain a s1 as1 where c: "call c s = (Inr a, s1)" and cs: "mapS call cs s1 = (Inr as1, s')"
    and as: "as = a # as1"
    by (auto simp: bindS_eq_Inr)
  have a: "allowed c" and al: "list_all allowed cs" using Cons.prems(2) by simp_all
  have i: "inv s1" by (rule call_inv [OF Cons.prems(1) a c])
  show ?case
    using Cons.IH [OF i al cs] call_answer [OF Cons.prems(1) a c] call_bounded [OF Cons.prems(1) a _ c] as by auto
qed

end

text \<open>A store whose calls never raise, on the calls a client may make.\<close>

locale total_store = keyed_store +
  assumes call_total: "inv s \<Longrightarrow> allowed c \<Longrightarrow> \<exists>a s'. call c s = (Inr a, s')"
begin

lemma calls_total:
  assumes "inv s" and "list_all allowed cs"
  shows "\<exists>as s'. mapS call cs s = (Inr as, s')"
  using assms
proof (induction cs arbitrary: s)
  case (Cons c cs)
  obtain a s1 where c: "call c s = (Inr a, s1)" using call_total [OF Cons.prems(1), of c] Cons.prems(2) by auto
  obtain as s' where "mapS call cs s1 = (Inr as, s')"
    using Cons.IH [OF call_inv [OF Cons.prems(1) _ c]] Cons.prems(2) by auto
  then show ?case using c by (auto simp: bindS_eq_Inr)
qed simp

end

text \<open>The calls of a \<open>TaskDescriptorStorage\<close>.\<close>

fun storage_call ::
  "(path \<Rightarrow> task_descriptor \<Rightarrow> bool) \<Rightarrow> (fte_task_id, task_descriptor, string) store_call \<Rightarrow> (descriptor_storage, task_descriptor answer) op" where
  "storage_call writable (Put k d) = bindS (storage_put writable (Obj k) d) (\<lambda>_. retS Stored)"
| "storage_call writable (Get k) = bindS (storage_get writable (Obj k)) (\<lambda>d. retS (Found d))"
| "storage_call writable (Remove k) = bindS (storage_remove writable (Obj k)) (\<lambda>d. retS (Found d))"
| "storage_call writable (Destroy q) = bindS (storage_destroy_query q) (\<lambda>n. retS (Destroyed n))"

definition of_query :: "string \<Rightarrow> fte_task_id \<Rightarrow> bool" where
  "of_query q k = (task_query_id k = q)"

text \<open>A call that puts a descriptor only under an id whose query id is a plain file name.\<close>

fun plain_call :: "(fte_task_id, task_descriptor, string) store_call \<Rightarrow> bool" where
  "plain_call (Put k d) = plain_key k"
| "plain_call _ = True"

text \<open>The descriptor of a \<open>put\<close> can be spilled to its file in the directory.\<close>

fun spills_call ::
  "(path \<Rightarrow> task_descriptor \<Rightarrow> bool) \<Rightarrow> path option \<Rightarrow> (fte_task_id, task_descriptor, string) store_call \<Rightarrow> bool" where
  "spills_call writable sd (Put k d) = (\<forall>dir. sd = Some dir \<longrightarrow> writable (spill_path dir k) d)"
| "spills_call writable sd _ = True"

text \<open>A \<open>put\<close> under a key that is not the task id of the descriptor raises.\<close>

fun own_key :: "(fte_task_id, task_descriptor, string) store_call \<Rightarrow> bool" where
  "own_key (Put k d) = (dsc_task_id d = k)"
| "own_key _ = True"

lemma put_other_key:
  "dsc_task_id d \<noteq> k \<Longrightarrow>
   storage_put writable (Obj k) d s = (Inl (ValueError ''descriptor task_id does not match storage key''), s)"
  by (simp add: storage_put_def)

lemma storage_call_inv:
  assumes "storage_ok s" and "plain_call c" and "storage_call writable c s = (r, s')"
  shows "storage_ok s' \<and> sto_spill_dir s' = sto_spill_dir s"
proof (cases c)
  case (Put k d)
  then have k: "plain_key k" using assms(2) by simp
  show ?thesis using assms Put storage_put_ok [OF assms(1) _ k, of d] put_other_key [of d k]
    by (cases "dsc_task_id d = k") (auto simp: bindS_def split: prod.splits sum.splits)
next
  case (Get k)
  then show ?thesis using assms storage_get_ok [OF assms(1)] by (fastforce simp: bindS_def split: prod.splits sum.splits)
next
  case (Remove k)
  then show ?thesis using assms storage_remove_ok [OF assms(1)] by (fastforce simp: bindS_def split: prod.splits sum.splits)
next
  case (Destroy q)
  then show ?thesis using assms storage_destroy_query_ok [OF assms(1)]
    by (fastforce simp: bindS_def split: prod.splits sum.splits)
qed

lemma storage_call_answer:
  assumes "storage_ok s" and "plain_call c" and "storage_call writable c s = (Inr a, s')"
  shows "map_call of_query c (stored s) = (a, stored s') \<and> (within_quota s \<longrightarrow> within_quota s')"
proof (cases c)
  case (Put k d)
  then have p: "storage_put writable (Obj k) d s = (Inr (), s')" and a: "a = Stored" and k: "plain_key k"
    using assms(2,3) by (auto simp: bindS_eq_Inr)
  then have "dsc_task_id d = k" using put_other_key [of d k writable s] by auto
  from storage_put_ok [OF assms(1) this k p] Put a show ?thesis by simp
next
  case (Get k)
  then obtain d where "storage_get writable (Obj k) s = (Inr d, s')" and "a = Found d"
    using assms(3) by (auto simp: bindS_eq_Inr)
  with storage_get_ok [OF assms(1) this(1)] Get show ?thesis by simp
next
  case (Remove k)
  then obtain d where "storage_remove writable (Obj k) s = (Inr d, s')" and "a = Found d"
    using assms(3) by (auto simp: bindS_eq_Inr)
  with storage_remove_ok [OF assms(1) this(1)] Remove show ?thesis by simp
next
  case (Destroy q)
  then obtain n where "storage_destroy_query q s = (Inr n, s')" and "a = Destroyed n"
    using assms(3) by (auto simp: bindS_eq_Inr)
  with storage_destroy_query_ok [OF assms(1) this(1)] Destroy show ?thesis by (simp add: of_query_def)
qed

text \<open>A store that can spill everything it holds, and the calls that keep it so.\<close>

definition spilling_ok :: "(path \<Rightarrow> task_descriptor \<Rightarrow> bool) \<Rightarrow> path option \<Rightarrow> descriptor_storage \<Rightarrow> bool" where
  "spilling_ok writable sd s = (storage_ok s \<and> sto_spill_dir s = sd \<and> spillable writable s)"

definition good_call ::
  "(path \<Rightarrow> task_descriptor \<Rightarrow> bool) \<Rightarrow> path option \<Rightarrow> (fte_task_id, task_descriptor, string) store_call \<Rightarrow> bool" where
  "good_call writable sd c = (plain_call c \<and> own_key c \<and> spills_call writable sd c)"

lemma good_call_spillable:
  assumes "spilling_ok writable sd s" and "good_call writable sd c" and "storage_call writable c s = (r, s')"
  shows "spilling_ok writable sd s'"
proof -
  have ok: "storage_ok s" "sto_spill_dir s = sd" "spillable writable s" using assms(1) by (simp_all add: spilling_ok_def)
  have c: "plain_call c" "own_key c" "spills_call writable sd c" using assms(2) by (simp_all add: good_call_def)
  have "stored s' k = Some d \<Longrightarrow> stored s k = Some d \<or> c = Put k d" for k d
  proof (cases c)
    case (Put k' d')
    then obtain r' where "storage_put writable (Obj k') d' s = (r', s')"
      using assms(3) by (auto simp: bindS_def split: prod.splits sum.splits)
    moreover assume "stored s' k = Some d"
    ultimately show ?thesis
      using storage_put_ok [OF ok(1), of d' k' writable r' s'] c Put by (auto split: if_splits)
  next
    case (Get k')
    then obtain r' where "storage_get writable (Obj k') s = (r', s')"
      using assms(3) by (auto simp: bindS_def split: prod.splits sum.splits)
    moreover assume "stored s' k = Some d"
    ultimately show ?thesis using storage_get_ok [OF ok(1)] by metis
  next
    case (Remove k')
    then obtain r' where "storage_remove writable (Obj k') s = (r', s')"
      using assms(3) by (auto simp: bindS_def split: prod.splits sum.splits)
    moreover assume "stored s' k = Some d"
    ultimately show ?thesis using storage_remove_ok [OF ok(1), of writable k' r' s'] by (auto split: if_splits)
  next
    case (Destroy q)
    then obtain r' where "storage_destroy_query q s = (r', s')"
      using assms(3) by (auto simp: bindS_def split: prod.splits sum.splits)
    moreover assume "stored s' k = Some d"
    ultimately show ?thesis using storage_destroy_query_ok [OF ok(1), of q r' s'] by (auto split: if_splits)
  qed
  moreover have "storage_ok s'" "sto_spill_dir s' = sd" using storage_call_inv [OF ok(1) c(1) assms(3)] ok(2) by simp_all
  ultimately show ?thesis using ok c by (fastforce simp: spilling_ok_def spillable_def)
qed

lemma good_call_total:
  assumes "spilling_ok writable sd s" and "good_call writable sd c"
  shows "\<exists>a s'. storage_call writable c s = (Inr a, s')"
proof -
  have ok: "storage_ok s" "sto_spill_dir s = sd" "spillable writable s" using assms(1) by (simp_all add: spilling_ok_def)
  have c: "plain_call c" "own_key c" "spills_call writable sd c" using assms(2) by (simp_all add: good_call_def)
  show ?thesis
  proof (cases c)
    case (Put k d)
    obtain r s' where p: "storage_put writable (Obj k) d s = (r, s')" by fastforce
    with storage_put_ok [OF ok(1) _ _ p] ok c Put show ?thesis by (auto simp: bindS_def)
  next
    case (Get k)
    obtain r s' where p: "storage_get writable (Obj k) s = (r, s')" by fastforce
    with storage_get_ok [OF ok(1) p] ok(3) Get show ?thesis by (cases r) (auto simp: bindS_def)
  next
    case (Remove k)
    obtain r s' where p: "storage_remove writable (Obj k) s = (r, s')" by fastforce
    with storage_remove_ok [OF ok(1) p] Remove show ?thesis by (auto simp: bindS_def)
  next
    case (Destroy q)
    obtain r s' where p: "storage_destroy_query q s = (r, s')" by fastforce
    with storage_destroy_query_ok [OF ok(1) p] Destroy show ?thesis by (auto simp: bindS_def)
  qed
qed

interpretation storage: keyed_store "storage_call writable" stored of_query storage_ok within_quota plain_call
  by unfold_locales (blast dest: storage_call_inv storage_call_answer)+

interpretation disk: total_store "storage_call writable" stored of_query "spilling_ok writable sd" within_quota "good_call writable sd"
proof unfold_locales
  fix s c r s'
  assume "spilling_ok writable sd s" "good_call writable sd c" "storage_call writable c s = (r, s')"
  then show "spilling_ok writable sd s'" by (rule good_call_spillable)
next
  fix s c a s'
  assume "spilling_ok writable sd s" "good_call writable sd c" "storage_call writable c s = (Inr a, s')"
  then show "map_call of_query c (stored s) = (a, stored s')" and "within_quota s \<Longrightarrow> within_quota s'"
    using storage_call_answer unfolding spilling_ok_def good_call_def by blast+
next
  fix s c
  assume "spilling_ok writable sd s" "good_call writable sd c"
  then show "\<exists>a s'. storage_call writable c s = (Inr a, s')" by (rule good_call_total)
qed

section \<open>Properties\<close>

lemma fresh_storage_ok:
  "storage_ok (mk_storage mx dir env_max env_dir files) \<and> stored (mk_storage mx dir env_max env_dir files) = Map.empty \<and>
   within_quota (mk_storage mx dir env_max env_dir files)"
  by (auto simp: mk_storage_def storage_ok_def stored_def holds_def indexed_def within_quota_def dict_has_def
      dict_get_default_def wf_dict_def fun_eq_iff)


lemma fresh_spilling_ok: "spilling_ok writable (sto_spill_dir (mk_storage mx dir env_max env_dir files)) (mk_storage mx dir env_max env_dir files)"
  using fresh_storage_ok [of mx dir env_max env_dir files] by (simp add: spilling_ok_def spillable_def)

lemma good_calls:
  "list_all (good_call writable sd) cs \<longleftrightarrow>
   (\<forall>k d. Put k d \<in> set cs \<longrightarrow> dsc_task_id d = k \<and> CHR ''/'' \<notin> set (task_query_id k) \<and>
      (\<forall>dir. sd = Some dir \<longrightarrow> writable (spill_path dir k) d))"
proof -
  have "good_call writable sd c \<longleftrightarrow> (\<forall>k d. c = Put k d \<longrightarrow> dsc_task_id d = k \<and> CHR ''/'' \<notin> set (task_query_id k) \<and>
      (\<forall>dir. sd = Some dir \<longrightarrow> writable (spill_path dir k) d))" for c
    by (cases c) (auto simp: good_call_def plain_key_def)
  then show ?thesis unfolding list_all_iff by blast
qed

lemma plain_calls: "list_all plain_call cs \<longleftrightarrow> (\<forall>k d. Put k d \<in> set cs \<longrightarrow> CHR ''/'' \<notin> set (task_query_id k))"
proof -
  have "plain_call c \<longleftrightarrow> (\<forall>k d. c = Put k d \<longrightarrow> CHR ''/'' \<notin> set (task_query_id k))" for c
    by (cases c) (auto simp: plain_key_def)
  then show ?thesis unfolding list_all_iff by blast
qed


definition sample_descriptor :: "int \<Rightarrow> task_descriptor" where
  "sample_descriptor p = projr (mk_descriptor (Obj (FteTaskId ''q'' 0 p)) ''f'' descriptor_defaults)"

lemma sample_descriptor_id [simp]: "dsc_task_id (sample_descriptor p) = FteTaskId ''q'' 0 p"
  by (simp add: sample_descriptor_def mk_descriptor_def descriptor_defaults_def mapping_or_empty_def
      normalize_output_buffers_def normalize_initial_splits_def strip_def py_ws_def)

definition sample_calls :: "(fte_task_id, task_descriptor, string) store_call list" where
  "sample_calls =
     [Put (FteTaskId ''q'' 0 0) (sample_descriptor 0), Put (FteTaskId ''q'' 0 1) (sample_descriptor 1),
      Get (FteTaskId ''q'' 0 0), Destroy ''q'']"

lemma sample_calls_good:
  "Put k d \<in> set sample_calls \<Longrightarrow> dsc_task_id d = k \<and> CHR ''/'' \<notin> set (task_query_id k)"
  by (auto simp: sample_calls_def)

lemma put_two_destroy:
  assumes "k0 \<noteq> k1" and "\<And>k. k \<in> {k0, k1} \<Longrightarrow> belongs q k"
  shows "map_calls belongs [Put k0 d0, Put k1 d1, Get k0, Destroy q] Map.empty =
    ([Stored, Stored, Found (Some d0), Destroyed 2], Map.empty)"
proof -
  have "{k. k \<noteq> k0 \<longrightarrow> k = k1} = {k0, k1}" by auto
  then have "card {k. k \<noteq> k0 \<longrightarrow> k = k1} = 2" using assms(1) by simp
  then show ?thesis using assms by (auto simp: fun_eq_iff)
qed

lemma sample_calls_map:
  "map_calls of_query sample_calls Map.empty = ([Stored, Stored, Found (Some (sample_descriptor 0)), Destroyed 2], Map.empty)"
  unfolding sample_calls_def by (rule put_two_destroy) (auto simp: of_query_def)


text \<open>
  C27. No sequence of calls on a fresh storage raises, provided that every descriptor is put under its own task id, that its query
  id has no slash in it, and that with a spill directory it can be pickled and written to its file there: the loop that spills down
  to the quota ends, and a spilled descriptor is always found again in its file. A \<open>put\<close> whose spill fails raises, and yet neither
  that descriptor nor any other is lost.
\<close>

theorem storage_calls_succeed:
  assumes "s0 = mk_storage max_in_memory spill_dir env_max env_dir files"
    and "\<forall>k d. Put k d \<in> set cs \<longrightarrow> dsc_task_id d = k \<and> CHR ''/'' \<notin> set (task_query_id k) \<and>
           (\<forall>dir. sto_spill_dir s0 = Some dir \<longrightarrow> writable (spill_path dir k) d)"
    and "dsc_task_id d = k" and "CHR ''/'' \<notin> set (task_query_id k)"
  shows "\<exists>answers s. mapS (storage_call writable) cs s0 = (Inr answers, s) \<and>
           (\<forall>writable'. stored (snd (storage_put writable' (Obj k) d s)) = (stored s)(k \<mapsto> d))"
proof -
  have s0: "spilling_ok writable (sto_spill_dir s0) s0" unfolding assms(1) by (rule fresh_spilling_ok)
  have good: "list_all (good_call writable (sto_spill_dir s0)) cs" unfolding good_calls by (rule assms(2))
  obtain answers s where run: "mapS (storage_call writable) cs s0 = (Inr answers, s)"
    using disk.calls_total [OF s0 good] by blast
  have s: "storage_ok s" using disk.calls_refine [OF s0 good run] unfolding spilling_ok_def by blast
  have "stored (snd (storage_put writable' (Obj k) d s)) = (stored s)(k \<mapsto> d)" for writable'
    using storage_put_ok [OF s assms(3), of writable' "fst (storage_put writable' (Obj k) d s)"] assms(4)
    by (simp add: plain_key_def)
  then show ?thesis using run by blast
qed

theorem storage_calls_succeed_witness:
  "\<exists>answers s. mapS (storage_call (\<lambda>_ _. True)) sample_calls (mk_storage (Some 1) (Some ''/spill'') None None []) = (Inr answers, s) \<and>
     stored (snd (storage_put (\<lambda>_ _. False) (Obj (FteTaskId ''q'' 0 2)) (sample_descriptor 2) s)) =
       [FteTaskId ''q'' 0 2 \<mapsto> sample_descriptor 2]"
proof -
  let ?s0 = "mk_storage (Some 1) (Some ''/spill'') None None []"
  have "\<forall>k d. Put k d \<in> set sample_calls \<longrightarrow> dsc_task_id d = k \<and> CHR ''/'' \<notin> set (task_query_id k) \<and>
      (\<forall>dir. sto_spill_dir ?s0 = Some dir \<longrightarrow> True)"
    using sample_calls_good by blast
  from storage_calls_succeed [OF refl this sample_descriptor_id [of 2]]
  obtain as s where run: "mapS (storage_call (\<lambda>_ _. True)) sample_calls ?s0 = (Inr as, s)"
    and put: "\<And>writable'. stored (snd (storage_put writable' (Obj (FteTaskId ''q'' 0 2)) (sample_descriptor 2) s)) =
        (stored s)(FteTaskId ''q'' 0 2 \<mapsto> sample_descriptor 2)"
    by auto
  have "list_all plain_call sample_calls" unfolding plain_calls using sample_calls_good by blast
  from storage.calls_refine [OF conjunct1 [OF fresh_storage_ok] this run] have "stored s = Map.empty"
    using sample_calls_map unfolding conjunct1 [OF conjunct2 [OF fresh_storage_ok]] by simp
  then show ?thesis using run put [of "\<lambda>_ _. False"] by (intro exI [where x = as] exI [where x = s]) simp
qed

end
