(* ===== verification/Fte_Execution.thy ===== *)
theory Fte_Execution
  imports Fte_Partition Descriptor_Storage Update_Batch
begin

text \<open>
  The execution of one plan fragment (\<open>src/duckdb/runners/fte/fte_execution.py\<close>, class
  \<open>FteFragmentExecution\<close>): its partitions, the application of assignment results and task updates,
  the scheduling of attempts, worker failures, task statuses, and the commands it records for the
  workers.

  The callbacks and the workers are not part of the class. A callback is an operation on the
  execution, because the callbacks of the ray runner call back into it; a worker method answers with a
  result or an exception that may depend on all calls made before, which the state keeps in
  \<open>exe_calls\<close>. \<open>exe_recorded\<close> is a history of all recorded commands. The locks serialise the
  methods: a method is one atomic operation here, except that the attempt admission callback, which
  runs without the state lock, may change the execution in between.
\<close>

section \<open>Exceptions\<close>

definition worker_control_failure_error ::
  "string option \<Rightarrow> fte_task_attempt_id \<Rightarrow> string \<Rightarrow> py_error \<Rightarrow> py_error" where
  "worker_control_failure_error worker_id attempt method cause =
     WorkerControlFailure (case worker_id of None \<Rightarrow> '''' | Some w \<Rightarrow> w) (attempt_id_str attempt) method cause"

definition worker_reservation_unavailable ::
  "string \<Rightarrow> string \<Rightarrow> int \<Rightarrow> int option \<Rightarrow> string \<Rightarrow> py_error" where
  "worker_reservation_unavailable query_id fragment_id partition_id memory blocked =
     WorkerReservationUnavailable
       (''no FTE worker reservation available for '' @ query_id @ ''/'' @ fragment_id @ ''/'' @ int_str partition_id @
        '' memory_requirement_bytes='' @ (case memory of None \<Rightarrow> ''None'' | Some m \<Rightarrow> int_str m) @
        '' blocked_reason='' @ (if blocked = [] then ''<none>'' else blocked))"

section \<open>Progress statistics of a status\<close>

definition task_status_progress_keys :: "string list" where
  "task_status_progress_keys =
     [''submitted_split_count'', ''queued_split_count'', ''consumed_split_count'', ''completed_split_count'',
      ''submitted_split_count_by_source'', ''queued_split_count_by_source'', ''consumed_split_count_by_source'',
      ''completed_split_count_by_source'', ''submitted_split_bytes'', ''submitted_split_bytes_by_source'',
      ''queued_split_bytes'', ''queued_split_bytes_by_source'', ''consumed_split_bytes'',
      ''consumed_split_bytes_by_source'', ''completed_split_bytes'', ''completed_split_bytes_by_source'',
      ''queue_wait_ms'', ''queue_wait_ms_by_source'', ''submitted_input_rows'', ''submitted_input_rows_by_source'',
      ''submitted_input_bytes'', ''submitted_input_bytes_by_source'', ''consumed_input_rows'',
      ''consumed_input_rows_by_source'', ''consumed_input_bytes'', ''consumed_input_bytes_by_source'',
      ''completed_input_rows'', ''completed_input_rows_by_source'', ''completed_input_bytes'',
      ''completed_input_bytes_by_source'', ''udf_running_task_count'', ''udf_queued_task_count'',
      ''udf_max_running_tasks'', ''udf_completed_rows'', ''udf_completed_bytes'', ''udf_emitted_rows'',
      ''udf_emitted_bytes'']"

definition task_status_progress_stats :: "(string, pyval) dict \<Rightarrow> (string, pyval) dict" where
  "task_status_progress_stats status =
     List.map_filter (\<lambda>k. map_option (Pair k) (some_value status k)) task_status_progress_keys"

section \<open>State and environment\<close>

datatype worker_call =
    SetTaskExecutionClass worker fte_task_attempt_id exec_class
  | CancelTask worker "(string, pyval) dict"
  | ResultReady bool worker fte_task_attempt_id
  | TaskTerminal bool worker fte_task_attempt_id
  | EnsureFragmentRegistered worker string string pyval
  | TaskStarted worker fte_task_attempt_id "(string, pyval) dict"
  | SplitsAdded worker fte_task_attempt_id int
  | SplitBytesAdded worker fte_task_attempt_id int

record fragment_execution =
  exe_query_id :: string
  exe_fragment_execution_id :: int
  exe_fragment_id :: string
  exe_worker :: "worker option"
  exe_worker_id :: "string option"
  exe_descriptor_storage :: descriptor_storage
  exe_max_attempts :: int
  exe_exchange :: "exchange_tracker option"
  exe_context :: "(string, pyval) dict"
  exe_resource_request :: "(string, pyval) dict"
  exe_fragment_plan :: pyval
  exe_fragment_registration_result :: pyval
  exe_task_context_info :: "(string, pyval) dict"
  exe_execution_class :: exec_class
  exe_source_node_ids :: "string list"
  exe_dynamic_scan_source_node_ids :: "string list"
  exe_dynamic_exchange_source_node_ids :: "string list"
  exe_partitions :: "(int, task_partition) dict"
  exe_failed :: bool
  exe_no_more_partitions :: bool
  exe_current_worker_commands :: "worker_command list option"
  exe_worker_command_outbox :: "worker_command list"
  exe_task_memory_bytes :: int
  exe_ticks :: nat
  exe_calls :: "worker_call list"
  exe_recorded :: "worker_command list"

text \<open>
  What a worker selector returns: a pair of worker id and worker, or a worker object, with its
  \<open>worker_id\<close> attribute if it has one.
\<close>

datatype selected_worker = SelPair "string option" "worker option" | SelWorker worker "string option"

text \<open>
  The callbacks, the methods of the workers, whether a worker has the methods that do not drain,
  the clock, the environment variables that limit batches, whether two payload values are the same
  object, which descriptors can be spilled where, and the configuration of the default descriptor
  storage.
\<close>

record environment =
  env_worker_selector :: "(int \<Rightarrow> (fragment_execution, selected_worker) op) option"
  env_class_transition :: "(execution_class_transition list \<Rightarrow> (fragment_execution, unit) op) option"
  env_execution_admission :: "(int \<Rightarrow> (fragment_execution, bool) op) option"
  env_attempt_admission :: "(int \<Rightarrow> (fragment_execution, bool) op) option"
  env_worker_reservation :: "(int \<Rightarrow> (fragment_execution, bool) op) option"
  env_worker_call :: "worker_call list \<Rightarrow> worker_call \<Rightarrow> pyval res"
  env_without_drain :: "worker \<Rightarrow> bool"
  env_time :: "nat \<Rightarrow> rat"
  env_max_splits :: "string option"
  env_max_payload_bytes :: "string option"
  env_is :: "pyval \<Rightarrow> pyval \<Rightarrow> bool"
  env_writable :: "path \<Rightarrow> task_descriptor \<Rightarrow> bool"
  env_storage_max :: "string option"
  env_storage_dir :: "string option"

record execution_args =
  arg_worker :: "worker option"
  arg_worker_id :: "string option"
  arg_descriptor_storage :: "descriptor_storage option"
  arg_max_attempts :: int
  arg_exchange :: "exchange_tracker option"
  arg_context :: "(string, pyval) dict"
  arg_resource_request :: "(string, pyval) dict"
  arg_fragment_plan :: pyval
  arg_fragment_registration_result :: pyval
  arg_task_context_info :: "(string, pyval) dict"
  arg_source_node_ids :: "string list option"
  arg_dynamic_scan_source_node_ids :: "string list option"
  arg_dynamic_exchange_source_node_ids :: "string list option"
  arg_task_memory_bytes :: int

definition mk_execution :: "environment \<Rightarrow> string \<Rightarrow> int \<Rightarrow> string \<Rightarrow> execution_args \<Rightarrow> fragment_execution res" where
  "mk_execution E query_id fragment_execution_id fragment_id c =
     (let q = strip query_id; f = strip fragment_id;
          metadata = [Some (arg_context c), Some (arg_resource_request c), Some (arg_task_context_info c)];
          exchanges = normalize_sources (arg_dynamic_exchange_source_node_ids c) in
      if q = [] then Inl (ValueError ''query_id must be non-empty'')
      else
        bindE (check_non_negative ''fragment_execution_id'' fragment_execution_id) (\<lambda>fid.
        if f = [] then Inl (ValueError ''fragment_id must be non-empty'')
        else if arg_max_attempts c \<le> 0 then Inl (ValueError ''max_attempts must be positive'')
        else
          bindE (fte_task_execution_class_from_metadata metadata) (\<lambda>cls.
          if arg_task_memory_bytes c \<le> 0 then Inl (ValueError ''FTE task_memory_bytes must be positive'')
          else
            Inr \<lparr>exe_query_id = q, exe_fragment_execution_id = fid, exe_fragment_id = f,
                 exe_worker = arg_worker c, exe_worker_id = arg_worker_id c,
                 exe_descriptor_storage =
                   (case arg_descriptor_storage c of
                      None \<Rightarrow> mk_storage None None (env_storage_max E) (env_storage_dir E) [] | Some st \<Rightarrow> st),
                 exe_max_attempts = arg_max_attempts c, exe_exchange = arg_exchange c, exe_context = arg_context c,
                 exe_resource_request = arg_resource_request c, exe_fragment_plan = arg_fragment_plan c,
                 exe_fragment_registration_result = arg_fragment_registration_result c,
                 exe_task_context_info = arg_task_context_info c,
                 exe_execution_class =
                   (if \<not> fte_task_execution_class_metadata_present metadata \<and> exchanges \<noteq> [] then SPECULATIVE else cls),
                 exe_source_node_ids = normalize_sources (arg_source_node_ids c),
                 exe_dynamic_scan_source_node_ids = normalize_sources (arg_dynamic_scan_source_node_ids c),
                 exe_dynamic_exchange_source_node_ids = exchanges, exe_partitions = [], exe_failed = False,
                 exe_no_more_partitions = False, exe_current_worker_commands = None, exe_worker_command_outbox = [],
                 exe_task_memory_bytes = arg_task_memory_bytes c, exe_ticks = 0, exe_calls = [], exe_recorded = []\<rparr>)))"

section \<open>Access to partitions, exchange and workers\<close>

text \<open>An operation on the partition object \<open>self.partitions[k]\<close>, and on its descriptor.\<close>

definition on_partition :: "int \<Rightarrow> (task_partition, 'a) op \<Rightarrow> (fragment_execution, 'a) op" where
  "on_partition k f s =
     (case dict_get (exe_partitions s) k of
        None \<Rightarrow> (Inl (KeyError ''partition''), s)
      | Some p \<Rightarrow> let (r, p') = f p in (r, s\<lparr>exe_partitions := dict_set k p' (exe_partitions s)\<rparr>))"

definition on_descriptor :: "(task_descriptor, 'a) op \<Rightarrow> (task_partition, 'a) op" where
  "on_descriptor f p = (let (r, d) = f (prt_descriptor p) in (r, p\<lparr>prt_descriptor := d\<rparr>))"

definition on_storage :: "(descriptor_storage, 'a) op \<Rightarrow> (fragment_execution, 'a) op" where
  "on_storage f s = (let (r, st) = f (exe_descriptor_storage s) in (r, s\<lparr>exe_descriptor_storage := st\<rparr>))"

text \<open>An operation on the exchange for the sink of partition \<open>k\<close>, if there is an exchange and a sink.\<close>

definition on_sink ::
  "int \<Rightarrow> (exchange_sink_handle \<Rightarrow> (exchange_tracker, unit) op) \<Rightarrow> (fragment_execution, unit) op" where
  "on_sink k f s =
     (case (exe_exchange s, dict_get (exe_partitions s) k) of
        (Some t, Some p) \<Rightarrow>
          (case prt_sink_handle p of
             None \<Rightarrow> (Inr (), s)
           | Some h \<Rightarrow> let (r, t') = f h t in (r, s\<lparr>exe_exchange := Some t'\<rparr>))
      | _ \<Rightarrow> (Inr (), s))"

definition read_partition :: "int \<Rightarrow> (task_partition \<Rightarrow> 'a res) \<Rightarrow> fragment_execution \<Rightarrow> 'a res" where
  "read_partition k f s =
     (case dict_get (exe_partitions s) k of None \<Rightarrow> Inl (KeyError ''partition'') | Some p \<Rightarrow> f p)"

text \<open>A call of a worker method; a handle that is \<open>None\<close> has no methods.\<close>

definition call_worker :: "environment \<Rightarrow> (worker \<Rightarrow> worker_call) \<Rightarrow> worker option \<Rightarrow> (fragment_execution, pyval) op" where
  "call_worker E c handle s =
     (case handle of
        None \<Rightarrow> (Inl (AttributeError ''NoneType''), s)
      | Some w \<Rightarrow> (env_worker_call E (exe_calls s) (c w), s\<lparr>exe_calls := exe_calls s @ [c w]\<rparr>))"

definition worker_control_failure :: "running_attempt \<Rightarrow> string \<Rightarrow> py_error \<Rightarrow> py_error" where
  "worker_control_failure r method e = worker_control_failure_error (run_worker_id r) (run_attempt_id r) method e"

text \<open>The pattern \<open>try: worker.method(...) except Exception: raise worker_control_failure\<close>, skipped without a handle.\<close>

definition control_call ::
  "environment \<Rightarrow> running_attempt \<Rightarrow> string \<Rightarrow> (worker \<Rightarrow> worker_call) \<Rightarrow> (fragment_execution, unit) op" where
  "control_call E r method c s =
     (if run_remote_handle r = None then (Inr (), s)
      else case call_worker E c (run_remote_handle r) s of
        (Inl e, s') \<Rightarrow> (Inl (worker_control_failure r method e), s')
      | (Inr _, s') \<Rightarrow> (Inr (), s'))"

definition record_task_result_ready_without_drain ::
  "environment \<Rightarrow> worker option \<Rightarrow> fte_task_attempt_id \<Rightarrow> (fragment_execution, unit) op" where
  "record_task_result_ready_without_drain E handle a =
     bindS (call_worker E (\<lambda>w. ResultReady (env_without_drain E w) w a) handle) (\<lambda>_. retS ())"

definition record_task_terminal_without_drain ::
  "environment \<Rightarrow> worker option \<Rightarrow> fte_task_attempt_id \<Rightarrow> (fragment_execution, unit) op" where
  "record_task_terminal_without_drain E handle a =
     bindS (call_worker E (\<lambda>w. TaskTerminal (env_without_drain E w) w a) handle) (\<lambda>_. retS ())"

definition record_worker_command :: "worker_command \<Rightarrow> fragment_execution \<Rightarrow> fragment_execution" where
  "record_worker_command c s =
     (let s1 = s\<lparr>exe_recorded := exe_recorded s @ [c]\<rparr> in
      case exe_current_worker_commands s of
        Some cs \<Rightarrow> s1\<lparr>exe_current_worker_commands := Some (cs @ [c])\<rparr>
      | None \<Rightarrow> s1\<lparr>exe_worker_command_outbox := exe_worker_command_outbox s @ [c]\<rparr>)"

definition pop_worker_commands :: "fragment_execution \<Rightarrow> worker_command list \<times> fragment_execution" where
  "pop_worker_commands s = (exe_worker_command_outbox s, s\<lparr>exe_worker_command_outbox := []\<rparr>)"

section \<open>Partitions\<close>

definition base_sink_instance_for_partition :: "fragment_execution \<Rightarrow> sink_instance" where
  "base_sink_instance_for_partition s =
     (if exe_exchange s \<noteq> None then no_sink_instance
      else case sink_instance_payload (Raw (dict_get_default (exe_task_context_info s) ''exchange_sink_instance'' PNone)) of
        [] \<Rightarrow> no_sink_instance | payload \<Rightarrow> Raw (PDict payload))"

text \<open>The descriptor and the partition that \<open>add_partition\<close> creates, lines 502 to 523.\<close>

definition new_partition ::
  "fte_task_id \<Rightarrow> exchange_sink_handle option \<Rightarrow> node_requirements option \<Rightarrow> fragment_execution \<Rightarrow> task_partition res" where
  "new_partition task_id sink node s =
     bindE (mk_descriptor (Obj task_id) (exe_fragment_id s)
       (descriptor_defaults\<lparr>darg_context := PDict (exe_context s), darg_resource_request := PDict (exe_resource_request s),
          darg_fragment_plan := exe_fragment_plan s,
          darg_fragment_registration_result := exe_fragment_registration_result s,
          darg_exchange_sink_instance := base_sink_instance_for_partition s,
          darg_task_context_info := PDict (exe_task_context_info s), darg_source_node_ids := exe_source_node_ids s,
          darg_dynamic_scan_source_node_ids := exe_dynamic_scan_source_node_ids s,
          darg_dynamic_exchange_source_node_ids := exe_dynamic_exchange_source_node_ids s\<rparr>)) (\<lambda>d.
     mk_partition (Obj task_id) d (exe_max_attempts s) sink node (Some (exe_task_memory_bytes s))
       (Obj (exe_execution_class s)))"

definition add_exchange_sink :: "int \<Rightarrow> (fragment_execution, exchange_sink_handle option) op" where
  "add_exchange_sink k s =
     (case exe_exchange s of
        None \<Rightarrow> (Inr None, s)
      | Some t \<Rightarrow> let (r, t') = add_sink k t in (bindE r (\<lambda>h. Inr (Some h)), s\<lparr>exe_exchange := Some t'\<rparr>))"

definition put_descriptor :: "environment \<Rightarrow> task_partition \<Rightarrow> (fragment_execution, unit) op" where
  "put_descriptor E p = on_storage (storage_put (env_writable E) (Obj (prt_task_id p)) (prt_descriptor p))"

definition add_partition :: "environment \<Rightarrow> int \<Rightarrow> node_requirements option \<Rightarrow> (fragment_execution, unit) op" where
  "add_partition E k node s =
     (case check_non_negative ''partition_id'' k of
        Inl e \<Rightarrow> (Inl e, s)
      | Inr k \<Rightarrow>
          (case dict_get (exe_partitions s) k of
             Some p \<Rightarrow>
               (Inr (), if prt_node_requirements p = None \<and> node \<noteq> None
                        then s\<lparr>exe_partitions := dict_set k (p\<lparr>prt_node_requirements := node\<rparr>) (exe_partitions s)\<rparr> else s)
           | None \<Rightarrow>
               bindS (liftS (\<lambda>s. mk_task_id (exe_query_id s) (exe_fragment_execution_id s) k)) (\<lambda>t.
               bindS (add_exchange_sink k) (\<lambda>sink.
               bindS (liftS (new_partition t sink node)) (\<lambda>p.
               bindS (modS (\<lambda>s. s\<lparr>exe_partitions := dict_set k p (exe_partitions s)\<rparr>)) (\<lambda>_.
               put_descriptor E p)))) s))"

section \<open>Readiness\<close>

text \<open>Short-circuit conjunction, \<open>any\<close> and \<open>sum(1 for ... if ...)\<close> over tests that may raise.\<close>

definition andE :: "bool res \<Rightarrow> bool res \<Rightarrow> bool res" where
  "andE a b = bindE a (\<lambda>x. if x then b else Inr False)"

fun anyE :: "('a \<Rightarrow> bool res) \<Rightarrow> 'a list \<Rightarrow> bool res" where
  "anyE f [] = Inr False"
| "anyE f (x # xs) = bindE (f x) (\<lambda>b. if b then Inr True else anyE f xs)"

fun countE :: "('a \<Rightarrow> bool res) \<Rightarrow> 'a list \<Rightarrow> int res" where
  "countE f [] = Inr 0"
| "countE f (x # xs) = bindE (f x) (\<lambda>b. bindE (countE f xs) (\<lambda>n. Inr (of_bool b + n)))"

definition idle :: "task_partition \<Rightarrow> bool res" where
  "idle p = bindE (running_attempt_of p) (\<lambda>r. Inr (r = None \<and> \<not> prt_finished p \<and> \<not> prt_failed p))"

definition partition_ready_to_schedule :: "task_partition \<Rightarrow> bool res" where
  "partition_ready_to_schedule p = andE (Inr (prt_ready_for_scheduling p)) (idle p)"

definition partition_matches_execution_class :: "exec_class ref \<Rightarrow> task_partition \<Rightarrow> bool res" where
  "partition_matches_execution_class cls p =
     (if cls = Raw PNone then Inr True else bindE (exec_class_coerce cls) (\<lambda>c. Inr (prt_execution_class p = c)))"

definition partition_pending_attempt_publishable :: "task_partition \<Rightarrow> bool res" where
  "partition_pending_attempt_publishable p =
     andE (Inr (prt_ready_for_scheduling p \<or> prt_execution_ready_deferred p)) (idle p)"

definition mark_partition_ready_for_execution :: "environment \<Rightarrow> int \<Rightarrow> (fragment_execution, bool) op" where
  "mark_partition_ready_for_execution E k =
     bindS (case env_execution_admission E of None \<Rightarrow> retS True | Some admit \<Rightarrow> admit k) (\<lambda>admitted.
     if admitted then on_partition k (\<lambda>p. (Inr True, mark_ready_for_execution p))
     else on_partition k (\<lambda>p. (Inr False, defer_ready_for_execution p)))"

definition has_open_task_running :: "fragment_execution \<Rightarrow> bool" where
  "has_open_task_running s =
     list_ex (\<lambda>p. \<not> prt_finished p \<and> \<not> prt_failed p \<and> prt_running_attempts p \<noteq> [] \<and> \<not> prt_sealed p)
       (dict_values (exe_partitions s))"

definition has_retryable_running_attempt_on_worker ::
  "string \<Rightarrow> (int, bool) dict option \<Rightarrow> fragment_execution \<Rightarrow> bool" where
  "has_retryable_running_attempt_on_worker worker_id retryable s =
     list_ex (\<lambda>p. (case retryable of
                     None \<Rightarrow> True | Some m \<Rightarrow> dict_get_default m (task_partition_id (prt_task_id p)) False) \<and>
                  list_ex (\<lambda>r. run_worker_id r = Some worker_id) (dict_values (prt_running_attempts p)))
       (dict_values (exe_partitions s))"

definition has_pending_partitions :: "exec_class ref \<Rightarrow> fragment_execution \<Rightarrow> bool res" where
  "has_pending_partitions cls s =
     anyE (\<lambda>p. andE (partition_pending_attempt_publishable p) (partition_matches_execution_class cls p))
       (dict_values (exe_partitions s))"

definition pending_submission_count :: "fragment_execution \<Rightarrow> int res" where
  "pending_submission_count s = countE partition_pending_attempt_publishable (dict_values (exe_partitions s))"

definition waiting_for_execution_count :: "exec_class ref \<Rightarrow> fragment_execution \<Rightarrow> int res" where
  "waiting_for_execution_count cls s =
     countE (\<lambda>p. andE (Inr (prt_ready_for_scheduling p \<and> prt_node_wait_started_at p = None))
                   (andE (idle p) (partition_matches_execution_class cls p))) (dict_values (exe_partitions s))"

definition waiting_for_node_count :: "exec_class ref \<Rightarrow> fragment_execution \<Rightarrow> int res" where
  "waiting_for_node_count cls s =
     countE (\<lambda>p. andE (Inr (prt_node_wait_started_at p \<noteq> None))
                   (andE (idle p) (partition_matches_execution_class cls p))) (dict_values (exe_partitions s))"

section \<open>Starting attempts\<close>

definition select_worker :: "environment \<Rightarrow> int \<Rightarrow> (fragment_execution, string option \<times> worker option) op" where
  "select_worker E k =
     (case env_worker_selector E of
        Some selector \<Rightarrow>
          bindS (selector k) (\<lambda>selected.
          retS (case selected of SelPair i w \<Rightarrow> (i, w) | SelWorker w i \<Rightarrow> (i, Some w)))
      | None \<Rightarrow>
          liftS (\<lambda>s. if exe_worker s = None
                     then Inl (RuntimeError ''FteFragmentExecution requires a worker or worker_selector'')
                     else Inr (exe_worker_id s, exe_worker s)))"

text \<open>The sink instance of the next attempt, lines 1240 to 1253.\<close>

definition attempt_sink_instance :: "int \<Rightarrow> (fragment_execution, sink_instance) op" where
  "attempt_sink_instance k =
     bindS (liftS (\<lambda>s. read_partition k Inr s)) (\<lambda>p s.
     if exe_exchange s \<noteq> None then
       bindS (case prt_sink_handle p of
                Some h \<Rightarrow> retS h
              | None \<Rightarrow>
                  bindS (add_exchange_sink (task_partition_id (prt_task_id p))) (\<lambda>sink.
                  bindS (on_partition k (\<lambda>p. (Inr (), p\<lparr>prt_sink_handle := sink\<rparr>))) (\<lambda>_.
                  liftS (\<lambda>_. case sink of Some h \<Rightarrow> Inr h | None \<Rightarrow> Inl (AttributeError ''NoneType''))))) (\<lambda>h.
       bindS (liftS (\<lambda>s. read_partition k next_attempt_number s)) (\<lambda>n.
       liftS (\<lambda>s. case exe_exchange s of
                    None \<Rightarrow> Inr no_sink_instance
                  | Some t \<Rightarrow> bindE (instantiate_sink h n t) (\<lambda>i. Inr (Obj i))))) s
     else if dsc_exchange_sink_instance (prt_descriptor p) \<noteq> no_sink_instance then
       bindS (liftS (\<lambda>s. read_partition k next_attempt_number s)) (\<lambda>n.
       liftS (\<lambda>s. derive_exchange_sink_instance_for_attempt (dsc_exchange_sink_instance (prt_descriptor p)) n
                    (Some (task_partition_id (prt_task_id p))))) s
     else (Inr no_sink_instance, s))"

definition tick :: "environment \<Rightarrow> (fragment_execution, rat) op" where
  "tick E s = (Inr (env_time E (exe_ticks s)), s\<lparr>exe_ticks := Suc (exe_ticks s)\<rparr>)"

text \<open>The request once the worker has registered the fragment, lines 1264 to 1267.\<close>

definition registered_request :: "pyval \<Rightarrow> (string, pyval) dict \<Rightarrow> (string, pyval) dict" where
  "registered_request registration req =
     (let req1 = (if registration \<noteq> PNone then dict_set ''fragment_registration_result'' registration req else req) in
      if dict_get_default req1 ''fragment_registration_result'' PNone \<noteq> PNone
      then dict_set ''fragment_plan'' PNone req1 else req1)"

definition start_attempt_with_worker :: "environment \<Rightarrow> int \<Rightarrow> (fragment_execution, scheduled_attempt) op" where
  "start_attempt_with_worker E k =
     bindS (select_worker E k) (\<lambda>(worker_id, worker).
     bindS (attempt_sink_instance k) (\<lambda>inst.
     bindS (tick E) (\<lambda>now.
     bindS (on_partition k (start_attempt now inst worker_id worker)) (\<lambda>scheduled.
     bindS (liftS (\<lambda>s. Inr s)) (\<lambda>s.
     bindS (call_worker E (\<lambda>w. EnsureFragmentRegistered w (exe_query_id s) (exe_fragment_id s)
              (dsc_fragment_plan (sch_descriptor scheduled))) worker) (\<lambda>registration.
     let req = registered_request registration (sch_request scheduled) in
     bindS (modS (record_worker_command
              (FteCreateTaskCommand (exe_query_id s) (exe_fragment_id s) worker_id worker (sch_attempt_id scheduled)
                 (task_partition_id (attempt_task_id (sch_attempt_id scheduled))) req))) (\<lambda>_.
     retS (scheduled\<lparr>sch_request := req\<rparr>))))))))"

text \<open>\<open>try: ... except FteWorkerReservationUnavailable: return None\<close>.\<close>

definition unless_unavailable :: "(fragment_execution, 'a) op \<Rightarrow> (fragment_execution, 'a option) op" where
  "unless_unavailable f s =
     (case f s of
        (Inl (WorkerReservationUnavailable _), s') \<Rightarrow> (Inr None, s')
      | (Inl e, s') \<Rightarrow> (Inl e, s')
      | (Inr x, s') \<Rightarrow> (Inr (Some x), s'))"

definition create_attempt_after_admission :: "environment \<Rightarrow> int \<Rightarrow> (fragment_execution, scheduled_attempt option) op" where
  "create_attempt_after_admission E k =
     bindS (tick E) (\<lambda>now.
     bindS (on_partition k (\<lambda>p. (Inr (), mark_waiting_for_node now p))) (\<lambda>_.
     case env_worker_reservation E of
       Some reserve \<Rightarrow> bindS (reserve k) (\<lambda>_. retS None)
     | None \<Rightarrow> unless_unavailable (start_attempt_with_worker E k)))"

definition schedulable :: "int \<Rightarrow> exec_class ref \<Rightarrow> fragment_execution \<Rightarrow> bool res" where
  "schedulable k cls s =
     (case dict_get (exe_partitions s) k of
        None \<Rightarrow> Inr False
      | Some p \<Rightarrow> andE (partition_ready_to_schedule p) (partition_matches_execution_class cls p))"

definition schedule_partition_if_ready ::
  "environment \<Rightarrow> int \<Rightarrow> exec_class ref \<Rightarrow> (fragment_execution, scheduled_attempt option) op" where
  "schedule_partition_if_ready E k cls =
     bindS (liftS (schedulable k cls)) (\<lambda>ready.
     if \<not> ready then retS None
     else
       bindS (case env_attempt_admission E of None \<Rightarrow> retS True | Some admit \<Rightarrow> admit k) (\<lambda>admitted.
       if \<not> admitted then retS None
       else
         bindS (liftS (schedulable k cls)) (\<lambda>ready.
         if \<not> ready then retS None else create_attempt_after_admission E k)))"

text \<open>The keys of the partitions in the order of their partition ids.\<close>

definition sorted_keys :: "fragment_execution \<Rightarrow> int list" where
  "sorted_keys s = map fst (sort_key (\<lambda>(k, p). task_partition_id (prt_task_id p)) (exe_partitions s))"

fun first_scheduled ::
  "environment \<Rightarrow> exec_class ref \<Rightarrow> int list \<Rightarrow> (fragment_execution, scheduled_attempt option) op" where
  "first_scheduled E cls [] = retS None"
| "first_scheduled E cls (k # ks) =
     bindS (schedule_partition_if_ready E k cls) (\<lambda>attempt.
     if attempt \<noteq> None then retS attempt else first_scheduled E cls ks)"

fun filterE :: "('a \<Rightarrow> bool res) \<Rightarrow> 'a list \<Rightarrow> 'a list res" where
  "filterE f [] = Inr []"
| "filterE f (x # xs) = bindE (f x) (\<lambda>b. bindE (filterE f xs) (\<lambda>ys. Inr (if b then x # ys else ys)))"

definition schedule_next_pending_partition ::
  "environment \<Rightarrow> exec_class ref \<Rightarrow> (fragment_execution, scheduled_attempt option) op" where
  "schedule_next_pending_partition E cls =
     bindS (liftS (\<lambda>s. filterE (\<lambda>k. schedulable k cls s) (sorted_keys s))) (first_scheduled E cls)"

text \<open>The body of the loop of \<open>release_deferred_execution_partitions\<close>: the attempt released, if any.\<close>

definition release_deferred ::
  "environment \<Rightarrow> exec_class ref \<Rightarrow> int \<Rightarrow> (fragment_execution, fte_task_attempt_id option) op" where
  "release_deferred E cls k =
     bindS (liftS (\<lambda>s. read_partition k Inr s)) (\<lambda>p.
     if \<not> prt_execution_ready_deferred p then retS None
     else
       bindS (liftS (\<lambda>_. idle p)) (\<lambda>is_idle.
       if \<not> is_idle then on_partition k (\<lambda>p. (Inr None, p\<lparr>prt_execution_ready_deferred := False\<rparr>))
       else
         bindS (liftS (\<lambda>_. partition_matches_execution_class cls p)) (\<lambda>matching.
         if \<not> matching then retS None
         else
           bindS (mark_partition_ready_for_execution E k) (\<lambda>ready.
           if \<not> ready then retS None
           else liftS (\<lambda>s. read_partition k
                  (\<lambda>p. bindE (next_attempt_number p) (\<lambda>n. bindE (mk_attempt_id (prt_task_id p) n) (\<lambda>a. Inr (Some a)))) s)))))"

definition release_deferred_execution_partitions ::
  "environment \<Rightarrow> exec_class ref \<Rightarrow> (fragment_execution, fte_task_attempt_id list) op" where
  "release_deferred_execution_partitions E cls s =
     bindS (mapS (release_deferred E cls) (sorted_keys s)) (\<lambda>found. retS (List.map_filter id found)) s"

section \<open>Execution classes\<close>

definition transition_from_partition :: "task_partition \<Rightarrow> execution_class_transition" where
  "transition_from_partition p =
     \<lparr>tra_task_id = prt_task_id p, tra_new_execution_class = prt_execution_class p,
      tra_running_attempts = dict_values (prt_running_attempts p)\<rparr>"

definition emit_execution_class_transitions ::
  "environment \<Rightarrow> execution_class_transition list \<Rightarrow> (fragment_execution, unit) op" where
  "emit_execution_class_transitions E transitions =
     (if transitions = [] then retS ()
      else case env_class_transition E of
        Some callback \<Rightarrow> callback transitions
      | None \<Rightarrow>
          foldS (\<lambda>t. foldS (\<lambda>r. control_call E r ''set_fte_task_execution_class''
                     (\<lambda>w. SetTaskExecutionClass w (run_attempt_id r) (tra_new_execution_class t)))
                   (tra_running_attempts t)) transitions)"

definition set_class_of_partition :: "exec_class \<Rightarrow> int \<Rightarrow> (fragment_execution, execution_class_transition option) op" where
  "set_class_of_partition c k =
     on_partition k (\<lambda>p.
       if prt_finished p \<or> prt_failed p then (Inr None, p)
       else case partition_set_execution_class (Obj c) p of
         (Inl e, p') \<Rightarrow> (Inl e, p')
       | (Inr changed, p') \<Rightarrow> (Inr (if changed then Some (transition_from_partition p') else None), p'))"

definition set_execution_class :: "exec_class ref \<Rightarrow> (fragment_execution, execution_class_transition list) op" where
  "set_execution_class cls s =
     (case exec_class_coerce cls of
        Inl e \<Rightarrow> (Inl e, s)
      | Inr c \<Rightarrow>
          if exe_execution_class s \<noteq> c \<and> \<not> can_transition_to (exe_execution_class s) c
          then (Inl (ValueError ''cannot change fragment execution class''), s)
          else bindS (mapS (set_class_of_partition c) (dict_keys (exe_partitions s)))
                 (\<lambda>found. retS (List.map_filter id found)) (s\<lparr>exe_execution_class := c\<rparr>))"

section \<open>Updates of partitions\<close>

text \<open>The commands for a running attempt, lines 950 to 973.\<close>

definition split_commands ::
  "environment \<Rightarrow> running_attempt \<Rightarrow> string \<Rightarrow> fte_split list \<Rightarrow> bool \<Rightarrow> fragment_execution \<Rightarrow> worker_command list" where
  "split_commands E r src added no_more s =
     map (\<lambda>batch. FteAddSplitsCommand (exe_query_id s) (exe_fragment_id s) (run_worker_id r) (run_remote_handle r)
                   (run_attempt_id r) src (map split_to_dict batch))
       (split_update_batches (fte_task_update_max_splits (env_max_splits E))
          (fte_task_update_max_payload_bytes (env_max_payload_bytes E)) added)
     @ (if no_more then [FteNoMoreSplitsCommand (exe_query_id s) (exe_fragment_id s) (run_worker_id r)
                           (run_remote_handle r) (run_attempt_id r) src] else [])"

definition update_partition_locked :: "environment \<Rightarrow> partition_update \<Rightarrow> (fragment_execution, bool) op" where
  "update_partition_locked E u =
     (let k = upd_partition_id u; src = upd_source_node_id u in
      bindS (add_partition E k None) (\<lambda>_.
      bindS (liftS (read_partition k running_attempt_of)) (\<lambda>running.
      bindS (on_partition k (on_descriptor (append_splits src (map Obj (upd_splits u))))) (\<lambda>added.
      bindS (if upd_no_more_splits u
             then on_partition k (on_descriptor (\<lambda>d. let (marked, d') = mark_no_more_splits src d in (Inr marked, d')))
             else retS False) (\<lambda>marked.
      bindS (liftS (read_partition k Inr)) (\<lambda>p.
      if running = None \<and> \<not> prt_finished p \<and> \<not> prt_failed p \<and>
         (upd_ready_for_scheduling u \<or> upd_no_more_splits u \<or> prt_sealed p)
      then mark_partition_ready_for_execution E k
      else case running of
        None \<Rightarrow> retS False
      | Some r \<Rightarrow>
          bindS (modS (\<lambda>s. fold record_worker_command (split_commands E r src added marked s) s)) (\<lambda>_. retS False)))))))"

definition update_partition :: "environment \<Rightarrow> partition_update \<Rightarrow> (fragment_execution, scheduled_attempt option) op" where
  "update_partition E u =
     bindS (update_partition_locked E u) (\<lambda>should_schedule.
     if should_schedule then schedule_partition_if_ready E (upd_partition_id u) (Raw PNone) else retS None)"

definition seal_partition_locked :: "environment \<Rightarrow> int \<Rightarrow> (fragment_execution, bool) op" where
  "seal_partition_locked E k =
     bindS (add_partition E k None) (\<lambda>_.
     bindS (on_partition k seal) (\<lambda>old.
     bindS (liftS (read_partition k Inr)) (\<lambda>p.
     bindS (if old \<noteq> None then emit_execution_class_transitions E [transition_from_partition p] else retS ()) (\<lambda>_.
     bindS (liftS (read_partition k idle)) (\<lambda>is_idle.
     if is_idle then mark_partition_ready_for_execution E k else retS False)))))"

definition seal_partition :: "environment \<Rightarrow> int \<Rightarrow> (fragment_execution, scheduled_attempt option) op" where
  "seal_partition E k =
     bindS (seal_partition_locked E k) (\<lambda>should_schedule.
     if should_schedule then schedule_partition_if_ready E k (Raw PNone) else retS None)"

text \<open>
  \<open>try\<close> with a fresh list of current commands and \<open>finally\<close> with the previous one: what was recorded
  meanwhile is returned with the result, and dropped if the body raises.
\<close>

definition collecting_commands :: "(fragment_execution, 'a) op \<Rightarrow> (fragment_execution, 'a \<times> worker_command list) op" where
  "collecting_commands f s =
     (let (res, s') = f (s\<lparr>exe_current_worker_commands := Some []\<rparr>) in
      (bindE res (\<lambda>x. Inr (x, case exe_current_worker_commands s' of None \<Rightarrow> [] | Some cs \<Rightarrow> cs)),
       s'\<lparr>exe_current_worker_commands := exe_current_worker_commands s\<rparr>))"

definition apply_assignment_result :: "environment \<Rightarrow> assignment_result \<Rightarrow> (fragment_execution, mutation_result) op" where
  "apply_assignment_result E result =
     bindS (collecting_commands (
       bindS (foldS (\<lambda>info. add_partition E (info_partition_id info) (info_node_requirements info)) (partitions_added result)) (\<lambda>_.
       bindS (liftS (\<lambda>_. coalesce_partition_updates (partition_updates result))) (\<lambda>updates.
       bindS (mapS (update_partition E) updates) (\<lambda>updated.
       bindS (mapS (seal_partition E) (sealed_partitions result)) (\<lambda>sealed.
       bindS (modS (\<lambda>s. if no_more_partitions result then s\<lparr>exe_no_more_partitions := True\<rparr> else s)) (\<lambda>_.
       retS (List.map_filter id (updated @ sealed))))))))) (\<lambda>(scheduled, commands).
     retS (mutation_from_attempts scheduled (Some commands)))"

definition execution_apply_task_update ::
  "environment \<Rightarrow> int \<Rightarrow> fte_task_update_request ref \<Rightarrow> (fragment_execution, mutation_result) op" where
  "execution_apply_task_update E k update =
     bindS (collecting_commands (
       bindS (add_partition E k None) (\<lambda>_.
       bindS (liftS (\<lambda>_. fst (task_update_coerce update))) (\<lambda>request.
       bindS (on_partition k (on_descriptor (descriptor_apply_task_update (env_is E) request))) (\<lambda>changed.
       if \<not> changed then retS ()
       else
         bindS (liftS (read_partition k Inr)) (\<lambda>p.
         bindS (put_descriptor E p) (\<lambda>_.
         bindS (liftS (read_partition k running_attempt_of)) (\<lambda>running.
         case running of
           None \<Rightarrow> retS ()
         | Some r \<Rightarrow>
             modS (\<lambda>s. record_worker_command
               (FteTaskUpdateCommand (exe_query_id s) (exe_fragment_id s) (run_worker_id r) (run_remote_handle r)
                  (run_attempt_id r) (task_update_to_dict request)) s))))))))) (\<lambda>(_, commands).
     retS (mutation_from_attempts [] (Some commands)))"

section \<open>Failed, revoked and finished attempts\<close>

text \<open>What a failure does to the flags of the partition and of the execution, lines 1020 to 1035.\<close>

definition failure_consequences ::
  "int \<Rightarrow> pyval \<Rightarrow> ready_task option \<Rightarrow> (fragment_execution, bool) op" where
  "failure_consequences k error ready =
     bindS (liftS (read_partition k Inr)) (\<lambda>p.
     if ready \<noteq> None \<and> is_memory_failure error then
       bindS (on_partition k (\<lambda>p. (Inr (), p\<lparr>prt_failed := True, prt_ready_for_scheduling := False,
                prt_execution_ready_deferred := False, prt_running_attempts := []\<rparr>))) (\<lambda>_.
       bindS (modS (\<lambda>s. s\<lparr>exe_failed := True\<rparr>)) (\<lambda>_. retS False))
     else
       bindS (modS (\<lambda>s. if prt_failed p then s\<lparr>exe_failed := True\<rparr> else s)) (\<lambda>_.
       if ready = None then retS False
       else if \<not> prt_sealed p \<and> is_speculative (prt_execution_class p)
       then on_partition k (\<lambda>p. (Inr False, p\<lparr>prt_ready_for_scheduling := False, prt_execution_ready_deferred := False\<rparr>))
       else on_partition k (\<lambda>p. (Inr True, mark_ready_for_execution p))))"

definition task_failed ::
  "environment \<Rightarrow> fte_task_attempt_id ref \<Rightarrow> pyval \<Rightarrow> bool \<Rightarrow> bool \<Rightarrow> (fragment_execution, scheduled_attempt option) op" where
  "task_failed E attempt_id error retryable schedule_retry =
     bindS (liftS (\<lambda>_. attempt_id_coerce attempt_id)) (\<lambda>a.
     let k = task_partition_id (attempt_task_id a) in
     bindS (liftS (read_partition k (\<lambda>p. Inr (dict_get (prt_running_attempts p) (attempt_number a))))) (\<lambda>running.
     bindS (on_sink k (\<lambda>h. sink_aborted h (attempt_number a))) (\<lambda>_.
     bindS (on_partition k (mark_attempt_failed (Obj a) error (retryable \<and> failure_allows_retry error True))) (\<lambda>ready.
     bindS (failure_consequences k error ready) (\<lambda>should_schedule.
     bindS (case running of None \<Rightarrow> retS () | Some r \<Rightarrow> record_task_terminal_without_drain E (run_remote_handle r) a) (\<lambda>_.
     if \<not> should_schedule \<or> \<not> schedule_retry then retS None
     else schedule_partition_if_ready E k (Raw PNone)))))))"

text \<open>
  The loop of \<open>revoke_speculative_attempts\<close> works on the execution, the revoked attempts and the releases
  to make in the \<open>finally\<close> clause. Once the limit is reached nothing more is revoked.
\<close>

type_synonym revocation = "fragment_execution \<times> revoked_attempt list \<times> (worker option \<times> fte_task_attempt_id) list"

definition on_execution :: "(fragment_execution, 'a) op \<Rightarrow> (fragment_execution \<times> 'b, 'a) op" where
  "on_execution f st = (let (r, s') = f (fst st) in (r, (s', snd st)))"

definition revoke_one ::
  "environment \<Rightarrow> string option \<Rightarrow> int option \<Rightarrow> pyval \<Rightarrow> int \<Rightarrow> running_attempt \<Rightarrow> (revocation, unit) op" where
  "revoke_one E worker_id limit reason k r =
     bindS (liftS (\<lambda>st. Inr (length (fst (snd st))))) (\<lambda>n.
     if (case limit of None \<Rightarrow> False | Some l \<Rightarrow> l \<le> int n) then retS ()
     else if (case worker_id of
                None \<Rightarrow> False | Some w \<Rightarrow> (case run_worker_id r of None \<Rightarrow> '''' | Some v \<Rightarrow> v) \<noteq> w) then retS ()
     else
       bindS (on_execution (control_call E r ''fte_cancel_task'' (\<lambda>w. CancelTask w (attempt_id_to_dict (run_attempt_id r))))) (\<lambda>_.
       bindS (on_execution (on_sink k (\<lambda>h. sink_aborted h (attempt_number (run_attempt_id r))))) (\<lambda>_.
       bindS (on_execution (on_partition k (revoke_attempt (Obj (run_attempt_id r))
                (if py_truthy reason then reason else PStr ''speculative task revoked'')))) (\<lambda>revoked.
       case revoked of
         None \<Rightarrow> retS ()
       | Some rv \<Rightarrow>
           bindS (on_execution (liftS (read_partition k Inr))) (\<lambda>p.
           modS (\<lambda>(s, revs, releases).
             (s\<lparr>exe_failed := (exe_failed s \<or> prt_failed p)\<rparr>, revs @ [rv],
              releases @ [(run_remote_handle r, run_attempt_id r)])))))))"

definition revoke_partition ::
  "environment \<Rightarrow> string option \<Rightarrow> int option \<Rightarrow> pyval \<Rightarrow> int \<Rightarrow> (revocation, unit) op" where
  "revoke_partition E worker_id limit reason k =
     bindS (on_execution (liftS (read_partition k Inr))) (\<lambda>p.
     if prt_finished p \<or> prt_failed p \<or> \<not> is_speculative (prt_execution_class p) then retS ()
     else foldS (revoke_one E worker_id limit reason k)
            (sort_key (\<lambda>r. attempt_number (run_attempt_id r)) (dict_values (prt_running_attempts p))))"

text \<open>\<open>finally\<close>: the releases are made whatever the body did, and an exception they raise replaces its result.\<close>

definition release_terminal ::
  "environment \<Rightarrow> (worker option \<times> fte_task_attempt_id) list \<Rightarrow> 'a res \<Rightarrow> (fragment_execution, 'a) op" where
  "release_terminal E releases res =
     bindS (foldS (\<lambda>(h, a). record_task_terminal_without_drain E h a) releases) (\<lambda>_. liftS (\<lambda>_. res))"

definition revoke_speculative_attempts ::
  "environment \<Rightarrow> string option \<Rightarrow> int option \<Rightarrow> pyval \<Rightarrow> (fragment_execution, revoked_attempt list) op" where
  "revoke_speculative_attempts E worker_id max_count reason s =
     (let limit = map_option (max 0) max_count in
      if limit = Some 0 then (Inr [], s)
      else
        let (res, (s', revs, releases)) =
              foldS (revoke_partition E worker_id limit reason) (dict_keys (exe_partitions s)) (s, [], []) in
        release_terminal E releases (bindE res (\<lambda>_. Inr revs)) s')"

definition mark_worker_failed ::
  "environment \<Rightarrow> string \<Rightarrow> pyval \<Rightarrow> bool \<Rightarrow> (int, bool) dict option \<Rightarrow> bool \<Rightarrow> (fragment_execution, scheduled_attempt list) op" where
  "mark_worker_failed E worker_id error retryable retryable_by schedule_retries s =
     (let failed = concat (map (\<lambda>p. List.map_filter
                     (\<lambda>r. if run_worker_id r = Some worker_id
                           then Some (run_attempt_id r, task_partition_id (prt_task_id p)) else None)
                     (dict_values (prt_running_attempts p))) (dict_values (exe_partitions s))) in
      bindS (mapS (\<lambda>(a, k). task_failed E (Obj a) error
                     (retryable \<and> (case retryable_by of None \<Rightarrow> True | Some m \<Rightarrow> dict_get_default m k False))
                     schedule_retries) failed)
        (\<lambda>retries. retS (List.map_filter id retries)) s)"

text \<open>
  The loop over the attempts that lost, lines 1149 to 1162: a failed cancellation is kept for later, the
  first one only. The state of the loop is the execution, the cancel failure and the releases.
\<close>

type_synonym releases = "(bool \<times> worker option \<times> fte_task_attempt_id) list"

definition cancel_loser ::
  "environment \<Rightarrow> int \<Rightarrow> running_attempt \<Rightarrow> (fragment_execution \<times> py_error option \<times> releases, unit) op" where
  "cancel_loser E k r st =
     (let (s, failure, rels) = st;
          (res, s1) = control_call E r ''fte_cancel_task'' (\<lambda>w. CancelTask w (attempt_id_to_dict (run_attempt_id r))) s;
          failure1 = (case res of Inl e \<Rightarrow> (if failure = None then Some e else failure) | Inr _ \<Rightarrow> failure);
          (res2, s2) = on_sink k (\<lambda>h. sink_aborted h (attempt_number (run_attempt_id r))) s1 in
      case res2 of
        Inl e \<Rightarrow> (Inl e, (s2, failure1, rels))
      | Inr _ \<Rightarrow> (Inr (), (s2, failure1, rels @ [(False, run_remote_handle r, run_attempt_id r)])))"

text \<open>What follows a successful \<open>mark_attempt_finished\<close>, lines 1146 to 1165.\<close>

definition finish_changed ::
  "environment \<Rightarrow> int \<Rightarrow> fte_task_attempt_id \<Rightarrow> (int, running_attempt) dict \<Rightarrow>
   (fragment_execution \<times> py_error option \<times> releases, unit) op" where
  "finish_changed E k a running =
     bindS (modS (\<lambda>(s, failure, rels).
       (s, failure, (case dict_get running (attempt_number a) of
                       None \<Rightarrow> rels | Some r \<Rightarrow> rels @ [(True, run_remote_handle r, a)])))) (\<lambda>_.
     bindS (foldS (cancel_loser E k)
       (filter (\<lambda>r. attempt_number (run_attempt_id r) \<noteq> attempt_number a) (dict_values running))) (\<lambda>_.
     bindS (on_execution (on_sink k (\<lambda>h. sink_finished h (attempt_number a)))) (\<lambda>_.
     bindS (on_execution (liftS (read_partition k Inr))) (\<lambda>p.
     bindS (on_execution (on_storage (storage_remove (env_writable E) (Obj (prt_task_id p))))) (\<lambda>_. retS ())))))"

definition release_all :: "environment \<Rightarrow> releases \<Rightarrow> (fragment_execution, unit) op" where
  "release_all E rels =
     foldS (\<lambda>(ready, h, a). if ready then record_task_result_ready_without_drain E h a
                            else record_task_terminal_without_drain E h a) rels"

definition task_finished ::
  "environment \<Rightarrow> fte_task_attempt_id ref \<Rightarrow> pyval \<Rightarrow> (fragment_execution, bool) op" where
  "task_finished E attempt_id output_stats =
     bindS (liftS (\<lambda>_. attempt_id_coerce attempt_id)) (\<lambda>a.
     let k = task_partition_id (attempt_task_id a) in
     bindS (liftS (read_partition k (\<lambda>p. Inr (prt_running_attempts p)))) (\<lambda>running.
     bindS (on_partition k (mark_attempt_finished (Obj a) output_stats)) (\<lambda>changed s.
     let (res, (s1, failure, rels)) =
           (if changed then finish_changed E k a running (s, None, []) else (Inr (), (s, None, []))) in
     bindS (release_all E rels) (\<lambda>_.
     liftS (\<lambda>_. bindE res (\<lambda>_. case failure of Some e \<Rightarrow> Inl e | None \<Rightarrow> Inr changed))) s1)))"

section \<open>Task statuses\<close>

definition attempt_id_from_status :: "(string, pyval) dict \<Rightarrow> fte_task_attempt_id res" where
  "attempt_id_from_status status =
     (case some_value status ''task_id'' of
        Some v \<Rightarrow> attempt_id_coerce (Raw v)
      | None \<Rightarrow>
          (case some_value status ''task_id_string'' of
             Some v \<Rightarrow> attempt_id_parse (py_str v)
           | None \<Rightarrow> attempt_id_coerce (Raw (PDict status))))"

definition task_state_from_status :: "(string, pyval) dict \<Rightarrow> fte_task_state res" where
  "task_state_from_status status = task_state_of (py_str (dict_get_default status ''state'' PNone))"

definition output_stats_from_status :: "(string, pyval) dict \<Rightarrow> pyval" where
  "output_stats_from_status status =
     (let out = (case some_value status ''spooling_output_stats'' of
                   Some v \<Rightarrow> v
                 | None \<Rightarrow> (case some_value status ''output_stats'' of Some v \<Rightarrow> v | None \<Rightarrow> PNone)) in
      case dict_get status ''task_stats'' of
        Some (PDict t) \<Rightarrow>
          (case out of PDict o' \<Rightarrow> PDict (dict_merge t o') | PNone \<Rightarrow> PDict t | _ \<Rightarrow> out)
      | _ \<Rightarrow> out)"

definition partition_requires_finish_output_stats :: "int \<Rightarrow> fragment_execution \<Rightarrow> bool res" where
  "partition_requires_finish_output_stats k s =
     read_partition k (\<lambda>p.
       if exe_exchange s \<noteq> None \<or> prt_sink_handle p \<noteq> None then Inr True
       else if dsc_exchange_sink_instance (prt_descriptor p) \<noteq> no_sink_instance then Inr True
       else bindE (running_attempt_of p) (\<lambda>r.
              Inr (case r of None \<Rightarrow> False | Some r \<Rightarrow> run_sink_instance r \<noteq> no_sink_instance))) s"

text \<open>The progress statistics a status carries, lines 1187 to 1190.\<close>

definition status_task_stats :: "(string, pyval) dict \<Rightarrow> (string, pyval) dict" where
  "status_task_stats status =
     (case dict_get status ''task_stats'' of
        Some (PDict t) \<Rightarrow> dict_merge t (task_status_progress_stats status)
      | _ \<Rightarrow> task_status_progress_stats status)"

definition record_task_stats :: "fte_task_attempt_id \<Rightarrow> (string, pyval) dict \<Rightarrow> (fragment_execution, unit) op" where
  "record_task_stats a stats s =
     (let k = task_partition_id (attempt_task_id a) in
      if stats = [] \<or> \<not> dict_has (exe_partitions s) k then (Inr (), s)
      else bindS (on_partition k (update_running_task_stats (Obj a) (PDict stats))) (\<lambda>_. retS ()) s)"

definition handle_task_status ::
  "environment \<Rightarrow> (string, pyval) dict \<Rightarrow> bool \<Rightarrow> bool \<Rightarrow> (fragment_execution, scheduled_attempt option) op" where
  "handle_task_status E status retryable schedule_retry =
     (if upper (py_str (dict_get_default status ''state'' (PStr ''''))) = ''UNKNOWN'' then retS None
      else
        bindS (liftS (\<lambda>_. attempt_id_from_status status)) (\<lambda>a.
        bindS (liftS (\<lambda>_. task_state_from_status status)) (\<lambda>state.
        bindS (record_task_stats a (status_task_stats status)) (\<lambda>_.
        if state = TaskFinished then
          let out = output_stats_from_status status; k = task_partition_id (attempt_task_id a) in
          bindS (liftS (read_partition k Inr)) (\<lambda>_.
          bindS (liftS (\<lambda>s. if out = PNone then partition_requires_finish_output_stats k s else Inr False)) (\<lambda>missing.
          if missing then task_failed E (Obj a) (missing_output_stats_failure a) retryable schedule_retry
          else bindS (task_finished E (Obj a) out) (\<lambda>_. retS None)))
        else if state \<in> {TaskFailed, TaskCanceled, TaskAborted} then
          let failure = dict_get_default status ''failure'' PNone in
          task_failed E (Obj a) (if py_truthy failure then failure else PDict status)
            (retryable \<and> state = TaskFailed) schedule_retry
        else retS None))))"

definition partition_snapshot :: "int \<times> task_partition \<Rightarrow> pyval" where
  "partition_snapshot kp =
     (let (k, p) = kp in
      PDict [(''partition_id'', PInt k), (''running'', PBool (prt_running_attempts p \<noteq> [])),
             (''failed'', PBool (prt_failed p)), (''finished'', PBool (prt_finished p)),
             (''selected_attempt'', case prt_selected_attempt p of None \<Rightarrow> PNone | Some n \<Rightarrow> PInt n),
             (''task_id'', PStr (task_id_str (prt_task_id p))), (''failures'', PList (prt_failures p))])"

definition query_status_snapshot :: "fragment_execution \<Rightarrow> (string, pyval) dict" where
  "query_status_snapshot s =
     [(''failed'', PBool (exe_failed s)),
      (''partitions'', PList (map partition_snapshot (sort_key fst (exe_partitions s))))]"

section \<open>Outcomes of worker commands\<close>

definition handle_worker_command_success :: "environment \<Rightarrow> worker_command \<Rightarrow> (fragment_execution, unit) op" where
  "handle_worker_command_success E c =
     (case c of
        FteCreateTaskCommand _ _ _ w a _ req \<Rightarrow> bindS (call_worker E (\<lambda>w. TaskStarted w a req) w) (\<lambda>_. retS ())
      | FteAddSplitsCommand _ _ _ w a _ splits \<Rightarrow>
          bindS (call_worker E (\<lambda>w. SplitsAdded w a (int (length splits))) w) (\<lambda>_.
          bindS (call_worker E (\<lambda>w. SplitBytesAdded w a (\<Sum>sp\<leftarrow>splits. estimated_payload_bytes (PDict sp))) w) (\<lambda>_. retS ()))
      | _ \<Rightarrow> retS ())"

definition worker_control_failure_for_command :: "worker_command \<Rightarrow> py_error \<Rightarrow> py_error" where
  "worker_control_failure_for_command c e =
     worker_control_failure_error (cmd_worker_id c) (cmd_attempt_id c)
       (case c of
          FteCreateTaskCommand _ _ _ _ _ _ _ \<Rightarrow> ''fte_create_task''
        | FteAddSplitsCommand _ _ _ _ _ _ _ \<Rightarrow> ''fte_add_splits''
        | FteNoMoreSplitsCommand _ _ _ _ _ _ \<Rightarrow> ''fte_no_more_splits''
        | FteTaskUpdateCommand _ _ _ _ _ _ \<Rightarrow> ''fte_update_task'') e"

end
