(* ===== verification/Execution_Run.thy ===== *)
theory Execution_Run
  imports Fte_Execution
begin

text \<open>
  What every sequence of calls keeps of a fragment execution: the invariant of the execution, the
  order along which it moves, and the rules by which both pass from the partitions and the exchange
  to the operations of the execution. The callbacks of the environment are assumed to change an
  execution only in the ways the runner's callbacks do.
\<close>

section \<open>The invariant\<close>

definition task_of :: "fragment_execution \<Rightarrow> int \<Rightarrow> fte_task_id" where
  "task_of s k = FteTaskId (exe_query_id s) (exe_fragment_execution_id s) k"

definition sink_ok :: "exchange_tracker option \<Rightarrow> int \<Rightarrow> exchange_sink_handle option \<Rightarrow> bool" where
  "sink_ok exchange k sink =
     (case sink of
        None \<Rightarrow> True
      | Some h \<Rightarrow> (case exchange of None \<Rightarrow> False | Some t \<Rightarrow> snk_partition_id h = k \<and> dict_get (trk_sinks t) k = Some h))"

definition partition_at :: "fragment_execution \<Rightarrow> int \<Rightarrow> task_partition \<Rightarrow> bool" where
  "partition_at s k p =
     (partition_ok p \<and> prt_task_id p = task_of s k \<and> prt_max_attempts p = exe_max_attempts s \<and>
      (prt_failed p \<longrightarrow> exe_failed s) \<and> sink_ok (exe_exchange s) k (prt_sink_handle p))"

text \<open>The attempts for which a create command has been recorded.\<close>

definition created :: "fragment_execution \<Rightarrow> fte_task_attempt_id list" where
  "created s = map cmd_attempt_id (filter is_FteCreateTaskCommand (exe_recorded s))"

definition started_in :: "fragment_execution \<Rightarrow> fte_task_attempt_id \<Rightarrow> bool" where
  "started_in s a =
     (0 \<le> attempt_number a \<and> (\<exists>k p. dict_get (exe_partitions s) k = Some p \<and> attempt_task_id a = task_of s k \<and> attempt_started p (attempt_number a)))"

definition selection_ok :: "fragment_execution \<Rightarrow> bool" where
  "selection_ok s =
     (\<forall>t k a. exe_exchange s = Some t \<and> dict_get (trk_selected_attempts t) k = Some a \<longrightarrow>
        (\<exists>p. dict_get (exe_partitions s) k = Some p \<and> prt_finished p \<and> prt_selected_attempt p = Some a))"

definition exec_ok :: "fragment_execution \<Rightarrow> bool" where
  "exec_ok s =
     (wf_dict (exe_partitions s) \<and> (\<forall>k p. dict_get (exe_partitions s) k = Some p \<longrightarrow> partition_at s k p) \<and>
      (\<forall>t. exe_exchange s = Some t \<longrightarrow> tracker_ok t) \<and> selection_ok s \<and>
      distinct (created s) \<and> (\<forall>a\<in>set (created s). started_in s a) \<and> strip (exe_query_id s) = exe_query_id s)"

definition exchange_grows :: "exchange_tracker option \<Rightarrow> exchange_tracker option \<Rightarrow> bool" where
  "exchange_grows a b = (case (a, b) of (None, None) \<Rightarrow> True | (Some t, Some u) \<Rightarrow> tracker_grows t u | _ \<Rightarrow> False)"

definition exec_grows :: "fragment_execution \<Rightarrow> fragment_execution \<Rightarrow> bool" where
  "exec_grows s t =
     (exe_query_id t = exe_query_id s \<and> exe_fragment_execution_id t = exe_fragment_execution_id s \<and>
      exe_max_attempts t = exe_max_attempts s \<and> (exe_failed s \<longrightarrow> exe_failed t) \<and>
      (exe_no_more_partitions s \<longrightarrow> exe_no_more_partitions t) \<and> exchange_grows (exe_exchange s) (exe_exchange t) \<and>
      (\<exists>more. exe_recorded t = exe_recorded s @ more) \<and>
      (\<forall>k p. dict_get (exe_partitions s) k = Some p \<longrightarrow>
         (\<exists>q. dict_get (exe_partitions t) k = Some q \<and> partition_grows p q)))"

lemma exec_okD:
  assumes "exec_ok s"
  shows "wf_dict (exe_partitions s)" and "dict_get (exe_partitions s) k = Some p \<Longrightarrow> partition_at s k p"
    and "exe_exchange s = Some t \<Longrightarrow> tracker_ok t" and "selection_ok s" and "distinct (created s)"
    and "a \<in> set (created s) \<Longrightarrow> started_in s a" and "strip (exe_query_id s) = exe_query_id s"
  using assms unfolding exec_ok_def by blast+

lemma exchange_grows_refl [simp]: "exchange_grows a a"
  by (cases a) (simp_all add: exchange_grows_def tracker_grows_def)

lemma exchange_grows_trans: "exchange_grows a b \<Longrightarrow> exchange_grows b c \<Longrightarrow> exchange_grows a c"
  by (auto simp: exchange_grows_def tracker_grows_def split: option.splits)

lemma exec_grows_refl: "exec_grows s s"
  by (auto simp: exec_grows_def partition_grows_refl)

lemma exec_grows_trans: "exec_grows s t \<Longrightarrow> exec_grows t u \<Longrightarrow> exec_grows s u"
  unfolding exec_grows_def
  apply (elim conjE exE)
  apply (intro conjI)
         apply (auto intro: exchange_grows_trans)[7]
  apply (blast intro: partition_grows_trans)
  done

section \<open>Changes of one part\<close>

text \<open>The parts of the state the invariant looks at.\<close>

definition core :: "fragment_execution \<Rightarrow> _" where
  "core s = ((exe_query_id s, exe_fragment_execution_id s, exe_max_attempts s),
     (exe_partitions s, exe_exchange s, exe_recorded s))"

lemma exec_frame:
  assumes "exec_ok s" and "core t = core s" and "exe_failed s \<longrightarrow> exe_failed t"
    and "exe_no_more_partitions s \<longrightarrow> exe_no_more_partitions t"
  shows "exec_ok t \<and> exec_grows s t"
proof -
  have eqs: "exe_query_id t = exe_query_id s" "exe_fragment_execution_id t = exe_fragment_execution_id s"
    "exe_max_attempts t = exe_max_attempts s" "exe_partitions t = exe_partitions s" "exe_exchange t = exe_exchange s"
    "exe_recorded t = exe_recorded s"
    using assms(2) unfolding core_def prod.inject by blast+
  have same: "created t = created s" "started_in t = started_in s" "selection_ok t = selection_ok s" "task_of t = task_of s"
    unfolding created_def started_in_def selection_ok_def task_of_def eqs by (rule refl)+
  have "partition_at t k p" if "partition_at s k p" for k p
    using that assms(3) unfolding partition_at_def eqs same by blast
  then have "exec_ok t" using assms(1) unfolding exec_ok_def eqs same by blast
  moreover have "exec_grows s t" using assms(3,4) by (simp add: exec_grows_def eqs partition_grows_refl)
  ultimately show ?thesis ..
qed

lemma exec_partition:
  assumes "exec_ok s" and "dict_get (exe_partitions s) k = Some p"
    and "core t = core (s\<lparr>exe_partitions := dict_set k q (exe_partitions s)\<rparr>)"
    and "partition_ok q" and "partition_grows p q" and "prt_failed q \<longrightarrow> exe_failed t"
    and "sink_ok (exe_exchange s) k (prt_sink_handle q)"
    and "exe_failed s \<longrightarrow> exe_failed t" and "exe_no_more_partitions s \<longrightarrow> exe_no_more_partitions t"
  shows "exec_ok t \<and> exec_grows s t"
proof -
  have eqs: "exe_query_id t = exe_query_id s" "exe_fragment_execution_id t = exe_fragment_execution_id s"
    "exe_max_attempts t = exe_max_attempts s" "exe_partitions t = dict_set k q (exe_partitions s)" "exe_exchange t = exe_exchange s"
    "exe_recorded t = exe_recorded s"
    using assms(3) by (simp_all add: core_def)
  note ok = exec_okD [OF assms(1)]
  have same: "created t = created s" "task_of t = task_of s" unfolding created_def task_of_def eqs by (rule refl)+
  note at = ok(2) [OF assms(2)]
  have g: "prt_task_id q = prt_task_id p" "prt_max_attempts q = prt_max_attempts p"
    "attempt_started p n \<Longrightarrow> attempt_started q n" "prt_finished p \<Longrightarrow> prt_finished q \<and> prt_selected_attempt q = prt_selected_attempt p" for n
    using assms(5) unfolding partition_grows_def by blast+
  have parts: "partition_at t j r" if "dict_get (exe_partitions t) j = Some r" for j r
  proof (cases "j = k")
    case True
    then have "r = q" using that by (simp add: eqs)
    then show ?thesis using at g(1,2) assms(4,6,7) True by (simp add: partition_at_def eqs same)
  next
    case False
    then have "partition_at s j r" using that ok(2) by (simp add: eqs)
    then show ?thesis using assms(8) by (auto simp: partition_at_def eqs same)
  qed
  have "started_in t a" if "started_in s a" for a
  proof -
    from that obtain j r where j: "dict_get (exe_partitions s) j = Some r" "attempt_task_id a = task_of s j"
      "attempt_started r (attempt_number a)" "0 \<le> attempt_number a"
      unfolding started_in_def by blast
    then show ?thesis unfolding started_in_def eqs same
      by (intro conjI exI [of _ j] exI [of _ "if j = k then q else r"]) (use j assms(2) g(3) in auto)
  qed
  moreover have "selection_ok t"
    unfolding selection_ok_def
  proof (intro allI impI)
    fix u j a assume "exe_exchange t = Some u \<and> dict_get (trk_selected_attempts u) j = Some a"
    then obtain r where r: "dict_get (exe_partitions s) j = Some r" "prt_finished r" "prt_selected_attempt r = Some a"
      using ok(4) unfolding selection_ok_def eqs by blast
    then show "\<exists>p. dict_get (exe_partitions t) j = Some p \<and> prt_finished p \<and> prt_selected_attempt p = Some a"
      using assms(2) g(4) by (cases "j = k") (simp_all add: eqs)
  qed
  ultimately have "exec_ok t" using ok parts unfolding exec_ok_def same by (auto simp: eqs)
  moreover have "exec_grows s t" using assms(2,5,8,9) by (auto simp: exec_grows_def eqs partition_grows_refl)
  ultimately show ?thesis ..
qed

lemma exec_exchange:
  assumes "exec_ok s" and "exe_exchange s = Some u" and "core t = core (s\<lparr>exe_exchange := Some v\<rparr>)"
    and "tracker_ok v" and "tracker_grows u v"
    and "\<And>k a. dict_get (trk_selected_attempts v) k = Some a \<Longrightarrow> dict_get (trk_selected_attempts u) k = Some a \<or>
           (\<exists>p. dict_get (exe_partitions s) k = Some p \<and> prt_finished p \<and> prt_selected_attempt p = Some a)"
    and "exe_failed s \<longrightarrow> exe_failed t" and "exe_no_more_partitions s \<longrightarrow> exe_no_more_partitions t"
  shows "exec_ok t \<and> exec_grows s t"
proof -
  have eqs: "exe_query_id t = exe_query_id s" "exe_fragment_execution_id t = exe_fragment_execution_id s"
    "exe_max_attempts t = exe_max_attempts s" "exe_partitions t = exe_partitions s" "exe_exchange t = Some v"
    "exe_recorded t = exe_recorded s"
    using assms(3) by (simp_all add: core_def)
  note ok = exec_okD [OF assms(1)]
  have same: "created t = created s" "started_in t = started_in s" "task_of t = task_of s"
    unfolding created_def started_in_def task_of_def eqs by (rule refl)+
  have "sink_ok (Some v) k h" if "sink_ok (Some u) k h" for k h
    using that assms(5) by (auto simp: sink_ok_def tracker_grows_def split: option.splits)
  then have "partition_at t k p" if "partition_at s k p" for k p
    using that assms(2,7) unfolding partition_at_def eqs same by auto
  moreover have "selection_ok t" using ok(4) assms(2,6) unfolding selection_ok_def eqs option.inject by blast
  ultimately have "exec_ok t" using ok assms(4) unfolding exec_ok_def same eqs option.inject by blast
  moreover have "exec_grows s t"
    using assms(2,5,7,8) by (simp add: exec_grows_def eqs partition_grows_refl exchange_grows_def)
  ultimately show ?thesis ..
qed

lemma exec_new_partition:
  assumes "exec_ok s" and "\<not> dict_has (exe_partitions s) k" and "core t = core (s\<lparr>exe_partitions := dict_set k p (exe_partitions s)\<rparr>)"
    and "partition_ok p" and "prt_task_id p = task_of s k" and "prt_max_attempts p = exe_max_attempts s" and "\<not> prt_failed p"
    and "sink_ok (exe_exchange s) k (prt_sink_handle p)"
    and "exe_failed s \<longrightarrow> exe_failed t" and "exe_no_more_partitions s \<longrightarrow> exe_no_more_partitions t"
  shows "exec_ok t \<and> exec_grows s t"
proof -
  have eqs: "exe_query_id t = exe_query_id s" "exe_fragment_execution_id t = exe_fragment_execution_id s"
    "exe_max_attempts t = exe_max_attempts s" "exe_partitions t = dict_set k p (exe_partitions s)" "exe_exchange t = exe_exchange s"
    "exe_recorded t = exe_recorded s"
    using assms(3) by (simp_all add: core_def)
  note ok = exec_okD [OF assms(1)]
  have new: "dict_get (exe_partitions s) j = Some q \<Longrightarrow> j \<noteq> k" for j q using assms(2) by (auto simp: dict_has_def)
  have same: "created t = created s" "task_of t = task_of s" unfolding created_def task_of_def eqs by (rule refl)+
  have "partition_at t j q" if "dict_get (exe_partitions t) j = Some q" for j q
    using that assms(4-8) ok(2) [of j q] assms(9) by (auto simp: partition_at_def eqs same split: if_splits)
  moreover have "started_in t a" if "started_in s a" for a
    using that new unfolding started_in_def eqs same by (auto dest: new)
  moreover have "selection_ok t"
    using ok(4) unfolding selection_ok_def eqs by (auto dest: new)
  ultimately have "exec_ok t" using ok unfolding exec_ok_def same by (auto simp: eqs)
  moreover have "exec_grows s t" using assms(9,10) by (auto simp: exec_grows_def eqs partition_grows_refl dest: new)
  ultimately show ?thesis ..
qed

lemma created_snoc:
  "exe_recorded t = exe_recorded s @ [c] \<Longrightarrow>
   created t = created s @ (if is_FteCreateTaskCommand c then [cmd_attempt_id c] else [])"
  by (simp add: created_def)

lemma exec_record:
  assumes "exec_ok s" and "core t = core (s\<lparr>exe_recorded := exe_recorded s @ [c]\<rparr>)"
    and "is_FteCreateTaskCommand c \<longrightarrow> cmd_attempt_id c \<notin> set (created s) \<and> started_in s (cmd_attempt_id c)"
    and "exe_failed s \<longrightarrow> exe_failed t" and "exe_no_more_partitions s \<longrightarrow> exe_no_more_partitions t"
  shows "exec_ok t \<and> exec_grows s t"
proof -
  have eqs: "exe_query_id t = exe_query_id s" "exe_fragment_execution_id t = exe_fragment_execution_id s"
    "exe_max_attempts t = exe_max_attempts s" "exe_partitions t = exe_partitions s" "exe_exchange t = exe_exchange s"
    "exe_recorded t = exe_recorded s @ [c]"
    using assms(2) by (simp_all add: core_def)
  note ok = exec_okD [OF assms(1)]
  have same: "started_in t = started_in s" "task_of t = task_of s" "selection_ok t = selection_ok s"
    unfolding started_in_def task_of_def selection_ok_def eqs by (rule refl)+
  have "partition_at t k p" if "partition_at s k p" for k p
    using that assms(4) unfolding partition_at_def eqs same by blast
  moreover have "distinct (created t)" and "\<forall>a\<in>set (created t). started_in s a"
    using ok(5,6) assms(3) by (auto simp: created_snoc [OF eqs(6)])
  ultimately have "exec_ok t" using ok unfolding exec_ok_def same eqs(1,4,5) by blast
  moreover have "exec_grows s t" using assms(4,5) by (simp add: exec_grows_def eqs partition_grows_refl)
  ultimately show ?thesis ..
qed

section \<open>Operations that keep the invariant\<close>

definition keeps :: "(fragment_execution, 'a) op \<Rightarrow> bool" where
  "keeps f = (\<forall>s. exec_ok s \<longrightarrow> exec_ok (snd (f s)) \<and> exec_grows s (snd (f s)))"

named_theorems keeps_rules \<open>rules that decompose an operation on an execution\<close>

lemma keepsI: "(\<And>s. exec_ok s \<Longrightarrow> exec_ok (snd (f s)) \<and> exec_grows s (snd (f s))) \<Longrightarrow> keeps f"
  by (simp add: keeps_def)

lemma keepsD: "keeps f \<Longrightarrow> exec_ok s \<Longrightarrow> exec_ok (snd (f s)) \<and> exec_grows s (snd (f s))"
  by (simp add: keeps_def)

lemma keeps_run: "keeps f \<Longrightarrow> exec_ok s \<Longrightarrow> f s = (r, t) \<Longrightarrow> exec_ok t \<and> exec_grows s t"
  by (metis keepsD snd_conv)

lemma keeps_retS [keeps_rules]: "keeps (retS x)"
  by (simp add: keeps_def exec_grows_refl)

lemma keeps_liftS [keeps_rules]: "keeps (liftS f)"
  by (simp add: keeps_def exec_grows_refl)

lemma keeps_bindS [keeps_rules]:
  assumes "keeps f" and "\<And>x. keeps (g x)"
  shows "keeps (bindS f g)"
proof (rule keepsI)
  fix s assume ok: "exec_ok s"
  obtain r t where f: "f s = (r, t)" by fastforce
  note t = keeps_run [OF assms(1) ok f]
  show "exec_ok (snd (bindS f g s)) \<and> exec_grows s (snd (bindS f g s))"
  proof (cases r)
    case (Inl e)
    then show ?thesis using t f by (simp add: bindS_def)
  next
    case (Inr x)
    then show ?thesis using t f keepsD [OF assms(2), of t x] by (auto simp: bindS_def intro: exec_grows_trans)
  qed
qed

lemma keeps_foldS [keeps_rules]: "(\<And>x. keeps (f x)) \<Longrightarrow> keeps (foldS f xs)"
proof (induction xs)
  case Nil
  show ?case by (simp add: keeps_def exec_grows_refl)
next
  case (Cons x xs)
  have "keeps (bindS (f x) (\<lambda>_. foldS f xs))" by (intro keeps_bindS Cons.IH Cons.prems)
  then show ?case by (simp add: keeps_def)
qed

lemma keeps_mapS [keeps_rules]: "(\<And>x. keeps (f x)) \<Longrightarrow> keeps (mapS f xs)"
proof (induction xs)
  case Nil
  show ?case by (simp add: keeps_def exec_grows_refl)
next
  case (Cons x xs)
  have "keeps (bindS (f x) (\<lambda>y. bindS (mapS f xs) (\<lambda>ys. retS (y # ys))))" by (intro keeps_bindS keeps_retS Cons.IH Cons.prems)
  then show ?case by (simp add: keeps_def)
qed

lemma keeps_if [keeps_rules]: "(b \<Longrightarrow> keeps f) \<Longrightarrow> (\<not> b \<Longrightarrow> keeps g) \<Longrightarrow> keeps (if b then f else g)"
  by simp

lemma keeps_option [keeps_rules]:
  "keeps f \<Longrightarrow> (\<And>y. x = Some y \<Longrightarrow> keeps (g y)) \<Longrightarrow> keeps (case x of None \<Rightarrow> f | Some y \<Rightarrow> g y)"
  by (cases x) simp_all

lemma keeps_prod [keeps_rules]: "(\<And>a b. x = (a, b) \<Longrightarrow> keeps (g a b)) \<Longrightarrow> keeps (case x of (a, b) \<Rightarrow> g a b)"
  by (cases x) simp

lemma keeps_let [keeps_rules]: "keeps (f x) \<Longrightarrow> keeps (Let x f)"
  by simp

lemma keeps_frame: "(\<And>s. core (snd (f s)) = core s \<and> (exe_failed s \<longrightarrow> exe_failed (snd (f s))) \<and>
    (exe_no_more_partitions s \<longrightarrow> exe_no_more_partitions (snd (f s)))) \<Longrightarrow> keeps f"
  by (rule keepsI) (rule exec_frame; simp)

lemma keeps_tick [keeps_rules]: "keeps (tick E)"
  by (rule keeps_frame) (simp add: tick_def core_def)

lemma keeps_call_worker [keeps_rules]: "keeps (call_worker E c h)"
  by (rule keeps_frame) (simp add: call_worker_def core_def split: option.split)

lemma keeps_on_storage [keeps_rules]: "keeps (on_storage f)"
  by (rule keeps_frame) (simp add: on_storage_def core_def split: prod.split)

lemma keeps_put_descriptor [keeps_rules]: "keeps (put_descriptor E p)"
  unfolding put_descriptor_def by (rule keeps_on_storage)

lemma control_call_snd: "snd (control_call E r m c s) = s \<or> snd (control_call E r m c s) = snd (call_worker E c (run_remote_handle r) s)"
  by (auto simp: control_call_def split: prod.split sum.split)

lemma keeps_control_call [keeps_rules]: "keeps (control_call E r m c)"
  by (rule keepsI) (use control_call_snd [of E r m c] keepsD [OF keeps_call_worker] exec_grows_refl in metis)

lemma keeps_result_ready [keeps_rules]: "keeps (record_task_result_ready_without_drain E h a)"
  unfolding record_task_result_ready_without_drain_def by (intro keeps_rules)

lemma keeps_terminal [keeps_rules]: "keeps (record_task_terminal_without_drain E h a)"
  unfolding record_task_terminal_without_drain_def by (intro keeps_rules)

text \<open>An operation on a partition that neither fails it nor gives it another sink.\<close>

definition gentle :: "(task_partition, 'a) op \<Rightarrow> bool" where
  "gentle f = (\<forall>p. partition_ok p \<longrightarrow>
     partition_ok (snd (f p)) \<and> partition_grows p (snd (f p)) \<and> prt_failed (snd (f p)) = prt_failed p \<and>
     prt_sink_handle (snd (f p)) = prt_sink_handle p)"

lemma gentleI:
  "(\<And>p. partition_ok p \<Longrightarrow> partition_ok (snd (f p)) \<and> partition_grows p (snd (f p))) \<Longrightarrow>
   (\<And>p. partition_ok p \<Longrightarrow> prt_failed (snd (f p)) = prt_failed p) \<Longrightarrow>
   (\<And>p. partition_ok p \<Longrightarrow> prt_sink_handle (snd (f p)) = prt_sink_handle p) \<Longrightarrow> gentle f"
  by (simp add: gentle_def)

lemma on_partition_snd:
  "snd (on_partition k f s) =
     (case dict_get (exe_partitions s) k of
        None \<Rightarrow> s | Some p \<Rightarrow> s\<lparr>exe_partitions := dict_set k (snd (f p)) (exe_partitions s)\<rparr>)"
  by (simp add: on_partition_def split: option.split prod.split)

lemma keeps_on_partition [keeps_rules]:
  assumes "gentle f"
  shows "keeps (on_partition k f)"
proof (rule keepsI)
  fix s assume ok: "exec_ok s"
  show "exec_ok (snd (on_partition k f s)) \<and> exec_grows s (snd (on_partition k f s))"
  proof (cases "dict_get (exe_partitions s) k")
    case None
    then show ?thesis using ok by (simp add: on_partition_snd exec_grows_refl)
  next
    case (Some p)
    note at = exec_okD(2) [OF ok Some]
    have g: "partition_ok (snd (f p))" "partition_grows p (snd (f p))" "prt_failed (snd (f p)) = prt_failed p"
      "prt_sink_handle (snd (f p)) = prt_sink_handle p"
      using assms at by (simp_all add: gentle_def partition_at_def)
    show ?thesis
      unfolding on_partition_snd Some option.case
      by (rule exec_partition [OF ok Some refl g(1,2)]) (use at g(3,4) in \<open>simp_all add: partition_at_def\<close>)
  qed
qed

lemma gentle_flags [keeps_rules]:
  "gentle (\<lambda>p. (r, mark_waiting_for_node now p))" "gentle (\<lambda>p. (r, mark_ready_for_execution p))"
  "gentle (\<lambda>p. (r, defer_ready_for_execution p))" "gentle (\<lambda>p. (r, reset_no_matching_node p))"
  "gentle (\<lambda>p. (r, snd (mark_no_matching_node first now p)))"
  by (rule gentleI; use flags_ok in \<open>simp add: mark_waiting_for_node_def mark_no_matching_node_def reset_no_matching_node_def Let_def
        mark_ready_for_execution_def defer_ready_for_execution_def\<close>)+

lemma gentle_seal [keeps_rules]: "gentle seal"
  by (rule gentleI) (simp_all add: seal_ok, simp_all add: seal_def Let_def mark_ready_for_execution_def)

lemma gentle_start [keeps_rules]: "gentle (start_attempt now inst w h)"
  by (rule gentleI) (simp_all add: start_attempt_ok, simp_all add: start_attempt_def split: sum.split)

lemma gentle_stats [keeps_rules]: "gentle (update_running_task_stats a st)"
proof (rule gentleI)
  fix p
  obtain stats where s: "snd (update_running_task_stats a st p) = p\<lparr>prt_running_task_stats := stats\<rparr>"
    using task_stats_cases by blast
  show "prt_failed (snd (update_running_task_stats a st p)) = prt_failed p"
    and "prt_sink_handle (snd (update_running_task_stats a st p)) = prt_sink_handle p"
    unfolding s by simp_all
qed (rule task_stats_ok)

lemma gentle_finished [keeps_rules]: "gentle (mark_attempt_finished a stats)"
proof (rule gentleI)
  fix p assume "partition_ok p"
  then show "prt_failed (snd (mark_attempt_finished a stats p)) = prt_failed p"
    and "prt_sink_handle (snd (mark_attempt_finished a stats p)) = prt_sink_handle p"
    by (cases rule: mark_attempt_finished_cases [of p a stats]; simp)+
qed (rule mark_attempt_finished_ok)

lemma gentle_descriptor [keeps_rules]:
  assumes "\<And>d. dsc_task_id (snd (f d)) = dsc_task_id d"
  shows "gentle (on_descriptor f)"
proof -
  have s: "snd (on_descriptor f p) = p\<lparr>prt_descriptor := snd (f (prt_descriptor p))\<rparr>" for p
    by (simp add: on_descriptor_def split: prod.split)
  show ?thesis by (rule gentleI; unfold s; simp add: descriptor_change_ok assms)
qed

section \<open>Commands, sinks and descriptors\<close>

lemma record_core:
  "core (record_worker_command c s) = core (s\<lparr>exe_recorded := exe_recorded s @ [c]\<rparr>)"
  "exe_failed (record_worker_command c s) = exe_failed s"
  "exe_no_more_partitions (record_worker_command c s) = exe_no_more_partitions s"
  by (simp_all add: record_worker_command_def core_def Let_def split: option.split)

lemma record_ok:
  assumes "exec_ok s" and "is_FteCreateTaskCommand c \<longrightarrow> cmd_attempt_id c \<notin> set (created s) \<and> started_in s (cmd_attempt_id c)"
  shows "exec_ok (record_worker_command c s) \<and> exec_grows s (record_worker_command c s)"
  by (rule exec_record [OF assms(1) record_core(1) assms(2)]) (simp_all add: record_core)

lemma record_all_ok:
  assumes "exec_ok s" and "\<And>c. c \<in> set cs \<Longrightarrow> \<not> is_FteCreateTaskCommand c"
  shows "exec_ok (fold record_worker_command cs s) \<and> exec_grows s (fold record_worker_command cs s)"
  using assms
proof (induction cs arbitrary: s)
  case (Cons c cs)
  note r = record_ok [OF Cons.prems(1), of c]
  then show ?case using Cons by (auto intro: exec_grows_trans)
qed (simp add: exec_grows_refl)

lemma add_sink_cases:
  assumes "tracker_ok t" and "add_sink k t = (r, u)"
  shows "tracker_ok u \<and> tracker_grows t u \<and> trk_selected_attempts u = trk_selected_attempts t \<and>
    (\<forall>h. r = Inr h \<longrightarrow> snk_partition_id h = k \<and> dict_get (trk_sinks u) k = Some h)"
proof -
  have "tracker_ok u \<and> tracker_grows t u" using add_sink_ok [OF assms(1), of k] assms(2) by simp
  moreover have "snk_partition_id h = k" if "dict_get (trk_sinks t) k = Some h" for h
  proof -
    have "h = \<lparr>snk_query_id = trk_query_id t, snk_exchange_id = trk_exchange_id t, snk_partition_id = k\<rparr>"
      using assms(1) that unfolding tracker_ok_def by blast
    then show ?thesis by simp
  qed
  ultimately show ?thesis
    using assms(2) by (auto simp: add_sink_def check_non_negative_def Let_def split: if_splits option.splits)
qed

lemma add_exchange_sink_ok:
  assumes "exec_ok s" and "add_exchange_sink k s = (r, t)"
  shows "exec_ok t \<and> exec_grows s t \<and> exe_partitions t = exe_partitions s \<and> exe_max_attempts t = exe_max_attempts s \<and>
    task_of t = task_of s \<and> exe_failed t = exe_failed s \<and> (\<forall>h. r = Inr h \<longrightarrow> sink_ok (exe_exchange t) k h)"
proof (cases "exe_exchange s")
  case None
  then show ?thesis using assms by (auto simp: add_exchange_sink_def exec_grows_refl sink_ok_def)
next
  case (Some u)
  obtain r' v where a: "add_sink k u = (r', v)" by fastforce
  then have t: "t = s\<lparr>exe_exchange := Some v\<rparr>" and r: "r = bindE r' (\<lambda>h. Inr (Some h))"
    using assms(2) Some by (simp_all add: add_exchange_sink_def)
  note c = add_sink_cases [OF exec_okD(3) [OF assms(1) Some] a]
  have "exec_ok t \<and> exec_grows s t"
    by (rule exec_exchange [OF assms(1) Some, of _ v]) (use c t in \<open>auto simp: core_def\<close>)
  then show ?thesis using t r c by (auto simp: task_of_def sink_ok_def bindE_eq_Inr)
qed

lemma sink_aborted_selected: "trk_selected_attempts (snd (sink_aborted h a t)) = trk_selected_attempts t"
  by (simp add: sink_aborted_def Let_def split: sum.split prod.split)

lemma keeps_sink_aborted [keeps_rules]: "keeps (on_sink k (\<lambda>h. sink_aborted h a))"
proof (rule keepsI)
  fix s assume ok: "exec_ok s"
  show "exec_ok (snd (on_sink k (\<lambda>h. sink_aborted h a) s)) \<and> exec_grows s (snd (on_sink k (\<lambda>h. sink_aborted h a) s))"
  proof (cases "\<exists>t p h. exe_exchange s = Some t \<and> dict_get (exe_partitions s) k = Some p \<and> prt_sink_handle p = Some h")
    case False
    then have "snd (on_sink k (\<lambda>h. sink_aborted h a) s) = s" by (auto simp: on_sink_def split: option.split)
    then show ?thesis using ok by (simp add: exec_grows_refl)
  next
    case True
    then obtain t p h where t: "exe_exchange s = Some t" "dict_get (exe_partitions s) k = Some p" "prt_sink_handle p = Some h" by blast
    let ?u = "snd (sink_aborted h a t)"
    have s': "snd (on_sink k (\<lambda>h. sink_aborted h a) s) = s\<lparr>exe_exchange := Some ?u\<rparr>"
      using t by (simp add: on_sink_def split: prod.split)
    note u = sink_aborted_ok [OF exec_okD(3) [OF ok t(1)], of h a]
    show ?thesis unfolding s'
      by (rule exec_exchange [OF ok t(1) refl]) (use u sink_aborted_selected [of h a t] in simp_all)
  qed
qed

lemma foldS_field:
  assumes "\<And>x st. f (snd (step x st)) = f st"
  shows "f (snd (foldS step xs st)) = f st"
proof (induction xs arbitrary: st)
  case (Cons x xs)
  obtain r st' where s: "step x st = (r, st')" by fastforce
  have "f st' = f st" using assms [of x st] s by simp
  then show ?case using s Cons.IH [of st'] by (cases r) (simp_all add: bindS_def)
qed simp

lemma bindS_field:
  assumes "\<And>st. f (snd (a st)) = f st" and "\<And>x st. f (snd (b x st)) = f st"
  shows "f (snd (bindS a b st)) = f st"
  using assms(1) [of st] assms(2) by (cases "a st"; cases "fst (a st)") (auto simp: bindS_def)

lemma modS_field: "(\<And>st. f (g st) = f st) \<Longrightarrow> f (snd (modS g st)) = f st"
  by simp

lemma append_splits_task_id [simp]: "dsc_task_id (snd (append_splits src splits d)) = dsc_task_id d"
proof -
  have "dsc_task_id (fst (snd (foldS (append_one src) xs st))) = dsc_task_id (fst st)" for xs st
    by (rule foldS_field) (simp add: append_one_def Let_def split: prod.split)
  then have *: "dsc_task_id d' = dsc_task_id (fst st)" if "foldS (append_one src) xs st = (r, (d', added))" for xs st r d' added
    using that by (metis fst_conv snd_conv)
  show ?thesis
    by (auto simp: append_splits_def append_start_def Let_def dest!: * split: sum.split prod.split)
qed

lemma mark_no_more_task_id [simp]: "dsc_task_id (snd (mark_no_more_splits src d)) = dsc_task_id d"
  by (simp add: mark_no_more_splits_def Let_def)

lemma apply_update_task_id [simp]: "dsc_task_id (snd (descriptor_apply_task_update same r d)) = dsc_task_id d"
proof -
  let ?f = "\<lambda>st :: task_descriptor \<times> bool. dsc_task_id (fst st)"
  have split: "?f (snd (foldS apply_source_splits xs st)) = ?f st" for xs st
    by (rule foldS_field) (auto simp: apply_source_splits_def split: prod.split sum.split,
        (metis append_splits_task_id snd_conv)+)
  have no_more: "?f (fold apply_no_more xs st) = ?f st" for xs st
  proof (induction xs arbitrary: st)
    case (Cons x xs)
    have "?f (apply_no_more x st) = ?f st"
      by (simp add: apply_no_more_def split: prod.split) (metis mark_no_more_task_id snd_conv)
    then show ?case using Cons.IH [of "apply_no_more x st"] by simp
  qed simp
  have meta: "?f (apply_metadata same r st) = ?f st" "?f (apply_domains_and_sources r st) = ?f st" for st
    by (simp_all add: apply_metadata_def apply_domains_and_sources_def Let_def split: prod.split)
  have buffers: "?f (snd (apply_output_buffers r st)) = ?f st" for st
    by (simp add: apply_output_buffers_def split: option.split sum.split prod.split)
  have version: "?f ((\<lambda>(d, changed). (if changed then d\<lparr>dsc_descriptor_version := dsc_descriptor_version d + 1\<rparr> else d, changed)) st) = ?f st"
    for st by (simp split: prod.split)
  have "snd (descriptor_apply_task_update same r d) = fst (snd (
        bindS (foldS apply_source_splits (req_initial_splits r)) (\<lambda>_.
        bindS (modS (fold apply_no_more (sort (req_no_more_splits r)))) (\<lambda>_.
        bindS (modS (apply_metadata same r)) (\<lambda>_.
        bindS (apply_output_buffers r) (\<lambda>_.
        bindS (modS (apply_domains_and_sources r)) (\<lambda>_.
        modS (\<lambda>(d, changed).
          (if changed then d\<lparr>dsc_descriptor_version := dsc_descriptor_version d + 1\<rparr> else d, changed))))))) (d, False)))"
    by (simp add: descriptor_apply_task_update_def split: prod.split)
  moreover have "?f (snd (
        bindS (foldS apply_source_splits (req_initial_splits r)) (\<lambda>_.
        bindS (modS (fold apply_no_more (sort (req_no_more_splits r)))) (\<lambda>_.
        bindS (modS (apply_metadata same r)) (\<lambda>_.
        bindS (apply_output_buffers r) (\<lambda>_.
        bindS (modS (apply_domains_and_sources r)) (\<lambda>_.
        modS (\<lambda>(d, changed).
          (if changed then d\<lparr>dsc_descriptor_version := dsc_descriptor_version d + 1\<rparr> else d, changed))))))) st)) = ?f st" for st
    by (intro bindS_field [where f = ?f] modS_field [where f = ?f] split no_more meta buffers version)
  ultimately show ?thesis by simp
qed

section \<open>Adding partitions and starting attempts\<close>

lemma node_requirements_ok:
  "partition_ok p \<Longrightarrow> partition_ok (p\<lparr>prt_node_requirements := n\<rparr>) \<and> partition_grows p (p\<lparr>prt_node_requirements := n\<rparr>)"
  by (rule partition_frame) (use partition_okD(9) [of p] in \<open>simp_all add: lifecycle_of_def\<close>)

lemma sink_handle_ok:
  "partition_ok p \<Longrightarrow> partition_ok (p\<lparr>prt_sink_handle := h\<rparr>) \<and> partition_grows p (p\<lparr>prt_sink_handle := h\<rparr>)"
  by (rule partition_frame) (use partition_okD(9) [of p] in \<open>simp_all add: lifecycle_of_def\<close>)

lemma new_partition_fields:
  assumes "new_partition t sink node s = Inr p"
  shows "partition_ok p \<and> prt_task_id p = t \<and> prt_max_attempts p = exe_max_attempts s \<and> \<not> prt_failed p \<and> \<not> prt_finished p \<and>
    prt_running_attempts p = [] \<and> prt_sink_handle p = sink"
proof -
  obtain d where mk: "mk_partition (Obj t) d (exe_max_attempts s) sink node (Some (exe_task_memory_bytes s)) (Obj (exe_execution_class s)) = Inr p"
    using assms unfolding new_partition_def bindE_eq_Inr by blast
  show ?thesis using mk_partition_ok [OF mk] mk by (auto simp: mk_partition_def bindE_eq_Inr split: if_splits)
qed

lemma keeps_add_partition [keeps_rules]: "keeps (add_partition E k node)"
proof (rule keepsI)
  fix s assume ok: "exec_ok s"
  consider "k < 0" | p where "0 \<le> k" "dict_get (exe_partitions s) k = Some p" | "0 \<le> k" "dict_get (exe_partitions s) k = None"
    by force
  then show "exec_ok (snd (add_partition E k node s)) \<and> exec_grows s (snd (add_partition E k node s))"
  proof cases
    case 1
    then show ?thesis using ok by (simp add: add_partition_def check_non_negative_def exec_grows_refl)
  next
    case (2 p)
    note at = exec_okD(2) [OF ok 2(2)]
    have "exec_ok (s\<lparr>exe_partitions := dict_set k (p\<lparr>prt_node_requirements := node\<rparr>) (exe_partitions s)\<rparr>) \<and>
      exec_grows s (s\<lparr>exe_partitions := dict_set k (p\<lparr>prt_node_requirements := node\<rparr>) (exe_partitions s)\<rparr>)"
      by (rule exec_partition [OF ok 2(2) refl]) (use at node_requirements_ok in \<open>auto simp: partition_at_def\<close>)
    then show ?thesis using 2 ok by (simp add: add_partition_def check_non_negative_def exec_grows_refl)
  next
    case 3
    let ?t = "mk_task_id (exe_query_id s) (exe_fragment_execution_id s) k"
    show ?thesis
    proof (cases ?t)
      case (Inl e)
      then show ?thesis using 3 ok by (simp add: add_partition_def check_non_negative_def bindS_def exec_grows_refl)
    next
      case (Inr t)
      obtain r s1 where a: "add_exchange_sink k s = (r, s1)" by fastforce
      note s1 = add_exchange_sink_ok [OF ok a]
      show ?thesis
      proof (cases "\<exists>sink p. r = Inr sink \<and> new_partition t sink node s1 = Inr p")
        case False
        then have "snd (add_partition E k node s) = s1"
          using 3 Inr a by (auto simp: add_partition_def check_non_negative_def bindS_def split: sum.split)
        then show ?thesis using s1 by simp
      next
        case True
        then obtain sink p where r: "r = Inr sink" and p: "new_partition t sink node s1 = Inr p" by blast
        let ?s2 = "s1\<lparr>exe_partitions := dict_set k p (exe_partitions s1)\<rparr>"
        have e: "add_partition E k node s = put_descriptor E p ?s2"
          using 3 Inr a r p by (simp add: add_partition_def check_non_negative_def bindS_def)
        note f = new_partition_fields [OF p]
        have t: "t = task_of s1 k" using Inr s1 exec_okD(7) [OF ok] by (simp add: mk_task_id_Inr task_of_def)
        have s2: "exec_ok ?s2 \<and> exec_grows s1 ?s2"
          by (rule exec_new_partition [OF conjunct1 [OF s1] _ refl]) (use f t r s1 3 in \<open>auto simp: dict_has_def\<close>)
        note s3 = keepsD [OF keeps_put_descriptor conjunct1 [OF s2], of E p]
        show ?thesis unfolding e using s1 s2 s3 exec_grows_trans by blast
      qed
    qed
  qed
qed

lemma read_partition_Inr: "read_partition k Inr s = Inr p \<longleftrightarrow> dict_get (exe_partitions s) k = Some p"
  by (simp add: read_partition_def split: option.split)

text \<open>Giving the partition a sink that the exchange knows.\<close>

lemma set_sink_handle_ok:
  assumes "exec_ok s" and "sink_ok (exe_exchange s) k h"
  shows "exec_ok (snd (on_partition k (\<lambda>p. (Inr (), p\<lparr>prt_sink_handle := h\<rparr>)) s)) \<and>
    exec_grows s (snd (on_partition k (\<lambda>p. (Inr (), p\<lparr>prt_sink_handle := h\<rparr>)) s))"
proof (cases "dict_get (exe_partitions s) k")
  case None
  then show ?thesis using assms by (simp add: on_partition_snd exec_grows_refl)
next
  case (Some p)
  note at = exec_okD(2) [OF assms(1) Some]
  show ?thesis unfolding on_partition_snd Some option.case snd_conv
    by (rule exec_partition [OF assms(1) Some refl]) (use at sink_handle_ok [of p h] assms(2) in \<open>auto simp: partition_at_def\<close>)
qed

definition give_sink :: "int \<Rightarrow> task_partition \<Rightarrow> (fragment_execution, exchange_sink_handle) op" where
  "give_sink k p =
     bindS (add_exchange_sink (task_partition_id (prt_task_id p))) (\<lambda>sink.
     bindS (on_partition k (\<lambda>p. (Inr (), p\<lparr>prt_sink_handle := sink\<rparr>))) (\<lambda>_.
     liftS (\<lambda>_. case sink of Some h \<Rightarrow> Inr h | None \<Rightarrow> Inl (AttributeError ''NoneType''))))"

lemma give_sink_ok:
  assumes "exec_ok s" and "dict_get (exe_partitions s) k = Some p"
  shows "exec_ok (snd (give_sink k p s)) \<and> exec_grows s (snd (give_sink k p s))"
proof -
  have id: "task_partition_id (prt_task_id p) = k"
    using exec_okD(2) [OF assms] by (simp add: partition_at_def task_of_def)
  obtain r s1 where a: "add_exchange_sink k s = (r, s1)" by fastforce
  note s1 = add_exchange_sink_ok [OF assms(1) a]
  show ?thesis
  proof (cases r)
    case (Inl e)
    then show ?thesis using a s1 by (simp add: give_sink_def id bindS_def)
  next
    case (Inr h)
    obtain r2 s2 where o: "on_partition k (\<lambda>p. (Inr (), p\<lparr>prt_sink_handle := h\<rparr>)) s1 = (r2, s2)" by fastforce
    have "exec_ok s2 \<and> exec_grows s1 s2" using set_sink_handle_ok [of s1 k h] s1 Inr o by simp
    moreover have "snd (give_sink k p s) = s2"
      using a Inr o by (cases r2) (simp_all add: give_sink_def id bindS_def)
    ultimately show ?thesis using s1 exec_grows_trans by auto
  qed
qed

lemma keeps_attempt_sink_instance [keeps_rules]: "keeps (attempt_sink_instance k)"
proof (rule keepsI)
  fix s assume ok: "exec_ok s"
  show "exec_ok (snd (attempt_sink_instance k s)) \<and> exec_grows s (snd (attempt_sink_instance k s))"
  proof (cases "dict_get (exe_partitions s) k")
    case None
    then show ?thesis using ok by (simp add: attempt_sink_instance_def read_partition_def bindS_def exec_grows_refl)
  next
    case (Some p)
    let ?rest = "\<lambda>h. bindS (liftS (\<lambda>s. read_partition k next_attempt_number s)) (\<lambda>n.
       liftS (\<lambda>s. case exe_exchange s of None \<Rightarrow> Inr no_sink_instance
                  | Some t \<Rightarrow> bindE (instantiate_sink h n t) (\<lambda>i. Inr (Obj i))))"
    have rest: "keeps (?rest h)" for h by (intro keeps_rules)
    have rp: "read_partition k Inr s = Inr p" using Some by (simp add: read_partition_Inr)
    consider "exe_exchange s = None" | h where "exe_exchange s \<noteq> None" "prt_sink_handle p = Some h"
      | "exe_exchange s \<noteq> None" "prt_sink_handle p = None" by blast
    then show ?thesis
    proof cases
      case 1
      then have "snd (attempt_sink_instance k s) = s" using Some
        by (simp add: attempt_sink_instance_def bindS_def read_partition_def split: sum.split)
      then show ?thesis using ok by (simp add: exec_grows_refl)
    next
      case (2 h)
      then have "attempt_sink_instance k s = ?rest h s" using rp
        by (simp add: attempt_sink_instance_def bindS_def)
      then show ?thesis using keepsD [OF rest ok] by simp
    next
      case 3
      then have e: "attempt_sink_instance k s = bindS (give_sink k p) ?rest s" using rp
        by (simp add: attempt_sink_instance_def give_sink_def bindS_def)
      obtain r t where g: "give_sink k p s = (r, t)" by fastforce
      have t: "exec_ok t" "exec_grows s t" using give_sink_ok [OF ok Some] g by simp_all
      show ?thesis
      proof (cases r)
        case (Inl x)
        then show ?thesis using e g t by (simp add: bindS_def)
      next
        case (Inr h)
        then have "attempt_sink_instance k s = ?rest h t" using e g by (simp add: bindS_def)
        then show ?thesis using keepsD [OF rest t(1), of h] t(2) exec_grows_trans by metis
      qed
    qed
  qed
qed

text \<open>The part of \<open>start_attempt_with_worker\<close> that starts the attempt and records its create command.\<close>

definition launch ::
  "environment \<Rightarrow> int \<Rightarrow> string option \<Rightarrow> worker option \<Rightarrow> sink_instance \<Rightarrow> rat \<Rightarrow> (fragment_execution, scheduled_attempt) op" where
  "launch E k worker_id worker inst now =
     bindS (on_partition k (start_attempt now inst worker_id worker)) (\<lambda>scheduled.
     bindS (liftS (\<lambda>s. Inr s)) (\<lambda>s.
     bindS (call_worker E (\<lambda>w. EnsureFragmentRegistered w (exe_query_id s) (exe_fragment_id s)
              (dsc_fragment_plan (sch_descriptor scheduled))) worker) (\<lambda>registration.
     let req = registered_request registration (sch_request scheduled) in
     bindS (modS (record_worker_command
              (FteCreateTaskCommand (exe_query_id s) (exe_fragment_id s) worker_id worker (sch_attempt_id scheduled)
                 (task_partition_id (attempt_task_id (sch_attempt_id scheduled))) req))) (\<lambda>_.
     retS (scheduled\<lparr>sch_request := req\<rparr>)))))"

lemma start_attempt_with_worker_launch:
  "start_attempt_with_worker E k =
     bindS (select_worker E k) (\<lambda>(worker_id, worker).
     bindS (attempt_sink_instance k) (\<lambda>inst. bindS (tick E) (\<lambda>now. launch E k worker_id worker inst now)))"
  by (simp add: start_attempt_with_worker_def launch_def)

lemma not_created_before:
  assumes "exec_ok s" and "dict_get (exe_partitions s) k = Some p" and "prt_running_attempts p = []" and "\<not> prt_finished p"
  shows "current_attempt p \<notin> set (created s)"
proof
  assume "current_attempt p \<in> set (created s)"
  then obtain j q where j: "dict_get (exe_partitions s) j = Some q" "attempt_task_id (current_attempt p) = task_of s j"
      "attempt_started q (attempt_number (current_attempt p))"
    using exec_okD(6) [OF assms(1)] unfolding started_in_def by blast
  have "prt_task_id p = task_of s k" using exec_okD(2) [OF assms(1,2)] by (simp add: partition_at_def)
  then have "j = k" using j(2) by (simp add: current_attempt_def task_of_def)
  then show False using j(1,3) assms(2-4) by (simp add: attempt_started_def current_attempt_def)
qed

lemma core_eqs:
  assumes "core t = core s"
  shows "created t = created s" and "started_in t = started_in s"
proof -
  have eqs: "exe_query_id t = exe_query_id s" "exe_fragment_execution_id t = exe_fragment_execution_id s"
    "exe_partitions t = exe_partitions s" "exe_recorded t = exe_recorded s"
    using assms by (simp_all add: core_def)
  show "created t = created s" and "started_in t = started_in s"
    unfolding created_def started_in_def task_of_def eqs by (rule refl)+
qed

lemma started_after:
  assumes "exec_ok s" and "dict_get (exe_partitions s) k = Some p"
    and "start_attempt now inst w h p = (Inr sa, q)"
  shows "sch_attempt_id sa \<notin> set (created s) \<and>
    started_in (s\<lparr>exe_partitions := dict_set k q (exe_partitions s)\<rparr>) (sch_attempt_id sa)"
proof -
  note at = exec_okD(2) [OF assms(1,2)]
  then have "partition_ok p" and id: "prt_task_id p = task_of s k" by (simp_all add: partition_at_def)
  then show ?thesis
  proof (cases rule: start_attempt_cases [of p now inst w h])
    case (Started sa' r stats)
    then have sa: "sch_attempt_id sa = current_attempt p" and q: "prt_running_attempts q \<noteq> []" "prt_failures q = prt_failures p"
      using assms(3) by auto
    have "attempt_started q (attempt_number (current_attempt p))" using q by (simp add: attempt_started_def current_attempt_def)
    moreover have "attempt_task_id (current_attempt p) = task_of (s\<lparr>exe_partitions := dict_set k q (exe_partitions s)\<rparr>) k"
      using id by (simp add: current_attempt_def task_of_def)
    ultimately have "started_in (s\<lparr>exe_partitions := dict_set k q (exe_partitions s)\<rparr>) (current_attempt p)"
      unfolding started_in_def by (intro conjI exI [of _ k] exI [of _ q]) (simp_all add: current_attempt_def)
    then show ?thesis using not_created_before [OF assms(1,2)] Started unfolding sa by simp
  qed (use assms(3) in simp)
qed

lemma keeps_launch [keeps_rules]: "keeps (launch E k worker_id worker inst now)"
proof (rule keepsI)
  fix s assume ok: "exec_ok s"
  let ?out = "snd (launch E k worker_id worker inst now s)"
  obtain r s1 where a: "on_partition k (start_attempt now inst worker_id worker) s = (r, s1)" by fastforce
  have s1: "exec_ok s1 \<and> exec_grows s s1" by (rule keeps_run [OF keeps_on_partition [OF gentle_start] ok a])
  show "exec_ok ?out \<and> exec_grows s ?out"
  proof (cases r)
    case (Inl e)
    then show ?thesis using a s1 by (simp add: launch_def bindS_def)
  next
    case (Inr sa)
    obtain p q where p: "dict_get (exe_partitions s) k = Some p" "start_attempt now inst worker_id worker p = (Inr sa, q)"
      and s1_def: "s1 = s\<lparr>exe_partitions := dict_set k q (exe_partitions s)\<rparr>"
      using a Inr by (auto simp: on_partition_def split: option.splits prod.splits)
    let ?call = "call_worker E (\<lambda>w. EnsureFragmentRegistered w (exe_query_id s1) (exe_fragment_id s1)
        (dsc_fragment_plan (sch_descriptor sa))) worker"
    obtain r2 s2 where c: "?call s1 = (r2, s2)" by fastforce
    have s2: "exec_ok s2 \<and> exec_grows s1 s2" by (rule keeps_run [OF keeps_call_worker conjunct1 [OF s1] c])
    have core: "core s2 = core s1" using c by (auto simp: call_worker_def core_def split: option.splits)
    have st: "sch_attempt_id sa \<notin> set (created s1)" "started_in s1 (sch_attempt_id sa)"
      using started_after [OF ok p] unfolding s1_def by (simp_all add: created_def)
    show ?thesis
    proof (cases r2)
      case (Inl e)
      then have "?out = s2" using a Inr c by (simp add: launch_def bindS_def)
      then show ?thesis using s1 s2 exec_grows_trans by metis
    next
      case r2: (Inr v)
      let ?cmd = "FteCreateTaskCommand (exe_query_id s1) (exe_fragment_id s1) worker_id worker (sch_attempt_id sa)
          (task_partition_id (attempt_task_id (sch_attempt_id sa))) (registered_request v (sch_request sa))"
      have out: "?out = record_worker_command ?cmd s2" using a Inr c r2 by (simp add: launch_def bindS_def Let_def)
      have "exec_ok (record_worker_command ?cmd s2) \<and> exec_grows s2 (record_worker_command ?cmd s2)"
        by (rule record_ok [OF conjunct1 [OF s2]]) (use st core_eqs [OF core] in simp)
      then show ?thesis unfolding out using s1 s2 exec_grows_trans by blast
    qed
  qed
qed

section \<open>The callbacks\<close>

text \<open>What the operations need of the callbacks of an environment.\<close>

definition env_keeps :: "environment \<Rightarrow> bool" where
  "env_keeps E =
     ((\<forall>f k. env_worker_selector E = Some f \<longrightarrow> keeps (f k)) \<and> (\<forall>f ts. env_class_transition E = Some f \<longrightarrow> keeps (f ts)) \<and>
      (\<forall>f k. env_execution_admission E = Some f \<or> env_attempt_admission E = Some f \<or> env_worker_reservation E = Some f \<longrightarrow> keeps (f k)))"

lemma reach_keeps:
  assumes "step\<^sup>*\<^sup>* s t" and "\<And>s t. step s t \<Longrightarrow> exec_ok s \<Longrightarrow> exec_ok t \<and> exec_grows s t" and "exec_ok s"
  shows "exec_ok t \<and> exec_grows s t"
  using assms(1,3)
proof (induction rule: rtranclp_induct)
  case base
  then show ?case by (simp add: exec_grows_refl)
next
  case (step t u)
  then have "exec_ok t" "exec_grows s t" by blast+
  then show ?case using assms(2) [OF step.hyps(2)] exec_grows_trans by blast
qed

lemma keeps_select_worker: "env_keeps E \<Longrightarrow> keeps (select_worker E k)"
  by (auto simp: select_worker_def env_keeps_def keeps_liftS intro!: keeps_bindS keeps_retS split: option.split)

lemma keeps_start_attempt_with_worker:
  assumes "env_keeps E"
  shows "keeps (start_attempt_with_worker E k)"
  unfolding start_attempt_with_worker_launch by (intro keeps_rules keeps_select_worker [OF assms])

lemma keeps_callbacks:
  assumes "env_keeps E"
  shows "env_class_transition E = Some f \<Longrightarrow> keeps (f ts)" and "env_execution_admission E = Some g \<Longrightarrow> keeps (g k)"
    and "env_attempt_admission E = Some g \<Longrightarrow> keeps (g k)" and "env_worker_reservation E = Some g \<Longrightarrow> keeps (g k)"
  using assms by (auto simp: env_keeps_def)

text \<open>
  What the runner does to an execution and its partitions without calling a method of the execution: it notes
  when no node matches and since when a partition waits for a node, forgets that wait and defers the partition
  (\<open>_try_complete_fte_worker_reservation_future\<close>), and refreshes the metadata of an execution that it uses again
  (\<open>_get_or_create_fte_fragment_execution\<close>).
\<close>

inductive bookkeeping_step :: "fragment_execution \<Rightarrow> fragment_execution \<Rightarrow> bool" where
  NoMatch: "bookkeeping_step s (snd (on_partition k (\<lambda>p. (Inr (), snd (mark_no_matching_node first now p))) s))"
| ResetMatch: "bookkeeping_step s (snd (on_partition k (\<lambda>p. (Inr (), reset_no_matching_node p)) s))"
| WaitForNode: "bookkeeping_step s (snd (on_partition k (\<lambda>p. (Inr (), mark_waiting_for_node now p)) s))"
| ForgetWait: "bookkeeping_step s (snd (on_partition k (\<lambda>p. (Inr (), p\<lparr>prt_node_wait_started_at := None\<rparr>)) s))"
| Defer: "bookkeeping_step s (snd (on_partition k (\<lambda>p. (Inr (), defer_ready_for_execution p)) s))"
| RefreshDescriptor: "(\<And>d. dsc_task_id (f d) = dsc_task_id d) \<Longrightarrow>
    bookkeeping_step s (snd (on_partition k (on_descriptor (\<lambda>d. (Inr (), f d))) s))"
| RefreshExecution: "bookkeeping_step s (s\<lparr>exe_context := context, exe_task_context_info := info, exe_source_node_ids := sources,
    exe_dynamic_scan_source_node_ids := scans, exe_dynamic_exchange_source_node_ids := exchanges\<rparr>)"

inductive_cases bookkeepingE: "bookkeeping_step s t"

lemma gentle_forget_wait [keeps_rules]: "gentle (\<lambda>p. (r, p\<lparr>prt_node_wait_started_at := None\<rparr>))"
  by (rule gentleI, rule partition_frame) (auto simp: lifecycle_of_def partition_ok_def)

lemma bookkeeping_ok:
  assumes "bookkeeping_step s t" and "exec_ok s"
  shows "exec_ok t \<and> exec_grows s t"
  using assms(1)
proof cases
  case (RefreshDescriptor f k)
  then have "gentle (on_descriptor (\<lambda>d. (Inr (), f d)))" by (intro gentle_descriptor) simp
  then show ?thesis unfolding RefreshDescriptor(1) by (rule keepsD [OF keeps_on_partition assms(2)])
next
  case RefreshExecution
  then show ?thesis using exec_frame [OF assms(2), of t] by (simp add: core_def)
qed (hypsubst, rule keepsD [OF keeps_on_partition assms(2)], rule gentle_flags gentle_forget_wait)+

section \<open>Every operation\<close>

lemma keeps_mark_ready: "env_keeps E \<Longrightarrow> keeps (mark_partition_ready_for_execution E k)"
  unfolding mark_partition_ready_for_execution_def by (intro keeps_rules keeps_callbacks)

lemma unless_unavailable_snd: "snd (unless_unavailable f s) = snd (f s)"
  by (simp add: unless_unavailable_def split: prod.split sum.split py_error.split)

lemma keeps_unless_unavailable [keeps_rules]: "keeps f \<Longrightarrow> keeps (unless_unavailable f)"
  by (simp add: keeps_def unless_unavailable_snd)

lemma keeps_create_attempt: "env_keeps E \<Longrightarrow> keeps (create_attempt_after_admission E k)"
  unfolding create_attempt_after_admission_def
  by (intro keeps_rules keeps_callbacks keeps_start_attempt_with_worker)

lemma keeps_schedule: "env_keeps E \<Longrightarrow> keeps (schedule_partition_if_ready E k cls)"
  unfolding schedule_partition_if_ready_def by (intro keeps_rules keeps_callbacks keeps_create_attempt)

lemma keeps_first_scheduled: "env_keeps E \<Longrightarrow> keeps (first_scheduled E cls ks)"
  by (induction ks) (auto intro!: keeps_bindS keeps_retS keeps_schedule)

lemma keeps_schedule_next: "env_keeps E \<Longrightarrow> keeps (schedule_next_pending_partition E cls)"
  unfolding schedule_next_pending_partition_def by (intro keeps_rules keeps_first_scheduled)

lemma keeps_emit: "env_keeps E \<Longrightarrow> keeps (emit_execution_class_transitions E ts)"
  unfolding emit_execution_class_transitions_def by (intro keeps_rules keeps_callbacks)

lemma keeps_seal_partition: "env_keeps E \<Longrightarrow> keeps (seal_partition E k)"
  unfolding seal_partition_def seal_partition_locked_def
  by (intro keeps_rules keeps_emit keeps_mark_ready keeps_schedule)

lemma gentle_undefer [keeps_rules]: "gentle (\<lambda>p. (r, p\<lparr>prt_execution_ready_deferred := False\<rparr>))"
  by (rule gentleI, rule partition_frame) (simp_all add: lifecycle_of_def)

lemma keeps_release_deferred: "env_keeps E \<Longrightarrow> keeps (release_deferred E cls k)"
  unfolding release_deferred_def by (intro keeps_rules keeps_mark_ready)

text \<open>An operation that first looks at the state to decide what to do.\<close>

lemma keeps_reading:
  assumes "\<And>x. keeps (f x)"
  shows "keeps (\<lambda>s. f (g s) s)"
  by (rule keepsI) (rule keepsD [OF assms])

lemma keeps_release_all_deferred:
  assumes "env_keeps E"
  shows "keeps (release_deferred_execution_partitions E cls)"
  unfolding release_deferred_execution_partitions_def [abs_def]
  by (rule keeps_reading [where g = sorted_keys and
        f = "\<lambda>ks. bindS (mapS (release_deferred E cls) ks) (\<lambda>found. retS (List.map_filter id found))"])
    (intro keeps_rules keeps_release_deferred [OF assms])

lemma gentle_set_class [keeps_rules]:
  "gentle (\<lambda>p. if prt_finished p \<or> prt_failed p then (Inr None, p)
       else case partition_set_execution_class c p of
         (Inl e, p') \<Rightarrow> (Inl e, p')
       | (Inr changed, p') \<Rightarrow> (Inr (if changed then Some (transition_from_partition p') else None), p'))" (is "gentle ?f")
proof -
  have s: "snd (?f p) = (if prt_finished p \<or> prt_failed p then p else snd (partition_set_execution_class c p))" for p
    by (simp split: prod.split sum.split)
  have f: "prt_failed (snd (partition_set_execution_class c p)) = prt_failed p"
      "prt_sink_handle (snd (partition_set_execution_class c p)) = prt_sink_handle p" for p
    using set_class_cases [of c p] by auto
  show ?thesis by (rule gentleI; unfold s; simp add: set_class_ok f partition_grows_refl)
qed

lemma keeps_set_execution_class: "keeps (set_execution_class cls)"
proof (rule keepsI)
  fix s assume ok: "exec_ok s"
  have k: "keeps (bindS (mapS (set_class_of_partition c) ks) (\<lambda>found. retS (List.map_filter id found)))" for c ks
    unfolding set_class_of_partition_def by (intro keeps_rules)
  have t: "exec_ok (s\<lparr>exe_execution_class := c\<rparr>) \<and> exec_grows s (s\<lparr>exe_execution_class := c\<rparr>)" for c
    by (rule exec_frame [OF ok]) (simp_all add: core_def)
  show "exec_ok (snd (set_execution_class cls s)) \<and> exec_grows s (snd (set_execution_class cls s))"
  proof (cases "exec_class_coerce cls")
    case (Inl e)
    then show ?thesis using ok by (simp add: set_execution_class_def exec_grows_refl)
  next
    case (Inr c)
    have "exec_ok s \<and> exec_grows s s" using ok exec_grows_refl by blast
    moreover note t [of c] keepsD [OF k [of c "dict_keys (exe_partitions s)"] conjunct1 [OF t [of c]]]
    ultimately show ?thesis using Inr exec_grows_trans
      by (cases "exe_execution_class s \<noteq> c \<and> \<not> can_transition_to (exe_execution_class s) c")
        (simp_all add: set_execution_class_def, blast)
  qed
qed

lemma split_commands_not_create: "c \<in> set (split_commands E r src added no_more s) \<Longrightarrow> \<not> is_FteCreateTaskCommand c"
  by (auto simp: split_commands_def split: if_splits)

lemma keeps_record_splits [keeps_rules]:
  "keeps (modS (\<lambda>s. fold record_worker_command (split_commands E r src added marked s) s))"
  by (rule keepsI) (simp add: record_all_ok split_commands_not_create)

lemma mark_no_more_op_task_id: "dsc_task_id (snd (let (marked, d') = mark_no_more_splits src d in (Inr marked, d'))) = dsc_task_id d"
  using mark_no_more_task_id [of src d] by (cases "mark_no_more_splits src d") simp

lemma keeps_update_partition_locked: "env_keeps E \<Longrightarrow> keeps (update_partition_locked E u)"
  unfolding update_partition_locked_def
  by (intro keeps_rules keeps_mark_ready append_splits_task_id mark_no_more_op_task_id)

lemma keeps_update_partition: "env_keeps E \<Longrightarrow> keeps (update_partition E u)"
  unfolding update_partition_def by (intro keeps_rules keeps_update_partition_locked keeps_schedule)

lemma keeps_collecting [keeps_rules]:
  assumes "keeps f"
  shows "keeps (collecting_commands f)"
proof (rule keepsI)
  fix s assume ok: "exec_ok s"
  let ?s0 = "s\<lparr>exe_current_worker_commands := Some []\<rparr>"
  have s0: "exec_ok ?s0 \<and> exec_grows s ?s0" by (rule exec_frame [OF ok]) (simp_all add: core_def)
  obtain r t where f: "f ?s0 = (r, t)" by fastforce
  note t = keeps_run [OF assms conjunct1 [OF s0] f]
  have "exec_ok (t\<lparr>exe_current_worker_commands := c\<rparr>) \<and> exec_grows t (t\<lparr>exe_current_worker_commands := c\<rparr>)" for c
    by (rule exec_frame [OF conjunct1 [OF t]]) (simp_all add: core_def)
  then show "exec_ok (snd (collecting_commands f s)) \<and> exec_grows s (snd (collecting_commands f s))"
    using f s0 t exec_grows_trans by (simp add: collecting_commands_def) blast
qed

lemma keeps_apply_assignment_result:
  assumes "env_keeps E"
  shows "keeps (apply_assignment_result E result)"
proof -
  have no_more: "keeps (modS (\<lambda>s. if no_more_partitions result then s\<lparr>exe_no_more_partitions := True\<rparr> else s))"
    by (rule keeps_frame) (simp add: core_def)
  show ?thesis unfolding apply_assignment_result_def
    by (intro keeps_rules no_more keeps_update_partition [OF assms] keeps_seal_partition [OF assms])
qed

lemma keeps_record_other [keeps_rules]:
  "(\<And>s. \<not> is_FteCreateTaskCommand (c s)) \<Longrightarrow> keeps (modS (\<lambda>s. record_worker_command (c s) s))"
  by (rule keepsI) (simp add: record_ok)

lemma keeps_apply_task_update: "keeps (execution_apply_task_update E k update)"
  unfolding execution_apply_task_update_def
  by (intro keeps_rules apply_update_task_id) simp

lemma keeps_record_task_stats: "keeps (record_task_stats a stats)"
proof -
  have "keeps (bindS (on_partition k (update_running_task_stats x st)) (\<lambda>_. retS ()))" for k x st by (intro keeps_rules)
  then show ?thesis by (auto simp: keeps_def record_task_stats_def Let_def exec_grows_refl)
qed

lemma keeps_command_success: "keeps (handle_worker_command_success E c)"
  unfolding handle_worker_command_success_def by (cases c) (simp_all, (intro keeps_rules)+)

lemma keeps_pop: "exec_ok s \<Longrightarrow> exec_ok (snd (pop_worker_commands s)) \<and> exec_grows s (snd (pop_worker_commands s))"
  by (rule exec_frame) (simp_all add: pop_worker_commands_def core_def)

section \<open>Failures\<close>

lemma mark_attempt_failed_result:
  assumes "partition_ok p" and "mark_attempt_failed x e retry p = (r, q)"
  shows "prt_sink_handle q = prt_sink_handle p \<and>
    (\<forall>y. r = Inr (Some y) \<longrightarrow> \<not> prt_finished q \<and> \<not> prt_failed q \<and> prt_running_attempts q = [] \<and> prt_failures q \<noteq> []) \<and>
    (isl r \<longrightarrow> q = p)"
proof (cases "\<exists>a r. coerce_attempt x p = Inr a \<and> dict_get (prt_running_attempts p) (attempt_number a) = Some r")
  case False
  then show ?thesis using assms(2)
    by (auto simp: mark_attempt_failed_def Let_def dict_has_def split: sum.splits if_splits)
next
  case True
  then obtain a ra where a: "coerce_attempt x p = Inr a" and ra: "dict_get (prt_running_attempts p) (attempt_number a) = Some ra" by blast
  note cur = running_is_current [OF assms(1) ra]
  show ?thesis using assms(2) a cur
    by (auto simp: mark_attempt_failed_def Let_def dict_has_def split: if_splits)
qed

lemma memory_failure_ok:
  assumes "partition_ok p" and "\<not> prt_finished p" and "\<not> prt_failed p" and "prt_running_attempts p = []" and "prt_failures p \<noteq> []"
  shows "partition_ok (p\<lparr>prt_failed := True, prt_ready_for_scheduling := False, prt_execution_ready_deferred := False,
      prt_running_attempts := []\<rparr>) \<and>
    partition_grows p (p\<lparr>prt_failed := True, prt_ready_for_scheduling := False, prt_execution_ready_deferred := False,
      prt_running_attempts := []\<rparr>)"
  using partition_okD [OF assms(1)] assms(2-5) by (simp add: partition_defs)

lemma not_ready_ok:
  "partition_ok p \<Longrightarrow>
   partition_ok (p\<lparr>prt_ready_for_scheduling := False, prt_execution_ready_deferred := False\<rparr>) \<and>
   partition_grows p (p\<lparr>prt_ready_for_scheduling := False, prt_execution_ready_deferred := False\<rparr>)"
  by (rule partition_frame) (simp_all add: lifecycle_of_def)

text \<open>What \<open>failure_consequences\<close> makes of the partition \<open>p\<close> and of the flag of the execution.\<close>

lemma failure_consequences_cases:
  assumes "dict_get (exe_partitions s) k = Some p" and "partition_ok p"
    and "ready \<noteq> None \<Longrightarrow> \<not> prt_finished p \<and> \<not> prt_failed p \<and> prt_running_attempts p = [] \<and> prt_failures p \<noteq> []"
  obtains q b where "core (snd (failure_consequences k error ready s)) = core (s\<lparr>exe_partitions := dict_set k q (exe_partitions s)\<rparr>)"
    "exe_failed (snd (failure_consequences k error ready s)) = b"
    "exe_no_more_partitions (snd (failure_consequences k error ready s)) = exe_no_more_partitions s"
    "partition_ok q" "partition_grows p q" "prt_sink_handle q = prt_sink_handle p" "prt_failed q \<longrightarrow> b" "exe_failed s \<longrightarrow> b"
proof -
  have rp: "read_partition k Inr s = Inr p" using assms(1) by (simp add: read_partition_Inr)
  have same: "dict_set k p (exe_partitions s) = exe_partitions s" using assms(1) by (rule dict_set_same)
  consider "ready \<noteq> None" "is_memory_failure error" | "ready = None" | "ready \<noteq> None" "\<not> is_memory_failure error" by blast
  then show thesis
  proof cases
    case 1
    note c = assms(3) [OF 1(1)]
    show thesis
      by (rule that [of "p\<lparr>prt_failed := True, prt_ready_for_scheduling := False, prt_execution_ready_deferred := False,
      prt_running_attempts := []\<rparr>", OF _ refl])
        (use 1 c rp assms(1) memory_failure_ok [OF assms(2)] in \<open>simp_all add: failure_consequences_def bindS_def on_partition_def core_def\<close>)
  next
    case 2
    show thesis
      by (rule that [of p, OF _ refl])
        (use 2 rp same assms partition_grows_refl in \<open>simp_all add: failure_consequences_def bindS_def core_def\<close>)
  next
    case 3
    then obtain y where y: "ready = Some y" by blast
    note c = assms(3) [OF 3(1)]
    show thesis
    proof (cases "\<not> prt_sealed p \<and> is_speculative (prt_execution_class p)")
      case True
      show thesis
        by (rule that [of "p\<lparr>prt_ready_for_scheduling := False, prt_execution_ready_deferred := False\<rparr>", OF _ refl])
          (use True y 3(2) c rp assms(1) not_ready_ok [OF assms(2)] in \<open>simp_all add: failure_consequences_def bindS_def on_partition_def core_def\<close>)
    next
      case False
      have mr: "prt_failed (mark_ready_for_execution p) = prt_failed p" "prt_sink_handle (mark_ready_for_execution p) = prt_sink_handle p"
        by (simp_all add: mark_ready_for_execution_def)
      show thesis
        by (rule that [of "mark_ready_for_execution p", OF _ refl])
          (use False y 3(2) c rp assms(1) flags_ok(4) [OF assms(2)] mr in
            \<open>auto simp add: failure_consequences_def bindS_def on_partition_def core_def simp del: not_speculative\<close>)
    qed
  qed
qed

lemma keeps_failed_attempt:
  "keeps (bindS (on_partition k (mark_attempt_failed x e retry)) (failure_consequences k e))"
proof (rule keepsI)
  fix s assume ok: "exec_ok s"
  let ?f = "bindS (on_partition k (mark_attempt_failed x e retry)) (failure_consequences k e)"
  show "exec_ok (snd (?f s)) \<and> exec_grows s (snd (?f s))"
  proof (cases "dict_get (exe_partitions s) k")
    case None
    then show ?thesis using ok by (simp add: bindS_def on_partition_def exec_grows_refl)
  next
    case (Some p)
    note at = exec_okD(2) [OF ok Some]
    then have pok: "partition_ok p" by (simp add: partition_at_def)
    obtain r q where m: "mark_attempt_failed x e retry p = (r, q)" by fastforce
    note res = mark_attempt_failed_result [OF pok m]
    have q: "partition_ok q" "partition_grows p q" using mark_attempt_failed_ok [OF pok, of x e retry] m by simp_all
    let ?s1 = "s\<lparr>exe_partitions := dict_set k q (exe_partitions s)\<rparr>"
    show ?thesis
    proof (cases r)
      case (Inl err)
      then have "snd (?f s) = s" using Some m res by (simp add: bindS_def on_partition_def dict_set_same)
      then show ?thesis using ok by (simp add: exec_grows_refl)
    next
      case (Inr ready)
      have out: "snd (?f s) = snd (failure_consequences k e ready ?s1)" using Some m Inr by (simp add: bindS_def on_partition_def)
      have g1: "dict_get (exe_partitions ?s1) k = Some q" by simp
      show ?thesis
      proof (rule failure_consequences_cases [OF g1 q(1), of ready e])
        fix q2 b
        assume c: "core (snd (failure_consequences k e ready ?s1)) = core (?s1\<lparr>exe_partitions := dict_set k q2 (exe_partitions ?s1)\<rparr>)"
          "exe_failed (snd (failure_consequences k e ready ?s1)) = b"
          "exe_no_more_partitions (snd (failure_consequences k e ready ?s1)) = exe_no_more_partitions ?s1"
          "partition_ok q2" "partition_grows q q2" "prt_sink_handle q2 = prt_sink_handle q" "prt_failed q2 \<longrightarrow> b" "exe_failed ?s1 \<longrightarrow> b"
        show ?thesis unfolding out
          by (rule exec_partition [OF ok Some, of _ q2])
            (use c at res partition_grows_trans [OF q(2) c(5)] in \<open>simp_all add: core_def partition_at_def\<close>)
      qed (use res Inr in blast)
    qed
  qed
qed

lemma bindS_assoc: "bindS m (\<lambda>x. bindS (f x) g) = bindS (bindS m f) g"
  by (rule ext) (simp add: bindS_def split: prod.split sum.split)

lemma keeps_task_failed:
  assumes "env_keeps E"
  shows "keeps (task_failed E x error retryable schedule_retry)"
  unfolding task_failed_def bindS_assoc [of "on_partition _ (mark_attempt_failed _ _ _)"]
  by (intro keeps_rules keeps_schedule [OF assms] keeps_failed_attempt)

lemma keeps_mark_worker_failed:
  assumes "env_keeps E"
  shows "keeps (mark_worker_failed E w error retryable by schedule)"
proof (rule keepsI)
  fix s assume "exec_ok s"
  moreover have "keeps (bindS (mapS (\<lambda>(a, k). task_failed E (Obj a) error
      (retryable \<and> (case by of None \<Rightarrow> True | Some m \<Rightarrow> dict_get_default m k False)) schedule) failed)
      (\<lambda>retries. retS (List.map_filter id retries)))" for failed
    by (intro keeps_rules keeps_task_failed [OF assms])
  ultimately show "exec_ok (snd (mark_worker_failed E w error retryable by schedule s)) \<and>
      exec_grows s (snd (mark_worker_failed E w error retryable by schedule s))"
    unfolding mark_worker_failed_def Let_def by (rule keepsD [rotated])
qed

section \<open>Revoked attempts\<close>

text \<open>Operations on the execution together with what a loop collects.\<close>

definition holds_after :: "fragment_execution \<times> 'b \<Rightarrow> 'a res \<times> (fragment_execution \<times> 'b) \<Rightarrow> bool" where
  "holds_after st r = (exec_ok (fst (snd r)) \<and> exec_grows (fst st) (fst (snd r)))"

lemma holds_after_same: "exec_ok (fst st) \<Longrightarrow> fst (snd r) = fst st \<Longrightarrow> holds_after st r"
  by (simp add: holds_after_def exec_grows_refl)

lemma holds_after_bindS:
  assumes "holds_after st (f st)"
    and "\<And>x st1. exec_ok (fst st1) \<Longrightarrow> exec_grows (fst st) (fst st1) \<Longrightarrow> f st = (Inr x, st1) \<Longrightarrow> holds_after st1 (g x st1)"
  shows "holds_after st (bindS f g st)"
proof -
  obtain r st1 where f: "f st = (r, st1)" by (rule prod.exhaust)
  have st1: "exec_ok (fst st1)" "exec_grows (fst st) (fst st1)" using assms(1) f by (simp_all add: holds_after_def)
  show ?thesis
  proof (cases r)
    case (Inl e)
    then show ?thesis using f st1 by (simp add: bindS_def holds_after_def)
  next
    case (Inr x)
    then have "holds_after st1 (g x st1)" using assms(2) st1 f by simp
    then show ?thesis using f Inr st1 exec_grows_trans by (auto simp: bindS_def holds_after_def)
  qed
qed

lemma holds_after_foldS:
  assumes "\<And>x st1. x \<in> set xs \<Longrightarrow> exec_ok (fst st1) \<Longrightarrow> exec_grows (fst st) (fst st1) \<Longrightarrow> holds_after st1 (f x st1)"
    and "exec_ok (fst st)"
  shows "holds_after st (foldS f xs st)"
  using assms
proof (induction xs arbitrary: st)
  case Nil
  then show ?case by (simp add: holds_after_same)
next
  case (Cons x xs)
  have "holds_after st (bindS (f x) (\<lambda>_. foldS f xs) st)"
  proof (rule holds_after_bindS)
    show "holds_after st (f x st)" by (rule Cons.prems(1)) (simp_all add: Cons.prems(2) exec_grows_refl)
  next
    fix u and st1 :: "fragment_execution \<times> 'b" assume st1: "exec_ok (fst st1)" "exec_grows (fst st) (fst st1)"
    show "holds_after st1 (foldS f xs st1)"
      by (rule Cons.IH [OF _ st1(1)]) (use Cons.prems(1) exec_grows_trans [OF st1(2)] in simp)
  qed
  then show ?case by simp
qed

lemma holds_after_on_execution:
  "keeps f \<Longrightarrow> exec_ok (fst st) \<Longrightarrow> holds_after st (on_execution f st)"
  using keepsD [of f "fst st"] by (cases "f (fst st)") (simp add: holds_after_def on_execution_def)

lemma revoke_attempt_result:
  assumes "partition_ok p" and "revoke_attempt x e p = (r, q)"
  shows "prt_sink_handle q = prt_sink_handle p \<and> ((\<forall>y. r \<noteq> Inr (Some y)) \<longrightarrow> q = p)"
proof (cases "\<exists>a r. coerce_attempt x p = Inr a \<and> dict_get (prt_running_attempts p) (attempt_number a) = Some r")
  case False
  then show ?thesis using assms(2)
    by (auto simp: revoke_attempt_def Let_def dict_has_def split: sum.splits if_splits option.splits)
next
  case True
  then obtain a ra where a: "coerce_attempt x p = Inr a" and ra: "dict_get (prt_running_attempts p) (attempt_number a) = Some ra" by blast
  show ?thesis using assms(2) a ra by (auto simp: revoke_attempt_def Let_def split: if_splits)
qed

text \<open>The revocation of one attempt of the partition: the flag of the execution follows the partition's.\<close>

lemma revoked_block:
  assumes ok: "exec_ok (fst st)"
  shows "holds_after st (bindS (on_execution (on_partition k (revoke_attempt x e))) (\<lambda>revoked.
       case revoked of
         None \<Rightarrow> retS ()
       | Some rv \<Rightarrow>
           bindS (on_execution (liftS (read_partition k Inr))) (\<lambda>p.
           modS (\<lambda>(s, revs, releases). (s\<lparr>exe_failed := (exe_failed s \<or> prt_failed p)\<rparr>, revs @ [rv], releases @ [z])))) st)"
    (is "holds_after st (?f st)")
proof (cases "dict_get (exe_partitions (fst st)) k")
  case None
  then show ?thesis using ok by (simp add: bindS_def on_partition_def on_execution_def holds_after_same)
next
  case (Some p)
  note at = exec_okD(2) [OF ok Some]
  then have pok: "partition_ok p" by (simp add: partition_at_def)
  obtain r q where m: "revoke_attempt x e p = (r, q)" by fastforce
  note res = revoke_attempt_result [OF pok m]
  have q: "partition_ok q" "partition_grows p q" using revoke_attempt_ok [OF pok, of x e] m by simp_all
  let ?s1 = "(fst st)\<lparr>exe_partitions := dict_set k q (exe_partitions (fst st))\<rparr>"
  have run: "on_execution (on_partition k (revoke_attempt x e)) st = (r, (?s1, snd st))"
    using Some m by (simp add: on_execution_def on_partition_def)
  show ?thesis
  proof (cases "\<exists>y. r = Inr (Some y)")
    case False
    then have "?s1 = fst st" using res Some by (simp add: dict_set_same)
    moreover have "fst (snd (?f st)) = ?s1" using run False by (cases r) (auto simp: bindS_def split: option.split)
    ultimately show ?thesis using ok by (simp add: holds_after_same)
  next
    case True
    then obtain y where "r = Inr (Some y)" by blast
    moreover have rp: "read_partition k Inr ?s1 = Inr q" by (simp add: read_partition_Inr)
    ultimately have out: "fst (snd (?f st)) = ?s1\<lparr>exe_failed := (exe_failed (fst st) \<or> prt_failed q)\<rparr>"
      using run rp by (cases st) (simp add: bindS_def on_execution_def)
    have "exec_ok (fst (snd (?f st))) \<and> exec_grows (fst st) (fst (snd (?f st)))" unfolding out
      by (rule exec_partition [OF ok Some, of _ q]) (use q at res in \<open>simp_all add: core_def partition_at_def\<close>)
    then show ?thesis by (simp add: holds_after_def)
  qed
qed

lemma holds_after_retS: "exec_ok (fst st) \<Longrightarrow> holds_after st (retS x st)"
  by (simp add: holds_after_same)

lemma holds_after_liftS: "exec_ok (fst st) \<Longrightarrow> holds_after st (liftS f st)"
  by (simp add: holds_after_same)

lemma holds_after_if:
  "(b \<Longrightarrow> holds_after st (f st)) \<Longrightarrow> (\<not> b \<Longrightarrow> holds_after st (g st)) \<Longrightarrow> holds_after st ((if b then f else g) st)"
  by simp

lemma holds_after_revoke_one:
  assumes "exec_ok (fst st)"
  shows "holds_after st (revoke_one E w limit reason k r st)"
proof -
  have block: "holds_after st0 (bindS (on_execution (control_call E r m c)) (\<lambda>_.
      bindS (on_execution (on_sink k (\<lambda>h. sink_aborted h n))) (\<lambda>_. f)) st0)"
    if "exec_ok (fst st0)" "\<And>st1. exec_ok (fst st1) \<Longrightarrow> holds_after st1 (f st1)" for st0 m c n f
    by (rule holds_after_bindS, rule holds_after_on_execution, rule keeps_control_call, rule that(1),
        rule holds_after_bindS, rule holds_after_on_execution, rule keeps_sink_aborted, assumption, rule that(2))
  show ?thesis unfolding revoke_one_def
    by (rule holds_after_bindS, rule holds_after_liftS, rule assms,
        (assumption | rule holds_after_if holds_after_retS block revoked_block)+)
qed

lemma holds_after_revoke_partition:
  assumes "exec_ok (fst st)"
  shows "holds_after st (revoke_partition E w limit reason k st)"
  unfolding revoke_partition_def
  by (rule holds_after_bindS, rule holds_after_on_execution, rule keeps_liftS, rule assms,
      (assumption | rule holds_after_if holds_after_retS holds_after_foldS holds_after_revoke_one)+)

lemma keeps_release_terminal: "keeps (release_terminal E rels res)"
  unfolding release_terminal_def by (intro keeps_rules)

lemma keeps_revoke_speculative_attempts: "keeps (revoke_speculative_attempts E w n reason)"
proof (rule keepsI)
  fix s assume ok: "exec_ok s"
  let ?limit = "map_option (max 0) n"
  obtain res s' revs rels where f: "foldS (revoke_partition E w ?limit reason) (dict_keys (exe_partitions s)) (s, [], []) =
      (res, (s', revs, rels))" by (metis prod.exhaust)
  have "holds_after (s, [], []) (foldS (revoke_partition E w ?limit reason) (dict_keys (exe_partitions s)) (s, [], []))"
    using ok by (intro holds_after_foldS holds_after_revoke_partition) simp_all
  then have "exec_ok s'" "exec_grows s s'" using f by (simp_all add: holds_after_def)
  then show "exec_ok (snd (revoke_speculative_attempts E w n reason s)) \<and>
      exec_grows s (snd (revoke_speculative_attempts E w n reason s))"
    using keepsD [OF keeps_release_terminal, of s' E rels "bindE res (\<lambda>_. Inr revs)"] exec_grows_trans [of s s']
    by (simp add: revoke_speculative_attempts_def Let_def f ok exec_grows_refl)
qed

section \<open>Finished attempts\<close>

lemma sink_finished_selected:
  "dict_get (trk_selected_attempts (snd (sink_finished h a t))) k = Some b \<Longrightarrow>
   dict_get (trk_selected_attempts t) k = Some b \<or> (k = snk_partition_id h \<and> b = a)"
  by (auto simp: sink_finished_def Let_def check_non_negative_def bindE_eq_Inr
      split: sum.splits prod.splits if_splits)

text \<open>The exchange is told of the attempt the partition has already chosen.\<close>

lemma sink_finished_after:
  assumes "exec_ok s" and "dict_get (exe_partitions s) k = Some p" and "prt_finished p" and "prt_selected_attempt p = Some n"
  shows "exec_ok (snd (on_sink k (\<lambda>h. sink_finished h n) s)) \<and> exec_grows s (snd (on_sink k (\<lambda>h. sink_finished h n) s))"
proof (cases "\<exists>t h. exe_exchange s = Some t \<and> prt_sink_handle p = Some h")
  case False
  then have "snd (on_sink k (\<lambda>h. sink_finished h n) s) = s" using assms(2) by (auto simp: on_sink_def split: option.split)
  then show ?thesis using assms(1) by (simp add: exec_grows_refl)
next
  case True
  then obtain t h where t: "exe_exchange s = Some t" "prt_sink_handle p = Some h" by blast
  then have h: "snk_partition_id h = k"
    using exec_okD(2) [OF assms(1,2)] by (simp add: partition_at_def sink_ok_def)
  have s': "snd (on_sink k (\<lambda>h. sink_finished h n) s) = s\<lparr>exe_exchange := Some (snd (sink_finished h n t))\<rparr>"
    using t assms(2) by (simp add: on_sink_def split: prod.split)
  note u = sink_finished_ok [OF exec_okD(3) [OF assms(1) t(1)], of h n]
  show ?thesis unfolding s'
    by (rule exec_exchange [OF assms(1) t(1) refl]) (use u sink_finished_selected [of h n t] assms h in auto)
qed

definition chosen :: "int \<Rightarrow> int \<Rightarrow> fragment_execution \<Rightarrow> bool" where
  "chosen k n s = (\<exists>p. dict_get (exe_partitions s) k = Some p \<and> prt_finished p \<and> prt_selected_attempt p = Some n)"

lemma chosen_grows: "chosen k n s \<Longrightarrow> exec_grows s t \<Longrightarrow> chosen k n t"
  unfolding chosen_def exec_grows_def partition_grows_def by metis

lemma holds_after_cancel_loser:
  assumes "exec_ok (fst st)"
  shows "holds_after st (cancel_loser E k r st)"
proof -
  obtain s failure rels where st: "st = (s, failure, rels)" by (metis prod.exhaust)
  let ?c = "control_call E r ''fte_cancel_task'' (\<lambda>w. CancelTask w (attempt_id_to_dict (run_attempt_id r)))"
  let ?a = "on_sink k (\<lambda>h. sink_aborted h (attempt_number (run_attempt_id r)))"
  have fst: "fst (snd (cancel_loser E k r st)) = snd (?a (snd (?c s)))"
    by (simp add: cancel_loser_def st split: prod.split sum.split)
  have c: "exec_ok (snd (?c s))" "exec_grows s (snd (?c s))" using keepsD [OF keeps_control_call, of s E r] assms st by simp_all
  show ?thesis unfolding holds_after_def fst
    using keepsD [OF keeps_sink_aborted c(1), of k "attempt_number (run_attempt_id r)"] exec_grows_trans [OF c(2)] st by simp
qed

lemma on_execution_state: "fst (snd (on_execution f st)) = snd (f (fst st))"
  by (cases "f (fst st)") (simp add: on_execution_def)

lemma holds_after_finish_changed:
  assumes "exec_ok (fst st)" and "chosen k (attempt_number a) (fst st)"
  shows "holds_after st (finish_changed E k a running st)"
  unfolding finish_changed_def
proof (rule holds_after_bindS)
  show "holds_after st (modS (\<lambda>(s, failure, rels). (s, failure, (case dict_get running (attempt_number a) of
      None \<Rightarrow> rels | Some r \<Rightarrow> rels @ [(True, run_remote_handle r, a)]))) st)"
    by (rule holds_after_same [OF assms(1)]) (cases st, simp)
next
  fix st1 :: "fragment_execution \<times> py_error option \<times> releases" assume st1: "exec_ok (fst st1)" "exec_grows (fst st) (fst st1)"
  show "holds_after st1 (bindS (foldS (cancel_loser E k)
      (filter (\<lambda>r. attempt_number (run_attempt_id r) \<noteq> attempt_number a) (dict_values running))) (\<lambda>_.
     bindS (on_execution (on_sink k (\<lambda>h. sink_finished h (attempt_number a)))) (\<lambda>_.
     bindS (on_execution (liftS (read_partition k Inr))) (\<lambda>p.
     bindS (on_execution (on_storage (storage_remove (env_writable E) (Obj (prt_task_id p))))) (\<lambda>_. retS ())))) st1)"
  proof (rule holds_after_bindS)
    show "holds_after st1 (foldS (cancel_loser E k)
        (filter (\<lambda>r. attempt_number (run_attempt_id r) \<noteq> attempt_number a) (dict_values running)) st1)"
      by (rule holds_after_foldS [OF holds_after_cancel_loser st1(1)])
  next
    fix st2 :: "fragment_execution \<times> py_error option \<times> releases" assume st2: "exec_ok (fst st2)" "exec_grows (fst st1) (fst st2)"
    have "chosen k (attempt_number a) (fst st2)"
      using chosen_grows [OF chosen_grows [OF assms(2) st1(2)] st2(2)] .
    then have sink: "holds_after st2 (on_execution (on_sink k (\<lambda>h. sink_finished h (attempt_number a))) st2)"
      using sink_finished_after [OF st2(1)] by (auto simp: chosen_def holds_after_def on_execution_state)
    show "holds_after st2 (bindS (on_execution (on_sink k (\<lambda>h. sink_finished h (attempt_number a)))) (\<lambda>_.
       bindS (on_execution (liftS (read_partition k Inr))) (\<lambda>p.
       bindS (on_execution (on_storage (storage_remove (env_writable E) (Obj (prt_task_id p))))) (\<lambda>_. retS ()))) st2)"
      by (rule holds_after_bindS, rule sink, rule holds_after_bindS, rule holds_after_on_execution, rule keeps_liftS, assumption,
          rule holds_after_bindS, rule holds_after_on_execution, rule keeps_on_storage, assumption, rule holds_after_retS, assumption)
  qed
qed

lemma keeps_release_all: "keeps (release_all E rels)"
  unfolding release_all_def by (intro keeps_rules)

lemma mark_attempt_finished_chosen:
  assumes ok: "exec_ok s"
  shows "exec_ok (snd (on_partition k (mark_attempt_finished (Obj a) stats) s)) \<and>
    exec_grows s (snd (on_partition k (mark_attempt_finished (Obj a) stats) s)) \<and>
    (fst (on_partition k (mark_attempt_finished (Obj a) stats) s) = Inr True \<longrightarrow>
       chosen k (attempt_number a) (snd (on_partition k (mark_attempt_finished (Obj a) stats) s)))"
    (is "?ok \<and> ?chosen")
proof (cases "dict_get (exe_partitions s) k")
  case None
  then show ?thesis using ok by (simp add: on_partition_def exec_grows_refl)
next
  case (Some p)
  note at = exec_okD(2) [OF ok Some]
  then have pok: "partition_ok p" by (simp add: partition_at_def)
  note q = mark_attempt_finished_ok [OF pok, of "Obj a" stats]
  have more: "prt_sink_handle (snd (mark_attempt_finished (Obj a) stats p)) = prt_sink_handle p \<and>
      (prt_failed (snd (mark_attempt_finished (Obj a) stats p)) \<longrightarrow> prt_failed p) \<and>
      (fst (mark_attempt_finished (Obj a) stats p) = Inr True \<longrightarrow>
         prt_finished (snd (mark_attempt_finished (Obj a) stats p)) \<and>
         prt_selected_attempt (snd (mark_attempt_finished (Obj a) stats p)) = Some (attempt_number a))"
    using pok by (cases rule: mark_attempt_finished_cases [of p "Obj a" stats]) simp_all
  let ?t = "s\<lparr>exe_partitions := dict_set k (snd (mark_attempt_finished (Obj a) stats p)) (exe_partitions s)\<rparr>"
  have out: "on_partition k (mark_attempt_finished (Obj a) stats) s = (fst (mark_attempt_finished (Obj a) stats p), ?t)"
    using Some by (simp add: on_partition_def split: prod.split)
  have "exec_ok ?t \<and> exec_grows s ?t"
    by (rule exec_partition [OF ok Some refl]) (use q at more in \<open>simp_all add: partition_at_def\<close>)
  then show ?thesis using more unfolding out by (simp add: chosen_def)
qed

lemma keeps_task_finished: "keeps (task_finished E x stats)"
proof -
  have block: "keeps (bindS (on_partition k (mark_attempt_finished (Obj a) stats)) (\<lambda>changed s.
     let (res, (s1, failure, rels)) =
           (if changed then finish_changed E k a running (s, None, []) else (Inr (), (s, None, []))) in
     bindS (release_all E rels) (\<lambda>_. liftS (\<lambda>_. bindE res (\<lambda>_. case failure of Some e \<Rightarrow> Inl e | None \<Rightarrow> Inr changed))) s1))"
    (is "keeps (bindS ?m ?g)") for k a running
  proof (rule keepsI)
    fix s assume ok: "exec_ok s"
    obtain r s1 where m: "?m s = (r, s1)" by (rule prod.exhaust)
    note f = mark_attempt_finished_chosen [OF ok, of k a stats, unfolded m fst_conv snd_conv]
    show "exec_ok (snd (bindS ?m ?g s)) \<and> exec_grows s (snd (bindS ?m ?g s))"
    proof (cases r)
      case (Inl e)
      then show ?thesis using m f by (simp add: bindS_def)
    next
      case (Inr changed)
      obtain res s2 failure rels where fin: "(if changed then finish_changed E k a running (s1, None, []) else (Inr (), (s1, None, []))) =
          (res, (s2, failure, rels))" by (metis prod.exhaust)
      have s2: "exec_ok s2" "exec_grows s s2"
      proof -
        have "holds_after (s1, None, []) (if changed then finish_changed E k a running (s1, None, []) else (Inr (), (s1, None, [])))"
          using f Inr holds_after_finish_changed [of "(s1, None, [])" k a E running] by (simp add: holds_after_same)
        then show "exec_ok s2" "exec_grows s s2" unfolding fin using f exec_grows_trans by (auto simp: holds_after_def)
      qed
      have "keeps (bindS (release_all E rels) (\<lambda>_. liftS (\<lambda>_. z)))" for z :: "bool res"
        by (intro keeps_rules keeps_release_all)
      from keepsD [OF this s2(1)] show ?thesis
        using m Inr fin s2(2) exec_grows_trans by (auto simp: bindS_def [of ?m])
    qed
  qed
  show ?thesis unfolding task_finished_def Let_def [of "task_partition_id _"]
    by (rule keeps_bindS, rule keeps_liftS, rule keeps_bindS, rule keeps_liftS, rule block)
qed

lemma keeps_handle_task_status:
  assumes "env_keeps E"
  shows "keeps (handle_task_status E status retryable schedule_retry)"
  unfolding handle_task_status_def Let_def
  by (intro keeps_rules keeps_record_task_stats keeps_task_failed [OF assms] keeps_task_finished)

end
