(* ===== verification/Execution_Safety.thy ===== *)
theory Execution_Safety
  imports Execution_Run
begin

text \<open>
  Runs of a fragment execution: any sequence of calls of the methods of \<open>FteFragmentExecution\<close> in
  \<open>src/duckdb/runners/fte/fte_execution.py\<close>, returning or raising, and what such runs guarantee. The callbacks that the
  execution runs may change its bookkeeping and may themselves call methods of the execution.
\<close>

section \<open>Calls in any order\<close>

inductive exec_step :: "environment \<Rightarrow> fragment_execution \<Rightarrow> fragment_execution \<Rightarrow> bool" for E where
  AddPartition: "exec_step E s (snd (add_partition E k node s))"
| MarkReady: "exec_step E s (snd (mark_partition_ready_for_execution E k s))"
| CreateAttempt: "exec_step E s (snd (create_attempt_after_admission E k s))"
| Schedule: "exec_step E s (snd (schedule_partition_if_ready E k cls s))"
| ScheduleNext: "exec_step E s (snd (schedule_next_pending_partition E cls s))"
| ReleaseDeferred: "exec_step E s (snd (release_deferred_execution_partitions E cls s))"
| EmitTransitions: "exec_step E s (snd (emit_execution_class_transitions E ts s))"
| SetClass: "exec_step E s (snd (set_execution_class cls s))"
| UpdatePartition: "exec_step E s (snd (update_partition E u s))"
| SealPartition: "exec_step E s (snd (seal_partition E k s))"
| ApplyAssignment: "exec_step E s (snd (apply_assignment_result E result s))"
| ApplyUpdate: "exec_step E s (snd (execution_apply_task_update E k update s))"
| TaskFailed: "exec_step E s (snd (task_failed E a error retryable schedule_retry s))"
| Revoke: "exec_step E s (snd (revoke_speculative_attempts E worker_id n reason s))"
| WorkerFailed: "exec_step E s (snd (mark_worker_failed E w error retryable retryable_by schedule_retry s))"
| TaskFinished: "exec_step E s (snd (task_finished E a stats s))"
| TaskStatus: "exec_step E s (snd (handle_task_status E status retryable schedule_retry s))"
| CommandSuccess: "exec_step E s (snd (handle_worker_command_success E c s))"
| PopCommands: "exec_step E s (snd (pop_worker_commands s))"
| StartWorker: "exec_step E s (snd (start_attempt_with_worker E k s))"
| Bookkeeping: "bookkeeping_step s t \<Longrightarrow> exec_step E s t"

inductive_cases exec_stepE: "exec_step E s t"

lemmas keeps_methods = keeps_add_partition keeps_mark_ready keeps_create_attempt keeps_schedule keeps_schedule_next
  keeps_release_all_deferred keeps_emit keeps_set_execution_class keeps_update_partition keeps_seal_partition
  keeps_apply_assignment_result keeps_apply_task_update keeps_task_failed keeps_revoke_speculative_attempts
  keeps_mark_worker_failed keeps_task_finished keeps_handle_task_status keeps_command_success keeps_start_attempt_with_worker

lemma exec_step_ok:
  assumes "env_keeps E" and "exec_ok s" and "exec_step E s t"
  shows "exec_ok t \<and> exec_grows s t"
  using assms(3)
  by (rule exec_stepE)
    ((hypsubst, rule keepsD [OF _ assms(2)], rule keeps_methods, (rule assms(1))?) |
     (hypsubst, rule keeps_pop [OF assms(2)]) | (rule bookkeeping_ok [OF _ assms(2)], assumption))+

interpretation run: monotone_system "exec_step E" "\<lambda>s. env_keeps E \<and> exec_ok s" exec_grows for E
proof
  fix s t assume "env_keeps E \<and> exec_ok s" "exec_step E s t"
  then show "env_keeps E \<and> exec_ok t" and "exec_grows s t" using exec_step_ok by blast+
qed (fact exec_grows_refl, rule exec_grows_trans)

section \<open>The callbacks of a runner\<close>

text \<open>
  A callback acts on the execution only by its methods and by the bookkeeping of the runner. A method that a callback calls may run
  callbacks again, to any finite depth: each call of a callback is a run of the execution in an environment whose callbacks act in
  this way in turn.
\<close>

definition acts :: "(environment \<Rightarrow> bool) \<Rightarrow> ('x \<Rightarrow> (fragment_execution, 'a) op) \<Rightarrow> bool" where
  "acts P f = (\<forall>x s. \<exists>E. P E \<and> (exec_step E)\<^sup>*\<^sup>* s (snd (f x s)))"

lemma acts_mono [mono]: "(\<And>E. P E \<longrightarrow> Q E) \<Longrightarrow> acts P f \<longrightarrow> acts Q f"
  unfolding acts_def by blast

inductive env_ok :: "environment \<Rightarrow> bool" where
  "\<forall>f. env_worker_selector E = Some f \<longrightarrow> acts env_ok f \<Longrightarrow>
   \<forall>f. env_class_transition E = Some f \<longrightarrow> acts env_ok f \<Longrightarrow>
   \<forall>f. env_execution_admission E = Some f \<or> env_attempt_admission E = Some f \<or> env_worker_reservation E = Some f \<longrightarrow> acts env_ok f \<Longrightarrow>
   env_ok E"

lemma acts_keeps:
  assumes "acts (\<lambda>E. env_ok E \<and> env_keeps E) f"
  shows "keeps (f x)"
proof (rule keepsI)
  fix s assume ok: "exec_ok s"
  obtain E where "env_keeps E" "(exec_step E)\<^sup>*\<^sup>* s (snd (f x s))" using assms unfolding acts_def by blast
  then show "exec_ok (snd (f x s)) \<and> exec_grows s (snd (f x s))"
    using run.reach_inv [of E s "snd (f x s)"] run.reach_grows [of E s "snd (f x s)"] ok by blast
qed

lemma env_ok_keeps: "env_ok E \<Longrightarrow> env_keeps E"
proof (induction rule: env_ok.induct)
  case (1 E)
  show ?case by (subst env_keeps_def) (use 1 in \<open>blast intro: acts_keeps\<close>)
qed

text \<open>An exchange that the execution is given is new, or absent.\<close>

definition new_exchange :: "execution_args \<Rightarrow> bool" where
  "new_exchange args = (case arg_exchange args of None \<Rightarrow> True | Some t \<Rightarrow> t = mk_tracker (trk_query_id t) (trk_exchange_id t))"

lemma mk_execution_ok:
  assumes "mk_execution E q fid frag args = Inr s" and "new_exchange args"
  shows "exec_ok s" and "exe_query_id s = strip q" and "exe_fragment_execution_id s = fid"
    and "exe_max_attempts s = arg_max_attempts args" and "exe_recorded s = []" and "exe_partitions s = []"
    and "exe_worker_command_outbox s = []" and "exe_current_worker_commands s = None"
proof -
  have s: "exe_partitions s = []" "exe_exchange s = arg_exchange args" "exe_recorded s = []" "exe_query_id s = strip q"
    "exe_fragment_execution_id s = fid" "exe_max_attempts s = arg_max_attempts args"
    "exe_worker_command_outbox s = []" "exe_current_worker_commands s = None"
    using assms(1) by (auto simp: mk_execution_def Let_def bindE_eq_Inr check_non_negative_def split: if_splits)
  have "tracker_ok t \<and> trk_selected_attempts t = []" if "arg_exchange args = Some t" for t
  proof -
    have "t = mk_tracker (trk_query_id t) (trk_exchange_id t)" using assms(2) that by (simp add: new_exchange_def)
    then show ?thesis using tracker_ok_init by (metis exchange_tracker.select_convs(6) mk_tracker_def)
  qed
  then show "exec_ok s" by (simp add: exec_ok_def s created_def selection_ok_def)
  show "exe_query_id s = strip q" "exe_fragment_execution_id s = fid" "exe_max_attempts s = arg_max_attempts args"
    "exe_recorded s = []" "exe_partitions s = []" "exe_worker_command_outbox s = []" "exe_current_worker_commands s = None"
    by (fact s)+
qed

lemmas reached_ok = run.reach_inv [THEN conjunct2, OF conjI [OF env_ok_keeps]]
lemmas reached_grows = run.reach_grows [OF conjI [OF env_ok_keeps]]

section \<open>What every run keeps\<close>

lemma started_bounds:
  assumes "exec_ok s" and "started_in s a"
  obtains p where "dict_get (exe_partitions s) (task_partition_id (attempt_task_id a)) = Some p"
    "attempt_task_id a = prt_task_id p" "attempt_started p (attempt_number a)" "0 \<le> attempt_number a"
    "attempt_number a < exe_max_attempts s"
proof -
  obtain k p where p: "dict_get (exe_partitions s) k = Some p" "attempt_task_id a = task_of s k"
    "attempt_started p (attempt_number a)" "0 \<le> attempt_number a" using assms(2) unfolding started_in_def by blast
  note at = exec_okD(2) [OF assms(1) p(1)]
  have k: "k = task_partition_id (attempt_task_id a)" using p(2) by (simp add: task_of_def)
  have "attempt_number a < exe_max_attempts s"
    using at p(3) unfolding partition_at_def by (auto simp: partition_defs split: if_splits)
  moreover have "attempt_task_id a = prt_task_id p" using at p(2) by (simp add: partition_at_def)
  ultimately show thesis using that p(1,3,4) unfolding k by blast
qed

text \<open>
  C1. A fragment execution starts every attempt at most once. Take any sequence of calls of its methods, returning or
  raising, and of bookkeeping of the runner on its partitions, with callbacks that act on the execution only in these ways,
  themselves running callbacks to a finite depth. Then: no attempt has two create commands; every created attempt belongs to a
  partition of the execution, which has started it, and its number is within the attempt budget; each
  partition keeps the identity of its task, has at most one running attempt, never more failures than
  the budget, is not both finished and failed, and its failure is the failure of the execution.
\<close>

theorem execution_starts_attempts_once:
  assumes "mk_execution E q fid frag args = Inr s0" and "new_exchange args" and "env_ok E" and "(exec_step E)\<^sup>*\<^sup>* s0 s"
  shows "distinct (created s) \<and>
    (\<forall>a\<in>set (created s). \<exists>p. dict_get (exe_partitions s) (task_partition_id (attempt_task_id a)) = Some p \<and>
       attempt_task_id a = prt_task_id p \<and> attempt_started p (attempt_number a) \<and>
       0 \<le> attempt_number a \<and> attempt_number a < arg_max_attempts args) \<and>
    (\<forall>k p. dict_get (exe_partitions s) k = Some p \<longrightarrow>
       prt_task_id p = FteTaskId (strip q) fid k \<and> length (prt_running_attempts p) \<le> 1 \<and>
       int (length (prt_failures p)) \<le> arg_max_attempts args \<and> \<not> (prt_finished p \<and> prt_failed p) \<and>
       (prt_failed p \<longrightarrow> exe_failed s))"
proof -
  note s0 = mk_execution_ok [OF assms(1,2)]
  have s: "exec_ok s" and g: "exec_grows s0 s" using reached_ok [OF assms(3) s0(1) assms(4)] reached_grows [OF assms(3) s0(1) assms(4)] .
  have id: "exe_query_id s = strip q" "exe_fragment_execution_id s = fid" "exe_max_attempts s = arg_max_attempts args"
    using g s0(2-4) by (simp_all add: exec_grows_def)
  have "\<exists>p. dict_get (exe_partitions s) (task_partition_id (attempt_task_id a)) = Some p \<and> attempt_task_id a = prt_task_id p \<and>
       attempt_started p (attempt_number a) \<and> 0 \<le> attempt_number a \<and> attempt_number a < arg_max_attempts args"
    if "a \<in> set (created s)" for a
    using started_bounds [OF s exec_okD(6) [OF s that]] id(3) by metis
  moreover have "prt_task_id p = FteTaskId (strip q) fid k \<and> length (prt_running_attempts p) \<le> 1 \<and>
       int (length (prt_failures p)) \<le> arg_max_attempts args \<and> \<not> (prt_finished p \<and> prt_failed p) \<and> (prt_failed p \<longrightarrow> exe_failed s)"
    if "dict_get (exe_partitions s) k = Some p" for k p
    using exec_okD(2) [OF s that] id by (auto simp: partition_at_def task_of_def partition_defs split: if_splits)
  ultimately show ?thesis using exec_okD(5) [OF s] by blast
qed

lemma created_bounded:
  assumes "mk_execution E q fid frag args = Inr s0" and "new_exchange args" and "env_ok E" and "(exec_step E)\<^sup>*\<^sup>* s0 s"
  shows "length (filter is_FteCreateTaskCommand (exe_recorded s)) \<le> nat (arg_max_attempts args) * length (exe_partitions s)"
proof -
  note s0 = mk_execution_ok [OF assms(1,2)]
  have s: "exec_ok s" and g: "exec_grows s0 s" using reached_ok [OF assms(3) s0(1) assms(4)] reached_grows [OF assms(3) s0(1) assms(4)] .
  have max: "exe_max_attempts s = arg_max_attempts args" using g s0(4) by (simp add: exec_grows_def)
  let ?n = "nat (arg_max_attempts args)" and ?ks = "set (dict_keys (exe_partitions s))"
  let ?f = "\<lambda>a. (task_partition_id (attempt_task_id a), nat (attempt_number a))"
  have bound: "task_partition_id (attempt_task_id a) \<in> ?ks \<and> nat (attempt_number a) < ?n \<and> 0 \<le> attempt_number a \<and>
      attempt_task_id a = task_of s (task_partition_id (attempt_task_id a))" if a: "a \<in> set (created s)" for a
  proof (rule started_bounds [OF s exec_okD(6) [OF s a]])
    fix p assume p: "dict_get (exe_partitions s) (task_partition_id (attempt_task_id a)) = Some p" "attempt_task_id a = prt_task_id p"
      "0 \<le> attempt_number a" "attempt_number a < exe_max_attempts s"
    have "prt_task_id p = task_of s (task_partition_id (attempt_task_id a))"
      using exec_okD(2) [OF s p(1)] by (simp add: partition_at_def)
    moreover have "task_partition_id (attempt_task_id a) \<in> ?ks" using p(1) dict_has_keys [of "exe_partitions s"] unfolding dict_has_def by blast
    ultimately show ?thesis using p max by simp
  qed
  have inj: "inj_on ?f (set (created s))"
  proof (rule inj_onI)
    fix a b assume ab: "a \<in> set (created s)" "b \<in> set (created s)" "?f a = ?f b"
    then have "attempt_task_id a = attempt_task_id b" "attempt_number a = attempt_number b"
      using bound [OF ab(1)] bound [OF ab(2)] by auto
    then show "a = b" by (cases a; cases b) simp
  qed
  have "length (created s) = card (set (created s))" using exec_okD(5) [OF s] by (simp add: distinct_card)
  also have "\<dots> = card (?f ` set (created s))" using inj by (simp add: card_image)
  also have "\<dots> \<le> card (?ks \<times> {..<?n})" using bound by (intro card_mono) auto
  also have "\<dots> \<le> length (exe_partitions s) * ?n"
    using card_length [of "dict_keys (exe_partitions s)"] by simp
  finally show ?thesis by (simp add: created_def mult.commute)
qed

text \<open>
  The work is bounded. However the calls are ordered, the create commands of an execution are at most
  its attempt budget times its partitions.
\<close>

theorem create_commands_bounded:
  assumes "mk_execution E q fid frag args = Inr s0" and "new_exchange args" and "env_ok E" and "(exec_step E)\<^sup>*\<^sup>* s0 s"
  shows "length (filter is_FteCreateTaskCommand (exe_recorded s)) \<le> nat (arg_max_attempts args) * length (exe_partitions s)"
  by (rule created_bounded [OF assms])

text \<open>
  C2. An outcome is final and the exchange agrees with it. Along any run of calls and bookkeeping as above, with
  callbacks that act on the execution only in these ways, a partition that has finished
  stays finished with the same selected attempt and output statistics, has no running attempt and never
  fails; a partition that has failed stays failed and starts no attempt; a failed execution stays failed.
  The attempt that the exchange has selected for a partition is the one the partition finished with, and
  the exchange never changes it.
\<close>

theorem execution_outcomes_final:
  assumes "mk_execution E q fid frag args = Inr s0" and "new_exchange args" and "env_ok E"
    and "(exec_step E)\<^sup>*\<^sup>* s0 s" and "(exec_step E)\<^sup>*\<^sup>* s u"
  shows "(exe_failed s \<longrightarrow> exe_failed u) \<and>
    (\<forall>k p. dict_get (exe_partitions s) k = Some p \<longrightarrow> (\<exists>r. dict_get (exe_partitions u) k = Some r \<and>
       (prt_finished p \<longrightarrow> prt_finished r \<and> \<not> prt_failed r \<and> prt_running_attempts r = [] \<and>
          prt_selected_attempt r = prt_selected_attempt p \<and> prt_selected_output_stats r = prt_selected_output_stats p) \<and>
       (prt_failed p \<longrightarrow> prt_failed r \<and> \<not> prt_finished r \<and> prt_running_attempts r = []))) \<and>
    (\<forall>t k a. exe_exchange s = Some t \<and> dict_get (trk_selected_attempts t) k = Some a \<longrightarrow>
       (\<exists>t' p. exe_exchange u = Some t' \<and> dict_get (trk_selected_attempts t') k = Some a \<and>
          dict_get (exe_partitions u) k = Some p \<and> prt_finished p \<and> prt_selected_attempt p = Some a))"
proof -
  note s0 = mk_execution_ok [OF assms(1,2)]
  note s = reached_ok [OF assms(3) s0(1) assms(4)]
  note u = reached_ok [OF assms(3) s assms(5)] and g = reached_grows [OF assms(3) s assms(5)]
  have fin: "prt_finished r \<Longrightarrow> \<not> prt_failed r \<and> prt_running_attempts r = []"
    "prt_failed r \<Longrightarrow> \<not> prt_finished r \<and> prt_running_attempts r = []" if "dict_get (exe_partitions u) k = Some r" for k r
    using exec_okD(2) [OF u that] by (auto simp: partition_at_def partition_ok_def outcome_ok_def split: if_splits)
  have parts: "\<exists>r. dict_get (exe_partitions u) k = Some r \<and>
       (prt_finished p \<longrightarrow> prt_finished r \<and> \<not> prt_failed r \<and> prt_running_attempts r = [] \<and>
          prt_selected_attempt r = prt_selected_attempt p \<and> prt_selected_output_stats r = prt_selected_output_stats p) \<and>
       (prt_failed p \<longrightarrow> prt_failed r \<and> \<not> prt_finished r \<and> prt_running_attempts r = [])"
    if "dict_get (exe_partitions s) k = Some p" for k p
    using that g fin unfolding exec_grows_def partition_grows_def by metis
  have sel: "\<exists>t' p. exe_exchange u = Some t' \<and> dict_get (trk_selected_attempts t') k = Some a \<and>
          dict_get (exe_partitions u) k = Some p \<and> prt_finished p \<and> prt_selected_attempt p = Some a"
    if t: "exe_exchange s = Some t" "dict_get (trk_selected_attempts t) k = Some a" for t k a
  proof -
    obtain t' where "exe_exchange u = Some t'" "tracker_grows t t'"
      using g t(1) unfolding exec_grows_def exchange_grows_def by (auto split: option.splits)
    then have t': "exe_exchange u = Some t'" "dict_get (trk_selected_attempts t') k = Some a"
      using t(2) by (auto simp: tracker_grows_def)
    then show ?thesis using exec_okD(4) [OF u] unfolding selection_ok_def by blast
  qed
  have "exe_failed s \<longrightarrow> exe_failed u" using g unfolding exec_grows_def by blast
  then show ?thesis using parts sel by blast
qed

section \<open>A run\<close>

text \<open>
  An environment without callbacks, and one with callbacks like those of the Ray runner: the selector has found a node; an attempt of
  a partition other than 0 is not admitted, its reservation was refused, and the partition is deferred; a reservation is granted at once and
  its completion starts the attempt.
\<close>

definition plain_environment :: environment where
  "plain_environment =
     \<lparr>env_worker_selector = None, env_class_transition = None, env_execution_admission = None, env_attempt_admission = None,
      env_worker_reservation = None, env_worker_call = (\<lambda>_ _. Inr PNone), env_without_drain = (\<lambda>_. True), env_time = (\<lambda>n. of_nat n),
      env_max_splits = None, env_max_payload_bytes = None, env_is = (=), env_writable = (\<lambda>_ _. True), env_storage_max = None, env_storage_dir = None\<rparr>"

definition sample_selector :: "int \<Rightarrow> (fragment_execution, selected_worker) op" where
  "sample_selector k s = (Inr (SelPair (Some ''w'') (Some 0)), snd (on_partition k (\<lambda>p. (Inr (), reset_no_matching_node p)) s))"

definition sample_admission :: "int \<Rightarrow> (fragment_execution, bool) op" where
  "sample_admission k s =
     (if k = 0 then (Inr True, s)
      else (Inr False, snd (on_partition k (\<lambda>p. (Inr (), defer_ready_for_execution p))
                         (snd (on_partition k (\<lambda>p. (Inr (), p\<lparr>prt_node_wait_started_at := None\<rparr>)) s)))))"

definition sample_reservation :: "int \<Rightarrow> (fragment_execution, bool) op" where
  "sample_reservation k s =
     (let (r, s') = start_attempt_with_worker (plain_environment\<lparr>env_worker_selector := Some sample_selector\<rparr>) k s in (Inr True, s'))"

definition sample_environment :: environment where
  "sample_environment = plain_environment\<lparr>env_worker_selector := Some sample_selector, env_class_transition := Some (\<lambda>_. retS ()),
     env_execution_admission := Some (\<lambda>_. retS True), env_attempt_admission := Some sample_admission,
     env_worker_reservation := Some sample_reservation\<rparr>"

lemma plain_environment_ok: "env_ok plain_environment"
  by (rule env_ok.intros) (simp_all add: plain_environment_def)

lemma sample_selector_acts: "acts env_ok sample_selector"
  unfolding acts_def sample_selector_def snd_conv
  by (intro allI exI [of _ plain_environment] conjI plain_environment_ok r_into_rtranclp Bookkeeping ResetMatch)

lemma selecting_environment_ok: "env_ok (plain_environment\<lparr>env_worker_selector := Some sample_selector\<rparr>)"
  by (rule env_ok.intros) (simp_all add: sample_selector_acts, simp_all add: plain_environment_def)

lemma sample_admission_acts: "acts env_ok sample_admission"
  unfolding acts_def
proof (intro allI exI [of _ plain_environment] conjI plain_environment_ok)
  fix k s
  have "(exec_step plain_environment)\<^sup>*\<^sup>* s (snd (on_partition k (\<lambda>p. (Inr (), defer_ready_for_execution p))
      (snd (on_partition k (\<lambda>p. (Inr (), p\<lparr>prt_node_wait_started_at := None\<rparr>)) s))))"
    by (rule rtranclp.rtrancl_into_rtrancl [OF r_into_rtranclp], rule Bookkeeping, rule ForgetWait, rule Bookkeeping, rule Defer)
  then show "(exec_step plain_environment)\<^sup>*\<^sup>* s (snd (sample_admission k s))" by (simp add: sample_admission_def)
qed

lemma sample_reservation_acts: "acts env_ok sample_reservation"
  unfolding acts_def sample_reservation_def
  by (intro allI exI [of _ "plain_environment\<lparr>env_worker_selector := Some sample_selector\<rparr>"] conjI selecting_environment_ok)
    (simp add: case_prod_unfold Let_def r_into_rtranclp StartWorker)

lemma idle_acts: "acts env_ok (\<lambda>_. retS x)"
  unfolding acts_def by (intro allI exI [of _ plain_environment] conjI plain_environment_ok) (simp add: retS_def)

lemma sample_environment_ok: "env_ok sample_environment"
  by (rule env_ok.intros) (auto simp: sample_environment_def sample_selector_acts sample_admission_acts sample_reservation_acts idle_acts)

definition sample_args :: execution_args where
  "sample_args =
     \<lparr>arg_worker = Some 0, arg_worker_id = Some ''w'', arg_descriptor_storage = None, arg_max_attempts = 2,
      arg_exchange = Some (mk_tracker ''q'' ''x''), arg_context = [], arg_resource_request = [], arg_fragment_plan = PNone,
      arg_fragment_registration_result = PNone, arg_task_context_info = [], arg_source_node_ids = None,
      arg_dynamic_scan_source_node_ids = None, arg_dynamic_exchange_source_node_ids = None, arg_task_memory_bytes = 1\<rparr>"

lemma sample_exchange_new: "new_exchange sample_args"
  by (simp add: new_exchange_def sample_args_def mk_tracker_def)

definition sample_execution :: "fragment_execution res" where
  "sample_execution = mk_execution sample_environment ''q'' 0 ''f'' sample_args"

text \<open>
  Partition 1 is sealed and deferred, partition 0 is sealed, its first attempt fails and is retried, and the second attempt finishes.
\<close>

definition sample_attempt :: "int \<Rightarrow> fte_task_attempt_id ref" where
  "sample_attempt n = Obj (FteTaskAttemptId (FteTaskId ''q'' 0 0) n)"

definition sample_retry :: "fragment_execution \<Rightarrow> fragment_execution" where
  "sample_retry s = snd (task_failed sample_environment (sample_attempt 0) PNone True True
     (snd (seal_partition sample_environment 0 (snd (seal_partition sample_environment 1 s)))))"

definition sample_finish :: "fragment_execution \<Rightarrow> fragment_execution" where
  "sample_finish s = snd (task_finished sample_environment (sample_attempt 1) PNone s)"

lemma sample_execution_run:
  "case sample_execution of Inl _ \<Rightarrow> False | Inr s0 \<Rightarrow>
     let s1 = sample_retry s0; s2 = sample_finish s1 in
     created s1 = [FteTaskAttemptId (FteTaskId ''q'' 0 0) 0, FteTaskAttemptId (FteTaskId ''q'' 0 0) 1] \<and>
     map_option trk_selected_attempts (exe_exchange s2) = Some [(0, 1)] \<and>
     map_option prt_execution_ready_deferred (dict_get (exe_partitions s2) 1) = Some True"
  by code_simp

lemma sample_steps: "(exec_step sample_environment)\<^sup>*\<^sup>* s (sample_retry s)" "(exec_step sample_environment)\<^sup>*\<^sup>* s (sample_finish s)"
proof -
  show "(exec_step sample_environment)\<^sup>*\<^sup>* s (sample_retry s)" unfolding sample_retry_def
    by (rule rtranclp.rtrancl_into_rtrancl [OF rtranclp.rtrancl_into_rtrancl [OF r_into_rtranclp]])
      (rule SealPartition exec_step.TaskFailed)+
  show "(exec_step sample_environment)\<^sup>*\<^sup>* s (sample_finish s)" unfolding sample_finish_def
    by (rule r_into_rtranclp, rule exec_step.TaskFinished)
qed

lemma sample_runE:
  obtains s0 where "mk_execution sample_environment ''q'' 0 ''f'' sample_args = Inr s0" 
    "created (sample_retry s0) = [FteTaskAttemptId (FteTaskId ''q'' 0 0) 0, FteTaskAttemptId (FteTaskId ''q'' 0 0) 1]"
    "map_option trk_selected_attempts (exe_exchange (sample_finish (sample_retry s0))) = Some [(0, 1)]"
    "map_option prt_execution_ready_deferred (dict_get (exe_partitions (sample_finish (sample_retry s0))) 1) = Some True"
  using sample_execution_run unfolding case_res_ok Let_def sample_execution_def by (elim exE conjE) (rule that)

theorem execution_starts_attempts_once_witness:
  "\<exists>s0 p. sample_execution = Inr s0 \<and> distinct (created (sample_retry s0)) \<and> length (created (sample_retry s0)) = 2 \<and>
     dict_get (exe_partitions (sample_retry s0)) 0 = Some p \<and> prt_task_id p = FteTaskId ''q'' 0 0 \<and> length (prt_running_attempts p) \<le> 1"
proof -
  obtain s0 where s0: "mk_execution sample_environment ''q'' 0 ''f'' sample_args = Inr s0" 
    and c: "created (sample_retry s0) = [FteTaskAttemptId (FteTaskId ''q'' 0 0) 0, FteTaskAttemptId (FteTaskId ''q'' 0 0) 1]" by (rule sample_runE)
  note run = execution_starts_attempts_once [OF s0 sample_exchange_new sample_environment_ok sample_steps(1)]
  have "FteTaskAttemptId (FteTaskId ''q'' 0 0) 0 \<in> set (created (sample_retry s0))" unfolding c by simp
  from bspec [OF conjunct1 [OF conjunct2 [OF run]] this]
  obtain p where p: "dict_get (exe_partitions (sample_retry s0)) 0 = Some p" "FteTaskId ''q'' 0 0 = prt_task_id p"
    by (elim exE conjE) simp
  have "length (prt_running_attempts p) \<le> 1" using conjunct2 [OF conjunct2 [OF run]] p(1) by blast
  moreover have "length (created (sample_retry s0)) = 2" unfolding c by simp
  moreover have "distinct (created (sample_retry s0))" using run by (rule conjunct1)
  ultimately show ?thesis using s0 p unfolding sample_execution_def by (intro exI conjI) (assumption | rule sym)+
qed

theorem create_commands_bounded_witness:
  "\<exists>s0. sample_execution = Inr s0 \<and> length (filter is_FteCreateTaskCommand (exe_recorded (sample_retry s0))) = 2 \<and>
     2 \<le> nat 2 * length (exe_partitions (sample_retry s0))"
proof -
  obtain s0 where s0: "mk_execution sample_environment ''q'' 0 ''f'' sample_args = Inr s0" 
    and c: "created (sample_retry s0) = [FteTaskAttemptId (FteTaskId ''q'' 0 0) 0, FteTaskAttemptId (FteTaskId ''q'' 0 0) 1]" by (rule sample_runE)
  have n: "length (filter is_FteCreateTaskCommand (exe_recorded (sample_retry s0))) = 2"
    using arg_cong [OF c, of length] by (simp add: created_def)
  then show ?thesis
    using create_commands_bounded [OF s0 sample_exchange_new sample_environment_ok sample_steps(1)] s0
    by (simp add: sample_execution_def sample_args_def)
qed

theorem execution_outcomes_final_witness:
  "\<exists>s0 p. sample_execution = Inr s0 \<and> dict_get (exe_partitions (sample_finish (sample_retry s0))) 0 = Some p \<and>
     prt_finished p \<and> prt_selected_attempt p = Some 1"
proof -
  obtain s0 where s0: "mk_execution sample_environment ''q'' 0 ''f'' sample_args = Inr s0" 
    and t: "map_option trk_selected_attempts (exe_exchange (sample_finish (sample_retry s0))) = Some [(0, 1)]" by (rule sample_runE)
  then obtain t where "exe_exchange (sample_finish (sample_retry s0)) = Some t" "dict_get (trk_selected_attempts t) 0 = Some 1" by auto
  then show ?thesis
    using execution_outcomes_final [OF s0 sample_exchange_new sample_environment_ok
        rtranclp_trans [OF sample_steps(1) sample_steps(2)] rtranclp.rtrancl_refl] s0
    unfolding sample_execution_def by blast
qed

end
