(* ===== verification/Fte_Scheduler.thy ===== *)
theory Fte_Scheduler
  imports Fte_Events
begin

text \<open>
  The per-query event loop, \<open>src/duckdb/runners/fte/fte_scheduler.py\<close>: the worker command executor, task
  sources with back pressure, the query scheduler with its queue of events, and the registry of
  schedulers. The status watcher of an attempt is in \<open>Status_Watcher\<close>.

  Every method takes the lock of its object for the sections that touch its fields; such a section is
  one operation here, and the callbacks and handlers that the code calls outside the lock are separate
  operations, so that the sections of several threads can interleave (\<open>Scheduler_Threads\<close>). The event
  handlers and the methods of worker handles are parameters (\<open>scheduler_env\<close>). \<open>drain\<close> may handle events
  forever, as handlers enqueue events; a call that does not return has the value \<open>None\<close>.
\<close>

section \<open>State\<close>

datatype scheduler_state = RUNNING | ABORTED | FAILED | CLOSED

fun scheduler_state_value :: "scheduler_state \<Rightarrow> string" where
  "scheduler_state_value RUNNING = ''RUNNING''"
| "scheduler_state_value ABORTED = ''ABORTED''"
| "scheduler_state_value FAILED = ''FAILED''"
| "scheduler_state_value CLOSED = ''CLOSED''"

text \<open>
  A callback of a task source: a bound method of an event-driven task source, which is an object with
  an identity, or any other callable.
\<close>

datatype callback = PauseOf nat | ResumeOf nat | Callback nat

record source_registration =
  rgs_source_id :: string
  rgs_pause :: "callback option"
  rgs_resume :: "callback option"
  rgs_high_watermark :: int
  rgs_low_watermark :: int
  rgs_paused :: bool

record task_source =
  tsk_source_id :: string
  tsk_pause_count :: int
  tsk_resume_count :: int
  tsk_paused :: bool
  tsk_closed :: bool

text \<open>What the command executor calls on a worker handle.\<close>

datatype control_lane_call =
    CreateTaskCall worker "(string, pyval) dict"
  | WaitSplitQueueCall worker "(string, pyval) dict" string
  | AddSplitsCall worker "(string, pyval) dict" string "(string, pyval) dict list"
  | NoMoreSplitsCall worker "(string, pyval) dict" string
  | UpdateTaskCall worker "(string, pyval) dict" "(string, pyval) dict"

text \<open>
  The scheduler object, with the task source objects that belong to it. Fragment states are opaque
  objects, known by their identity, and so are handler objects: \<open>qsc_handlers\<close> names one of the
  environment. An armed retry timer is its generation and delay. \<open>qsc_ticks\<close> counts the readings of the
  clock; \<open>qsc_lane\<close> and \<open>qsc_handled\<close> are the history of worker calls and of handled events.
\<close>

record query_scheduler =
  qsc_query_id :: string
  qsc_events :: "fte_event list"
  qsc_state :: scheduler_state
  qsc_processed_events :: int
  qsc_last_event_type :: "string option"
  qsc_last_progress_at :: "rat option"
  qsc_event_counts :: "(string, int) dict"
  qsc_handlers :: nat
  qsc_fragment_states :: "(string, nat) dict"
  qsc_command_counts :: "(string, int) dict"
  qsc_failure_reason :: "string option"
  qsc_retry_delay_generation :: int
  qsc_retry_delay_timer :: "(int \<times> rat) option"
  qsc_draining :: bool
  qsc_queued_internal_admission_classes :: "string option list"
  qsc_failed_worker_ids :: "string list"
  qsc_task_sources :: "(string, source_registration) dict"
  qsc_source_objects :: "(nat, task_source) dict"
  qsc_ticks :: nat
  qsc_lane :: "control_lane_call list"
  qsc_handled :: "fte_event list"

type_synonym 'a handler = "('a \<Rightarrow> (query_scheduler, pyval list option) op) option"

record event_handlers =
  on_split_events :: "(string, pyval) dict list handler"
  on_source_input_exhausted :: "string list handler"
  on_task_status_changed :: "fte_event handler"
  on_worker_failed :: "fte_event handler"
  on_memory_pressure_detected :: "fte_event handler"
  on_resource_admission_changed :: "fte_event handler"
  on_worker_reservation_completed :: "fte_event handler"
  on_retry_delay_expired :: "fte_event handler"
  on_exchange_selector_updated :: "fte_event handler"
  on_query_abort :: "fte_event handler"

definition no_handlers :: event_handlers where
  "no_handlers =
     \<lparr>on_split_events = None, on_source_input_exhausted = None, on_task_status_changed = None, on_worker_failed = None,
      on_memory_pressure_detected = None, on_resource_admission_changed = None, on_worker_reservation_completed = None,
      on_retry_delay_expired = None, on_exchange_selector_updated = None, on_query_abort = None\<rparr>"

text \<open>
  The environment: handler objects, where number 0 is the \<open>FteEventHandlers()\<close> of the constructor,
  callables that are not methods of task sources, the clock, and the methods of worker handles.
\<close>

record scheduler_env =
  sev_handlers :: "nat \<Rightarrow> event_handlers"
  sev_callback :: "nat \<Rightarrow> (query_scheduler, unit) op"
  sev_time :: "nat \<Rightarrow> rat"
  sev_has_method :: "worker \<Rightarrow> string \<Rightarrow> bool"
  sev_lane_call :: "control_lane_call list \<Rightarrow> control_lane_call \<Rightarrow> pyval res"

definition handlers_of :: "scheduler_env \<Rightarrow> nat \<Rightarrow> event_handlers" where
  "handlers_of E h = (if h = 0 then no_handlers else sev_handlers E h)"

definition mk_scheduler :: "string \<Rightarrow> query_scheduler res" where
  "mk_scheduler query_id =
     (if strip query_id = [] then Inl (ValueError ''query_id must be non-empty'')
      else Inr \<lparr>qsc_query_id = strip query_id, qsc_events = [], qsc_state = RUNNING, qsc_processed_events = 0,
                qsc_last_event_type = None, qsc_last_progress_at = None, qsc_event_counts = [], qsc_handlers = 0,
                qsc_fragment_states = [], qsc_command_counts = [], qsc_failure_reason = None,
                qsc_retry_delay_generation = 0, qsc_retry_delay_timer = None, qsc_draining = False,
                qsc_queued_internal_admission_classes = [], qsc_failed_worker_ids = [], qsc_task_sources = [],
                qsc_source_objects = [], qsc_ticks = 0, qsc_lane = [], qsc_handled = []\<rparr>)"

section \<open>The command executor\<close>

definition record_command :: "worker_command \<Rightarrow> query_scheduler \<Rightarrow> query_scheduler" where
  "record_command c s =
     s\<lparr>qsc_command_counts :=
         dict_set (command_type c) (dict_get_default (qsc_command_counts s) (command_type c) 0 + 1) (qsc_command_counts s)\<rparr>"

text \<open>A method call on a worker handle that has the method.\<close>

definition lane_call :: "scheduler_env \<Rightarrow> control_lane_call \<Rightarrow> (query_scheduler, pyval) op" where
  "lane_call E c s = (sev_lane_call E (qsc_lane s) c, s\<lparr>qsc_lane := qsc_lane s @ [c]\<rparr>)"

definition create_task :: "scheduler_env \<Rightarrow> worker_command \<Rightarrow> (query_scheduler, pyval) op" where
  "create_task E c =
     bindS (modS (record_command c)) (\<lambda>_.
     case cmd_worker c of
       None \<Rightarrow> raiseS (AttributeError ''fte_create_task'')
     | Some w \<Rightarrow> if sev_has_method E w ''fte_create_task'' then lane_call E (CreateTaskCall w (cmd_request c))
                 else raiseS (AttributeError ''fte_create_task''))"

definition required_worker_method :: "scheduler_env \<Rightarrow> worker option \<Rightarrow> string \<Rightarrow> worker res" where
  "required_worker_method E worker name =
     (case worker of
        None \<Rightarrow> Inl (RuntimeError ''FTE worker handle must provide '')
      | Some w \<Rightarrow> if sev_has_method E w name then Inr w else Inl (RuntimeError ''FTE worker handle must provide ''))"

definition wait_split_queue_has_space :: "scheduler_env \<Rightarrow> worker_command \<Rightarrow> (query_scheduler, unit) op" where
  "wait_split_queue_has_space E c =
     bindS (liftS (\<lambda>_. required_worker_method E (cmd_worker c) ''fte_wait_split_queue_has_space'')) (\<lambda>w.
     bindS (lane_call E (WaitSplitQueueCall w (attempt_id_to_dict (cmd_attempt_id c)) (cmd_source_node_id c))) (\<lambda>space.
     case space of
       PDict d \<Rightarrow> if py_truthy (dict_get_default d ''has_space'' (PBool True)) then retS ()
                  else raiseS (RuntimeError ''split queue stayed full'')
     | _ \<Rightarrow> raiseS (AttributeError ''get'')))"

definition add_splits :: "scheduler_env \<Rightarrow> worker_command \<Rightarrow> (query_scheduler, pyval) op" where
  "add_splits E c =
     bindS (modS (record_command c)) (\<lambda>_.
     bindS (liftS (\<lambda>_. required_worker_method E (cmd_worker c) ''enqueue_fte_add_splits'')) (\<lambda>w.
     lane_call E (AddSplitsCall w (attempt_id_to_dict (cmd_attempt_id c)) (cmd_source_node_id c) (cmd_splits c))))"

definition no_more_splits :: "scheduler_env \<Rightarrow> worker_command \<Rightarrow> (query_scheduler, pyval) op" where
  "no_more_splits E c =
     bindS (modS (record_command c)) (\<lambda>_.
     bindS (liftS (\<lambda>_. required_worker_method E (cmd_worker c) ''enqueue_fte_no_more_splits'')) (\<lambda>w.
     lane_call E (NoMoreSplitsCall w (attempt_id_to_dict (cmd_attempt_id c)) (cmd_source_node_id c))))"

definition update_task :: "scheduler_env \<Rightarrow> worker_command \<Rightarrow> (query_scheduler, pyval) op" where
  "update_task E c =
     bindS (modS (record_command c)) (\<lambda>_.
     bindS (liftS (\<lambda>_. required_worker_method E (cmd_worker c) ''enqueue_fte_update_task'')) (\<lambda>w.
     lane_call E (UpdateTaskCall w (attempt_id_to_dict (cmd_attempt_id c)) (cmd_update c))))"

definition execute_command :: "scheduler_env \<Rightarrow> worker_command \<Rightarrow> (query_scheduler, pyval) op" where
  "execute_command E c =
     (case c of
        FteCreateTaskCommand _ _ _ _ _ _ _ \<Rightarrow> create_task E c
      | FteAddSplitsCommand _ _ _ _ _ _ _ \<Rightarrow> bindS (wait_split_queue_has_space E c) (\<lambda>_. add_splits E c)
      | FteNoMoreSplitsCommand _ _ _ _ _ _ \<Rightarrow> no_more_splits E c
      | FteTaskUpdateCommand _ _ _ _ _ _ \<Rightarrow> update_task E c)"

section \<open>Callbacks of task sources\<close>

definition on_source :: "nat \<Rightarrow> (task_source \<Rightarrow> task_source) \<Rightarrow> query_scheduler \<Rightarrow> query_scheduler" where
  "on_source n f s =
     (case dict_get (qsc_source_objects s) n of
        None \<Rightarrow> s
      | Some t \<Rightarrow> s\<lparr>qsc_source_objects := dict_set n (f t) (qsc_source_objects s)\<rparr>)"

definition source_pause :: "task_source \<Rightarrow> task_source" where
  "source_pause t =
     (if tsk_closed t \<or> tsk_paused t then t
      else t\<lparr>tsk_paused := True, tsk_pause_count := tsk_pause_count t + 1\<rparr>)"

definition source_resume :: "task_source \<Rightarrow> task_source" where
  "source_resume t =
     (if tsk_closed t \<or> \<not> tsk_paused t then t
      else t\<lparr>tsk_paused := False, tsk_resume_count := tsk_resume_count t + 1\<rparr>)"

definition run_callback :: "scheduler_env \<Rightarrow> callback \<Rightarrow> (query_scheduler, unit) op" where
  "run_callback E c =
     (case c of
        PauseOf n \<Rightarrow> modS (on_source n source_pause)
      | ResumeOf n \<Rightarrow> modS (on_source n source_resume)
      | Callback n \<Rightarrow> sev_callback E n)"

definition run_task_source_callbacks :: "scheduler_env \<Rightarrow> callback list \<Rightarrow> (query_scheduler, unit) op" where
  "run_task_source_callbacks E cbs = foldS (run_callback E) cbs"

text \<open>The sources that a full queue pauses and that a drained queue resumes, with the callbacks to run.\<close>

definition pause_due :: "nat \<Rightarrow> source_registration \<Rightarrow> bool" where
  "pause_due n r = (\<not> rgs_paused r \<and> rgs_high_watermark r \<le> int n)"

definition task_source_pause_callbacks_locked :: "query_scheduler \<Rightarrow> callback list \<times> query_scheduler" where
  "task_source_pause_callbacks_locked s =
     (let due = pause_due (length (qsc_events s)) in
      (List.map_filter rgs_pause (filter due (dict_values (qsc_task_sources s))),
       s\<lparr>qsc_task_sources := map (\<lambda>(k, r). (k, if due r then r\<lparr>rgs_paused := True\<rparr> else r)) (qsc_task_sources s)\<rparr>))"

definition resume_due :: "nat \<Rightarrow> source_registration \<Rightarrow> bool" where
  "resume_due n r = (rgs_paused r \<and> int n \<le> rgs_low_watermark r)"

definition task_source_resume_callbacks_locked :: "query_scheduler \<Rightarrow> callback list \<times> query_scheduler" where
  "task_source_resume_callbacks_locked s =
     (let due = resume_due (length (qsc_events s)) in
      (List.map_filter rgs_resume (filter due (dict_values (qsc_task_sources s))),
       s\<lparr>qsc_task_sources := map (\<lambda>(k, r). (k, if due r then r\<lparr>rgs_paused := False\<rparr> else r)) (qsc_task_sources s)\<rparr>))"

text \<open>A section under the lock that returns callbacks, which then run outside it.\<close>

definition with_callbacks :: "scheduler_env \<Rightarrow> (query_scheduler \<Rightarrow> callback list \<times> query_scheduler) \<Rightarrow> (query_scheduler, unit) op" where
  "with_callbacks E f s = (let (cbs, s') = f s in run_task_source_callbacks E cbs s')"

definition paused_resume :: "source_registration option \<Rightarrow> callback list" where
  "paused_resume r =
     (case r of None \<Rightarrow> [] | Some r \<Rightarrow> if rgs_paused r then (case rgs_resume r of None \<Rightarrow> [] | Some c \<Rightarrow> [c]) else [])"

definition mk_registration :: "string \<Rightarrow> callback option \<Rightarrow> callback option \<Rightarrow> int \<Rightarrow> int option \<Rightarrow> source_registration" where
  "mk_registration source_id pause resume high low =
     (let h = max 1 high; l = (case low of None \<Rightarrow> max 0 (h div 2) | Some l \<Rightarrow> l) in
      \<lparr>rgs_source_id = source_id, rgs_pause = pause, rgs_resume = resume, rgs_high_watermark = h,
       rgs_low_watermark = max 0 (min l (h - 1)), rgs_paused = False\<rparr>)"

definition register_locked :: "string \<Rightarrow> source_registration \<Rightarrow> query_scheduler \<Rightarrow> callback list \<times> query_scheduler" where
  "register_locked sid r s =
     (let (cbs, s') = task_source_pause_callbacks_locked (s\<lparr>qsc_task_sources := dict_set sid r (qsc_task_sources s)\<rparr>) in
      (paused_resume (dict_get (qsc_task_sources s) sid) @ cbs, s'))"

definition register_task_source ::
  "scheduler_env \<Rightarrow> string \<Rightarrow> callback option \<Rightarrow> callback option \<Rightarrow> int \<Rightarrow> int option \<Rightarrow> (query_scheduler, unit) op" where
  "register_task_source E source_id pause resume high low s =
     (let sid = strip source_id in
      if sid = [] then (Inl (ValueError ''source_id must be non-empty''), s)
      else with_callbacks E (register_locked sid (mk_registration sid pause resume high low)) s)"

definition unregister_task_source :: "scheduler_env \<Rightarrow> string \<Rightarrow> bool \<Rightarrow> (query_scheduler, unit) op" where
  "unregister_task_source E source_id resume =
     with_callbacks E (\<lambda>s.
       ((if resume then paused_resume (dict_get (qsc_task_sources s) source_id) else []),
        s\<lparr>qsc_task_sources := dict_pop source_id (qsc_task_sources s)\<rparr>))"

section \<open>The queue\<close>

fun internal_class :: "fte_event \<Rightarrow> string option option" where
  "internal_class (ResourceAdmissionChanged _ cls True) = Some cls"
| "internal_class _ = None"

fun is_abort :: "fte_event \<Rightarrow> bool" where
  "is_abort (QueryAbort _ _) = True"
| "is_abort _ = False"

text \<open>The section of \<open>enqueue\<close> under the lock.\<close>

definition enqueue_locked :: "fte_event \<Rightarrow> bool \<Rightarrow> query_scheduler \<Rightarrow> callback list \<times> query_scheduler" where
  "enqueue_locked event priority s =
     (if qsc_state s \<noteq> RUNNING \<and> \<not> is_abort event then ([], s)
      else
        let queued = qsc_queued_internal_admission_classes s; cls = internal_class event in
        if (case cls of None \<Rightarrow> False | Some c \<Rightarrow> c \<in> set queued) then ([], s)
        else task_source_pause_callbacks_locked
               (s\<lparr>qsc_queued_internal_admission_classes := (case cls of None \<Rightarrow> queued | Some c \<Rightarrow> set_add c queued),
                  qsc_events := (if priority then event # qsc_events s else qsc_events s @ [event])\<rparr>))"

definition enqueue :: "scheduler_env \<Rightarrow> fte_event \<Rightarrow> bool \<Rightarrow> (query_scheduler, unit) op" where
  "enqueue E event priority s =
     (if event_query_id event \<noteq> qsc_query_id s then (Inl (ValueError ''event query_id does not match scheduler''), s)
      else with_callbacks E (enqueue_locked event priority) s)"

definition set_handlers :: "nat \<Rightarrow> query_scheduler \<Rightarrow> query_scheduler" where
  "set_handlers h s = s\<lparr>qsc_handlers := h\<rparr>"

section \<open>Handling an event\<close>

definition call_handler :: "'a handler \<Rightarrow> 'a \<Rightarrow> (query_scheduler, pyval list) op" where
  "call_handler f x =
     (case f of
        None \<Rightarrow> retS []
      | Some g \<Rightarrow> bindS (g x) (\<lambda>r. retS (case r of None \<Rightarrow> [] | Some outs \<Rightarrow> outs)))"

definition note_progress :: "scheduler_env \<Rightarrow> fte_event \<Rightarrow> query_scheduler \<Rightarrow> query_scheduler" where
  "note_progress E event s =
     (let ty = event_type event in
      s\<lparr>qsc_processed_events := qsc_processed_events s + 1, qsc_last_event_type := Some ty,
        qsc_last_progress_at := Some (sev_time E (qsc_ticks s)), qsc_ticks := qsc_ticks s + 1,
        qsc_event_counts := dict_set ty (dict_get_default (qsc_event_counts s) ty 0 + 1) (qsc_event_counts s)\<rparr>)"

definition abort_query :: "query_scheduler \<Rightarrow> query_scheduler" where
  "abort_query s = s\<lparr>qsc_state := ABORTED, qsc_events := [], qsc_queued_internal_admission_classes := []\<rparr>"

definition dispatch_event :: "event_handlers \<Rightarrow> fte_event \<Rightarrow> (query_scheduler, pyval list) op" where
  "dispatch_event h event =
     (case event of
        SplitEventsSubmitted _ evs \<Rightarrow> call_handler (on_split_events h) evs
      | SourceInputExhausted _ sources \<Rightarrow> call_handler (on_source_input_exhausted h) sources
      | TaskStatusChanged _ _ _ \<Rightarrow> call_handler (on_task_status_changed h) event
      | WorkerFailed _ _ _ _ \<Rightarrow> call_handler (on_worker_failed h) event
      | MemoryPressureDetected _ _ \<Rightarrow> call_handler (on_memory_pressure_detected h) event
      | ResourceAdmissionChanged _ _ _ \<Rightarrow> call_handler (on_resource_admission_changed h) event
      | WorkerReservationCompleted _ _ _ _ _ _ _ \<Rightarrow> call_handler (on_worker_reservation_completed h) event
      | RetryDelayExpired _ generation \<Rightarrow>
          bindS (liftS (\<lambda>s. Inr (qsc_retry_delay_generation s))) (\<lambda>current.
          if generation \<noteq> current then retS []
          else bindS (modS (\<lambda>s. s\<lparr>qsc_retry_delay_timer := None\<rparr>)) (\<lambda>_. call_handler (on_retry_delay_expired h) event))
      | ExchangeSelectorUpdated _ _ _ _ \<Rightarrow> call_handler (on_exchange_selector_updated h) event
      | QueryAbort _ _ \<Rightarrow> bindS (modS abort_query) (\<lambda>_. call_handler (on_query_abort h) event))"

definition handle_event :: "scheduler_env \<Rightarrow> fte_event \<Rightarrow> nat \<Rightarrow> (query_scheduler, pyval list) op" where
  "handle_event E event h =
     bindS (modS (\<lambda>s. s\<lparr>qsc_handled := qsc_handled s @ [event]\<rparr>)) (\<lambda>_.
     bindS (modS (\<lambda>s. if internal_class event = None then note_progress E event s else s)) (\<lambda>_.
     dispatch_event (handlers_of E h) event))"

section \<open>Draining\<close>

definition drain_enter :: "query_scheduler \<Rightarrow> bool \<times> query_scheduler" where
  "drain_enter s = (if qsc_draining s then (False, s) else (True, s\<lparr>qsc_draining := True\<rparr>))"

text \<open>
  The section of the loop that takes the next event, with the handlers it is to have, or finds the queue
  empty and gives up the writer slot in the same section.
\<close>

definition drain_take ::
  "nat option \<Rightarrow> query_scheduler \<Rightarrow> ((fte_event \<times> nat) option \<times> callback list) \<times> query_scheduler" where
  "drain_take handlers s =
     (case qsc_events s of
        [] \<Rightarrow> let (cbs, s') = task_source_resume_callbacks_locked (s\<lparr>qsc_draining := False\<rparr>) in ((None, cbs), s')
      | event # rest \<Rightarrow>
          ((Some (event, case handlers of None \<Rightarrow> qsc_handlers s | Some h \<Rightarrow> h), []),
           s\<lparr>qsc_events := rest,
             qsc_queued_internal_admission_classes :=
               (case internal_class event of
                  None \<Rightarrow> qsc_queued_internal_admission_classes s
                | Some c \<Rightarrow> removeAll c (qsc_queued_internal_admission_classes s))\<rparr>))"

text \<open>The section of the \<open>except\<close> clause; an exception of a callback replaces the one in flight.\<close>

definition drain_release :: "query_scheduler \<Rightarrow> callback list \<times> query_scheduler" where
  "drain_release s = task_source_resume_callbacks_locked (s\<lparr>qsc_draining := False\<rparr>)"

definition drain_abandon :: "scheduler_env \<Rightarrow> py_error \<Rightarrow> (query_scheduler, 'a) op" where
  "drain_abandon E e = bindS (with_callbacks E drain_release) (\<lambda>_. raiseS e)"

text \<open>One turn of the loop: \<open>None\<close> when the queue was empty, otherwise the outputs of the event it handled.\<close>

definition drain_turn :: "scheduler_env \<Rightarrow> nat option \<Rightarrow> (query_scheduler, pyval list option) op" where
  "drain_turn E handlers s =
     (let ((next, cbs), s1) = drain_take handlers s in
      bindS (run_task_source_callbacks E cbs) (\<lambda>_.
      case next of
        None \<Rightarrow> retS None
      | Some (event, h) \<Rightarrow>
          bindS (handle_event E event h) (\<lambda>outs.
          bindS (with_callbacks E task_source_resume_callbacks_locked) (\<lambda>_. retS (Some outs)))) s1)"

partial_function (option) drain_loop ::
  "scheduler_env \<Rightarrow> nat option \<Rightarrow> pyval list \<Rightarrow> query_scheduler \<Rightarrow> (pyval list res \<times> query_scheduler) option" where
  "drain_loop E handlers outputs s =
     (case drain_turn E handlers s of
        (Inl e, s') \<Rightarrow> Some (drain_abandon E e s')
      | (Inr None, s') \<Rightarrow> Some (Inr outputs, s')
      | (Inr (Some outs), s') \<Rightarrow> drain_loop E handlers (outputs @ outs) s')"

definition drain :: "scheduler_env \<Rightarrow> nat option \<Rightarrow> query_scheduler \<Rightarrow> (pyval list res \<times> query_scheduler) option" where
  "drain E handlers s =
     (let (entered, s') = drain_enter s in
      if entered then drain_loop E handlers [] s' else Some (Inr [], s))"

section \<open>Failing and closing\<close>

definition fail_locked :: "string option \<Rightarrow> query_scheduler \<Rightarrow> callback list \<times> query_scheduler" where
  "fail_locked reason s =
     (if qsc_state s \<in> {CLOSED, FAILED} then ([], s)
      else task_source_resume_callbacks_locked
        (s\<lparr>qsc_state := FAILED, qsc_failure_reason := Some (case reason of None \<Rightarrow> '''' | Some r \<Rightarrow> r), qsc_events := [],
           qsc_queued_internal_admission_classes := [], qsc_retry_delay_timer := None\<rparr>))"

definition scheduler_fail :: "scheduler_env \<Rightarrow> string option \<Rightarrow> (query_scheduler, unit) op" where
  "scheduler_fail E reason = with_callbacks E (fail_locked reason)"

definition close_locked :: "query_scheduler \<Rightarrow> callback list \<times> query_scheduler" where
  "close_locked s =
     (concat (map (\<lambda>r. paused_resume (Some r)) (dict_values (qsc_task_sources s))),
      s\<lparr>qsc_state := CLOSED, qsc_failure_reason := None, qsc_events := [], qsc_queued_internal_admission_classes := [],
        qsc_fragment_states := [], qsc_failed_worker_ids := [], qsc_task_sources := [], qsc_retry_delay_timer := None\<rparr>)"

definition scheduler_close :: "scheduler_env \<Rightarrow> (query_scheduler, unit) op" where
  "scheduler_close E = with_callbacks E close_locked"

section \<open>Fragment states, failed workers and the retry timer\<close>

definition fragment_state :: "string \<Rightarrow> query_scheduler \<Rightarrow> nat option" where
  "fragment_state fragment_id s = dict_get (qsc_fragment_states s) fragment_id"

definition put_fragment_state :: "string \<Rightarrow> nat \<Rightarrow> query_scheduler \<Rightarrow> nat \<times> query_scheduler" where
  "put_fragment_state fragment_id state s =
     (state, s\<lparr>qsc_fragment_states := dict_set fragment_id state (qsc_fragment_states s)\<rparr>)"

definition fragment_state_count :: "query_scheduler \<Rightarrow> int" where
  "fragment_state_count s = int (length (qsc_fragment_states s))"

definition record_worker_failure :: "string list \<Rightarrow> query_scheduler \<Rightarrow> string list \<times> query_scheduler" where
  "record_worker_failure worker_ids s =
     (let normalized = remdups (filter (\<lambda>w. w \<noteq> []) worker_ids) in
      if normalized = [] then ([], s)
      else
        let new = filter (\<lambda>w. w \<notin> set (qsc_failed_worker_ids s)) normalized in
        (new, s\<lparr>qsc_failed_worker_ids := fold set_add new (qsc_failed_worker_ids s)\<rparr>))"

definition arm_retry_delay :: "rat \<Rightarrow> query_scheduler \<Rightarrow> int \<times> query_scheduler" where
  "arm_retry_delay delay s =
     (let d = max 0 delay; g = qsc_retry_delay_generation s + 1 in
      (g, s\<lparr>qsc_retry_delay_generation := g,
            qsc_retry_delay_timer := (if d \<le> 0 \<or> qsc_state s \<noteq> RUNNING then None else Some (g, d))\<rparr>))"

definition error_text :: "py_error \<Rightarrow> string" where
  "error_text e =
     (case e of
        ValueError m \<Rightarrow> m | RuntimeError m \<Rightarrow> m | KeyError m \<Rightarrow> m | TypeError m \<Rightarrow> m | IndexError m \<Rightarrow> m
      | AttributeError m \<Rightarrow> m | OSError m \<Rightarrow> m | WorkerControlFailure _ _ m _ \<Rightarrow> m
      | WorkerReservationUnavailable m \<Rightarrow> m)"

text \<open>\<open>enqueue\<close> and \<open>drain\<close>, with the failure of the scheduler when one of them raises.\<close>

definition enqueue_and_drain ::
  "scheduler_env \<Rightarrow> (py_error \<Rightarrow> string) \<Rightarrow> fte_event \<Rightarrow> query_scheduler \<Rightarrow> (bool res \<times> query_scheduler) option" where
  "enqueue_and_drain E reason event s =
     (let failed = (\<lambda>e s. bindS (scheduler_fail E (Some (reason e))) (\<lambda>_. retS False) s) in
      case enqueue E event False s of
        (Inl e, s1) \<Rightarrow> Some (failed e s1)
      | (Inr _, s1) \<Rightarrow>
          (case drain E None s1 of
             None \<Rightarrow> None
           | Some (Inl e, s2) \<Rightarrow> Some (failed e s2)
           | Some (Inr _, s2) \<Rightarrow> Some (Inr True, s2)))"

definition fire_retry_delay :: "scheduler_env \<Rightarrow> int \<Rightarrow> query_scheduler \<Rightarrow> (bool res \<times> query_scheduler) option" where
  "fire_retry_delay E generation s =
     enqueue_and_drain E (\<lambda>e. ''FTE retry delay handler failed: '' @ error_text e) (RetryDelayExpired (qsc_query_id s) generation) s"

section \<open>Statistics\<close>

record scheduler_stats =
  sst_query_id :: string
  sst_state :: string
  sst_queued_events :: int
  sst_processed_events :: int
  sst_last_event_type :: "string option"
  sst_last_progress_ms :: "int option"
  sst_failure_reason :: "string option"
  sst_fragment_state_count :: int
  sst_failed_worker_count :: int
  sst_command_counts :: "(string, int) dict"
  sst_event_counts :: "(string, int) dict"
  sst_registered_task_source_count :: int
  sst_paused_task_source_count :: int

definition scheduler_stats_of :: "scheduler_env \<Rightarrow> query_scheduler \<Rightarrow> scheduler_stats \<times> query_scheduler" where
  "scheduler_stats_of E s =
     (let (ms, s') = (case qsc_last_progress_at s of
                        None \<Rightarrow> (None, s)
                      | Some t \<Rightarrow> (Some (py_trunc (fl (fl (sev_time E (qsc_ticks s) - t) * 1000))), s\<lparr>qsc_ticks := qsc_ticks s + 1\<rparr>)) in
      (\<lparr>sst_query_id = qsc_query_id s, sst_state = scheduler_state_value (qsc_state s),
        sst_queued_events = int (length (qsc_events s)), sst_processed_events = qsc_processed_events s,
        sst_last_event_type = qsc_last_event_type s, sst_last_progress_ms = ms, sst_failure_reason = qsc_failure_reason s,
        sst_fragment_state_count = fragment_state_count s, sst_failed_worker_count = int (length (qsc_failed_worker_ids s)),
        sst_command_counts = qsc_command_counts s, sst_event_counts = qsc_event_counts s,
        sst_registered_task_source_count = int (length (qsc_task_sources s)),
        sst_paused_task_source_count = int (length (filter rgs_paused (dict_values (qsc_task_sources s))))\<rparr>, s'))"

definition opt_val :: "('a \<Rightarrow> pyval) \<Rightarrow> 'a option \<Rightarrow> pyval" where
  "opt_val f x = (case x of None \<Rightarrow> PNone | Some v \<Rightarrow> f v)"

definition stats_to_dict :: "scheduler_stats \<Rightarrow> (string, pyval) dict" where
  "stats_to_dict t =
     [(''query_id'', PStr (sst_query_id t)), (''state'', PStr (sst_state t)), (''queued_events'', PInt (sst_queued_events t)),
      (''processed_events'', PInt (sst_processed_events t)), (''last_event_type'', opt_val PStr (sst_last_event_type t)),
      (''last_progress_ms'', opt_val PInt (sst_last_progress_ms t)), (''failure_reason'', opt_val PStr (sst_failure_reason t)),
      (''fragment_state_count'', PInt (sst_fragment_state_count t)), (''failed_worker_count'', PInt (sst_failed_worker_count t)),
      (''command_counts'', PDict (map (\<lambda>(k, n). (k, PInt n)) (sst_command_counts t))),
      (''event_counts'', PDict (map (\<lambda>(k, n). (k, PInt n)) (sst_event_counts t))),
      (''registered_task_source_count'', PInt (sst_registered_task_source_count t)),
      (''paused_task_source_count'', PInt (sst_paused_task_source_count t))]"

section \<open>Event-driven task sources\<close>

text \<open>The constructor, which registers the new object \<open>n\<close> with the scheduler.\<close>

definition mk_task_source ::
  "scheduler_env \<Rightarrow> nat \<Rightarrow> string \<Rightarrow> int \<Rightarrow> int option \<Rightarrow> (query_scheduler, unit) op" where
  "mk_task_source E n source_id high low s =
     (let sid = strip source_id in
      if sid = [] then (Inl (ValueError ''source_id must be non-empty''), s)
      else register_task_source E sid (Some (PauseOf n)) (Some (ResumeOf n)) high low
        (s\<lparr>qsc_source_objects :=
             dict_set n \<lparr>tsk_source_id = sid, tsk_pause_count = 0, tsk_resume_count = 0, tsk_paused = False, tsk_closed = False\<rparr>
               (qsc_source_objects s)\<rparr>))"

definition source_is_paused :: "nat \<Rightarrow> query_scheduler \<Rightarrow> bool" where
  "source_is_paused n s = (case dict_get (qsc_source_objects s) n of None \<Rightarrow> False | Some t \<Rightarrow> tsk_paused t)"

definition source_close_locked :: "task_source \<Rightarrow> task_source" where
  "source_close_locked t =
     (if tsk_paused t then t\<lparr>tsk_paused := False, tsk_resume_count := tsk_resume_count t + 1, tsk_closed := True\<rparr>
      else t\<lparr>tsk_closed := True\<rparr>)"

definition source_close :: "scheduler_env \<Rightarrow> nat \<Rightarrow> (query_scheduler, unit) op" where
  "source_close E n s =
     (case dict_get (qsc_source_objects s) n of
        None \<Rightarrow> (Inl (AttributeError ''source''), s)
      | Some t \<Rightarrow>
          if tsk_closed t then (Inr (), s)
          else unregister_task_source E (tsk_source_id t) False (on_source n source_close_locked s))"

text \<open>
  A drain that may not return, as an operation on what \<open>submit\<close> has so far: \<open>None\<close> if it does not.
\<close>

type_synonym drainer = "query_scheduler \<Rightarrow> (pyval list res \<times> query_scheduler) option"

definition drain_if_paused :: "drainer \<Rightarrow> nat \<Rightarrow> drainer" where
  "drain_if_paused d n s = (if source_is_paused n s then d s else Some (Inr [], s))"

fun submit_events :: "scheduler_env \<Rightarrow> drainer \<Rightarrow> nat \<Rightarrow> fte_event list \<Rightarrow> pyval list \<Rightarrow> drainer" where
  "submit_events E d n [] outputs s =
     (case d s of
        None \<Rightarrow> None
      | Some (Inl e, s1) \<Rightarrow> Some (Inl e, s1)
      | Some (Inr outs, s1) \<Rightarrow> Some (Inr (outputs @ outs), s1))"
| "submit_events E d n (event # events) outputs s =
     (case drain_if_paused d n s of
        None \<Rightarrow> None
      | Some (Inl e, s1) \<Rightarrow> Some (Inl e, s1)
      | Some (Inr before, s1) \<Rightarrow>
          (case enqueue E event False s1 of
             (Inl e, s2) \<Rightarrow> Some (Inl e, s2)
           | (Inr _, s2) \<Rightarrow>
               (case drain_if_paused d n s2 of
                  None \<Rightarrow> None
                | Some (Inl e, s3) \<Rightarrow> Some (Inl e, s3)
                | Some (Inr after, s3) \<Rightarrow> submit_events E d n events (outputs @ before @ after) s3)))"

definition submit :: "scheduler_env \<Rightarrow> drainer option \<Rightarrow> nat \<Rightarrow> fte_event list \<Rightarrow> drainer" where
  "submit E d n events s =
     (case submit_events E (case d of None \<Rightarrow> drain E None | Some d \<Rightarrow> d) n events [] s of
        None \<Rightarrow> None
      | Some (res, s1) \<Rightarrow> Some (bindS (source_close E n) (\<lambda>_. liftS (\<lambda>_. res)) s1))"

section \<open>The registry of schedulers\<close>

record scheduler_registry =
  sre_schedulers :: "(string, query_scheduler) dict"
  sre_pending_drain_cursor_query_id :: "string option"
  sre_pending_drain_running :: bool
  sre_pending_drain_dirty :: bool

definition mk_registry :: scheduler_registry where
  "mk_registry =
     \<lparr>sre_schedulers = [], sre_pending_drain_cursor_query_id = None, sre_pending_drain_running = False,
      sre_pending_drain_dirty = False\<rparr>"

definition get_or_create :: "string \<Rightarrow> (scheduler_registry, query_scheduler) op" where
  "get_or_create query_id r =
     (let q = strip query_id in
      if q = [] then (Inl (ValueError ''query_id must be non-empty''), r)
      else case dict_get (sre_schedulers r) q of
        Some s \<Rightarrow> (Inr s, r)
      | None \<Rightarrow>
          (case mk_scheduler q of
             Inl e \<Rightarrow> (Inl e, r)
           | Inr s \<Rightarrow> (Inr s, r\<lparr>sre_schedulers := dict_set q s (sre_schedulers r)\<rparr>)))"

definition registry_get :: "string \<Rightarrow> scheduler_registry \<Rightarrow> query_scheduler option" where
  "registry_get query_id r = dict_get (sre_schedulers r) query_id"

definition registry_query_ids :: "scheduler_registry \<Rightarrow> string list" where
  "registry_query_ids r = sort (dict_keys (sre_schedulers r))"

text \<open>The removed scheduler is closed outside the registry; it is returned as it is then.\<close>

definition drop_query :: "scheduler_env \<Rightarrow> string \<Rightarrow> scheduler_registry \<Rightarrow> (unit res \<times> query_scheduler) option \<times> scheduler_registry" where
  "drop_query E query_id r =
     (map_option (scheduler_close E) (dict_get (sre_schedulers r) query_id),
      r\<lparr>sre_schedulers := dict_pop query_id (sre_schedulers r),
        sre_pending_drain_cursor_query_id :=
          (if sre_pending_drain_cursor_query_id r = Some query_id then None else sre_pending_drain_cursor_query_id r)\<rparr>)"

text \<open>The schedulers are closed one after the other; an exception ends the loop.\<close>

fun close_all :: "scheduler_env \<Rightarrow> query_scheduler list \<Rightarrow> unit res \<times> query_scheduler list" where
  "close_all E [] = (Inr (), [])"
| "close_all E (s # ss) =
     (case scheduler_close E s of
        (Inl e, s') \<Rightarrow> (Inl e, s' # ss)
      | (Inr _, s') \<Rightarrow> let (res, ss') = close_all E ss in (res, s' # ss'))"

definition registry_clear :: "scheduler_env \<Rightarrow> scheduler_registry \<Rightarrow> (unit res \<times> query_scheduler list) \<times> scheduler_registry" where
  "registry_clear E r =
     (close_all E (dict_values (sre_schedulers r)),
      r\<lparr>sre_schedulers := [], sre_pending_drain_cursor_query_id := None, sre_pending_drain_dirty := False\<rparr>)"

definition record_pending_drain_progress :: "string \<Rightarrow> scheduler_registry \<Rightarrow> scheduler_registry" where
  "record_pending_drain_progress query_id r =
     (let q = strip query_id in if q = [] then r else r\<lparr>sre_pending_drain_cursor_query_id := Some q\<rparr>)"

fun index_of :: "'a \<Rightarrow> 'a list \<Rightarrow> nat" where
  "index_of x [] = 0"
| "index_of x (y # ys) = (if x = y then 0 else Suc (index_of x ys))"

definition ordered_pending_drain_query_ids :: "string list \<Rightarrow> scheduler_registry \<Rightarrow> string list" where
  "ordered_pending_drain_query_ids query_ids r =
     (let ordered = sort (remdups (filter (\<lambda>q. q \<noteq> []) query_ids)) in
      if ordered = [] then []
      else case sre_pending_drain_cursor_query_id r of
        None \<Rightarrow> ordered
      | Some cursor \<Rightarrow>
          if cursor \<notin> set ordered then ordered
          else let start = (index_of cursor ordered + 1) mod length ordered in drop start ordered @ take start ordered)"

text \<open>
  The pump: a call while another one runs only marks it dirty; the one that runs repeats rounds until
  nothing is dirty. \<open>round\<close> is the argument of the call, one quantum for every query.
\<close>

definition pump_enter :: "scheduler_registry \<Rightarrow> bool \<times> scheduler_registry" where
  "pump_enter r =
     (let r1 = r\<lparr>sre_pending_drain_dirty := True\<rparr> in
      if sre_pending_drain_running r then (False, r1) else (True, r1\<lparr>sre_pending_drain_running := True\<rparr>))"

definition pump_take :: "scheduler_registry \<Rightarrow> string list option \<times> scheduler_registry" where
  "pump_take r =
     (if \<not> sre_pending_drain_dirty r then (None, r\<lparr>sre_pending_drain_running := False\<rparr>)
      else (Some (ordered_pending_drain_query_ids (dict_keys (sre_schedulers r)) r), r\<lparr>sre_pending_drain_dirty := False\<rparr>))"

partial_function (option) pump_loop ::
  "(string list \<Rightarrow> (scheduler_registry, pyval list) op) \<Rightarrow> pyval list \<Rightarrow> scheduler_registry \<Rightarrow>
   (pyval list res \<times> scheduler_registry) option" where
  "pump_loop drain_round outputs r =
     (case pump_take r of
        (None, r1) \<Rightarrow> Some (Inr outputs, r1)
      | (Some ids, r1) \<Rightarrow>
          (case drain_round ids r1 of
             (Inl e, r2) \<Rightarrow> Some (Inl e, r2\<lparr>sre_pending_drain_running := False\<rparr>)
           | (Inr outs, r2) \<Rightarrow> pump_loop drain_round (outputs @ outs) r2))"

definition run_pending_drain ::
  "(string list \<Rightarrow> (scheduler_registry, pyval list) op) \<Rightarrow> scheduler_registry \<Rightarrow> (pyval list res \<times> scheduler_registry) option" where
  "run_pending_drain drain_round r =
     (let (entered, r1) = pump_enter r in if entered then pump_loop drain_round [] r1 else Some (Inr [], r1))"

definition registry_stats :: "scheduler_env \<Rightarrow> scheduler_registry \<Rightarrow> (string, (string, pyval) dict) dict" where
  "registry_stats E r =
     fold (\<lambda>s. dict_set (qsc_query_id s) (stats_to_dict (fst (scheduler_stats_of E s)))) (dict_values (sre_schedulers r)) []"

end
