(* ===== verification/Scheduler_Run.thy ===== *)
theory Scheduler_Run
  imports Fte_Scheduler Transition
begin

text \<open>
  What the query scheduler of \<open>src/duckdb/runners/fte/fte_scheduler.py\<close> guarantees: the invariant of its
  queue, counters, task sources and timer, kept by every method and by the handlers it calls, and what
  draining does.
\<close>

section \<open>The invariant\<close>

definition internal_classes :: "fte_event list \<Rightarrow> string option list" where
  "internal_classes es = List.map_filter internal_class es"

definition registration_ok :: "nat \<Rightarrow> source_registration \<Rightarrow> bool" where
  "registration_ok n r =
     (0 \<le> rgs_low_watermark r \<and> rgs_low_watermark r < rgs_high_watermark r \<and>
      (\<not> rgs_paused r \<longrightarrow> int n < rgs_high_watermark r))"

definition counted :: "fte_event list \<Rightarrow> fte_event list" where
  "counted es = filter (\<lambda>e. internal_class e = None) es"

definition queue_ok :: "query_scheduler \<Rightarrow> bool" where
  "queue_ok s =
     (distinct (internal_classes (qsc_events s)) \<and> distinct (qsc_queued_internal_admission_classes s) \<and>
      set (qsc_queued_internal_admission_classes s) = set (internal_classes (qsc_events s)) \<and>
      (qsc_state s \<noteq> RUNNING \<longrightarrow> list_all is_abort (qsc_events s)) \<and>
      list_all (\<lambda>e. event_query_id e = qsc_query_id s) (qsc_events s))"

definition sources_ok :: "query_scheduler \<Rightarrow> bool" where
  "sources_ok s =
     (wf_dict (qsc_task_sources s) \<and> list_all (registration_ok (length (qsc_events s))) (dict_values (qsc_task_sources s)))"

definition timer_ok :: "query_scheduler \<Rightarrow> bool" where
  "timer_ok s =
     (\<forall>g d. qsc_retry_delay_timer s = Some (g, d) \<longrightarrow> g = qsc_retry_delay_generation s \<and> 0 < d)"

definition counts_ok :: "query_scheduler \<Rightarrow> bool" where
  "counts_ok s =
     (qsc_processed_events s = int (length (counted (qsc_handled s))) \<and>
      (\<forall>ty. dict_get_default (qsc_event_counts s) ty 0 =
         int (length (filter (\<lambda>e. event_type e = ty) (counted (qsc_handled s))))))"

definition object_ok :: "task_source \<Rightarrow> bool" where
  "object_ok t = (0 \<le> tsk_resume_count t \<and> tsk_pause_count t = tsk_resume_count t + of_bool (tsk_paused t) \<and>
     (tsk_closed t \<longrightarrow> \<not> tsk_paused t))"

definition objects_ok :: "query_scheduler \<Rightarrow> bool" where
  "objects_ok s = (\<forall>n t. dict_get (qsc_source_objects s) n = Some t \<longrightarrow> object_ok t)"

definition sched_ok :: "query_scheduler \<Rightarrow> bool" where
  "sched_ok s = (queue_ok s \<and> sources_ok s \<and> timer_ok s \<and> counts_ok s \<and> objects_ok s)"

text \<open>What only the drainer changes, and what never goes back.\<close>

definition sched_grows :: "query_scheduler \<Rightarrow> query_scheduler \<Rightarrow> bool" where
  "sched_grows s t =
     (qsc_query_id t = qsc_query_id s \<and> qsc_retry_delay_generation s \<le> qsc_retry_delay_generation t \<and>
      (\<exists>more. qsc_handled t = qsc_handled s @ more) \<and> (qsc_state s \<noteq> RUNNING \<longrightarrow> qsc_state t \<noteq> RUNNING))"

lemma sched_grows_refl: "sched_grows s s"
  by (simp add: sched_grows_def)

lemma sched_grows_trans: "sched_grows s t \<Longrightarrow> sched_grows t u \<Longrightarrow> sched_grows s u"
  unfolding sched_grows_def by (elim conjE exE) simp

named_theorems sched_defs \<open>the parts of the scheduler invariant\<close>

declare queue_ok_def [sched_defs] sources_ok_def [sched_defs] timer_ok_def [sched_defs] counts_ok_def [sched_defs]
  sched_grows_def [sched_defs]

lemma mk_scheduler_ok: "mk_scheduler q = Inr s \<Longrightarrow> sched_ok s"
  by (auto simp: mk_scheduler_def sched_ok_def sched_defs objects_ok_def internal_classes_def counted_def
      dict_get_default_def map_filter_def wf_dict_def split: if_splits)

section \<open>Callbacks\<close>

text \<open>
  Callables that are not methods of task sources leave the scheduler alone.
\<close>

definition quiet :: "scheduler_env \<Rightarrow> bool" where
  "quiet E = (\<forall>n s. snd (sev_callback E n s) = s)"

definition only_objects :: "query_scheduler \<Rightarrow> query_scheduler \<Rightarrow> bool" where
  "only_objects s t =
     ((\<exists>objs. t = s\<lparr>qsc_source_objects := objs\<rparr>) \<and> (objects_ok s \<longrightarrow> objects_ok t))"

lemma only_objects_refl: "only_objects s s"
  by (auto simp: only_objects_def intro: exI [of _ "qsc_source_objects s"])

lemma only_objects_trans: "only_objects s t \<Longrightarrow> only_objects t u \<Longrightarrow> only_objects s u"
  by (auto simp: only_objects_def)

lemma only_objects_fields:
  assumes "only_objects s t"
  shows "qsc_query_id t = qsc_query_id s" "qsc_events t = qsc_events s" "qsc_state t = qsc_state s"
    "qsc_handled t = qsc_handled s" "qsc_draining t = qsc_draining s" "qsc_handlers t = qsc_handlers s"
    "qsc_retry_delay_generation t = qsc_retry_delay_generation s" "qsc_task_sources t = qsc_task_sources s"
  using assms by (auto simp: only_objects_def)

lemma only_objects_ok: "only_objects s t \<Longrightarrow> sched_ok s \<Longrightarrow> sched_ok t"
  by (auto simp: only_objects_def sched_ok_def sched_defs)

lemma on_source_only:
  assumes "\<And>t. object_ok t \<Longrightarrow> object_ok (f t)"
  shows "only_objects s (on_source n f s)"
  using assms by (auto simp: only_objects_def on_source_def objects_ok_def split: option.split intro: exI [of _ "qsc_source_objects s"])

lemma source_ops_ok:
  "object_ok t \<Longrightarrow> object_ok (source_pause t)" "object_ok t \<Longrightarrow> object_ok (source_resume t)"
  "object_ok t \<Longrightarrow> object_ok (source_close_locked t)"
  by (simp_all add: object_ok_def source_pause_def source_resume_def source_close_locked_def)

lemma run_callback_only: "quiet E \<Longrightarrow> only_objects s (snd (run_callback E c s))"
  by (cases c) (simp_all add: run_callback_def on_source_only source_ops_ok quiet_def only_objects_refl)

lemma run_callbacks_only:
  assumes "quiet E"
  shows "only_objects s (snd (run_task_source_callbacks E cbs s))"
  unfolding run_task_source_callbacks_def
proof (induction cbs arbitrary: s)
  case Nil
  then show ?case by (simp add: only_objects_refl)
next
  case (Cons c cbs)
  obtain r t where c: "run_callback E c s = (r, t)" by fastforce
  have "only_objects s t" using run_callback_only [OF assms, of s c] c by simp
  then show ?case using c Cons.IH [of t] only_objects_trans by (cases r) (auto simp: bindS_def)
qed

lemma with_callbacks_only: "quiet E \<Longrightarrow> only_objects (snd (f s)) (snd (with_callbacks E f s))"
  using run_callbacks_only by (cases "f s") (simp add: with_callbacks_def)

section \<open>Steps of the scheduler\<close>

lemma map_filter_Cons [simp]:
  "List.map_filter f (x # xs) = (case f x of None \<Rightarrow> List.map_filter f xs | Some y \<Rightarrow> y # List.map_filter f xs)"
  by (simp add: map_filter_def split: option.split)

lemma map_filter_append [simp]: "List.map_filter f (xs @ ys) = List.map_filter f xs @ List.map_filter f ys"
  by (simp add: map_filter_def)

lemma map_filter_Nil [simp]: "List.map_filter f [] = []"
  by (simp add: map_filter_def)

lemma wf_dict_map [simp]: "wf_dict (map (\<lambda>(k, r). (k, f r)) d) = wf_dict d"
  by (simp add: wf_dict_def case_prod_unfold comp_def)

lemma list_all_values_map [simp]:
  "list_all P (map (snd \<circ> (\<lambda>(k, r). (k, f r))) d) = list_all (\<lambda>r. P (f r)) (dict_values d)"
  by (induction d) auto

text \<open>The part of the invariant that does not speak of the task sources.\<close>

definition base_ok :: "query_scheduler \<Rightarrow> bool" where
  "base_ok s = (queue_ok s \<and> timer_ok s \<and> counts_ok s \<and> objects_ok s)"

lemma sched_ok_base: "sched_ok s \<longleftrightarrow> base_ok s \<and> sources_ok s"
  by (auto simp: sched_ok_def base_ok_def)

lemma base_ok_sources [simp]: "base_ok (s\<lparr>qsc_task_sources := x\<rparr>) = base_ok s"
  by (simp add: base_ok_def sched_defs objects_ok_def)

text \<open>
  Pausing re-establishes the bound on the queue, whatever its length; resuming keeps it.
\<close>

definition marks_ok :: "query_scheduler \<Rightarrow> bool" where
  "marks_ok s =
     (wf_dict (qsc_task_sources s) \<and>
      list_all (\<lambda>r. 0 \<le> rgs_low_watermark r \<and> rgs_low_watermark r < rgs_high_watermark r) (dict_values (qsc_task_sources s)))"

lemma marks_ok_sources: "sources_ok s \<Longrightarrow> marks_ok s"
  by (auto simp: sources_ok_def marks_ok_def list_all_iff registration_ok_def)

lemma pause_callbacks_ok:
  assumes "base_ok s" and "marks_ok s"
  shows "sched_ok (snd (task_source_pause_callbacks_locked s))"
  using assms unfolding sched_ok_base sources_ok_def marks_ok_def task_source_pause_callbacks_locked_def Let_def
  by (auto simp: registration_ok_def pause_due_def elim!: list.pred_mono_strong)

lemma resume_callbacks_ok:
  assumes "sched_ok s"
  shows "sched_ok (snd (task_source_resume_callbacks_locked s))"
  using assms unfolding sched_ok_base sources_ok_def task_source_resume_callbacks_locked_def Let_def
  by (auto simp: registration_ok_def resume_due_def elim!: list.pred_mono_strong)

lemma callbacks_locked_fields [simp]:
  "qsc_events (snd (task_source_pause_callbacks_locked s)) = qsc_events s"
  "qsc_events (snd (task_source_resume_callbacks_locked s)) = qsc_events s"
  "qsc_state (snd (task_source_pause_callbacks_locked s)) = qsc_state s"
  "qsc_state (snd (task_source_resume_callbacks_locked s)) = qsc_state s"
  "qsc_handled (snd (task_source_pause_callbacks_locked s)) = qsc_handled s"
  "qsc_handled (snd (task_source_resume_callbacks_locked s)) = qsc_handled s"
  "qsc_draining (snd (task_source_pause_callbacks_locked s)) = qsc_draining s"
  "qsc_draining (snd (task_source_resume_callbacks_locked s)) = qsc_draining s"
  "qsc_query_id (snd (task_source_pause_callbacks_locked s)) = qsc_query_id s"
  "qsc_query_id (snd (task_source_resume_callbacks_locked s)) = qsc_query_id s"
  "qsc_retry_delay_generation (snd (task_source_pause_callbacks_locked s)) = qsc_retry_delay_generation s"
  "qsc_retry_delay_generation (snd (task_source_resume_callbacks_locked s)) = qsc_retry_delay_generation s"
  by (simp_all add: task_source_pause_callbacks_locked_def task_source_resume_callbacks_locked_def Let_def)

lemma sources_ok_fewer:
  assumes "sources_ok s" and "qsc_task_sources t = qsc_task_sources s" and "length (qsc_events t) \<le> length (qsc_events s)"
  shows "sources_ok t"
  using assms by (force simp: sources_ok_def list_all_iff registration_ok_def)

lemma internal_classes_simps [simp]:
  "internal_classes [] = []"
  "internal_classes (e # es) = (case internal_class e of None \<Rightarrow> internal_classes es | Some c \<Rightarrow> c # internal_classes es)"
  "internal_classes (es @ fs) = internal_classes es @ internal_classes fs"
  by (simp_all add: internal_classes_def split: option.split)

lemma abort_not_internal: "is_abort e \<Longrightarrow> internal_class e = None"
  by (cases e) auto

definition new_class :: "fte_event \<Rightarrow> query_scheduler \<Rightarrow> bool" where
  "new_class e s = (\<forall>c. internal_class e = Some c \<longrightarrow> c \<notin> set (qsc_queued_internal_admission_classes s))"

text \<open>What \<open>enqueue\<close> does under the lock.\<close>

lemma enqueue_locked_cases:
  obtains (Ignored) "enqueue_locked e priority s = ([], s)"
      "qsc_state s \<noteq> RUNNING \<and> \<not> is_abort e \<or> \<not> new_class e s"
  | (Queued) "enqueue_locked e priority s = task_source_pause_callbacks_locked
      (s\<lparr>qsc_queued_internal_admission_classes :=
           (case internal_class e of None \<Rightarrow> qsc_queued_internal_admission_classes s
            | Some c \<Rightarrow> set_add c (qsc_queued_internal_admission_classes s)),
         qsc_events := (if priority then e # qsc_events s else qsc_events s @ [e])\<rparr>)"
      "qsc_state s = RUNNING \<or> is_abort e" "new_class e s"
proof (cases "qsc_state s \<noteq> RUNNING \<and> \<not> is_abort e \<or> \<not> new_class e s")
  case True
  then show thesis by (intro that(1)) (auto simp: enqueue_locked_def new_class_def)
next
  case False
  then show thesis
    by (intro that(2)) (cases "internal_class e"; auto simp: enqueue_locked_def new_class_def Let_def)+
qed

lemma enqueue_locked_ok:
  assumes ok: "sched_ok s" and q: "event_query_id e = qsc_query_id s"
  shows "sched_ok (snd (enqueue_locked e priority s)) \<and> sched_grows s (snd (enqueue_locked e priority s))"
proof (cases rule: enqueue_locked_cases [of e priority s])
  case Ignored
  then show ?thesis using ok by (simp add: sched_grows_refl)
next
  case Queued
  let ?t = "s\<lparr>qsc_queued_internal_admission_classes :=
           (case internal_class e of None \<Rightarrow> qsc_queued_internal_admission_classes s
            | Some c \<Rightarrow> set_add c (qsc_queued_internal_admission_classes s)),
         qsc_events := (if priority then e # qsc_events s else qsc_events s @ [e])\<rparr>"
  have qs: "queue_ok s" using ok by (simp add: sched_ok_def)
  have "queue_ok ?t"
    using qs q Queued(2,3) unfolding queue_ok_def new_class_def by (cases "internal_class e"; cases priority) auto
  then have "base_ok ?t" using ok by (simp add: sched_ok_def base_ok_def timer_ok_def counts_ok_def objects_ok_def)
  moreover have "marks_ok ?t" using marks_ok_sources [of s] ok by (simp add: sched_ok_def marks_ok_def)
  ultimately have "sched_ok (snd (task_source_pause_callbacks_locked ?t))" by (rule pause_callbacks_ok)
  then show ?thesis unfolding Queued(1) by (simp add: sched_grows_def)
qed

lemma enqueue_ok:
  assumes "quiet E" and "sched_ok s"
  shows "sched_ok (snd (enqueue E e priority s)) \<and> sched_grows s (snd (enqueue E e priority s))"
proof (cases "event_query_id e = qsc_query_id s")
  case True
  note o = with_callbacks_only [OF assms(1), of "enqueue_locked e priority" s]
  have "sched_grows s (snd (with_callbacks E (enqueue_locked e priority) s))"
    using enqueue_locked_ok [OF assms(2) True] only_objects_fields [OF o] by (simp add: sched_grows_def)
  then show ?thesis using True enqueue_locked_ok [OF assms(2) True] only_objects_ok [OF o] by (simp add: enqueue_def)
next
  case False
  then show ?thesis using assms(2) by (simp add: enqueue_def sched_grows_refl)
qed

text \<open>The fields the invariant does not speak of.\<close>

lemma sched_ok_frame [simp]:
  "sched_ok (s\<lparr>qsc_handlers := h\<rparr>) = sched_ok s" "sched_ok (s\<lparr>qsc_fragment_states := x\<rparr>) = sched_ok s"
  "sched_ok (s\<lparr>qsc_command_counts := c\<rparr>) = sched_ok s" "sched_ok (s\<lparr>qsc_failed_worker_ids := w\<rparr>) = sched_ok s"
  "sched_ok (s\<lparr>qsc_ticks := n\<rparr>) = sched_ok s" "sched_ok (s\<lparr>qsc_lane := l\<rparr>) = sched_ok s"
  "sched_ok (s\<lparr>qsc_draining := d\<rparr>) = sched_ok s"
  by (simp_all add: sched_ok_def sched_defs objects_ok_def)

definition sched_keeps :: "query_scheduler \<Rightarrow> query_scheduler \<Rightarrow> bool" where
  "sched_keeps s t = (sched_ok t \<and> sched_grows s t \<and> qsc_draining t = qsc_draining s \<and> qsc_handled t = qsc_handled s)"

lemma with_callbacks_keeps:
  assumes "quiet E" and "sched_keeps s (snd (f s))"
  shows "sched_keeps s (snd (with_callbacks E f s))"
proof -
  note o = with_callbacks_only [OF assms(1), of f s]
  then show ?thesis
    using assms(2) only_objects_ok [OF o] only_objects_fields [OF o] by (simp add: sched_keeps_def sched_grows_def)
qed

lemma enqueue_keeps:
  assumes "quiet E" and "sched_ok s"
  shows "sched_keeps s (snd (enqueue E e priority s))"
proof (cases "event_query_id e = qsc_query_id s")
  case True
  have "qsc_draining (snd (enqueue_locked e priority s)) = qsc_draining s \<and> qsc_handled (snd (enqueue_locked e priority s)) = qsc_handled s"
    by (cases rule: enqueue_locked_cases [of e priority s]) simp_all
  then show ?thesis using True with_callbacks_keeps [OF assms(1)] enqueue_locked_ok [OF assms(2) True]
    by (simp add: enqueue_def sched_keeps_def)
next
  case False
  then show ?thesis using assms(2) by (simp add: enqueue_def sched_grows_refl sched_keeps_def)
qed

lemma registration_bounds:
  "0 \<le> rgs_low_watermark (mk_registration sid p r h l) \<and>
   rgs_low_watermark (mk_registration sid p r h l) < rgs_high_watermark (mk_registration sid p r h l)"
proof -
  have "max 0 (min x (max 1 h - 1)) < max 1 h" for x :: int by linarith
  then show ?thesis by (simp add: mk_registration_def Let_def)
qed

lemma list_all_values_set: "P v \<Longrightarrow> list_all P (dict_values d) \<Longrightarrow> list_all P (dict_values (dict_set k v d))"
  by (induction d) auto

lemma list_all_values_pop: "list_all P (dict_values d) \<Longrightarrow> list_all P (dict_values (dict_pop k d))"
  by (induction d) auto

lemma register_keeps:
  assumes "quiet E" and "sched_ok s"
  shows "sched_keeps s (snd (register_task_source E sid p r h l s))"
proof -
  let ?reg = "mk_registration (strip sid) p r h l"
  let ?t = "s\<lparr>qsc_task_sources := dict_set (strip sid) ?reg (qsc_task_sources s)\<rparr>"
  have "marks_ok ?t"
    using marks_ok_sources [of s] assms(2) registration_bounds [of "strip sid" p r h l]
    by (simp add: marks_ok_def sched_ok_def list_all_values_set wf_dict_set)
  moreover have "base_ok ?t" using assms(2) by (simp add: sched_ok_base)
  ultimately have "sched_ok (snd (task_source_pause_callbacks_locked ?t))" by (intro pause_callbacks_ok)
  then have keeps: "sched_keeps s (snd (task_source_pause_callbacks_locked ?t))" by (simp add: sched_keeps_def sched_grows_def)
  then have "sched_keeps s (snd (register_locked (strip sid) ?reg s))" by (auto simp: register_locked_def split: prod.split)
  from with_callbacks_keeps [of E s "register_locked (strip sid) ?reg", OF assms(1) this] show ?thesis
    using assms(2) by (simp add: register_task_source_def Let_def sched_keeps_def sched_grows_refl)
qed

lemma sources_ok_pop:
  "sources_ok s \<Longrightarrow> sources_ok (s\<lparr>qsc_task_sources := dict_pop k (qsc_task_sources s)\<rparr>)"
  by (simp add: sources_ok_def list_all_values_pop wf_dict_pop)

lemma unregister_keeps:
  assumes "quiet E" and "sched_ok s"
  shows "sched_keeps s (snd (unregister_task_source E sid resume s))"
  unfolding unregister_task_source_def
  by (rule with_callbacks_keeps [OF assms(1)]) (use assms(2) sources_ok_pop in \<open>simp add: sched_keeps_def sched_ok_base sched_grows_def\<close>)

lemma cleared_ok:
  assumes "sched_ok s"
  shows "sched_ok (s\<lparr>qsc_state := x, qsc_failure_reason := y, qsc_events := [], qsc_queued_internal_admission_classes := [],
    qsc_retry_delay_timer := None\<rparr>)"
    and "sched_ok (abort_query s)"
  using assms sources_ok_fewer [of s] by (simp_all add: sched_ok_def sched_defs objects_ok_def abort_query_def list_all_iff
      registration_ok_def) (fastforce)+

lemma fail_locked_keeps: "sched_ok s \<Longrightarrow> sched_keeps s (snd (fail_locked reason s))"
  using resume_callbacks_ok [OF cleared_ok(1) [of s]] by (auto simp: sched_keeps_def sched_grows_def fail_locked_def)

lemma close_locked_keeps: "sched_ok s \<Longrightarrow> sched_keeps s (snd (close_locked s))"
  by (simp add: sched_keeps_def sched_grows_def close_locked_def sched_ok_def sched_defs objects_ok_def)

lemma fail_keeps: "quiet E \<Longrightarrow> sched_ok s \<Longrightarrow> sched_keeps s (snd (scheduler_fail E reason s))"
  unfolding scheduler_fail_def by (rule with_callbacks_keeps) (simp_all add: fail_locked_keeps)

lemma close_keeps: "quiet E \<Longrightarrow> sched_ok s \<Longrightarrow> sched_keeps s (snd (scheduler_close E s))"
  unfolding scheduler_close_def by (rule with_callbacks_keeps) (simp_all add: close_locked_keeps)

lemma arm_keeps: "sched_ok s \<Longrightarrow> sched_keeps s (snd (arm_retry_delay d s))"
  by (simp add: sched_keeps_def sched_grows_def arm_retry_delay_def Let_def sched_ok_def sched_defs objects_ok_def)

lemma sched_keeps_refl: "sched_ok s \<Longrightarrow> sched_keeps s s"
  by (simp add: sched_keeps_def sched_grows_refl)

lemma sched_keeps_trans: "sched_keeps s t \<Longrightarrow> sched_keeps t u \<Longrightarrow> sched_keeps s u"
  unfolding sched_keeps_def using sched_grows_trans by metis

lemma objects_keeps:
  assumes "sched_ok s" and "object_ok t"
  shows "sched_keeps s (s\<lparr>qsc_source_objects := dict_set n t (qsc_source_objects s)\<rparr>)"
  using assms by (auto simp: sched_keeps_def sched_grows_def sched_ok_def sched_defs objects_ok_def)

lemma mk_source_keeps:
  assumes "quiet E" and "sched_ok s"
  shows "sched_keeps s (snd (mk_task_source E n sid h l s))"
proof (cases "strip sid = []")
  case True
  then show ?thesis using assms(2) by (simp add: mk_task_source_def sched_keeps_refl)
next
  case False
  let ?t = "\<lparr>tsk_source_id = strip sid, tsk_pause_count = 0, tsk_resume_count = 0, tsk_paused = False, tsk_closed = False\<rparr>"
  have k: "sched_keeps s (s\<lparr>qsc_source_objects := dict_set n ?t (qsc_source_objects s)\<rparr>)"
    by (rule objects_keeps [OF assms(2)]) (simp add: object_ok_def)
  then have "sched_ok (s\<lparr>qsc_source_objects := dict_set n ?t (qsc_source_objects s)\<rparr>)" by (simp add: sched_keeps_def)
  from sched_keeps_trans [OF k register_keeps [OF assms(1) this]] show ?thesis
    using False by (simp add: mk_task_source_def Let_def)
qed

lemma only_objects_keeps: "sched_ok s \<Longrightarrow> only_objects s t \<Longrightarrow> sched_keeps s t"
  using only_objects_ok [of s t] only_objects_fields [of s t] by (simp add: sched_keeps_def sched_grows_def)

lemma source_close_keeps:
  assumes "quiet E" and "sched_ok s"
  shows "sched_keeps s (snd (source_close E n s))"
proof -
  have k: "sched_keeps s (on_source n source_close_locked s)"
    by (rule only_objects_keeps [OF assms(2) on_source_only [where f = source_close_locked, OF source_ops_ok(3)]])
  then have "sched_ok (on_source n source_close_locked s)" by (simp add: sched_keeps_def)
  note u = sched_keeps_trans [OF k unregister_keeps [OF assms(1) this]]
  show ?thesis using assms(2) u by (auto simp: source_close_def sched_keeps_refl split: option.split)
qed

text \<open>The command executor changes its counters and the history of worker calls only.\<close>

definition only_commands :: "query_scheduler \<Rightarrow> query_scheduler \<Rightarrow> bool" where
  "only_commands s t = (t\<lparr>qsc_command_counts := [], qsc_lane := []\<rparr> = s\<lparr>qsc_command_counts := [], qsc_lane := []\<rparr>)"

lemma only_commands_steps:
  "only_commands s s" "only_commands s (record_command c s)" "only_commands s (snd (lane_call E x s))"
  "only_commands s t \<Longrightarrow> only_commands t u \<Longrightarrow> only_commands s u"
  by (simp_all add: only_commands_def record_command_def lane_call_def)

lemma only_commands_bindS:
  assumes "\<And>s. only_commands s (snd (f s))" and "\<And>x s. only_commands s (snd (g x s))"
  shows "only_commands s (snd (bindS f g s))"
proof (cases "f s")
  case (Pair r t)
  then have "only_commands s t" using assms(1) [of s] by simp
  then show ?thesis using Pair assms(2) only_commands_steps(4) by (cases r) (auto simp: bindS_def)
qed

lemma execute_only_commands: "only_commands s (snd (execute_command E c s))"
  unfolding execute_command_def create_task_def wait_split_queue_has_space_def add_splits_def no_more_splits_def update_task_def
  by (cases c; simp; intro only_commands_bindS)
    (auto simp: only_commands_steps split: option.split pyval.split)

lemma only_commands_keeps:
  assumes "sched_ok s" and "only_commands s t"
  shows "sched_keeps s t"
proof -
  have "sched_ok (t\<lparr>qsc_command_counts := [], qsc_lane := []\<rparr>)" using assms by (simp add: only_commands_def)
  then have "sched_ok t" by simp
  moreover note same = assms(2) [unfolded only_commands_def]
  have "qsc_query_id t = qsc_query_id s" "qsc_retry_delay_generation t = qsc_retry_delay_generation s" "qsc_handled t = qsc_handled s"
    "qsc_state t = qsc_state s" "qsc_draining t = qsc_draining s"
    using arg_cong [OF same, of qsc_query_id] arg_cong [OF same, of qsc_retry_delay_generation] arg_cong [OF same, of qsc_handled]
      arg_cong [OF same, of qsc_state] arg_cong [OF same, of qsc_draining] by simp_all
  ultimately show ?thesis by (simp add: sched_keeps_def sched_grows_def)
qed

text \<open>
  A step is one call of a method of the scheduler, of its executor or of one of its task sources, returning or
  raising; \<open>drain\<close> apart. A handler makes such calls, and so does another thread meanwhile: while an event is
  handled, \<open>drain\<close> itself returns at once.
\<close>

inductive sched_step :: "scheduler_env \<Rightarrow> query_scheduler \<Rightarrow> query_scheduler \<Rightarrow> bool" for E where
  Enqueue: "sched_step E s (snd (enqueue E e priority s))"
| Register: "sched_step E s (snd (register_task_source E sid p r h l s))"
| Unregister: "sched_step E s (snd (unregister_task_source E sid resume s))"
| Fail: "sched_step E s (snd (scheduler_fail E reason s))"
| Close: "sched_step E s (snd (scheduler_close E s))"
| PutFragment: "sched_step E s (snd (put_fragment_state f x s))"
| WorkerFailure: "sched_step E s (snd (record_worker_failure ws s))"
| Arm: "sched_step E s (snd (arm_retry_delay d s))"
| SetHandlers: "sched_step E s (set_handlers n s)"
| Execute: "sched_step E s (snd (execute_command E c s))"
| NewSource: "sched_step E s (snd (mk_task_source E n sid h l s))"
| CloseSource: "sched_step E s (snd (source_close E n s))"
| PauseSource: "sched_step E s (on_source n source_pause s)"
| ResumeSource: "sched_step E s (on_source n source_resume s)"
| Stats: "sched_step E s (snd (scheduler_stats_of E s))"

inductive_cases sched_stepE: "sched_step E s t"

lemma plain_steps_keep:
  assumes "sched_ok s"
  shows "sched_keeps s (snd (put_fragment_state f x s))" and "sched_keeps s (snd (record_worker_failure ws s))"
    and "sched_keeps s (set_handlers n s)" and "sched_keeps s (snd (scheduler_stats_of E s))"
  using assms by (auto simp: sched_keeps_def sched_grows_def put_fragment_state_def record_worker_failure_def set_handlers_def
      scheduler_stats_of_def Let_def split: option.split prod.split)

lemma source_steps_keep:
  assumes "sched_ok s"
  shows "sched_keeps s (on_source n source_pause s)" and "sched_keeps s (on_source n source_resume s)"
  by (rule only_objects_keeps [OF assms on_source_only], erule source_ops_ok)+

lemma sched_step_keeps:
  assumes "quiet E" and "sched_ok s" and "sched_step E s t"
  shows "sched_keeps s t"
  using assms(3)
  by (rule sched_stepE)
    (hypsubst, rule enqueue_keeps [OF assms(1,2)] register_keeps [OF assms(1,2)] unregister_keeps [OF assms(1,2)]
       fail_keeps [OF assms(1,2)] close_keeps [OF assms(1,2)] plain_steps_keep [OF assms(2)] arm_keeps [OF assms(2)]
       only_commands_keeps [OF assms(2) execute_only_commands] mk_source_keeps [OF assms(1,2)] source_close_keeps [OF assms(1,2)]
       source_steps_keep [OF assms(2)])+

lemma sched_steps_keep:
  assumes "quiet E" and "sched_ok s" and "(sched_step E)\<^sup>*\<^sup>* s t"
  shows "sched_keeps s t"
  using assms(3,2)
proof (induction rule: rtranclp_induct)
  case base
  then show ?case by (rule sched_keeps_refl)
next
  case (step t u)
  then have t: "sched_keeps s t" by blast
  then have "sched_keeps t u" using sched_step_keeps [OF assms(1) _ step.hyps(2)] by (simp add: sched_keeps_def)
  then show ?case using t sched_keeps_trans by blast
qed

section \<open>Handlers\<close>

definition handler_ok :: "scheduler_env \<Rightarrow> 'a handler \<Rightarrow> bool" where
  "handler_ok E f = (\<forall>g x s. f = Some g \<longrightarrow> (sched_step E)\<^sup>*\<^sup>* s (snd (g x s)))"

definition handlers_ok :: "scheduler_env \<Rightarrow> bool" where
  "handlers_ok E =
     (\<forall>n. let h = sev_handlers E n in
        handler_ok E (on_split_events h) \<and> handler_ok E (on_source_input_exhausted h) \<and>
        handler_ok E (on_task_status_changed h) \<and> handler_ok E (on_worker_failed h) \<and>
        handler_ok E (on_memory_pressure_detected h) \<and> handler_ok E (on_resource_admission_changed h) \<and>
        handler_ok E (on_worker_reservation_completed h) \<and> handler_ok E (on_retry_delay_expired h) \<and>
        handler_ok E (on_exchange_selector_updated h) \<and> handler_ok E (on_query_abort h))"

definition env_contract :: "scheduler_env \<Rightarrow> bool" where
  "env_contract E = (quiet E \<and> handlers_ok E)"

lemma call_handler_keeps:
  assumes "quiet E" and "handler_ok E f" and "sched_ok s"
  shows "sched_keeps s (snd (call_handler f x s))"
proof (cases f)
  case None
  then show ?thesis using assms(3) by (simp add: call_handler_def sched_keeps_refl)
next
  case (Some g)
  then have "sched_keeps s (snd (g x s))" using sched_steps_keep [OF assms(1,3)] assms(2) by (simp add: handler_ok_def)
  then show ?thesis using Some by (cases "g x s"; cases "fst (g x s)") (auto simp: call_handler_def bindS_def)
qed

lemma handlers_ok_of:
  assumes "handlers_ok E"
  shows "handler_ok E (on_split_events (handlers_of E n))" "handler_ok E (on_source_input_exhausted (handlers_of E n))"
    "handler_ok E (on_task_status_changed (handlers_of E n))" "handler_ok E (on_worker_failed (handlers_of E n))"
    "handler_ok E (on_memory_pressure_detected (handlers_of E n))" "handler_ok E (on_resource_admission_changed (handlers_of E n))"
    "handler_ok E (on_worker_reservation_completed (handlers_of E n))" "handler_ok E (on_retry_delay_expired (handlers_of E n))"
    "handler_ok E (on_exchange_selector_updated (handlers_of E n))" "handler_ok E (on_query_abort (handlers_of E n))"
  using assms by (simp_all add: handlers_ok_def handlers_of_def no_handlers_def handler_ok_def Let_def)

lemma dispatch_event_keeps:
  assumes "env_contract E" and "sched_ok s"
  shows "sched_keeps s (snd (dispatch_event (handlers_of E n) e s))"
proof -
  have q: "quiet E" and h: "handlers_ok E" using assms(1) by (simp_all add: env_contract_def)
  note call = call_handler_keeps [OF q _ assms(2)]
  have "sched_ok (abort_query s)" by (rule cleared_ok(2) [OF assms(2)])
  note ab = call_handler_keeps [OF q handlers_ok_of(10) [OF h] this]
  have "sched_keeps s (abort_query s)"
    using cleared_ok(2) [OF assms(2)] by (simp add: sched_keeps_def sched_grows_def abort_query_def)
  note ab = sched_keeps_trans [OF this ab]
  have t: "sched_keeps s (s\<lparr>qsc_retry_delay_timer := None\<rparr>)"
    using assms(2) by (simp add: sched_keeps_def sched_grows_def sched_ok_def sched_defs objects_ok_def)
  then have "sched_ok (s\<lparr>qsc_retry_delay_timer := None\<rparr>)" by (simp add: sched_keeps_def)
  note t = sched_keeps_trans [OF t call_handler_keeps [OF q handlers_ok_of(8) [OF h] this]]
  show ?thesis
    by (cases e) (simp_all add: dispatch_event_def call handlers_ok_of [OF h] bindS_def ab t sched_keeps_refl [OF assms(2)])
qed

section \<open>Draining\<close>

lemma counted_snoc [simp]: "counted (es @ [e]) = counted es @ (if internal_class e = None then [e] else [])"
  by (simp add: counted_def)

lemma noted_ok:
  assumes "sched_ok s"
  shows "sched_ok (if internal_class e = None then note_progress E e (s\<lparr>qsc_handled := qsc_handled s @ [e]\<rparr>)
    else s\<lparr>qsc_handled := qsc_handled s @ [e]\<rparr>)"
  using assms
  by (auto simp: sched_ok_def sched_defs objects_ok_def note_progress_def Let_def dict_get_default_def split: if_splits)

lemma handle_event_ok:
  assumes "env_contract E" and "sched_ok s" and "handle_event E e n s = (r, t)"
  shows "sched_ok t \<and> sched_grows s t \<and> qsc_draining t = qsc_draining s \<and> qsc_handled t = qsc_handled s @ [e]"
proof -
  define u where "u = (if internal_class e = None then note_progress E e (s\<lparr>qsc_handled := qsc_handled s @ [e]\<rparr>)
      else s\<lparr>qsc_handled := qsc_handled s @ [e]\<rparr>)"
  have u: "sched_ok u" unfolding u_def by (rule noted_ok [OF assms(2)])
  have fields: "qsc_handled u = qsc_handled s @ [e]" "qsc_draining u = qsc_draining s" "qsc_query_id u = qsc_query_id s"
    "qsc_retry_delay_generation u = qsc_retry_delay_generation s" "qsc_state u = qsc_state s"
    by (simp_all add: u_def note_progress_def Let_def)
  have "dispatch_event (handlers_of E n) e u = (r, t)"
    using assms(3) unfolding handle_event_def u_def by (simp add: bindS_def)
  then have "sched_keeps u t" using dispatch_event_keeps [OF assms(1) u, of n e] by simp
  then show ?thesis using fields by (auto simp: sched_keeps_def sched_grows_def)
qed

lemma queue_tail_ok:
  assumes "sched_ok s" and "qsc_events s = e # es"
  shows "sched_ok (s\<lparr>qsc_events := es, qsc_queued_internal_admission_classes :=
    (case internal_class e of None \<Rightarrow> qsc_queued_internal_admission_classes s
     | Some c \<Rightarrow> removeAll c (qsc_queued_internal_admission_classes s))\<rparr>)" (is "sched_ok ?t")
proof -
  have "queue_ok ?t" using assms unfolding sched_ok_def queue_ok_def by (cases "internal_class e") (auto simp: distinct_removeAll)
  moreover have "sources_ok ?t" by (rule sources_ok_fewer [of s]) (use assms in \<open>simp_all add: sched_ok_def\<close>)
  ultimately show ?thesis using assms(1) by (simp add: sched_ok_def timer_ok_def counts_ok_def objects_ok_def)
qed

text \<open>One turn of the loop, with the writer slot taken.\<close>

lemma drain_turn_ok:
  assumes E: "env_contract E" and ok: "sched_ok s" and d: "qsc_draining s" and turn: "drain_turn E hs s = (r, t)"
  shows "sched_ok t \<and> sched_grows s t \<and>
    (r = Inr None \<longrightarrow> \<not> qsc_draining t \<and> qsc_events t = [] \<and> qsc_handled t = qsc_handled s) \<and>
    (\<forall>outs. r = Inr (Some outs) \<longrightarrow> qsc_draining t) \<and>
    (qsc_events s \<noteq> [] \<longrightarrow> qsc_handled t = qsc_handled s @ [hd (qsc_events s)])"
proof (cases "qsc_events s")
  case Nil
  let ?u = "s\<lparr>qsc_draining := False\<rparr>"
  let ?v = "snd (task_source_resume_callbacks_locked ?u)"
  have v: "sched_ok ?v" using resume_callbacks_ok [of ?u] ok by simp
  obtain r' where r': "run_task_source_callbacks E (fst (task_source_resume_callbacks_locked ?u)) ?v = (r', t)" "r = Inr None \<or> isl r"
    using turn Nil by (auto simp: drain_turn_def drain_take_def bindS_def split: prod.splits sum.splits)
  have "only_objects ?v t" using run_callbacks_only [of E ?v] E r' by (metis env_contract_def snd_conv)
  note o = only_objects_fields [OF this] only_objects_ok [OF this v]
  show ?thesis using o Nil r'(2) by (auto simp: sched_grows_def)
next
  case (Cons e es)
  obtain n where n: "fst (drain_take hs s) = (Some (e, n), [])" using Cons by (simp add: drain_take_def)
  define u where "u = snd (drain_take hs s)"
  have u: "sched_ok u" "qsc_handled u = qsc_handled s" "qsc_draining u" "sched_grows s u"
    using queue_tail_ok [OF ok Cons] Cons d by (simp_all add: u_def drain_take_def sched_grows_def)
  obtain r1 v where h: "handle_event E e n u = (r1, v)" by fastforce
  note v = handle_event_ok [OF E u(1) h]
  have turn': "bindS (handle_event E e n) (\<lambda>outs. bindS (with_callbacks E task_source_resume_callbacks_locked) (\<lambda>_. retS (Some outs))) u = (r, t)"
    using turn n by (cases "drain_take hs s") (simp add: drain_turn_def u_def bindS_def run_task_source_callbacks_def)
  show ?thesis
  proof (cases r1)
    case (Inl err)
    then have "t = v" "r = Inl err" using turn' h by (simp_all add: bindS_def)
    then show ?thesis using v u sched_grows_trans [OF u(4)] Cons by auto
  next
    case (Inr outs)
    have "sched_keeps v (snd (task_source_resume_callbacks_locked v))"
      using resume_callbacks_ok [of v] v by (simp add: sched_keeps_def sched_grows_def)
    then have k: "sched_keeps v (snd (with_callbacks E task_source_resume_callbacks_locked v))"
      using with_callbacks_keeps [of E v task_source_resume_callbacks_locked] E by (simp add: env_contract_def)
    have "t = snd (with_callbacks E task_source_resume_callbacks_locked v)" "r \<noteq> Inr None"
      using turn' h Inr by (auto simp: bindS_def split: prod.splits sum.splits)
    then show ?thesis using k v u sched_grows_trans [OF u(4)] sched_grows_trans [of s v t] Cons by (auto simp: sched_keeps_def)
  qed
qed

lemma drain_abandon_ok:
  assumes E: "env_contract E" and ok: "sched_ok s" and "drain_abandon E e s = (r, t)"
  shows "sched_ok t \<and> sched_grows s t \<and> \<not> qsc_draining t \<and> qsc_handled t = qsc_handled s \<and> qsc_events t = qsc_events s \<and> isl r"
proof -
  have t: "t = snd (with_callbacks E drain_release s)" "isl r"
    using assms(3) by (auto simp: drain_abandon_def bindS_def split: prod.splits sum.splits)
  have "only_objects (snd (drain_release s)) t" using with_callbacks_only [of E drain_release s] E t by (simp add: env_contract_def)
  note o = only_objects_fields [OF this] only_objects_ok [OF this]
  show ?thesis using o resume_callbacks_ok [of "s\<lparr>qsc_draining := False\<rparr>"] ok t(2) by (simp add: drain_release_def sched_grows_def)
qed

lemma drain_loop_ok:
  assumes "drain_loop E hs outs s = Some y" and "env_contract E" and "sched_ok s" and "qsc_draining s"
  shows "sched_ok (snd y) \<and> sched_grows s (snd y) \<and> \<not> qsc_draining (snd y) \<and> (isl (fst y) \<or> qsc_events (snd y) = [])"
  using assms
proof (induction rule: drain_loop.raw_induct [rotated, consumes 1, case_names Step])
  case (Step f E hs outs s y)
  obtain r t where turn: "drain_turn E hs s = (r, t)" by fastforce
  note t = drain_turn_ok [OF Step.prems(1,2,3) turn]
  show ?case
  proof (cases r)
    case (Inl e)
    then have "y = drain_abandon E e t" using Step.hyps turn by simp
    then show ?thesis using drain_abandon_ok [of E t e "fst y" "snd y"] Step.prems t sched_grows_trans [of s t "snd y"] by simp
  next
    case (Inr next_outs)
    show ?thesis
    proof (cases next_outs)
      case None
      then have "y = (Inr outs, t)" using Step.hyps turn Inr by simp
      then show ?thesis using t None Inr by simp
    next
      case (Some o2)
      then have "f E hs (outs @ o2) t = Some y" using Step.hyps turn Inr by simp
      from Step.IH [OF this Step.prems(1)] t Some Inr show ?thesis using sched_grows_trans [of s t "snd y"] by simp
    qed
  qed
qed

section \<open>Calls in any order\<close>

inductive call_step :: "scheduler_env \<Rightarrow> query_scheduler \<Rightarrow> query_scheduler \<Rightarrow> bool" for E where
  Method: "sched_step E s t \<Longrightarrow> call_step E s t"
| Drain: "drain E hs s = Some (r, t) \<Longrightarrow> call_step E s t"

definition sched_idle :: "query_scheduler \<Rightarrow> bool" where
  "sched_idle s = (sched_ok s \<and> \<not> qsc_draining s)"

lemma drain_ok:
  assumes "env_contract E" and "sched_idle s" and "drain E hs s = Some (r, t)"
  shows "sched_idle t \<and> sched_grows s t \<and> (isl r \<or> qsc_events t = [])"
proof -
  have "drain_loop E hs [] (s\<lparr>qsc_draining := True\<rparr>) = Some (r, t)"
    using assms(2,3) by (simp add: drain_def drain_enter_def sched_idle_def)
  from drain_loop_ok [OF this assms(1)] assms(2) show ?thesis by (simp add: sched_idle_def sched_grows_def)
qed

interpretation scheduling: monotone_system "call_step E" "\<lambda>s. env_contract E \<and> sched_idle s" sched_grows for E
proof
  fix s t assume s: "env_contract E \<and> sched_idle s" and step: "call_step E s t"
  have "sched_idle t \<and> sched_grows s t" using step
  proof cases
    case Method
    then show ?thesis using sched_step_keeps [of E s t] s by (simp add: env_contract_def sched_idle_def sched_keeps_def)
  next
    case (Drain hs r)
    then show ?thesis using drain_ok s by blast
  qed
  then show "env_contract E \<and> sched_idle t" and "sched_grows s t" using s by blast+
qed (fact sched_grows_refl, rule sched_grows_trans)

lemma mk_scheduler_idle: "mk_scheduler q = Inr s \<Longrightarrow> sched_idle s"
  using mk_scheduler_ok [of q s] by (auto simp: sched_idle_def mk_scheduler_def split: if_splits)

lemma reached_idle:
  assumes "mk_scheduler q = Inr s0" and "env_contract E" and "(call_step E)\<^sup>*\<^sup>* s0 s"
  shows "sched_idle s"
  using scheduling.reach_inv [OF _ assms(3)] mk_scheduler_idle [OF assms(1)] assms(2) by blast

section \<open>Termination of draining\<close>

definition weight :: "(fte_event \<Rightarrow> nat) \<Rightarrow> query_scheduler \<Rightarrow> nat" where
  "weight w s = sum_list (map w (qsc_events s))"

lemma handle_event_dispatch:
  obtains u where "handle_event E e n s = dispatch_event (handlers_of E n) e u" "qsc_events u = qsc_events s"
  by (rule that [of "if internal_class e = None then note_progress E e (s\<lparr>qsc_handled := qsc_handled s @ [e]\<rparr>)
      else s\<lparr>qsc_handled := qsc_handled s @ [e]\<rparr>"]) (simp_all add: handle_event_def bindS_def note_progress_def Let_def)

text \<open>What a turn that handles an event does to the queue is what the handler does.\<close>

lemma drain_turn_queue:
  assumes "quiet E" and "qsc_events s = e # es" and "drain_turn E hs s = (r, t)"
  obtains n u v r' where "qsc_events u = es" "dispatch_event (handlers_of E n) e u = (r', v)" "qsc_events t = qsc_events v"
    "r = Inr None \<Longrightarrow> False" "\<And>outs. r = Inr (Some outs) \<Longrightarrow> r' = Inr outs"
proof -
  obtain n where n: "fst (drain_take hs s) = (Some (e, n), [])" using assms(2) by (simp add: drain_take_def)
  define u0 where "u0 = snd (drain_take hs s)"
  obtain u where u: "handle_event E e n u0 = dispatch_event (handlers_of E n) e u" "qsc_events u = qsc_events u0"
    by (rule handle_event_dispatch)
  obtain r' v where d: "dispatch_event (handlers_of E n) e u = (r', v)" by fastforce
  have es: "qsc_events u = es" using assms(2) u(2) by (simp add: u0_def drain_take_def)
  have turn: "bindS (\<lambda>_. (r', v)) (\<lambda>outs. bindS (with_callbacks E task_source_resume_callbacks_locked) (\<lambda>_. retS (Some outs))) u0 = (r, t)"
    using assms(3) n u(1) d by (cases "drain_take hs s") (simp add: drain_turn_def u0_def bindS_def run_task_source_callbacks_def)
  have "qsc_events (snd (with_callbacks E task_source_resume_callbacks_locked v)) = qsc_events v"
    using only_objects_fields(2) [OF with_callbacks_only [OF assms(1), of task_source_resume_callbacks_locked v]] by simp
  then show thesis
    by (intro that [OF es d]) (use turn in \<open>auto simp: bindS_def split: sum.splits prod.splits\<close>)
qed

text \<open>
  A handler that enqueues less than the event it consumes, by some weight of events, lets every drain return.
\<close>

definition consumes :: "scheduler_env \<Rightarrow> (fte_event \<Rightarrow> nat) \<Rightarrow> bool" where
  "consumes E w = (\<forall>e n s. weight w (snd (dispatch_event (handlers_of E n) e s)) < w e + weight w s)"

lemma drain_loop_returns:
  assumes "env_contract E" and "consumes E w"
  shows "sched_ok s \<Longrightarrow> qsc_draining s \<Longrightarrow> \<exists>y. drain_loop E hs outs s = Some y"
proof (induction "weight w s" arbitrary: s outs rule: less_induct)
  case less
  obtain r t where turn: "drain_turn E hs s = (r, t)" by fastforce
  note t = drain_turn_ok [OF assms(1) less.prems turn]
  show ?case
  proof (cases r)
    case (Inl e)
    then show ?thesis using turn by (subst drain_loop.simps) simp
  next
    case (Inr next_outs)
    show ?thesis
    proof (cases next_outs)
      case None
      then show ?thesis using turn Inr by (subst drain_loop.simps) simp
    next
      case (Some o2)
      have "qsc_events s \<noteq> []"
        using turn Inr Some by (auto simp: drain_turn_def drain_take_def bindS_def split: prod.splits sum.splits)
      then obtain e es where es: "qsc_events s = e # es" by (cases "qsc_events s") auto
      obtain n u v r' where v: "qsc_events u = es" "dispatch_event (handlers_of E n) e u = (r', v)" "qsc_events t = qsc_events v"
        using drain_turn_queue [OF _ es turn] assms(1) unfolding env_contract_def by metis
      have "weight w v < w e + weight w u" using assms(2) v(2) unfolding consumes_def by (metis snd_conv)
      then have "weight w t < weight w s" using v es by (simp add: weight_def)
      from less.hyps [OF this] t Inr Some obtain y where "drain_loop E hs (outs @ o2) t = Some y" by blast
      then show ?thesis using turn Inr Some by (subst drain_loop.simps) simp
    qed
  qed
qed

section \<open>Order\<close>

text \<open>Handlers that raise nothing and only append to the queue, events other than aborts.\<close>

definition no_abort :: "fte_event list \<Rightarrow> bool" where
  "no_abort es = list_all (\<lambda>e. \<not> is_abort e) es"

definition appends :: "scheduler_env \<Rightarrow> bool" where
  "appends E = (\<forall>e n s. \<not> is_abort e \<longrightarrow>
     (\<exists>outs more t. dispatch_event (handlers_of E n) e s = (Inr outs, t) \<and> qsc_events t = qsc_events s @ more \<and> no_abort more))"

text \<open>
  A record of a drain that found \<open>queue\<close>: the events \<open>queue @ concat adds\<close> were handled one after the other, and the handler of the
  \<open>i\<close>-th of them, called when exactly the later ones known by then were queued, appended \<open>adds ! i\<close>.
\<close>

definition fifo_record :: "scheduler_env \<Rightarrow> fte_event list \<Rightarrow> fte_event list list \<Rightarrow> bool" where
  "fifo_record E queue adds =
     (length adds = length (queue @ concat adds) \<and>
      (\<forall>i<length adds. \<exists>n u v outs.
         dispatch_event (handlers_of E n) ((queue @ concat adds) ! i) u = (Inr outs, v) \<and>
         qsc_events u = drop (Suc i) (queue @ concat (take i adds)) \<and> qsc_events v = qsc_events u @ adds ! i))"

lemma fifo_record_Cons:
  assumes "dispatch_event (handlers_of E n) e u = (Inr outs, v)" and "qsc_events u = es" and "qsc_events v = es @ add"
    and "fifo_record E (es @ add) adds"
  shows "fifo_record E (e # es) (add # adds)"
  unfolding fifo_record_def
proof (intro conjI allI impI)
  show "length (add # adds) = length ((e # es) @ concat (add # adds))" using assms(4) by (simp add: fifo_record_def)
  fix i assume i: "i < length (add # adds)"
  show "\<exists>n u v outs. dispatch_event (handlers_of E n) (((e # es) @ concat (add # adds)) ! i) u = (Inr outs, v) \<and>
      qsc_events u = drop (Suc i) ((e # es) @ concat (take i (add # adds))) \<and> qsc_events v = qsc_events u @ (add # adds) ! i"
  proof (cases i)
    case 0
    then show ?thesis using assms(1-3) by (intro exI [of _ n] exI [of _ u] exI [of _ v] exI [of _ outs]) simp
  next
    case (Suc j)
    then have "j < length adds" using i by simp
    then show ?thesis using assms(4) Suc by (simp add: fifo_record_def)
  qed
qed

lemma drain_loop_order:
  assumes "drain_loop E hs outs s = Some y" and "env_contract E" and "appends E" and "sched_ok s" and "qsc_draining s" and "\<not> isl (fst y)"
    and "no_abort (qsc_events s)"
  shows "qsc_events (snd y) = [] \<and>
    (\<exists>adds. qsc_handled (snd y) = qsc_handled s @ qsc_events s @ concat adds \<and> fifo_record E (qsc_events s) adds)"
  using assms
proof (induction rule: drain_loop.raw_induct [rotated, consumes 1, case_names Step])
  case (Step f E hs outs s y)
  obtain r t where turn: "drain_turn E hs s = (r, t)" by fastforce
  note t = drain_turn_ok [OF Step.prems(1,3,4) turn]
  show ?case
  proof (cases r)
    case (Inl e)
    then have "y = drain_abandon E e t" using Step.hyps turn by simp
    then have "isl (fst y)" using drain_abandon_ok [of E t e "fst y" "snd y"] Step.prems(1) t by simp
    then show ?thesis using Step.prems(5) by simp
  next
    case (Inr next_outs)
    show ?thesis
    proof (cases "qsc_events s")
      case Nil
      then have "next_outs = None" using turn Inr by (auto simp: drain_turn_def drain_take_def bindS_def split: prod.splits sum.splits)
      then have "y = (Inr outs, t)" using Step.hyps turn Inr by simp
      then show ?thesis using t \<open>next_outs = None\<close> Inr Nil by (auto simp: fifo_record_def intro: exI [of _ "[]"])
    next
      case (Cons e es)
      obtain n u v r' where v: "qsc_events u = es" "dispatch_event (handlers_of E n) e u = (r', v)" "qsc_events t = qsc_events v"
          "r = Inr None \<Longrightarrow> False"
        using drain_turn_queue [OF _ Cons turn] Step.prems(1) unfolding env_contract_def by metis
      obtain o2 where o2: "next_outs = Some o2" using v(4) Inr by (cases next_outs) auto
      have "f E hs (outs @ o2) t = Some y" using Step.hyps turn Inr o2 by simp
      note IH = Step.IH [OF this Step.prems(1,2)]
      have "\<not> is_abort e" using Step.prems(6) Cons by (simp add: no_abort_def)
      then obtain app outs' where app: "qsc_events v = qsc_events u @ app" "no_abort app" "r' = Inr outs'"
        using Step.prems(2) v(2) unfolding appends_def by (metis prod.inject)
      then have "no_abort (qsc_events t)" using Step.prems(6) Cons v by (simp add: no_abort_def)
      from IH t Inr o2 Step.prems(5) this
      obtain adds where fin: "qsc_events (snd y) = []" and more: "qsc_handled (snd y) = qsc_handled t @ qsc_events t @ concat adds"
        and fifo: "fifo_record E (qsc_events t) adds" by blast
      have "fifo_record E (e # es) (app # adds)"
        by (rule fifo_record_Cons [of E n e u outs' v]) (use v(1,2,3) app fifo in simp_all)
      moreover have "qsc_handled (snd y) = qsc_handled s @ qsc_events s @ concat (app # adds)"
        using more app t Cons v by simp
      ultimately show ?thesis using fin Cons by metis
    qed
  qed
qed

section \<open>Properties\<close>

text \<open>
  C4. The state of a query scheduler. After any sequence of calls, returning or raising, with handlers that
  act on the scheduler through its methods: nobody holds the writer slot; at most one internal admission
  pulse is queued per execution class; the queued events belong to the query, and only aborts are queued
  once it no longer runs; a task source that is not paused sees a queue below its high watermark; the
  counters are exactly those of the events handled, without the internal ones; an armed retry timer has the
  current generation; and each task source has been resumed as often as paused, but for the pause it is in.
\<close>

theorem scheduler_invariant:
  assumes "mk_scheduler q = Inr s0" and "env_contract E" and "(call_step E)\<^sup>*\<^sup>* s0 s"
  shows "\<not> qsc_draining s \<and> distinct (internal_classes (qsc_events s)) \<and>
    (\<forall>e\<in>set (qsc_events s). event_query_id e = strip q \<and> (qsc_state s = RUNNING \<or> is_abort e)) \<and>
    (\<forall>k r. dict_get (qsc_task_sources s) k = Some r \<longrightarrow>
       0 \<le> rgs_low_watermark r \<and> rgs_low_watermark r < rgs_high_watermark r \<and>
       (rgs_paused r \<or> int (length (qsc_events s)) < rgs_high_watermark r)) \<and>
    qsc_processed_events s = int (length (counted (qsc_handled s))) \<and>
    (\<forall>ty. dict_get_default (qsc_event_counts s) ty 0 = int (length (filter (\<lambda>e. event_type e = ty) (counted (qsc_handled s))))) \<and>
    (\<forall>g d. qsc_retry_delay_timer s = Some (g, d) \<longrightarrow> g = qsc_retry_delay_generation s \<and> 0 < d) \<and>
    (\<forall>n t. dict_get (qsc_source_objects s) n = Some t \<longrightarrow> tsk_pause_count t = tsk_resume_count t + of_bool (tsk_paused t))"
proof -
  have ok: "sched_ok s" "\<not> qsc_draining s" using reached_idle [OF assms] by (simp_all add: sched_idle_def)
  have "sched_grows s0 s" using scheduling.reach_grows [OF _ assms(3)] mk_scheduler_idle [OF assms(1)] assms(2) by blast
  then have id: "qsc_query_id s = strip q" using assms(1) by (auto simp: sched_grows_def mk_scheduler_def split: if_splits)
  have "registration_ok (length (qsc_events s)) r" if "dict_get (qsc_task_sources s) k = Some r" for k r
    using ok(1) dict_get_in_values [OF that] by (auto simp: sched_ok_def sources_ok_def list_all_iff)
  then show ?thesis using ok id unfolding sched_ok_def queue_ok_def timer_ok_def counts_ok_def objects_ok_def
    by (auto simp: list_all_iff registration_ok_def object_ok_def)
qed

text \<open>
  C5. Draining ends. If there is a weight of events such that every handler leaves less weight in the queue
  than the event it handles had, then \<open>drain\<close> returns or raises, from every state the scheduler can reach;
  afterwards the writer slot is free, and the queue is empty unless it raised.
\<close>

theorem drain_terminates:
  assumes "mk_scheduler q = Inr s0" and "env_contract E" and "(call_step E)\<^sup>*\<^sup>* s0 s" and "consumes E w"
  shows "\<exists>r t. drain E hs s = Some (r, t) \<and> \<not> qsc_draining t \<and> (isl r \<or> qsc_events t = [])"
proof -
  note idle = reached_idle [OF assms(1-3)]
  then obtain y where "drain_loop E hs [] (s\<lparr>qsc_draining := True\<rparr>) = Some y"
    using drain_loop_returns [OF assms(2,4), of "s\<lparr>qsc_draining := True\<rparr>" hs "[]"] by (auto simp: sched_idle_def)
  then have d: "drain E hs s = Some (fst y, snd y)" using idle by (simp add: drain_def drain_enter_def sched_idle_def)
  then show ?thesis using drain_ok [OF assms(2) idle d] unfolding sched_idle_def by blast
qed

text \<open>
  C6. Events are handled in order, each once. Take a drain that returns, where no abort is queued and every handler, called
  with an event other than an abort, returns and only appends events other than aborts to the queue. The events
  handled by the drain are the queued ones and those the handlers appended, as one sequence: every event is handled once, and for the
  \<open>i\<close>-th one the handler is called when exactly the events after it that are known by then are queued, and what it
  appends comes after what the handlers before it appended. At the end the queue is empty.
\<close>

theorem drain_in_order:
  assumes "mk_scheduler q = Inr s0" and "env_contract E" and "(call_step E)\<^sup>*\<^sup>* s0 s" and "appends E"
    and "drain E hs s = Some (Inr outs, t)" and "no_abort (qsc_events s)"
  shows "\<exists>adds. qsc_handled t = qsc_handled s @ qsc_events s @ concat adds \<and> qsc_events t = [] \<and>
    length adds = length (qsc_events s @ concat adds) \<and>
    (\<forall>i<length adds. \<exists>n u v outs'.
       dispatch_event (handlers_of E n) ((qsc_events s @ concat adds) ! i) u = (Inr outs', v) \<and>
       qsc_events u = drop (Suc i) (qsc_events s @ concat (take i adds)) \<and> qsc_events v = qsc_events u @ adds ! i)"
proof -
  have idle: "sched_ok s" "\<not> qsc_draining s" using reached_idle [OF assms(1-3)] by (simp_all add: sched_idle_def)
  then have "drain_loop E hs [] (s\<lparr>qsc_draining := True\<rparr>) = Some (Inr outs, t)"
    using assms(5) by (simp add: drain_def drain_enter_def)
  from drain_loop_order [OF this assms(2,4)] idle assms(6) show ?thesis unfolding fifo_record_def by auto
qed

section \<open>A run\<close>

definition sample_scheduler_env :: scheduler_env where
  "sample_scheduler_env =
     \<lparr>sev_handlers = (\<lambda>_. no_handlers\<lparr>on_split_events := Some (\<lambda>evs s. (Inr (Some (map PDict evs)), snd (arm_retry_delay 5 s)))\<rparr>),
      sev_callback = (\<lambda>_ s. (Inr (), s)), sev_time = (\<lambda>n. of_nat n), sev_has_method = (\<lambda>_ _. True),
      sev_lane_call = (\<lambda>_ _. Inr PNone)\<rparr>"

lemma sample_contract: "env_contract sample_scheduler_env"
proof -
  have "sched_step sample_scheduler_env s (snd (arm_retry_delay 5 s))" for s by (rule Arm)
  then have "(sched_step sample_scheduler_env)\<^sup>*\<^sup>* s (snd (arm_retry_delay 5 s))" for s by blast
  then show ?thesis
    by (simp add: env_contract_def quiet_def handlers_ok_def Let_def sample_scheduler_env_def handler_ok_def no_handlers_def)
qed

lemma sample_handlers_of:
  "on_split_events (handlers_of sample_scheduler_env n) =
     (if n = 0 then None else Some (\<lambda>evs s. (Inr (Some (map PDict evs)), snd (arm_retry_delay 5 s))))"
  "on_source_input_exhausted (handlers_of sample_scheduler_env n) = None" "on_task_status_changed (handlers_of sample_scheduler_env n) = None"
  "on_worker_failed (handlers_of sample_scheduler_env n) = None" "on_memory_pressure_detected (handlers_of sample_scheduler_env n) = None"
  "on_resource_admission_changed (handlers_of sample_scheduler_env n) = None"
  "on_worker_reservation_completed (handlers_of sample_scheduler_env n) = None"
  "on_retry_delay_expired (handlers_of sample_scheduler_env n) = None" "on_exchange_selector_updated (handlers_of sample_scheduler_env n) = None"
  "on_query_abort (handlers_of sample_scheduler_env n) = None"
  by (simp_all add: handlers_of_def sample_scheduler_env_def no_handlers_def)

lemma sample_dispatch:
  "qsc_events (snd (dispatch_event (handlers_of sample_scheduler_env n) e s)) = (if is_abort e then [] else qsc_events s)"
  "\<not> isl (fst (dispatch_event (handlers_of sample_scheduler_env n) e s))"
  by (cases e; simp add: dispatch_event_def call_handler_def sample_handlers_of bindS_def arm_retry_delay_def Let_def abort_query_def)+

lemma sample_consumes: "consumes sample_scheduler_env (\<lambda>_. 1)"
  by (simp add: consumes_def weight_def sample_dispatch)

lemma sample_appends: "appends sample_scheduler_env"
  unfolding appends_def
proof (intro allI impI)
  fix e n s assume e: "\<not> is_abort e"
  obtain r t where d: "dispatch_event (handlers_of sample_scheduler_env n) e s = (r, t)" by fastforce
  then have "qsc_events t = qsc_events s @ []" "\<not> isl r" using sample_dispatch [of n e s] e by simp_all
  then show "\<exists>outs more t. dispatch_event (handlers_of sample_scheduler_env n) e s = (Inr outs, t) \<and> qsc_events t = qsc_events s @ more \<and> no_abort more"
    using d by (cases r) (auto simp: no_abort_def)
qed

text \<open>A source with high watermark 2 is registered, and three events are queued.\<close>

definition sample_events :: "fte_event list" where
  "sample_events = [SplitEventsSubmitted ''q'' [[(''k'', PInt 1)]], ResourceAdmissionChanged ''q'' None True, MemoryPressureDetected ''q'' None]"

definition sample_queue :: "query_scheduler \<Rightarrow> query_scheduler" where
  "sample_queue s =
     fold (\<lambda>e s. snd (enqueue sample_scheduler_env e False s)) sample_events
       (snd (mk_task_source sample_scheduler_env 0 ''src'' 2 None (set_handlers 1 s)))"

lemma sample_queue_steps: "(call_step sample_scheduler_env)\<^sup>*\<^sup>* s (sample_queue s)"
proof -
  have enq: "(call_step sample_scheduler_env)\<^sup>*\<^sup>* s (fold (\<lambda>e s. snd (enqueue sample_scheduler_env e False s)) es s)" for es s
  proof (induction es arbitrary: s)
    case (Cons e es)
    have "call_step sample_scheduler_env s (snd (enqueue sample_scheduler_env e False s))" by (rule Method, rule Enqueue)
    then show ?case using Cons.IH by (auto intro: converse_rtranclp_into_rtranclp)
  qed simp
  have a: "call_step sample_scheduler_env s (set_handlers 1 s)" by (rule Method, rule SetHandlers)
  have b: "call_step sample_scheduler_env (set_handlers 1 s) (snd (mk_task_source sample_scheduler_env 0 ''src'' 2 None (set_handlers 1 s)))"
    by (rule Method, rule NewSource)
  show ?thesis unfolding sample_queue_def
    by (rule converse_rtranclp_into_rtranclp, rule a, rule converse_rtranclp_into_rtranclp, rule b, rule enq)
qed

lemma sample_queue_state:
  "case mk_scheduler ''q'' of Inl _ \<Rightarrow> False | Inr s0 \<Rightarrow>
     (let s = sample_queue s0 in qsc_events s = sample_events \<and> map rgs_paused (dict_values (qsc_task_sources s)) = [True] \<and>
        map tsk_pause_count (dict_values (qsc_source_objects s)) = [1] \<and> qsc_handled s = [])"
  by code_simp

lemma sample_queueE:
  obtains s0 where "mk_scheduler ''q'' = Inr s0" "qsc_events (sample_queue s0) = sample_events"
    "map rgs_paused (dict_values (qsc_task_sources (sample_queue s0))) = [True]" "qsc_handled (sample_queue s0) = []"
  using sample_queue_state unfolding case_res_ok Let_def by (elim exE conjE) (rule that)

theorem scheduler_invariant_witness:
  "\<exists>s0. mk_scheduler ''q'' = Inr s0 \<and> (call_step sample_scheduler_env)\<^sup>*\<^sup>* s0 (sample_queue s0) \<and>
     length (qsc_events (sample_queue s0)) = 3 \<and> \<not> qsc_draining (sample_queue s0) \<and> qsc_processed_events (sample_queue s0) = 0"
proof -
  obtain s0 where s0: "mk_scheduler ''q'' = Inr s0" "qsc_events (sample_queue s0) = sample_events" "qsc_handled (sample_queue s0) = []"
    by (rule sample_queueE)
  note inv = scheduler_invariant [OF s0(1) sample_contract sample_queue_steps]
  have "\<not> qsc_draining (sample_queue s0)" using inv by (rule conjunct1)
  moreover have "qsc_processed_events (sample_queue s0) = 0" using inv s0(3) unfolding counted_def by simp
  ultimately show ?thesis using s0 sample_queue_steps unfolding sample_events_def by (intro exI conjI) simp_all
qed

theorem drain_terminates_witness:
  "\<exists>s0 r t. mk_scheduler ''q'' = Inr s0 \<and> drain sample_scheduler_env None (sample_queue s0) = Some (r, t) \<and> \<not> qsc_draining t"
proof -
  obtain s0 where s0: "mk_scheduler ''q'' = Inr s0" by (rule sample_queueE)
  from drain_terminates [OF s0 sample_contract sample_queue_steps sample_consumes, of None]
  show ?thesis using s0 by blast
qed

declare drain_loop.simps [code]

lemma sample_drain:
  "case mk_scheduler ''q'' of Inl _ \<Rightarrow> False | Inr s0 \<Rightarrow>
     (case drain sample_scheduler_env None (sample_queue s0) of
        Some (Inr outs, t) \<Rightarrow> outs = [PDict [(''k'', PInt 1)]] \<and> length (qsc_handled t) = 3 \<and>
          map tsk_resume_count (dict_values (qsc_source_objects t)) = [1]
      | _ \<Rightarrow> False)"
  by code_simp

theorem drain_in_order_witness:
  "\<exists>s0 outs t. mk_scheduler ''q'' = Inr s0 \<and> drain sample_scheduler_env None (sample_queue s0) = Some (Inr outs, t) \<and>
     qsc_handled t = sample_events"
proof -
  obtain s0 where s0: "mk_scheduler ''q'' = Inr s0" "qsc_events (sample_queue s0) = sample_events" "qsc_handled (sample_queue s0) = []"
    by (rule sample_queueE)
  obtain outs t where d: "drain sample_scheduler_env None (sample_queue s0) = Some (Inr outs, t)" "length (qsc_handled t) = 3"
  proof (cases "drain sample_scheduler_env None (sample_queue s0)")
    case None
    then show thesis using sample_drain s0(1) by simp
  next
    case (Some y)
    then show thesis using sample_drain s0(1) that by (cases y; cases "fst y") auto
  qed
  have "no_abort (qsc_events (sample_queue s0))" unfolding s0(2) by (simp add: no_abort_def sample_events_def)
  from drain_in_order [OF s0(1) sample_contract sample_queue_steps sample_appends d(1) this]
  obtain adds where more: "qsc_handled t = sample_events @ concat adds" unfolding s0 by auto
  then have "concat adds = []" using d(2) by (simp add: sample_events_def)
  then show ?thesis using s0(1) d(1) more by auto
qed

end
