(* ===== verification/Status_Watcher.thy ===== *)
theory Status_Watcher
  imports Scheduler_Run
begin

text \<open>
  The thread that follows the status of one attempt: \<open>FteAttemptStatusWatcher\<close> in
  \<open>src/duckdb/runners/fte/fte_scheduler.py\<close>. It waits for a status, checks it, hands it to the scheduler
  as an event and drains the scheduler, until the attempt ends, the worker fails or it is stopped.

  What one turn of its loop meets is an \<open>observation\<close>: whether the stop flag is set when the turn begins
  and when the wait ends, and what the wait gives. The waits of a run are a list of observations; a list
  that ends before the watcher does stands for a watcher that still waits.
\<close>

section \<open>The watcher\<close>

datatype thread_state = Alive | Exited

record status_watcher =
  wat_attempt_id :: fte_task_attempt_id
  wat_worker_id :: string
  wat_poll_interval_s :: rat
  wat_wait_timeout_s :: rat
  wat_stop :: bool
  wat_thread :: "thread_state option"

definition mk_watcher :: "fte_task_attempt_id \<Rightarrow> string \<Rightarrow> rat \<Rightarrow> rat \<Rightarrow> status_watcher" where
  "mk_watcher attempt_id worker_id poll timeout =
     \<lparr>wat_attempt_id = attempt_id, wat_worker_id = worker_id, wat_poll_interval_s = max (fl (1 / 1000)) poll,
      wat_wait_timeout_s = max 0 timeout, wat_stop = False, wat_thread = None\<rparr>"

text \<open>\<open>callable\<close> says whether the worker handle has a callable \<open>fte_wait_task_status\<close>.\<close>

definition watcher_start :: "bool \<Rightarrow> (status_watcher, bool) op" where
  "watcher_start callable w =
     (if \<not> callable then (Inl (TypeError ''FTE worker handle fte_wait_task_status must be callable''), w)
      else if wat_thread w \<noteq> None then (Inr True, w)
      else (Inr True, w\<lparr>wat_thread := Some Alive\<rparr>))"

definition watcher_stop :: "status_watcher \<Rightarrow> status_watcher" where
  "watcher_stop w = w\<lparr>wat_stop := True\<rparr>"

definition watcher_is_alive :: "status_watcher \<Rightarrow> bool" where
  "watcher_is_alive w = (wat_thread w = Some Alive)"

definition shutdown_timeout_s :: "status_watcher \<Rightarrow> rat" where
  "shutdown_timeout_s w = max 5 (fl (wat_wait_timeout_s w + 5))"

section \<open>What a wait gives\<close>

text \<open>An exception of the wait: what \<open>isinstance\<close> tells of it, its class name and its text.\<close>

record wait_error =
  err_query_deadline_exceeded :: bool
  err_timeout_error :: bool
  err_class_name :: string
  err_text :: string

definition is_soft_status_wait_timeout :: "wait_error \<Rightarrow> bool" where
  "is_soft_status_wait_timeout e =
     (if err_query_deadline_exceeded e \<or> contains ''query deadline expired'' (lower (err_text e)) then False
      else if err_timeout_error e then True
      else if err_class_name e \<in> {''TimeoutError'', ''GetTimeoutError''} then True
      else contains ''did not complete within'' (err_text e) \<or> contains ''timed out'' (lower (err_text e)))"

datatype wait_outcome = WaitRaised wait_error | WaitReturned pyval

record observation =
  obs_stop_before :: bool
  obs_outcome :: wait_outcome
  obs_stop_after :: bool

section \<open>The loop\<close>

text \<open>The version to ask for next; a version that is not a number resets it.\<close>

definition next_min_version :: "(string, pyval) dict \<Rightarrow> int option \<Rightarrow> int option" where
  "next_min_version status min_version =
     (case dict_get_default status ''version'' PNone of
        PNone \<Rightarrow> min_version
      | v \<Rightarrow> (case py_int v of Inl _ \<Rightarrow> None | Inr n \<Rightarrow> Some (n + 1)))"

text \<open>What a turn does with its observation: leave, wait again, or hand an event over.\<close>

datatype turn = Leave | WaitAgain | Report fte_event bool

text \<open>
  The error of a \<open>WorkerFailed\<close> event is an exception object; the model keeps its text. The flag of a report
  says whether the watcher leaves after it.
\<close>

definition worker_failed_report :: "string \<Rightarrow> status_watcher \<Rightarrow> string \<Rightarrow> turn" where
  "worker_failed_report query_id w text = Report (WorkerFailed query_id (wat_worker_id w) (PStr text) None) True"

definition status_report :: "string \<Rightarrow> status_watcher \<Rightarrow> (string, pyval) dict \<Rightarrow> turn" where
  "status_report query_id w status =
     (case validate_fte_status_identity status (Obj (wat_attempt_id w)) of
        Inl e \<Rightarrow> worker_failed_report query_id w (error_text e)
      | Inr _ \<Rightarrow>
          (case task_state_of (py_str (dict_get_default status ''state'' PNone)) of
             Inl _ \<Rightarrow> worker_failed_report query_id w ''unknown FTE task state: ''
           | Inr state \<Rightarrow>
               Report (TaskStatusChanged query_id (wat_attempt_id w) status)
                 (state \<in> {TaskFinished, TaskFailed, TaskCanceled, TaskAborted})))"

definition watch_turn :: "string \<Rightarrow> status_watcher \<Rightarrow> observation \<Rightarrow> turn" where
  "watch_turn query_id w obs =
     (if obs_stop_before obs then Leave
      else case obs_outcome obs of
        WaitRaised e \<Rightarrow>
          if obs_stop_after obs then Leave
          else if is_soft_status_wait_timeout e then WaitAgain
          else worker_failed_report query_id w (err_text e)
      | WaitReturned v \<Rightarrow>
          if obs_stop_after obs then Leave
          else (case v of
                  PDict status \<Rightarrow> status_report query_id w status
                | _ \<Rightarrow> worker_failed_report query_id w ''fte_wait_task_status must return a dict''))"

definition turn_version :: "observation \<Rightarrow> int option \<Rightarrow> int option" where
  "turn_version obs min_version =
     (case obs_outcome obs of WaitReturned (PDict status) \<Rightarrow> next_min_version status min_version | _ \<Rightarrow> min_version)"

text \<open>
  The loop over the observations. The result tells whether the watcher has left, the versions it asked for, and
  the scheduler; \<open>None\<close> if a drain does not return.
\<close>

definition watch_reason :: "fte_event \<Rightarrow> py_error \<Rightarrow> string" where
  "watch_reason event e = ''FTE status watcher failed while handling '' @ event_type event @ '': '' @ error_text e"

fun watch ::
  "scheduler_env \<Rightarrow> status_watcher \<Rightarrow> int option \<Rightarrow> observation list \<Rightarrow> query_scheduler \<Rightarrow>
   (bool res \<times> int option list \<times> query_scheduler) option" where
  "watch E w min_version [] s = Some (Inr False, [], s)"
| "watch E w min_version (obs # rest) s =
     (let asked = (if obs_stop_before obs then [] else [min_version]);
          again = (\<lambda>s'. map_option (\<lambda>(r, vs, t). (r, asked @ vs, t)) (watch E w (turn_version obs min_version) rest s')) in
      case watch_turn (qsc_query_id s) w obs of
        Leave \<Rightarrow> Some (Inr True, asked, s)
      | WaitAgain \<Rightarrow> again s
      | Report event leave \<Rightarrow>
          (case enqueue_and_drain E (watch_reason event) event s of
             None \<Rightarrow> None
           | Some (Inl e, s1) \<Rightarrow> Some (Inl e, asked, s1)
           | Some (Inr handled, s1) \<Rightarrow> if leave \<or> \<not> handled then Some (Inr True, asked, s1) else again s1))"

section \<open>What a watcher hands over\<close>

text \<open>The events given to the scheduler one after the other, each drained before the next.\<close>

inductive hands_over :: "scheduler_env \<Rightarrow> fte_event list \<Rightarrow> query_scheduler \<Rightarrow> query_scheduler \<Rightarrow> bool" for E where
  Nothing: "hands_over E [] s s"
| Event: "enqueue_and_drain E (watch_reason e) e s = Some (r, s1) \<Longrightarrow> hands_over E es s1 t \<Longrightarrow> hands_over E (e # es) s t"

text \<open>
  A report of the watcher \<open>w\<close>: a status that names its own attempt, in a state of the enumeration, or the
  failure of its own worker. Only the final one tells a terminal state or a failure.
\<close>

definition own_report :: "status_watcher \<Rightarrow> bool \<Rightarrow> fte_event \<Rightarrow> bool" where
  "own_report w final e =
     (case e of
        TaskStatusChanged _ a status \<Rightarrow>
          a = wat_attempt_id w \<and> validate_fte_status_identity status (Obj a) = Inr a \<and>
          (case task_state_of (py_str (dict_get_default status ''state'' PNone)) of
             Inl _ \<Rightarrow> False
           | Inr state \<Rightarrow> state \<in> terminal_states \<longrightarrow> final)
      | WorkerFailed _ worker_id _ failed \<Rightarrow> final \<and> worker_id = wat_worker_id w \<and> failed = None
      | _ \<Rightarrow> False)"

definition unstopped :: "observation \<Rightarrow> bool" where
  "unstopped obs = (\<not> obs_stop_before obs \<and> \<not> obs_stop_after obs)"

lemma validate_own: "validate_fte_status_identity status (Obj a) = Inr b \<Longrightarrow> b = a"
  by (auto simp: validate_fte_status_identity_def Let_def check_identities_Inr split: if_splits)

lemma status_report_own:
  assumes "status_report q w status = Report e leave"
  shows "own_report w leave e"
proof (cases "validate_fte_status_identity status (Obj (wat_attempt_id w))")
  case (Inl err)
  then show ?thesis using assms by (auto simp: status_report_def worker_failed_report_def own_report_def)
next
  case (Inr b)
  then show ?thesis using assms validate_own [OF Inr]
    by (cases "task_state_of (py_str (dict_get_default status ''state'' PNone))")
       (auto simp: status_report_def worker_failed_report_def own_report_def terminal_states_def)
qed

lemma status_report_reports: "\<exists>e leave. status_report q w status = Report e leave"
  by (auto simp: status_report_def worker_failed_report_def split: sum.split)

lemma worker_failed_own: "worker_failed_report q w text = Report e leave \<Longrightarrow> own_report w leave e"
  by (auto simp: worker_failed_report_def own_report_def)

lemma watch_turn_own:
  assumes "watch_turn q w obs = Report e leave"
  shows "own_report w leave e \<and> unstopped obs"
  using assms
  by (auto simp: watch_turn_def unstopped_def status_report_own worker_failed_own
      split: if_splits wait_outcome.splits pyval.splits)

lemma watch_turn_again: "watch_turn q w obs = WaitAgain \<Longrightarrow> unstopped obs"
  using status_report_reports [of q w]
  by (force simp: watch_turn_def worker_failed_report_def unstopped_def split: if_splits wait_outcome.splits pyval.splits)

lemma own_report_final: "own_report w False e \<Longrightarrow> own_report w True e"
  by (auto simp: own_report_def split: fte_event.splits sum.splits)

lemma watch_hands_over:
  assumes "watch E w v obs s = Some (r, vs, t)"
  shows "\<exists>events. hands_over E events s t \<and> length events \<le> length (takeWhile unstopped obs) \<and>
    list_all (own_report w False) (butlast events) \<and> (events \<noteq> [] \<longrightarrow> own_report w True (last events)) \<and>
    (r = Inr False \<longrightarrow> list_all (own_report w False) events)"
  using assms
proof (induction obs arbitrary: v s r vs t)
  case Nil
  then show ?case by (auto intro!: exI [of _ "[]"] hands_over.Nothing)
next
  case (Cons ob rest)
  show ?case
  proof (cases "watch_turn (qsc_query_id s) w ob")
    case Leave
    then show ?thesis using Cons.prems by (auto intro!: exI [of _ "[]"] hands_over.Nothing)
  next
    case WaitAgain
    then obtain vs' where "watch E w (turn_version ob v) rest s = Some (r, vs', t)"
      using Cons.prems by (auto simp: Let_def)
    from Cons.IH [OF this] show ?thesis using watch_turn_again [OF WaitAgain] by (auto intro: le_SucI)
  next
    case (Report e leave)
    have own: "own_report w leave e" "unstopped ob" using watch_turn_own [OF Report] by simp_all
    obtain x s1 where d: "enqueue_and_drain E (watch_reason e) e s = Some (x, s1)"
      using Cons.prems Report by (auto simp: Let_def split: option.splits)
    show ?thesis
    proof (cases "x = Inr True \<and> \<not> leave")
      case True
      then obtain vs' where "watch E w (turn_version ob v) rest s1 = Some (r, vs', t)"
        using Cons.prems Report d by (auto simp: Let_def)
      from Cons.IH [OF this] obtain es where es: "hands_over E es s1 t" "length es \<le> length (takeWhile unstopped rest)"
        "list_all (own_report w False) (butlast es)" "es \<noteq> [] \<longrightarrow> own_report w True (last es)"
        "r = Inr False \<longrightarrow> list_all (own_report w False) es" by blast
      have "own_report w False e" using own True by simp
      then show ?thesis using es own hands_over.Event [OF d es(1)] own_report_final [of w e]
        by (intro exI [of _ "e # es"]) simp
    next
      case False
      then have "t = s1" "r \<noteq> Inr False" using Cons.prems Report d by (auto simp: Let_def split: sum.splits if_splits)
      moreover have "own_report w True e" using own own_report_final by (cases leave) auto
      ultimately show ?thesis using own hands_over.Event [OF d hands_over.Nothing]
        by (intro exI [of _ "[e]"]) simp
    qed
  qed
qed

text \<open>
  C39. What a status watcher tells the scheduler. However the waits turn out, the events it hands over are
  statuses of its own attempt, with an identity that was checked and a known state, or one failure of its own
  worker. A terminal state or a failure is the last event of the watcher, and a watcher that has not left has
  handed over neither. Every event stems from another wait, and none from a wait after which the stop flag was set.
\<close>

theorem watcher_reports_own_attempt:
  assumes "watch E w v obs s = Some (r, vs, t)"
  shows "\<exists>events. hands_over E events s t \<and> length events \<le> length (takeWhile unstopped obs) \<and>
    list_all (own_report w False) (butlast events) \<and> (events \<noteq> [] \<longrightarrow> own_report w True (last events)) \<and>
    (r = Inr False \<longrightarrow> list_all (own_report w False) events)"
  by (rule watch_hands_over [OF assms])

definition sample_watcher :: status_watcher where
  "sample_watcher = mk_watcher (FteTaskAttemptId (FteTaskId ''q'' 0 0) 0) ''w1'' (1 / 20) 1"

definition sample_status :: "string \<Rightarrow> int \<Rightarrow> observation" where
  "sample_status state version =
     \<lparr>obs_stop_before = False,
      obs_outcome = WaitReturned (PDict [(''state'', PStr state), (''version'', PInt version), (''task_id_string'', PStr ''q.0.0.0'')]),
      obs_stop_after = False\<rparr>"

definition sample_waits :: "observation list" where
  "sample_waits =
     [sample_status ''RUNNING'' 3,
      \<lparr>obs_stop_before = False, obs_outcome = WaitRaised \<lparr>err_query_deadline_exceeded = False, err_timeout_error = True,
         err_class_name = ''TimeoutError'', err_text = []\<rparr>, obs_stop_after = False\<rparr>,
      sample_status ''FINISHED'' 4, sample_status ''RUNNING'' 5]"

lemma sample_watch:
  "case mk_scheduler ''q'' of Inl _ \<Rightarrow> False | Inr s \<Rightarrow>
     (case watch sample_scheduler_env sample_watcher None sample_waits s of
        Some (r, vs, t) \<Rightarrow> r = Inr True \<and> vs = [None, Some 4, Some 4] \<and> length (qsc_handled t) = 2
      | None \<Rightarrow> False)"
  by code_simp

theorem watcher_reports_own_attempt_witness:
  "\<exists>s t events. watch sample_scheduler_env sample_watcher None sample_waits s = Some (Inr True, [None, Some 4, Some 4], t) \<and>
     length (qsc_handled t) = 2 \<and> hands_over sample_scheduler_env events s t \<and>
     list_all (own_report sample_watcher False) (butlast events)"
proof -
  obtain s where s: "mk_scheduler ''q'' = Inr s" by (rule sample_queueE)
  obtain t where t: "watch sample_scheduler_env sample_watcher None sample_waits s = Some (Inr True, [None, Some 4, Some 4], t)"
    "length (qsc_handled t) = 2"
    using sample_watch unfolding s sum.case by (auto split: option.splits)
  from watcher_reports_own_attempt [OF t(1)] show ?thesis using t by blast
qed

end
