(* ===== verification/Registry_Rotation.thy ===== *)
theory Registry_Rotation
  imports Fte_Scheduler
begin

text \<open>
  The order in which the pump of \<open>FteSchedulerRegistry\<close> serves the queries
  (\<open>src/duckdb/runners/fte/fte_scheduler.py\<close>): the sorted queries, rotated so that the query that made
  progress last comes last.
\<close>

lemma index_of_nth: "distinct xs \<Longrightarrow> i < length xs \<Longrightarrow> index_of (xs ! i) xs = i"
  by (induction xs arbitrary: i) (auto simp: nth_Cons split: nat.splits)

lemma index_of_less: "x \<in> set xs \<Longrightarrow> index_of x xs < length xs"
  by (induction xs) auto

definition pending_order :: "string list \<Rightarrow> string list" where
  "pending_order query_ids = sort (remdups (filter (\<lambda>q. q \<noteq> []) query_ids))"

lemma pending_order_props [simp]:
  "distinct (pending_order ids)" "set (pending_order ids) = {q \<in> set ids. q \<noteq> []}" "sorted (pending_order ids)"
  by (auto simp: pending_order_def)

lemma ordered_is_rotation:
  "\<exists>j. j < max 1 (length (pending_order ids)) \<and> ordered_pending_drain_query_ids ids r = rotate j (pending_order ids)"
proof -
  let ?xs = "pending_order ids"
  let ?o = "ordered_pending_drain_query_ids ids r"
  have unrotated: ?thesis if "?o = ?xs"
    using that by (intro exI [of _ 0]) simp
  have o: "?o = (if ?xs = [] then [] else case sre_pending_drain_cursor_query_id r of None \<Rightarrow> ?xs
      | Some c \<Rightarrow> if c \<notin> set ?xs then ?xs else let n = (index_of c ?xs + 1) mod length ?xs in drop n ?xs @ take n ?xs)"
    unfolding ordered_pending_drain_query_ids_def pending_order_def [symmetric] by (simp add: Let_def)
  show ?thesis
  proof (cases "?xs = []")
    case True
    then show ?thesis using o unrotated by simp
  next
    case False
    show ?thesis
    proof (cases "sre_pending_drain_cursor_query_id r")
      case None
      then show ?thesis using o False unrotated by simp
    next
      case (Some c)
      let ?n = "(index_of c ?xs + 1) mod length ?xs"
      have "?n < length ?xs" using False by simp
      then have r: "drop ?n ?xs @ take ?n ?xs = rotate ?n ?xs" by (simp add: rotate_drop_take)
      show ?thesis
      proof (cases "c \<in> set ?xs")
        case True
        then have "?o = rotate ?n ?xs" using o Some False r by (simp add: Let_def)
        then show ?thesis using \<open>?n < length ?xs\<close> by (intro exI [of _ ?n]) simp
      next
        case c: False
        then show ?thesis using o Some False unrotated by simp
      qed
    qed
  qed
qed

lemma ordered_at_cursor:
  assumes "sre_pending_drain_cursor_query_id r = Some (pending_order ids ! j)" and "j < length (pending_order ids)"
  shows "ordered_pending_drain_query_ids ids r = rotate (Suc j) (pending_order ids)"
proof -
  let ?xs = "pending_order ids"
  have "?xs \<noteq> []" and "?xs ! j \<in> set ?xs" using assms(2) nth_mem [OF assms(2)] by (auto simp del: pending_order_props)
  then have "ordered_pending_drain_query_ids ids r =
      (let n = (index_of (?xs ! j) ?xs + 1) mod length ?xs in drop n ?xs @ take n ?xs)"
    unfolding ordered_pending_drain_query_ids_def pending_order_def [symmetric] using assms(1)
    by (simp add: Let_def del: pending_order_props)
  then show ?thesis using assms(2) unfolding rotate_drop_take [of "Suc j"] by (simp add: index_of_nth Let_def)
qed

text \<open>A turn of the pump in which the first query of the order makes progress.\<close>

definition pump_turn :: "string list \<Rightarrow> scheduler_registry \<Rightarrow> scheduler_registry" where
  "pump_turn ids r = record_pending_drain_progress (hd (ordered_pending_drain_query_ids ids r)) r"

lemma pump_turn_rotates:
  assumes "\<forall>q\<in>set ids. strip q = q"
  shows "ordered_pending_drain_query_ids ids (pump_turn ids r) = rotate1 (ordered_pending_drain_query_ids ids r)"
proof (cases "pending_order ids = []")
  case True
  then show ?thesis using ordered_is_rotation [of ids r] ordered_is_rotation [of ids "pump_turn ids r"] by auto
next
  case False
  let ?xs = "pending_order ids"
  obtain j where j: "j < length ?xs" "ordered_pending_drain_query_ids ids r = rotate j ?xs"
    using ordered_is_rotation [of ids r] False by (metis length_greater_0_conv less_one max_def not_le)
  have hd: "hd (rotate j ?xs) = ?xs ! j" using False j(1) by (simp add: hd_rotate_conv_nth)
  have "?xs ! j \<in> set ?xs" using j(1) by (rule nth_mem)
  then have "strip (?xs ! j) = ?xs ! j" "?xs ! j \<noteq> []" using assms by simp_all
  then have "sre_pending_drain_cursor_query_id (pump_turn ids r) = Some (?xs ! j)"
    by (simp add: pump_turn_def j(2) hd record_pending_drain_progress_def Let_def)
  then show ?thesis using ordered_at_cursor j by (simp add: rotate_Suc)
qed

lemma pump_turns_rotate:
  assumes "\<forall>q\<in>set ids. strip q = q"
  shows "ordered_pending_drain_query_ids ids ((pump_turn ids ^^ n) r) = rotate n (ordered_pending_drain_query_ids ids r)"
  using pump_turn_rotates [OF assms] by (induction n) (simp_all add: rotate_Suc)

text \<open>
  C40. The pump is fair. Whatever the cursor is, the order lists every query with a name once. If in each turn
  the first query of the order makes progress, then every query comes first within as many turns as there are
  queries, counted from the first.
\<close>

theorem pump_serves_every_query:
  assumes "\<forall>q\<in>set ids. strip q = q" and "q \<in> set ids" and "q \<noteq> []"
  shows "distinct (ordered_pending_drain_query_ids ids r) \<and>
    set (ordered_pending_drain_query_ids ids r) = {q \<in> set ids. q \<noteq> []} \<and>
    (\<exists>n < card (set ids). hd (ordered_pending_drain_query_ids ids ((pump_turn ids ^^ n) r)) = q)"
proof -
  let ?o = "ordered_pending_drain_query_ids ids r"
  obtain j where j: "?o = rotate j (pending_order ids)" using ordered_is_rotation by blast
  then have o: "distinct ?o" "set ?o = {q \<in> set ids. q \<noteq> []}" by simp_all
  then obtain n where n: "n < length ?o" "?o ! n = q" using assms(2,3) by (metis (mono_tags, lifting) in_set_conv_nth mem_Collect_eq)
  have "length ?o = card {q \<in> set ids. q \<noteq> []}" using distinct_card [OF o(1)] o(2) by simp
  also have "\<dots> \<le> card (set ids)" by (intro card_mono) auto
  finally have "n < card (set ids)" using n(1) by simp
  moreover have "hd (ordered_pending_drain_query_ids ids ((pump_turn ids ^^ n) r)) = q"
    using n by (simp add: pump_turns_rotate [OF assms(1)]) (metis hd_rotate_conv_nth length_0_conv mod_less not_less_zero)
  ultimately show ?thesis using o by blast
qed

theorem pump_serves_every_query_witness:
  "ordered_pending_drain_query_ids [''b'', ''a'', ''c''] (mk_registry\<lparr>sre_pending_drain_cursor_query_id := Some ''a''\<rparr>) = [''b'', ''c'', ''a''] \<and>
   (\<exists>n < card {''b'', ''a'', ''c''}.
      hd (ordered_pending_drain_query_ids [''b'', ''a'', ''c'']
        ((pump_turn [''b'', ''a'', ''c''] ^^ n) (mk_registry\<lparr>sre_pending_drain_cursor_query_id := Some ''a''\<rparr>))) = ''a'')"
  (is "?o = _ \<and> _")
proof
  show "?o = [''b'', ''c'', ''a'']" by code_simp
  have "\<forall>q\<in>set [''b'', ''a'', ''c'']. strip q = q" by code_simp
  from pump_serves_every_query [OF this, of "''a''" "mk_registry\<lparr>sre_pending_drain_cursor_query_id := Some ''a''\<rparr>"]
  show "\<exists>n < card {''b'', ''a'', ''c''}.
      hd (ordered_pending_drain_query_ids [''b'', ''a'', ''c'']
        ((pump_turn [''b'', ''a'', ''c''] ^^ n) (mk_registry\<lparr>sre_pending_drain_cursor_query_id := Some ''a''\<rparr>))) = ''a''"
    by simp
qed

end
