(* ===== verification/Scheduler_Threads.thy ===== *)
theory Scheduler_Threads
  imports Scheduler_Run
begin

text \<open>
  Threads that share a query scheduler of \<open>src/duckdb/runners/fte/fte_scheduler.py\<close>. Each enqueues events and
  drains the scheduler, as often as it likes. The steps of a thread are the sections of these methods
  under the lock of the scheduler and the single callbacks of task sources that run between them, so the steps of all threads
  interleave in any way. While a handler runs it may call any method of the scheduler. Handlers and callbacks return or
  raise. A caller to whom \<open>enqueue\<close> or \<open>drain\<close> raised may fail the scheduler, as the status watchers and the retry timer
  do (\<open>_enqueue_and_drain\<close>, \<open>_fire_retry_delay\<close>), or leave it alone, as \<open>FteEventDrivenTaskSource.submit\<close> does. The
  history of a run records such steps.
\<close>

section \<open>Threads\<close>

text \<open>Where a thread goes once its callbacks have run: on to drain, to the next event, back to the caller, or back with an exception.\<close>

datatype continuation = ToDrain | ToTake | ToReturn | ToRaise

datatype thread_pc =
    Enqueuing fte_event bool
  | Callbacks "callback list" continuation
  | Entering
  | Taking
  | Handling fte_event nat
  | Dispatching fte_event
  | HandlerRuns
  | Resuming
  | Releasing
  | Raising
  | Finished

text \<open>
  The kinds of steps: a caller went away although it had an exception and did not fail the scheduler, or although it had enqueued
  and did not drain; any other step.
\<close>

datatype step_kind = Ordinary | Abandoned

type_synonym config = "query_scheduler \<times> (nat \<Rightarrow> thread_pc)"

text \<open>
  The sections of \<open>_handle_event\<close> before the handler runs: the counters, and then what aborts and expired retry delays do under
  the lock; a stale retry delay has no handler call.
\<close>

definition count_event :: "scheduler_env \<Rightarrow> fte_event \<Rightarrow> query_scheduler \<Rightarrow> query_scheduler" where
  "count_event E e s =
     (let s1 = s\<lparr>qsc_handled := qsc_handled s @ [e]\<rparr> in if internal_class e = None then note_progress E e s1 else s1)"

definition begin_event :: "fte_event \<Rightarrow> query_scheduler \<Rightarrow> thread_pc \<times> query_scheduler" where
  "begin_event e s =
     (case e of
        RetryDelayExpired _ generation \<Rightarrow>
          if generation \<noteq> qsc_retry_delay_generation s then (Resuming, s) else (HandlerRuns, s\<lparr>qsc_retry_delay_timer := None\<rparr>)
      | QueryAbort _ _ \<Rightarrow> (HandlerRuns, abort_query s)
      | _ \<Rightarrow> (HandlerRuns, s))"

definition continue :: "continuation \<Rightarrow> thread_pc" where
  "continue k = (case k of ToDrain \<Rightarrow> Entering | ToTake \<Rightarrow> Taking | ToReturn \<Rightarrow> Finished | ToRaise \<Rightarrow> Raising)"

text \<open>An exception of a callback inside the \<open>try\<close> of \<open>drain\<close> leads to its \<open>except\<close> clause.\<close>

definition interrupted :: "continuation \<Rightarrow> thread_pc" where
  "interrupted k = (case k of ToDrain \<Rightarrow> Raising | ToTake \<Rightarrow> Releasing | ToReturn \<Rightarrow> Releasing | ToRaise \<Rightarrow> Raising)"

inductive thread_step :: "scheduler_env \<Rightarrow> step_kind \<Rightarrow> config \<Rightarrow> config \<Rightarrow> bool" for E where
  StartEnqueue: "T i = Finished \<Longrightarrow> thread_step E Ordinary (s, T) (s, T(i := Enqueuing e priority))"
| StartDrain: "T i = Finished \<Longrightarrow> thread_step E Ordinary (s, T) (s, T(i := Entering))"
| Refused: "T i = Enqueuing e priority \<Longrightarrow> event_query_id e \<noteq> qsc_query_id s \<Longrightarrow> thread_step E Ordinary (s, T) (s, T(i := Finished))"
| EnqueueSection: "T i = Enqueuing e priority \<Longrightarrow> event_query_id e = qsc_query_id s \<Longrightarrow> enqueue_locked e priority s = (cbs, s') \<Longrightarrow>
    thread_step E Ordinary (s, T) (s', T(i := Callbacks cbs ToDrain))"
| CallbackReturns: "T i = Callbacks (c # cbs) k \<Longrightarrow> run_callback E c s = (Inr x, s') \<Longrightarrow>
    thread_step E Ordinary (s, T) (s', T(i := Callbacks cbs k))"
| CallbackRaises: "T i = Callbacks (c # cbs) k \<Longrightarrow> run_callback E c s = (Inl err, s') \<Longrightarrow>
    thread_step E Ordinary (s, T) (s', T(i := interrupted k))"
| CallbacksDone: "T i = Callbacks [] k \<Longrightarrow> thread_step E Ordinary (s, T) (s, T(i := continue k))"
| Busy: "T i = Entering \<Longrightarrow> drain_enter s = (False, s') \<Longrightarrow> thread_step E Ordinary (s, T) (s', T(i := Finished))"
| Enter: "T i = Entering \<Longrightarrow> drain_enter s = (True, s') \<Longrightarrow> thread_step E Ordinary (s, T) (s', T(i := Taking))"
| GivesUp: "T i = Entering \<Longrightarrow> thread_step E Abandoned (s, T) (s, T(i := Finished))"
| Take: "T i = Taking \<Longrightarrow> drain_take hs s = ((Some (e, n), cbs), s') \<Longrightarrow>
    thread_step E Ordinary (s, T) (s', T(i := Handling e n))"
| Empty: "T i = Taking \<Longrightarrow> drain_take hs s = ((None, cbs), s') \<Longrightarrow>
    thread_step E Ordinary (s, T) (s', T(i := Callbacks cbs ToReturn))"
| Count: "T i = Handling e n \<Longrightarrow> thread_step E Ordinary (s, T) (count_event E e s, T(i := Dispatching e))"
| Begin: "T i = Dispatching e \<Longrightarrow> begin_event e s = (pc, s') \<Longrightarrow> thread_step E Ordinary (s, T) (s', T(i := pc))"
| Calls: "T i = HandlerRuns \<Longrightarrow> sched_step E s s' \<Longrightarrow> thread_step E Ordinary (s, T) (s', T)"
| Returns: "T i = HandlerRuns \<Longrightarrow> thread_step E Ordinary (s, T) (s, T(i := Resuming))"
| Raises: "T i = HandlerRuns \<Longrightarrow> thread_step E Ordinary (s, T) (s, T(i := Releasing))"
| Resume: "T i = Resuming \<Longrightarrow> task_source_resume_callbacks_locked s = (cbs, s') \<Longrightarrow>
    thread_step E Ordinary (s, T) (s', T(i := Callbacks cbs ToTake))"
| Release: "T i = Releasing \<Longrightarrow> drain_release s = (cbs, s') \<Longrightarrow>
    thread_step E Ordinary (s, T) (s', T(i := Callbacks cbs ToRaise))"
| Fails: "T i = Raising \<Longrightarrow> thread_step E Ordinary (s, T) (snd (scheduler_fail E reason s), T(i := Finished))"
| Leaves: "T i = Raising \<Longrightarrow> thread_step E Abandoned (s, T) (s, T(i := Finished))"
| OtherFails: "thread_step E Ordinary (s, T) (snd (scheduler_fail E reason s), T)"
| OtherCloses: "thread_step E Ordinary (s, T) (snd (scheduler_close E s), T)"
| OtherCalls: "sched_step E s s' \<Longrightarrow> qsc_events s' = qsc_events s \<Longrightarrow> qsc_state s' = qsc_state s \<Longrightarrow>
    thread_step E Ordinary (s, T) (s', T)"

text \<open>The steps with the history of the run.\<close>

type_synonym history = "step_kind list \<times> config"

inductive run_step :: "scheduler_env \<Rightarrow> history \<Rightarrow> history \<Rightarrow> bool" for E where
  "thread_step E k c c' \<Longrightarrow> run_step E (ks, c) (ks @ [k], c')"

section \<open>One writer, and nobody sleeps on a full queue\<close>

definition owns :: "thread_pc \<Rightarrow> bool" where
  "owns pc = (case pc of Taking \<Rightarrow> True | Handling _ _ \<Rightarrow> True | Dispatching _ \<Rightarrow> True | HandlerRuns \<Rightarrow> True | Resuming \<Rightarrow> True
     | Callbacks _ k \<Rightarrow> k = ToTake | Releasing \<Rightarrow> True | _ \<Rightarrow> False)"

definition awake :: "thread_pc \<Rightarrow> bool" where
  "awake pc = (owns pc \<or> (case pc of Entering \<Rightarrow> True | Raising \<Rightarrow> True | Callbacks _ k \<Rightarrow> k \<noteq> ToReturn | _ \<Rightarrow> False))"

definition one_writer :: "config \<Rightarrow> bool" where
  "one_writer c = ((\<forall>i j. owns (snd c i) \<and> owns (snd c j) \<longrightarrow> i = j) \<and> (qsc_draining (fst c) \<longleftrightarrow> (\<exists>i. owns (snd c i))))"

text \<open>
  Every paused source waits for a queue above its low watermark, but for the time between taking an event and looking at the
  sources again; so a drain that finds the queue empty has no callback to run after it gave up the slot.
\<close>

definition paused_full :: "query_scheduler \<Rightarrow> bool" where
  "paused_full s = list_all (\<lambda>r. rgs_paused r \<longrightarrow> rgs_low_watermark r < int (length (qsc_events s))) (dict_values (qsc_task_sources s))"

definition midway :: "thread_pc \<Rightarrow> bool" where
  "midway pc = (case pc of Handling _ _ \<Rightarrow> True | Dispatching _ \<Rightarrow> True | HandlerRuns \<Rightarrow> True | Resuming \<Rightarrow> True | Releasing \<Rightarrow> True | _ \<Rightarrow> False)"

definition sources_wait :: "config \<Rightarrow> bool" where
  "sources_wait c = ((\<exists>i. midway (snd c i)) \<or> paused_full (fst c))"

definition none_after :: "config \<Rightarrow> bool" where
  "none_after c = (\<forall>i cbs. snd c i = Callbacks cbs ToReturn \<longrightarrow> cbs = [])"

definition nobody_sleeps :: "config \<Rightarrow> bool" where
  "nobody_sleeps c = (qsc_state (fst c) \<in> {RUNNING, ABORTED} \<and> qsc_events (fst c) \<noteq> [] \<longrightarrow> (\<exists>i. awake (snd c i)))"

definition threads_ok :: "history \<Rightarrow> bool" where
  "threads_ok h =
     (sched_ok (fst (snd h)) \<and> one_writer (snd h) \<and> sources_wait (snd h) \<and> none_after (snd h) \<and>
      (Abandoned \<notin> set (fst h) \<longrightarrow> nobody_sleeps (snd h)))"

lemma owns_simps [simp]:
  "\<not> owns (Enqueuing e p)" "\<not> owns Entering" "owns Taking" "owns (Handling e n)" "owns (Dispatching e)" "owns HandlerRuns"
  "owns Resuming" "owns Releasing" "\<not> owns Raising" "\<not> owns Finished" "owns (Callbacks cbs k) = (k = ToTake)"
  by (simp_all add: owns_def)

lemma awake_simps [simp]:
  "\<not> awake (Enqueuing e p)" "awake Entering" "awake Taking" "awake (Handling e n)" "awake (Dispatching e)" "awake HandlerRuns"
  "awake Resuming" "awake Releasing" "awake Raising" "\<not> awake Finished" "awake (Callbacks cbs k) = (k \<noteq> ToReturn)"
  by (auto simp: awake_def)

lemma midway_simps [simp]:
  "\<not> midway (Enqueuing e p)" "\<not> midway Entering" "\<not> midway Taking" "midway (Handling e n)" "midway (Dispatching e)"
  "midway HandlerRuns" "midway Resuming" "midway Releasing" "\<not> midway Raising" "\<not> midway Finished" "\<not> midway (Callbacks cbs k)"
  by (simp_all add: midway_def)

lemma continue_simps [simp]:
  "owns (continue k) = (k = ToTake)" "awake (continue k) = (k \<noteq> ToReturn)" "\<not> midway (continue k)" "continue k \<noteq> Callbacks cbs k'"
  by (cases k; simp add: continue_def)+

lemma interrupted_simps [simp]:
  "owns (interrupted k) = (k = ToTake \<or> k = ToReturn)" "awake (interrupted k)" "interrupted k \<noteq> Callbacks cbs k'"
  by (cases k; simp add: interrupted_def)+

text \<open>A step of thread \<open>i\<close> keeps the slot as it is, takes it, or gives it up.\<close>

definition moves :: "bool \<Rightarrow> bool \<Rightarrow> bool \<Rightarrow> bool \<Rightarrow> bool" where
  "moves before after slot slot' =
     (after = before \<and> slot' = slot \<or> \<not> slot \<and> after \<and> slot' \<or> before \<and> \<not> after \<and> \<not> slot')"

lemma one_writer_moves:
  assumes "one_writer (s, T)" and "moves (owns (T i)) (owns pc) (qsc_draining s) (qsc_draining s')"
  shows "one_writer (s', T(i := pc))"
  using assms unfolding one_writer_def moves_def fst_conv snd_conv by (metis fun_upd_apply)

lemma sources_wait_moves:
  assumes "sources_wait (s, T)" and "midway pc \<or> (\<not> midway (T i) \<and> (paused_full s \<longrightarrow> paused_full s')) \<or> paused_full s'"
  shows "sources_wait (s', T(i := pc))"
  using assms unfolding sources_wait_def fst_conv snd_conv by (metis fun_upd_apply)

lemma none_after_moves: "none_after (s, T) \<Longrightarrow> (\<And>cbs. pc = Callbacks cbs ToReturn \<Longrightarrow> cbs = []) \<Longrightarrow> none_after (s', T(i := pc))"
  by (auto simp: none_after_def)

lemma nobody_sleeps_awake: "awake pc \<Longrightarrow> nobody_sleeps (s, T(i := pc))"
  by (auto simp: nobody_sleeps_def)

lemma nobody_sleeps_empty: "qsc_events s = [] \<or> qsc_state s \<in> {FAILED, CLOSED} \<Longrightarrow> nobody_sleeps (s, T)"
  by (auto simp: nobody_sleeps_def)

lemma nobody_sleeps_same:
  assumes "nobody_sleeps (s, T)" and "\<not> awake (T i)" and "qsc_events s' = qsc_events s" and "qsc_state s' = qsc_state s"
  shows "nobody_sleeps (s', T(i := pc))"
  using assms unfolding nobody_sleeps_def fst_conv snd_conv by (metis fun_upd_apply)

section \<open>The sections\<close>

lemma count_event_ok:
  assumes "sched_ok s"
  shows "sched_ok (count_event E e s) \<and> qsc_draining (count_event E e s) = qsc_draining s"
  using noted_ok [OF assms, of e E] by (auto simp: count_event_def note_progress_def Let_def)

lemma begin_event_ok:
  assumes "sched_ok s" and "begin_event e s = (pc, s')"
  shows "sched_ok s' \<and> qsc_draining s' = qsc_draining s \<and> owns pc \<and> midway pc"
proof -
  have "sched_ok (s\<lparr>qsc_retry_delay_timer := None\<rparr>)"
    using assms(1) by (simp add: sched_ok_def sched_defs objects_ok_def)
  then show ?thesis
    using assms cleared_ok(2) [OF assms(1)] by (cases e) (auto simp: begin_event_def abort_query_def split: if_splits)
qed

lemma drain_take_ok:
  assumes "sched_ok s" and "drain_take hs s = ((next, cbs), s')"
  shows "sched_ok s' \<and> (next = None \<longrightarrow> qsc_events s' = [] \<and> \<not> qsc_draining s') \<and> (next \<noteq> None \<longrightarrow> qsc_draining s' = qsc_draining s)"
proof (cases "qsc_events s")
  case Nil
  have "s' = snd (task_source_resume_callbacks_locked (s\<lparr>qsc_draining := False\<rparr>))" "next = None"
    using assms(2) Nil by (auto simp: drain_take_def split: prod.splits)
  then show ?thesis using resume_callbacks_ok [of "s\<lparr>qsc_draining := False\<rparr>"] assms(1) Nil by simp
next
  case (Cons e es)
  then show ?thesis using queue_tail_ok [OF assms(1) Cons] assms(2) by (auto simp: drain_take_def)
qed

lemma scheduler_fail_ok:
  assumes "quiet E" and "sched_ok s"
  shows "sched_ok (snd (scheduler_fail E reason s)) \<and> qsc_draining (snd (scheduler_fail E reason s)) = qsc_draining s \<and>
    (qsc_events (snd (scheduler_fail E reason s)) = [] \<or> qsc_state (snd (scheduler_fail E reason s)) \<in> {FAILED, CLOSED})"
proof -
  note o = with_callbacks_only [OF assms(1), of "fail_locked reason" s]
  have "qsc_events (snd (fail_locked reason s)) = [] \<or> qsc_state (snd (fail_locked reason s)) \<in> {FAILED, CLOSED}"
    by (simp add: fail_locked_def)
  then show ?thesis using fail_keeps [OF assms, of reason] only_objects_fields [OF o]
    by (simp add: sched_keeps_def scheduler_fail_def)
qed

lemma scheduler_close_ok:
  assumes "quiet E" and "sched_ok s"
  shows "sched_ok (snd (scheduler_close E s)) \<and> qsc_draining (snd (scheduler_close E s)) = qsc_draining s \<and>
    qsc_events (snd (scheduler_close E s)) = []"
proof -
  note o = with_callbacks_only [OF assms(1), of close_locked s]
  have "qsc_events (snd (close_locked s)) = []" by (simp add: close_locked_def)
  then show ?thesis using close_keeps [OF assms] only_objects_fields [OF o]
    by (simp add: sched_keeps_def scheduler_close_def)
qed

section \<open>Paused sources\<close>

lemma resume_paused_full: "paused_full (snd (task_source_resume_callbacks_locked s))"
  by (auto simp: paused_full_def task_source_resume_callbacks_locked_def Let_def resume_due_def list_all_iff)

lemma pause_paused_full:
  assumes "paused_full s" and "list_all (\<lambda>r. rgs_low_watermark r < rgs_high_watermark r) (dict_values (qsc_task_sources s))"
  shows "paused_full (snd (task_source_pause_callbacks_locked s))"
  using assms by (fastforce simp: paused_full_def task_source_pause_callbacks_locked_def Let_def pause_due_def list_all_iff)

lemma sources_below: "sched_ok s \<Longrightarrow> list_all (\<lambda>r. rgs_low_watermark r < rgs_high_watermark r) (dict_values (qsc_task_sources s))"
  by (auto simp: sched_ok_def sources_ok_def list_all_iff registration_ok_def)

lemma paused_full_cong:
  "qsc_events t = qsc_events s \<Longrightarrow> qsc_task_sources t = qsc_task_sources s \<Longrightarrow> paused_full t = paused_full s"
  by (simp add: paused_full_def)

lemma with_callbacks_full:
  assumes "quiet E" and "paused_full (snd (f s))"
  shows "paused_full (snd (with_callbacks E f s))"
  using assms(2) only_objects_fields [OF with_callbacks_only [OF assms(1), of f s]] paused_full_cong by metis

lemma enqueue_locked_full:
  assumes "sched_ok s" and "paused_full s"
  shows "paused_full (snd (enqueue_locked e priority s))"
proof (cases rule: enqueue_locked_cases [of e priority s])
  case Ignored
  then show ?thesis using assms by simp
next
  case Queued
  show ?thesis unfolding Queued(1)
    by (rule pause_paused_full) (use assms sources_below [OF assms(1)] in \<open>auto simp: paused_full_def list_all_iff\<close>)
qed

lemma register_locked_full:
  assumes "sched_ok s" and "paused_full s" and "\<not> rgs_paused r" and "rgs_low_watermark r < rgs_high_watermark r"
  shows "paused_full (snd (register_locked sid r s))"
proof -
  let ?t = "s\<lparr>qsc_task_sources := dict_set sid r (qsc_task_sources s)\<rparr>"
  have "paused_full (snd (task_source_pause_callbacks_locked ?t))"
  proof (rule pause_paused_full)
    show "paused_full ?t" using assms(2,3) by (simp add: paused_full_def list_all_values_set)
    show "list_all (\<lambda>r. rgs_low_watermark r < rgs_high_watermark r) (dict_values (qsc_task_sources ?t))"
      using assms(4) sources_below [OF assms(1)] by (simp add: list_all_values_set)
  qed
  then show ?thesis by (simp add: register_locked_def split: prod.split) (metis snd_conv)
qed

lemma register_full:
  assumes "quiet E" and "sched_ok s" and "paused_full s"
  shows "paused_full (snd (register_task_source E sid p r h l s))"
proof -
  have "\<not> rgs_paused (mk_registration x p r h l)" for x by (simp add: mk_registration_def Let_def)
  then show ?thesis
    using assms registration_bounds register_locked_full [OF assms(2,3)] by (simp add: register_task_source_def Let_def with_callbacks_full)
qed

lemma unregister_full:
  assumes "quiet E" and "paused_full s"
  shows "paused_full (snd (unregister_task_source E sid resume s))"
  unfolding unregister_task_source_def
  by (rule with_callbacks_full [OF assms(1)]) (use assms(2) in \<open>simp add: paused_full_def list_all_values_pop\<close>)

lemma fail_locked_full: "paused_full s \<Longrightarrow> paused_full (snd (fail_locked reason s))"
  by (simp add: fail_locked_def resume_paused_full)

lemma fail_full: "quiet E \<Longrightarrow> paused_full s \<Longrightarrow> paused_full (snd (scheduler_fail E reason s))"
  unfolding scheduler_fail_def by (intro with_callbacks_full fail_locked_full)

lemma close_full: "quiet E \<Longrightarrow> paused_full (snd (scheduler_close E s))"
  unfolding scheduler_close_def by (rule with_callbacks_full) (simp_all add: close_locked_def paused_full_def)

lemma on_source_full: "paused_full (on_source n f s) = paused_full s"
  by (simp add: on_source_def paused_full_def split: option.split)

lemma sched_step_full:
  assumes "quiet E" and "sched_ok s" and "paused_full s" and "sched_step E s t"
  shows "paused_full t"
  using assms(4)
proof cases
  case (Enqueue e priority)
  then show ?thesis using assms enqueue_locked_full [OF assms(2,3)] by (simp add: enqueue_def with_callbacks_full)
next
  case (NewSource n sid h l)
  let ?t = "\<lparr>tsk_source_id = strip sid, tsk_pause_count = 0, tsk_resume_count = 0, tsk_paused = False, tsk_closed = False\<rparr>"
  have "sched_ok (s\<lparr>qsc_source_objects := dict_set n ?t (qsc_source_objects s)\<rparr>)"
    using objects_keeps [OF assms(2), of ?t n] by (simp add: object_ok_def sched_keeps_def)
  moreover have "paused_full (s\<lparr>qsc_source_objects := dict_set n ?t (qsc_source_objects s)\<rparr>)"
    using assms(3) by (simp add: paused_full_def)
  ultimately show ?thesis using NewSource assms(3) register_full [OF assms(1)] by (simp add: mk_task_source_def Let_def)
next
  case (CloseSource n)
  then show ?thesis using assms(3) unregister_full [OF assms(1)] on_source_full
    by (simp add: source_close_def split: option.split)
next
  case (Execute c)
  have same: "t\<lparr>qsc_command_counts := [], qsc_lane := []\<rparr> = s\<lparr>qsc_command_counts := [], qsc_lane := []\<rparr>"
    using execute_only_commands [of s E c] Execute by (simp add: only_commands_def)
  have "qsc_events t = qsc_events s" "qsc_task_sources t = qsc_task_sources s"
    using arg_cong [OF same, of qsc_events] arg_cong [OF same, of qsc_task_sources] by simp_all
  then show ?thesis using assms(3) paused_full_cong by metis
qed (use assms(3) register_full [OF assms(1,2)] unregister_full [OF assms(1)] fail_full [OF assms(1)] close_full [OF assms(1)] on_source_full
  in \<open>auto simp: put_fragment_state_def record_worker_failure_def arm_retry_delay_def set_handlers_def scheduler_stats_of_def
    paused_full_def Let_def split: option.split prod.split\<close>)

lemma drain_take_full:
  assumes "sched_ok s" and "drain_take hs s = ((None, cbs), s')"
  shows "paused_full s'" and "paused_full s \<Longrightarrow> cbs = []"
proof -
  have e: "qsc_events s = []" and r: "task_source_resume_callbacks_locked (s\<lparr>qsc_draining := False\<rparr>) = (cbs, s')"
    using assms(2) by (auto simp: drain_take_def split: list.splits prod.splits)
  show "paused_full s'" using resume_paused_full [of "s\<lparr>qsc_draining := False\<rparr>"] r by simp
  show "cbs = []" if "paused_full s"
  proof -
    have "\<not> resume_due 0 r" if "r \<in> set (dict_values (qsc_task_sources s))" for r
      using that \<open>paused_full s\<close> assms(1) e
      by (auto simp: paused_full_def resume_due_def sched_ok_def sources_ok_def registration_ok_def list_all_iff)
    then have "filter (resume_due 0) (dict_values (qsc_task_sources s)) = []" by (simp add: filter_empty_conv)
    then show ?thesis using r e by (simp add: task_source_resume_callbacks_locked_def Let_def)
  qed
qed

section \<open>Steps keep the invariant\<close>

lemma threads_okI:
  assumes "threads_ok (ks, (s, T))" and "sched_ok s'"
    and "moves (owns (T i)) (owns pc) (qsc_draining s) (qsc_draining s')"
    and "midway pc \<or> (\<not> midway (T i) \<and> (paused_full s \<longrightarrow> paused_full s')) \<or> paused_full s'"
    and "\<And>cbs. pc = Callbacks cbs ToReturn \<Longrightarrow> cbs = []"
    and "k \<noteq> Abandoned \<Longrightarrow> nobody_sleeps (s, T) \<Longrightarrow> nobody_sleeps (s', T(i := pc))"
  shows "threads_ok (ks @ [k], (s', T(i := pc)))"
  using assms one_writer_moves [of s T i pc s'] sources_wait_moves [of s T pc i s'] none_after_moves [of s T pc s' i]
  by (auto simp: threads_ok_def)

lemma threads_ok_other:
  assumes "threads_ok (ks, (s, T))" and "sched_ok s'" and "qsc_draining s' = qsc_draining s"
    and "paused_full s \<Longrightarrow> paused_full s' \<or> midway (T i)" and "nobody_sleeps (s, T) \<Longrightarrow> nobody_sleeps (s', T)"
  shows "threads_ok (ks @ [Ordinary], (s', T))"
  using assms by (auto simp: threads_ok_def one_writer_def sources_wait_def none_after_def)

text \<open>Steps that leave the slot alone.\<close>

lemma threads_ok_same:
  assumes "threads_ok (ks, (s, T))" and "sched_ok s'" and "qsc_draining s' = qsc_draining s" and "owns pc = owns (T i)"
    and "midway pc \<or> (\<not> midway (T i) \<and> (paused_full s \<longrightarrow> paused_full s')) \<or> paused_full s'"
    and "\<And>cbs. pc = Callbacks cbs ToReturn \<Longrightarrow> cbs = []"
    and "k \<noteq> Abandoned \<Longrightarrow> nobody_sleeps (s, T) \<Longrightarrow> nobody_sleeps (s', T(i := pc))"
  shows "threads_ok (ks @ [k], (s', T(i := pc)))"
  by (rule threads_okI [OF assms(1,2)]) (use assms in \<open>auto simp: moves_def\<close>)

lemma callback_step_ok:
  assumes "quiet E" and "sched_ok s" and "run_callback E c s = (r, s')"
  shows "sched_ok s' \<and> qsc_draining s' = qsc_draining s \<and> qsc_events s' = qsc_events s \<and> qsc_state s' = qsc_state s \<and>
    paused_full s' = paused_full s"
proof -
  have "only_objects s s'" using run_callback_only [OF assms(1), of s c] assms(3) by simp
  then show ?thesis using only_objects_ok [OF _ assms(2)] only_objects_fields [of s s'] by (simp add: paused_full_def)
qed

lemma taker_full:
  assumes "threads_ok (ks, (s, T))" and "T i = Taking"
  shows "paused_full s"
proof -
  have "\<not> midway (T j)" for j
  proof
    assume m: "midway (T j)"
    then have "owns (T j)" by (cases "T j") simp_all
    moreover have "owns (T i)" using assms(2) by simp
    ultimately have "i = j" using assms(1) by (simp add: threads_ok_def one_writer_def)
    then show False using m assms(2) by simp
  qed
  then show ?thesis using assms(1) by (simp add: threads_ok_def sources_wait_def)
qed

lemma callback_raises_ok:
  assumes "quiet E" and "threads_ok (ks, (s, T))" and "T i = Callbacks (c # cbs) k" and "run_callback E c s = (Inl err, s')"
  shows "threads_ok (ks @ [Ordinary], (s', T(i := interrupted k)))"
proof -
  have "sched_ok s" using assms(2) by (simp add: threads_ok_def)
  note c = callback_step_ok [OF assms(1) this assms(4)]
  have "k \<noteq> ToReturn" using assms(2,3) by (auto simp: threads_ok_def none_after_def)
  moreover have "threads_ok (ks @ [Ordinary], (s', T(i := interrupted k)))" if "k \<noteq> ToReturn"
    by (rule threads_ok_same [OF assms(2)]) (use that c assms(3) in \<open>simp_all add: nobody_sleeps_awake\<close>)
  ultimately show ?thesis by blast
qed

lemma thread_step_ok:
  assumes "quiet E" and "threads_ok (ks, (s, T))" and "thread_step E k (s, T) (s', T')"
  shows "threads_ok (ks @ [k], (s', T'))"
proof -
  have ok: "sched_ok s" using assms(2) by (simp add: threads_ok_def)
  note same = threads_ok_same [OF assms(2)] and other = threads_ok_other [OF assms(2)]
  show ?thesis using assms(3)
  proof cases
    case (StartEnqueue i e priority)
    then show ?thesis using nobody_sleeps_same [of s T i s] by (auto intro!: same ok)
  next
    case (StartDrain i)
    then show ?thesis by (auto intro!: same ok nobody_sleeps_awake)
  next
    case (Refused i e priority)
    then show ?thesis using nobody_sleeps_same [of s T i s] by (auto intro!: same ok)
  next
    case (EnqueueSection i e priority cbs)
    have "sched_ok s'" using enqueue_locked_ok [OF ok EnqueueSection(4), of priority] EnqueueSection(5) by simp
    moreover have "qsc_draining (snd (enqueue_locked e priority s)) = qsc_draining s"
      by (cases rule: enqueue_locked_cases [of e priority s]) simp_all
    ultimately show ?thesis using EnqueueSection enqueue_locked_full [OF ok, of e priority]
      by (auto intro!: same nobody_sleeps_awake)
  next
    case (CallbackReturns i c cbs k' x)
    note c = callback_step_ok [OF assms(1) ok CallbackReturns(4)]
    moreover have "k' \<noteq> ToReturn" using assms(2) CallbackReturns(3) by (auto simp: threads_ok_def none_after_def)
    ultimately show ?thesis using CallbackReturns by (auto intro!: same nobody_sleeps_awake)
  next
    case (CallbackRaises i c cbs k' err)
    then show ?thesis using callback_raises_ok [OF assms(1,2)] by simp
  next
    case (CallbacksDone i k')
    then show ?thesis using nobody_sleeps_same [of s T i s] nobody_sleeps_awake [of "continue k'" s T i]
      by (cases "k' = ToReturn") (auto intro!: same ok)
  next
    case (Busy i)
    then have d: "qsc_draining s" "s' = s" by (simp_all add: drain_enter_def split: if_splits)
    then obtain j where j: "owns (T j)" using assms(2) by (auto simp: threads_ok_def one_writer_def)
    then have "awake (T' j)" using Busy by (auto simp: awake_def)
    then have "nobody_sleeps (s, T')" unfolding nobody_sleeps_def snd_conv by blast
    then show ?thesis using Busy d by (auto intro!: same ok)
  next
    case (Enter i)
    then have d: "\<not> qsc_draining s" "s' = s\<lparr>qsc_draining := True\<rparr>" by (simp_all add: drain_enter_def split: if_splits)
    then show ?thesis using Enter ok by (auto intro!: threads_okI [OF assms(2)] nobody_sleeps_awake simp: moves_def paused_full_def)
  next
    case (GivesUp i)
    then show ?thesis by (auto intro!: same ok)
  next
    case (Take i hs e n cbs)
    then show ?thesis using drain_take_ok [OF ok Take(4)] by (auto intro!: same nobody_sleeps_awake)
  next
    case (Empty i hs cbs)
    then show ?thesis using drain_take_ok [OF ok Empty(4)] drain_take_full [OF ok Empty(4)] taker_full [OF assms(2) Empty(3)]
      by (auto intro!: threads_okI [OF assms(2)] nobody_sleeps_empty simp: moves_def)
  next
    case (Count i e n)
    then show ?thesis using count_event_ok [OF ok, of E e] by (auto intro!: same nobody_sleeps_awake)
  next
    case (Begin i e pc)
    note b = begin_event_ok [OF ok Begin(4)]
    then have "awake pc" "pc \<noteq> Callbacks cbs k'" for cbs k' by (auto simp: awake_def)
    then show ?thesis using Begin b by (auto intro!: same nobody_sleeps_awake)
  next
    case (Calls i)
    have "sched_keeps s s'" by (rule sched_step_keeps [OF assms(1) ok Calls(4)])
    moreover have "nobody_sleeps (s', T(i := T i))" by (rule nobody_sleeps_awake) (simp add: Calls(3))
    then have "nobody_sleeps (s', T)" by simp
    ultimately show ?thesis using Calls(1-3) other [of s' i] by (simp add: sched_keeps_def)
  next
    case (Returns i)
    then show ?thesis by (auto intro!: same ok nobody_sleeps_awake)
  next
    case (Raises i)
    then show ?thesis by (auto intro!: same ok nobody_sleeps_awake)
  next
    case (Resume i cbs)
    then have "s' = snd (task_source_resume_callbacks_locked s)" by simp
    then have "sched_ok s' \<and> qsc_draining s' = qsc_draining s \<and> paused_full s'"
      using resume_callbacks_ok [OF ok] resume_paused_full [of s] by simp
    then show ?thesis using Resume by (auto intro!: same nobody_sleeps_awake)
  next
    case (Release i cbs)
    then have "s' = snd (task_source_resume_callbacks_locked (s\<lparr>qsc_draining := False\<rparr>))" by (simp add: drain_release_def)
    then have "sched_ok s' \<and> \<not> qsc_draining s' \<and> paused_full s'"
      using resume_callbacks_ok [of "s\<lparr>qsc_draining := False\<rparr>"] resume_paused_full [of "s\<lparr>qsc_draining := False\<rparr>"] ok by simp
    then show ?thesis using Release by (auto intro!: threads_okI [OF assms(2)] nobody_sleeps_awake simp: moves_def)
  next
    case (Fails i reason)
    then show ?thesis using scheduler_fail_ok [OF assms(1) ok, of reason] fail_full [OF assms(1)]
      by (auto intro!: same nobody_sleeps_empty)
  next
    case (Leaves i)
    then show ?thesis by (auto intro!: same ok)
  next
    case (OtherFails reason)
    then show ?thesis using scheduler_fail_ok [OF assms(1) ok, of reason] fail_full [OF assms(1)] other
      by (simp add: nobody_sleeps_empty)
  next
    case OtherCloses
    then show ?thesis using scheduler_close_ok [OF assms(1) ok] close_full [OF assms(1)] other by (simp add: nobody_sleeps_empty)
  next
    case OtherCalls
    have "sched_keeps s s'" by (rule sched_step_keeps [OF assms(1) ok OtherCalls(3)])
    moreover have "nobody_sleeps (s', T)" if "nobody_sleeps (s, T)" using that OtherCalls by (simp add: nobody_sleeps_def)
    moreover have "paused_full s'" if "paused_full s" by (rule sched_step_full [OF assms(1) ok that OtherCalls(3)])
    ultimately show ?thesis using OtherCalls other by (simp add: sched_keeps_def)
  qed
qed

interpretation threads: monotone_system "run_step E" "\<lambda>h. quiet E \<and> threads_ok h" "\<lambda>h h'. \<exists>ks. fst h' = fst h @ ks" for E
proof unfold_locales
  show "quiet E \<and> threads_ok h'" if "quiet E \<and> threads_ok h" "run_step E h h'" for h h'
    using that(2,1)
  proof cases
    case (1 k c c' ks)
    then show ?thesis using that(1) thread_step_ok [of E ks "fst c" "snd c" k "fst c'" "snd c'"] by simp
  qed
  show "\<exists>ks. fst h' = fst h @ ks" if "run_step E h h'" for h h' using that by cases auto
qed auto

text \<open>
  C3. No wakeup is lost, and there is one writer, for any number of threads that enqueue events and drain the scheduler in any
  interleaving, with handlers and callbacks of task sources that return or raise, handlers that call methods of the scheduler, and
  other threads that fail or close it or call its other methods. The callbacks themselves do not act on the scheduler. At most
  one thread is between taking the writer slot and giving it up, and the slot is marked exactly then. As long as every
  caller that got an exception has failed the scheduler, and every caller that enqueued went on to drain, no event is left in
  the queue once all calls have ended and the scheduler runs or was aborted, although a thread that finds the slot taken
  returns at once.
\<close>

theorem no_lost_wakeup:
  assumes "mk_scheduler q = Inr s0" and "quiet E" and "(run_step E)\<^sup>*\<^sup>* ([], (s0, \<lambda>_. Finished)) (ks, (s, T))"
  shows "(\<forall>i j. owns (T i) \<and> owns (T j) \<longrightarrow> i = j) \<and> (qsc_draining s \<longleftrightarrow> (\<exists>i. owns (T i))) \<and>
         (Abandoned \<notin> set ks \<and> (\<forall>i. T i = Finished) \<and> qsc_state s \<in> {RUNNING, ABORTED} \<longrightarrow> qsc_events s = [])"
proof -
  have "\<not> qsc_draining s0" "qsc_events s0 = []" "qsc_task_sources s0 = []"
    using assms(1) by (auto simp: mk_scheduler_def split: if_splits)
  then have "threads_ok ([], (s0, \<lambda>_. Finished))"
    using mk_scheduler_ok [OF assms(1)]
    by (simp add: threads_ok_def one_writer_def sources_wait_def none_after_def paused_full_def nobody_sleeps_def)
  then have ok: "threads_ok (ks, (s, T))" using threads.reach_inv [OF _ assms(3)] assms(2) by blast
  have "qsc_events s = []" if "Abandoned \<notin> set ks" "\<forall>i. T i = Finished" "qsc_state s \<in> {RUNNING, ABORTED}"
    using ok that by (simp add: threads_ok_def nobody_sleeps_def) blast
  then show ?thesis using ok unfolding threads_ok_def one_writer_def by auto
qed

section \<open>Runs\<close>

text \<open>The moves of a run: thread \<open>i\<close> goes on, its handler raises, it leaves after an exception, or it begins to enqueue an event.\<close>

datatype move = Go nat | RaiseAt nat | LeaveAt nat | StartAt nat fte_event

fun move_thread :: "move \<Rightarrow> nat" where
  "move_thread (Go i) = i"
| "move_thread (RaiseAt i) = i"
| "move_thread (LeaveAt i) = i"
| "move_thread (StartAt i e) = i"

definition go :: "scheduler_env \<Rightarrow> thread_pc \<Rightarrow> query_scheduler \<Rightarrow> step_kind \<times> query_scheduler \<times> thread_pc" where
  "go E pc s =
     (case pc of
        Enqueuing e p \<Rightarrow>
          if event_query_id e = qsc_query_id s then let (cbs, s') = enqueue_locked e p s in (Ordinary, s', Callbacks cbs ToDrain)
          else (Ordinary, s, Finished)
      | Callbacks [] k \<Rightarrow> (Ordinary, s, continue k)
      | Callbacks (c # cbs) k \<Rightarrow>
          (case run_callback E c s of (Inr _, s') \<Rightarrow> (Ordinary, s', Callbacks cbs k) | (Inl _, s') \<Rightarrow> (Ordinary, s', interrupted k))
      | Entering \<Rightarrow> let (entered, s') = drain_enter s in (Ordinary, s', if entered then Taking else Finished)
      | Taking \<Rightarrow>
          (case drain_take None s of
             ((None, cbs), s') \<Rightarrow> (Ordinary, s', Callbacks cbs ToReturn)
           | ((Some (e, n), _), s') \<Rightarrow> (Ordinary, s', Handling e n))
      | Handling e n \<Rightarrow> (Ordinary, count_event E e s, Dispatching e)
      | Dispatching e \<Rightarrow> let (pc', s') = begin_event e s in (Ordinary, s', pc')
      | HandlerRuns \<Rightarrow> (Ordinary, s, Resuming)
      | Resuming \<Rightarrow> let (cbs, s') = task_source_resume_callbacks_locked s in (Ordinary, s', Callbacks cbs ToTake)
      | Releasing \<Rightarrow> let (cbs, s') = drain_release s in (Ordinary, s', Callbacks cbs ToRaise)
      | Raising \<Rightarrow> (Ordinary, snd (scheduler_fail E None s), Finished)
      | Finished \<Rightarrow> (Ordinary, s, Entering))"

lemma go_step:
  assumes "go E (T i) s = (k, s', pc)"
  shows "thread_step E k (s, T) (s', T(i := pc))"
proof (cases "T i")
  case (Enqueuing e p)
  then show ?thesis using assms by (auto simp: go_def Let_def intro: thread_step.intros split: if_splits prod.splits)
next
  case (Callbacks cbs k')
  then show ?thesis using assms
    by (cases cbs) (auto simp: go_def Let_def intro: thread_step.intros split: prod.splits sum.splits)
next
  case Entering
  then show ?thesis using assms
    by (cases "fst (drain_enter s)") (auto simp: go_def Let_def intro: Enter Busy split: prod.splits)
next
  case Taking
  then show ?thesis using assms by (auto simp: go_def intro: Take Empty split: prod.splits option.splits)
next
  case (Handling e n)
  then show ?thesis using assms by (auto simp: go_def intro: Count)
next
  case (Dispatching e)
  then show ?thesis using assms by (auto simp: go_def Let_def intro: Begin split: prod.splits)
next
  case HandlerRuns
  then show ?thesis using assms by (auto simp: go_def intro: Returns)
next
  case Resuming
  then show ?thesis using assms by (auto simp: go_def Let_def intro: Resume split: prod.splits)
next
  case Releasing
  then show ?thesis using assms by (auto simp: go_def Let_def intro: Release split: prod.splits)
next
  case Raising
  then show ?thesis using assms by (auto simp: go_def intro: Fails)
next
  case Finished
  then show ?thesis using assms by (auto simp: go_def intro: StartDrain)
qed

fun thread_next :: "scheduler_env \<Rightarrow> move \<Rightarrow> history \<Rightarrow> history" where
  "thread_next E (Go i) (ks, (s, T)) = (let (k, s', pc) = go E (T i) s in (ks @ [k], (s', T(i := pc))))"
| "thread_next E (RaiseAt i) (ks, (s, T)) =
     (if T i = HandlerRuns then (ks @ [Ordinary], (s, T(i := Releasing))) else (ks, (s, T)))"
| "thread_next E (LeaveAt i) (ks, (s, T)) =
     (if T i = Raising then (ks @ [Abandoned], (s, T(i := Finished))) else (ks, (s, T)))"
| "thread_next E (StartAt i e) (ks, (s, T)) =
     (if T i = Finished then (ks @ [Ordinary], (s, T(i := Enqueuing e False))) else (ks, (s, T)))"

lemma thread_next_step: "(run_step E)\<^sup>*\<^sup>* h (thread_next E m h)"
proof -
  obtain ks s T where h: "h = (ks, (s, T))" by (cases h) auto
  have "thread_next E m (ks, (s, T)) = (ks, (s, T)) \<or> run_step E (ks, (s, T)) (thread_next E m (ks, (s, T)))"
  proof (cases m)
    case (Go i)
    obtain k s' pc where g: "go E (T i) s = (k, s', pc)" by (cases "go E (T i) s") auto
    then show ?thesis using go_step [of E T i s k s' pc] by (simp add: Go run_step.intros)
  next
    case (RaiseAt i)
    then show ?thesis by (simp add: run_step.intros Raises)
  next
    case (LeaveAt i)
    then show ?thesis by (simp add: run_step.intros Leaves)
  next
    case (StartAt i e)
    then show ?thesis by (simp add: run_step.intros StartEnqueue)
  qed
  then show ?thesis using h by auto
qed

definition run_schedule :: "scheduler_env \<Rightarrow> move list \<Rightarrow> history \<Rightarrow> history" where
  "run_schedule E ms h = fold (thread_next E) ms h"

lemma run_schedule_steps: "(run_step E)\<^sup>*\<^sup>* h (run_schedule E ms h)"
proof (induction ms arbitrary: h)
  case (Cons m ms)
  then show ?case using rtranclp_trans [OF thread_next_step Cons.IH [of "thread_next E m h"]] by (simp add: run_schedule_def)
qed (simp add: run_schedule_def)

lemma run_schedule_others: "\<forall>m\<in>set ms. move_thread m \<noteq> j \<Longrightarrow> snd (snd (run_schedule E ms h)) j = snd (snd h) j"
proof (induction ms arbitrary: h)
  case (Cons m ms)
  have "snd (snd (thread_next E m h)) j = snd (snd h) j" if "move_thread m \<noteq> j"
    using that by (cases h; cases m) (auto split: prod.split if_splits)
  then show ?case using Cons by (simp add: run_schedule_def)
qed (simp add: run_schedule_def)

text \<open>Two threads; the second enqueues while the first drains, and its event is handled by the first.\<close>

definition overlap :: "move list" where
  "overlap = [StartAt 0 (MemoryPressureDetected ''q'' None), StartAt 1 (RetryDelayExpired ''q'' 0), Go 0, Go 0, Go 0, Go 0,
     Go 1, Go 1, Go 1] @ replicate 13 (Go 0)"

definition no_threads :: "nat \<Rightarrow> thread_pc" where
  "no_threads = (\<lambda>_. Finished)"

lemma overlap_run:
  "case mk_scheduler ''q'' of Inl _ \<Rightarrow> False | Inr s0 \<Rightarrow>
     let (ks, (s, T)) = run_schedule sample_scheduler_env overlap ([], (s0, no_threads)) in
     qsc_state s = RUNNING \<and> T 0 = Finished \<and> T 1 = Finished \<and> length (qsc_handled s) = 2 \<and> list_all (\<lambda>k. k = Ordinary) ks"
  by code_simp

theorem no_lost_wakeup_witness:
  "\<exists>s0 ks s T. mk_scheduler ''q'' = Inr s0 \<and>
     run_schedule sample_scheduler_env overlap ([], (s0, no_threads)) = (ks, (s, T)) \<and>
     length (qsc_handled s) = 2 \<and> qsc_events s = [] \<and> \<not> qsc_draining s"
proof -
  obtain s0 where s0: "mk_scheduler ''q'' = Inr s0" by (rule sample_queueE)
  obtain ks s T where c: "run_schedule sample_scheduler_env overlap ([], (s0, no_threads)) = (ks, (s, T))" by (metis prod.exhaust)
  have st: "qsc_state s = RUNNING" "T 0 = Finished" "T 1 = Finished" "length (qsc_handled s) = 2" "list_all (\<lambda>k. k = Ordinary) ks"
    using overlap_run unfolding s0 sum.case Let_def c prod.case by blast+
  have fin: "T i = Finished" for i
  proof (cases "i = 0 \<or> i = 1")
    case False
    then show ?thesis using run_schedule_others [of overlap i sample_scheduler_env "([], (s0, no_threads))"] c
      by (auto simp: overlap_def no_threads_def)
  qed (use st in auto)
  have "(run_step sample_scheduler_env)\<^sup>*\<^sup>* ([], (s0, \<lambda>_. Finished)) (ks, (s, T))"
    unfolding c [symmetric] no_threads_def by (rule run_schedule_steps)
  moreover have "quiet sample_scheduler_env" using sample_contract by (simp add: env_contract_def)
  ultimately have th: "(\<forall>i j. owns (T i) \<and> owns (T j) \<longrightarrow> i = j) \<and> (qsc_draining s \<longleftrightarrow> (\<exists>i. owns (T i))) \<and>
      (Abandoned \<notin> set ks \<and> (\<forall>i. T i = Finished) \<and> qsc_state s \<in> {RUNNING, ABORTED} \<longrightarrow> qsc_events s = [])"
    using no_lost_wakeup [OF s0] by blast
  have "Abandoned \<notin> set ks" using st(5) by (auto simp: list_all_iff)
  then have "qsc_events s = []" "\<not> qsc_draining s" using th fin st(1) by simp_all
  then show ?thesis using s0 c st(4) by blast
qed

section \<open>What the conditions exclude\<close>

text \<open>
  A scheduler that has failed is not covered by the property: if another thread fails it while a handler
  runs and that handler then raises, an abort enqueued in between stays in the queue and is not handled.
\<close>

lemma abort_left_behind:
  "case mk_scheduler ''q'' of Inl _ \<Rightarrow> False | Inr s0 \<Rightarrow>
     let (ks, (s1, T1)) = run_schedule sample_scheduler_env
           (StartAt 0 (MemoryPressureDetected ''q'' None) # replicate 6 (Go 0)) ([], (s0, no_threads));
         s2 = snd (scheduler_fail sample_scheduler_env None s1);
         (_, (s, T)) = run_schedule sample_scheduler_env
           ([StartAt 1 (QueryAbort ''q'' PNone), Go 1, Go 1, Go 1, RaiseAt 0, Go 0, Go 0, Go 0]) (ks, (s2, T1)) in
     T 0 = Finished \<and> T 1 = Finished \<and> qsc_state s = FAILED \<and> qsc_events s = [QueryAbort ''q'' PNone] \<and>
     qsc_handled s = [MemoryPressureDetected ''q'' None]"
  by code_simp

text \<open>A caller that leaves the exception of a handler alone leaves the rest of the queue behind in a scheduler that runs.\<close>

lemma exception_left_alone:
  "case mk_scheduler ''q'' of Inl _ \<Rightarrow> False | Inr s0 \<Rightarrow>
     let (ks, (s, T)) = run_schedule sample_scheduler_env
           (StartAt 0 (MemoryPressureDetected ''q'' None) # replicate 6 (Go 0) @
            [StartAt 1 (RetryDelayExpired ''q'' 0), Go 1, Go 1, Go 1, RaiseAt 0, Go 0, Go 0, LeaveAt 0]) ([], (s0, no_threads)) in
     T 0 = Finished \<and> T 1 = Finished \<and> qsc_state s = RUNNING \<and> qsc_events s = [RetryDelayExpired ''q'' 0] \<and> last ks = Abandoned"
  by code_simp

end
