(* ===== verification/Spooling_Exchange.thy ===== *)
theory Spooling_Exchange
  imports Fte_Exchange
begin

text \<open>
  The exchange that spools the output of attempts to files: \<open>SpoolingExchangeManager\<close> of
  \<open>src/duckdb/runners/fte/fte_exchange.py\<close>.

  The directories below \<open>exchange_root\<close> are part of the state: \<open>sink_<partition>\<close> by the partition, and
  \<open>sink_<partition>/attempt_<attempt>\<close> by both numbers. A file holds data or a JSON document, which stands for its
  text. File operations succeed. Paths are strings, with the base directory in normal form
  and query and exchange ids that are plain directory names.
\<close>

section \<open>Directories\<close>

datatype spool_file = Data string | Json pyval

type_synonym attempt_dir = "(string, spool_file) dict"

record spooling_manager =
  spm_base_dir :: string
  spm_tracker :: exchange_tracker
  spm_sink_dirs :: "int list"
  spm_attempt_dirs :: "(int \<times> int, attempt_dir) dict"

definition manifest_file :: string where "manifest_file = ''manifest.json''"
definition committed_marker :: string where "committed_marker = ''committed''"
definition aborted_marker :: string where "aborted_marker = ''aborted''"

definition mk_spooling :: "string \<Rightarrow> string \<Rightarrow> string \<Rightarrow> spooling_manager" where
  "mk_spooling base query_id exchange_id =
     \<lparr>spm_base_dir = base, spm_tracker = mk_tracker query_id exchange_id, spm_sink_dirs = [], spm_attempt_dirs = []\<rparr>"

definition sink_dir :: "int \<Rightarrow> spooling_manager \<Rightarrow> string" where
  "sink_dir p s =
     spm_base_dir s @ ''/'' @ trk_query_id (spm_tracker s) @ ''/'' @ trk_exchange_id (spm_tracker s) @ ''/sink_'' @ int_str p"

definition attempt_dir_path :: "int \<times> int \<Rightarrow> spooling_manager \<Rightarrow> string" where
  "attempt_dir_path k s = sink_dir (fst k) s @ ''/attempt_'' @ int_str (snd k)"

text \<open>\<open>attempt_dir / name\<close>; an absolute name replaces the directory.\<close>

definition join_path :: "string \<Rightarrow> string \<Rightarrow> string" where
  "join_path dir name = (if starts_with ''/'' name then name else dir @ ''/'' @ name)"

text \<open>The names that \<open>glob("partition_*_*.arrow")\<close> matches.\<close>

definition arrow_name :: "string \<Rightarrow> bool" where
  "arrow_name n =
     (starts_with ''partition_'' n \<and> ends_with ''.arrow'' n \<and> CHR ''_'' \<in> set (drop 10 (take (length n - 6) n)))"

definition make_attempt_dir :: "int \<times> int \<Rightarrow> spooling_manager \<Rightarrow> spooling_manager" where
  "make_attempt_dir k s =
     s\<lparr>spm_sink_dirs := set_add (fst k) (spm_sink_dirs s), spm_attempt_dirs := dict_setdefault k [] (spm_attempt_dirs s)\<rparr>"

definition dir_of :: "int \<times> int \<Rightarrow> spooling_manager \<Rightarrow> attempt_dir" where
  "dir_of k s = dict_get_default (spm_attempt_dirs s) k []"

definition write_file :: "int \<times> int \<Rightarrow> string \<Rightarrow> spool_file \<Rightarrow> spooling_manager \<Rightarrow> spooling_manager" where
  "write_file k name content s =
     s\<lparr>spm_attempt_dirs := dict_set k (dict_set name content (dir_of k s)) (spm_attempt_dirs s)\<rparr>"

definition touch_file :: "int \<times> int \<Rightarrow> string \<Rightarrow> spooling_manager \<Rightarrow> spooling_manager" where
  "touch_file k name s = (if dict_has (dir_of k s) name then s else write_file k name (Data []) s)"

definition arrow_files :: "attempt_dir \<Rightarrow> string list" where
  "arrow_files d = sort (filter arrow_name (dict_keys d))"

section \<open>Operations\<close>

definition on_tracker :: "(exchange_tracker, 'a) op \<Rightarrow> (spooling_manager, 'a) op" where
  "on_tracker f s = (let (r, t) = f (spm_tracker s) in (r, s\<lparr>spm_tracker := t\<rparr>))"

definition spool_add_sink :: "int \<Rightarrow> (spooling_manager, exchange_sink_handle) op" where
  "spool_add_sink p =
     bindS (on_tracker (add_sink p)) (\<lambda>h.
     bindS (modS (\<lambda>s. s\<lparr>spm_sink_dirs := set_add (snk_partition_id h) (spm_sink_dirs s)\<rparr>)) (\<lambda>_. retS h))"

text \<open>The directory of an attempt, after the checks that the methods make first.\<close>

definition attempt_key :: "exchange_sink_handle \<Rightarrow> int \<Rightarrow> spooling_manager \<Rightarrow> (int \<times> int) res" where
  "attempt_key h a s =
     bindE (require_sink h (spm_tracker s)) (\<lambda>_. bindE (check_non_negative ''attempt_id'' a) (\<lambda>a. Inr (snk_partition_id h, a)))"

definition spool_instantiate_sink :: "exchange_sink_handle \<Rightarrow> int \<Rightarrow> (spooling_manager, exchange_sink_instance_handle) op" where
  "spool_instantiate_sink h a =
     bindS (liftS (attempt_key h a)) (\<lambda>k.
     bindS (modS (make_attempt_dir k)) (\<lambda>_.
     liftS (\<lambda>s. Inr \<lparr>ins_sink_handle = h, ins_attempt_id = snd k, ins_attempt_path = Some (attempt_dir_path k s)\<rparr>)))"

definition output_file_name :: "int \<Rightarrow> string \<Rightarrow> string" where
  "output_file_name p file_id = ''partition_'' @ int_str p @ ''_'' @ file_id @ ''.arrow''"

definition record_output_file ::
  "exchange_sink_instance_handle \<Rightarrow> int \<Rightarrow> string \<Rightarrow> string \<Rightarrow> (spooling_manager, string) op" where
  "record_output_file inst p file_id content =
     bindS (liftS (\<lambda>s.
       bindE (require_sink (ins_sink_handle inst) (spm_tracker s)) (\<lambda>_.
       bindE (check_non_negative ''output_partition_id'' p) (\<lambda>_.
       if CHR ''/'' \<in> set file_id \<or> CHR 0x5C \<in> set file_id then Inl (ValueError ''file_id must not contain path separators'')
       else attempt_key (ins_sink_handle inst) (ins_attempt_id inst) s)))) (\<lambda>k.
     bindS (modS (\<lambda>s. write_file k (output_file_name p file_id) (Data content) (make_attempt_dir k s))) (\<lambda>_.
     liftS (\<lambda>s. Inr (join_path (attempt_dir_path k s) (output_file_name p file_id)))))"

text \<open>The document that \<open>finish_attempt\<close> writes, with the keys in order (\<open>sort_keys\<close>).\<close>

definition manifest_of :: "exchange_sink_handle \<Rightarrow> int \<Rightarrow> attempt_dir \<Rightarrow> spool_file" where
  "manifest_of h a d =
     Json (PDict [(''attempt_id'', PInt a), (''files'', PList (map PStr (arrow_files d))),
                  (''sink'', PDict (sort_key fst (sink_handle_to_dict h)))])"

definition write_manifest :: "exchange_sink_handle \<Rightarrow> int \<times> int \<Rightarrow> spooling_manager \<Rightarrow> spooling_manager" where
  "write_manifest h k s =
     (let s1 = make_attempt_dir k s in
      write_file k committed_marker (Data []) (write_file k manifest_file (manifest_of h (snd k) (dir_of k s1)) s1))"

definition finish_attempt :: "exchange_sink_instance_handle \<Rightarrow> (spooling_manager, unit) op" where
  "finish_attempt inst =
     bindS (liftS (attempt_key (ins_sink_handle inst) (ins_attempt_id inst))) (\<lambda>k. modS (write_manifest (ins_sink_handle inst) k))"

definition spool_sink_finished :: "exchange_sink_handle \<Rightarrow> int \<Rightarrow> (spooling_manager, unit) op" where
  "spool_sink_finished h a =
     bindS (on_tracker (sink_finished h a)) (\<lambda>_.
     bindS (liftS (attempt_key h a)) (\<lambda>k.
     bindS (modS (make_attempt_dir k)) (\<lambda>_.
     bindS (\<lambda>s. if dict_has (dir_of k s) manifest_file then (Inr (), s)
                else finish_attempt \<lparr>ins_sink_handle = h, ins_attempt_id = a, ins_attempt_path = Some (attempt_dir_path k s)\<rparr> s) (\<lambda>_.
     modS (touch_file k committed_marker)))))"

definition spool_sink_aborted :: "exchange_sink_handle \<Rightarrow> int \<Rightarrow> (spooling_manager, unit) op" where
  "spool_sink_aborted h a =
     bindS (on_tracker (sink_aborted h a)) (\<lambda>_.
     bindS (liftS (attempt_key h a)) (\<lambda>k.
     modS (\<lambda>s. write_file k aborted_marker (Data []) (make_attempt_dir k s))))"

definition read_manifest :: "attempt_dir \<Rightarrow> (string, pyval) dict res" where
  "read_manifest d =
     (case dict_get d manifest_file of
        None \<Rightarrow> Inr [(''files'', PList (map PStr (arrow_files d)))]
      | Some (Json (PDict m)) \<Rightarrow> Inr m
      | Some (Data []) \<Rightarrow> Inr []
      | Some _ \<Rightarrow> Inl (ValueError ''invalid spooling manifest''))"

definition spool_source_handle :: "spooling_manager \<Rightarrow> int \<times> int \<Rightarrow> exchange_source_handle res" where
  "spool_source_handle s k =
     (case dict_get (trk_sinks (spm_tracker s)) (fst k) of
        None \<Rightarrow> Inl (KeyError ''exchange sink'')
      | Some h \<Rightarrow>
          bindE (read_manifest (dir_of k s)) (\<lambda>m.
          bindE (py_iter (dict_get_default m ''files'' (PList []))) (\<lambda>names.
          bindE (mapE (\<lambda>n. case n of PStr x \<Rightarrow> Inr (join_path (attempt_dir_path k s) x) | _ \<Rightarrow> Inl (TypeError ''unsupported operand'')) names) (\<lambda>files.
          Inr \<lparr>esh_sink_handle = h, esh_attempt_id = snd k, esh_attempt_path = Some (attempt_dir_path k s), esh_files = files\<rparr>))))"

definition spool_get_source_handles :: "spooling_manager \<Rightarrow> exchange_source_handle list res" where
  "spool_get_source_handles s = mapE (spool_source_handle s) (sort (trk_selected_attempts (spm_tracker s)))"

text \<open>The attempt directories of known sinks whose attempt is not the selected one.\<close>

definition unselected :: "spooling_manager \<Rightarrow> int \<times> int \<Rightarrow> bool" where
  "unselected s k =
     (dict_has (trk_sinks (spm_tracker s)) (fst k) \<and> fst k \<in> set (spm_sink_dirs s) \<and>
      dict_get (trk_selected_attempts (spm_tracker s)) (fst k) \<noteq> Some (snd k))"

definition cleanup_unselected_attempts :: "spooling_manager \<Rightarrow> int \<times> spooling_manager" where
  "cleanup_unselected_attempts s =
     (let doomed = filter (\<lambda>(k, _). unselected s k) (spm_attempt_dirs s) in
      (int (length doomed), s\<lparr>spm_attempt_dirs := filter (\<lambda>(k, _). \<not> unselected s k) (spm_attempt_dirs s)\<rparr>))"

definition spool_close :: "spooling_manager \<Rightarrow> spooling_manager" where
  "spool_close s = snd (cleanup_unselected_attempts s)"

definition spool_destroy_query :: "spooling_manager \<Rightarrow> spooling_manager" where
  "spool_destroy_query s = s\<lparr>spm_sink_dirs := [], spm_attempt_dirs := []\<rparr>"

section \<open>The invariant\<close>

text \<open>A manifest lists arrow files that are in the directory.\<close>

definition manifest_ok :: "attempt_dir \<Rightarrow> bool" where
  "manifest_ok d =
     (\<forall>c. dict_get d manifest_file = Some c \<longrightarrow>
        (\<exists>m ns. c = Json (PDict m) \<and> dict_get m ''files'' = Some (PList (map PStr ns)) \<and> sorted ns \<and>
           (\<forall>n\<in>set ns. arrow_name n \<and> dict_has d n)))"

definition finished_dir :: "attempt_dir \<Rightarrow> bool" where
  "finished_dir d = (dict_has d manifest_file \<and> dict_has d committed_marker)"

definition selected_in :: "spooling_manager \<Rightarrow> int \<times> int \<Rightarrow> bool" where
  "selected_in s k = (dict_get (trk_selected_attempts (spm_tracker s)) (fst k) = Some (snd k))"

definition spool_ok :: "spooling_manager \<Rightarrow> bool" where
  "spool_ok s =
     (tracker_ok (spm_tracker s) \<and> wf_dict (spm_attempt_dirs s) \<and> (\<forall>k. manifest_ok (dir_of k s)) \<and>
      (\<forall>k. selected_in s k \<longrightarrow> finished_dir (dir_of k s)))"

lemma spool_okD:
  assumes "spool_ok s"
  shows "tracker_ok (spm_tracker s)" and "manifest_ok (dir_of k s)" and "selected_in s k \<Longrightarrow> finished_dir (dir_of k s)"
  using assms unfolding spool_ok_def by blast+

text \<open>What a directory keeps once its attempt is selected: the manifest, and all arrow files with their content.\<close>

definition dir_keeps :: "attempt_dir \<Rightarrow> attempt_dir \<Rightarrow> bool" where
  "dir_keeps d d' = (\<forall>n. n = manifest_file \<or> arrow_name n \<longrightarrow> dict_get d' n = dict_get d n)"

definition same_root :: "spooling_manager \<Rightarrow> spooling_manager \<Rightarrow> bool" where
  "same_root s u =
     (spm_base_dir u = spm_base_dir s \<and> trk_query_id (spm_tracker u) = trk_query_id (spm_tracker s) \<and>
      trk_exchange_id (spm_tracker u) = trk_exchange_id (spm_tracker s))"

text \<open>The attempts in \<open>P\<close> keep their output from when they are selected.\<close>

definition spool_grows :: "(int \<times> int \<Rightarrow> bool) \<Rightarrow> spooling_manager \<Rightarrow> spooling_manager \<Rightarrow> bool" where
  "spool_grows P s u =
     (same_root s u \<and> tracker_grows (spm_tracker s) (spm_tracker u) \<and>
      (\<forall>k. P k \<longrightarrow> selected_in s k \<longrightarrow> dir_keeps (dir_of k s) (dir_of k u)))"

lemma grows_selected: "tracker_grows (spm_tracker s) (spm_tracker u) \<Longrightarrow> selected_in s k \<Longrightarrow> selected_in u k"
  by (simp add: tracker_grows_def selected_in_def)

lemma spool_grows_refl: "spool_grows P s s"
  by (simp add: spool_grows_def same_root_def dir_keeps_def tracker.grows_refl)

lemma spool_grows_trans:
  assumes "spool_grows P s t" and "spool_grows P t u"
  shows "spool_grows P s u"
proof -
  have "tracker_grows (spm_tracker s) (spm_tracker u)"
    using assms tracker.grows_trans unfolding spool_grows_def by blast
  moreover have "same_root s u" using assms by (simp add: spool_grows_def same_root_def)
  moreover have "dir_keeps (dir_of k s) (dir_of k u)" if "P k" "selected_in s k" for k
  proof -
    have "selected_in t k" using that(2) assms(1) grows_selected unfolding spool_grows_def by blast
    then show ?thesis using that assms unfolding spool_grows_def dir_keeps_def by metis
  qed
  ultimately show ?thesis by (simp add: spool_grows_def)
qed

section \<open>File names\<close>

lemma arrow_output_file: "arrow_name (output_file_name p f)"
proof -
  let ?n = "output_file_name p f"
  have "ends_with ''.arrow'' ?n"
    using starts_with_append [of "rev ''.arrow''" "rev (''partition_'' @ int_str p @ ''_'' @ f)"]
    by (simp add: ends_with_def output_file_name_def)
  moreover have "starts_with ''partition_'' ?n" by (simp add: output_file_name_def)
  moreover have "drop 10 (take (length ?n - 6) ?n) = int_str p @ ''_'' @ f" by (simp add: output_file_name_def)
  ultimately show ?thesis by (simp add: arrow_name_def)
qed

lemma arrow_special: "\<not> arrow_name manifest_file" "\<not> arrow_name committed_marker" "\<not> arrow_name aborted_marker"
  by (simp_all add: arrow_name_def manifest_file_def committed_marker_def aborted_marker_def)

lemma special_names [simp]:
  "manifest_file \<noteq> committed_marker" "manifest_file \<noteq> aborted_marker" "committed_marker \<noteq> aborted_marker"
  "committed_marker \<noteq> manifest_file" "aborted_marker \<noteq> manifest_file" "aborted_marker \<noteq> committed_marker"
  by (simp_all add: manifest_file_def committed_marker_def aborted_marker_def)

lemma output_not_special [simp]:
  "output_file_name p f \<noteq> manifest_file" "manifest_file \<noteq> output_file_name p f"
  using arrow_output_file [of p f] arrow_special by auto

section \<open>How the operations change a directory\<close>

lemma dir_of_tracker [simp]: "dir_of k (s\<lparr>spm_tracker := t\<rparr>) = dir_of k s"
  by (simp add: dir_of_def)

lemma dir_of_make [simp]: "dir_of k (make_attempt_dir k' s) = dir_of k s"
  by (simp add: dir_of_def make_attempt_dir_def dict_setdefault_def dict_get_default_def dict_has_def)

lemma dir_of_write [simp]:
  "dir_of k (write_file k' n c s) = (if k = k' then dict_set n c (dir_of k s) else dir_of k s)"
  by (simp add: dir_of_def write_file_def dict_get_default_def)

lemma dir_of_touch [simp]:
  "dir_of k (touch_file k' n s) =
     (if k = k' \<and> \<not> dict_has (dir_of k s) n then dict_set n (Data []) (dir_of k s) else dir_of k s)"
  by (auto simp: touch_file_def)

definition same_tracker :: "spooling_manager \<Rightarrow> spooling_manager \<Rightarrow> bool" where
  "same_tracker s u = (spm_tracker u = spm_tracker s \<and> spm_base_dir u = spm_base_dir s \<and>
     (wf_dict (spm_attempt_dirs s) \<longrightarrow> wf_dict (spm_attempt_dirs u)))"

lemma same_tracker_intros:
  "same_tracker s s" "same_tracker s (make_attempt_dir k s)" "same_tracker s (write_file k n c s)" "same_tracker s (touch_file k n s)"
  by (auto simp: same_tracker_def make_attempt_dir_def write_file_def touch_file_def dict_setdefault_def)

lemma same_tracker_trans: "same_tracker s t \<Longrightarrow> same_tracker t u \<Longrightarrow> same_tracker s u"
  by (simp add: same_tracker_def)

lemma arrow_files_ok: "set (arrow_files d) = {n. arrow_name n \<and> dict_has d n}" "sorted (arrow_files d)"
  by (auto simp: arrow_files_def dict_has_keys simp del: set_map)

lemma manifest_ok_manifest: "manifest_ok (dict_set committed_marker c (dict_set manifest_file (manifest_of h a d) d))"
  using arrow_files_ok [of d] by (auto simp: manifest_ok_def manifest_of_def)

lemma manifest_ok_other: "manifest_ok d \<Longrightarrow> n \<noteq> manifest_file \<Longrightarrow> manifest_ok (dict_set n c d)"
  by (fastforce simp: manifest_ok_def)

text \<open>A change of one directory, and of the tracker.\<close>

lemma spool_change:
  assumes "spool_ok s" and "tracker_ok (spm_tracker u)" and "tracker_grows (spm_tracker s) (spm_tracker u)" and "same_root s u"
    and "wf_dict (spm_attempt_dirs u)" and "\<And>k'. k' \<noteq> k \<Longrightarrow> dir_of k' u = dir_of k' s" and "manifest_ok (dir_of k u)"
    and "\<And>k'. selected_in u k' \<Longrightarrow> k' \<noteq> k \<Longrightarrow> selected_in s k'"
    and "selected_in u k \<Longrightarrow> finished_dir (dir_of k u)" and "P k \<Longrightarrow> selected_in s k \<Longrightarrow> dir_keeps (dir_of k s) (dir_of k u)"
  shows "spool_ok u \<and> spool_grows P s u"
proof -
  have "manifest_ok (dir_of k' u)" for k'
    using spool_okD(2) [OF assms(1), of k'] assms(7) assms(6) [of k'] by (cases "k' = k") simp_all
  moreover have "finished_dir (dir_of k' u)" if "selected_in u k'" for k'
    using spool_okD(3) [OF assms(1), of k'] assms(6) [of k'] assms(8) [of k'] assms(9) that by (cases "k' = k") simp_all
  moreover have "dir_keeps (dir_of k' s) (dir_of k' u)" if "P k'" "selected_in s k'" for k'
    using assms(6) [of k'] assms(10) that by (cases "k' = k") (auto simp: dir_keeps_def)
  ultimately show ?thesis using assms(2-5) by (simp add: spool_ok_def spool_grows_def)
qed

section \<open>Operations\<close>

text \<open>What a call needs and what it gives: the invariant is kept and the state moves along the order.\<close>

definition spool_keeps :: "(int \<times> int \<Rightarrow> bool) \<Rightarrow> spooling_manager \<Rightarrow> spooling_manager \<Rightarrow> bool" where
  "spool_keeps P s u = (spool_ok u \<and> spool_grows P s u)"

lemma keeps_refl: "spool_ok s \<Longrightarrow> spool_keeps P s s"
  by (simp add: spool_keeps_def spool_grows_refl)

lemma spool_keeps_frame:
  assumes "spool_ok s" and "same_tracker s u" and "\<And>k. dir_of k u = dir_of k s"
  shows "spool_keeps P s u"
proof -
  have "selected_in u k = selected_in s k" for k using assms(2) by (simp add: same_tracker_def selected_in_def)
  then show ?thesis using assms unfolding spool_keeps_def spool_ok_def spool_grows_def same_root_def same_tracker_def dir_keeps_def
    by (simp add: tracker.grows_refl)
qed

lemma keeps_write:
  assumes "spool_ok s" and "same_tracker s u" and "\<And>k'. k' \<noteq> k \<Longrightarrow> dir_of k' u = dir_of k' s" and "manifest_ok (dir_of k u)"
    and "selected_in s k \<Longrightarrow> finished_dir (dir_of k u)" and "P k \<Longrightarrow> selected_in s k \<Longrightarrow> dir_keeps (dir_of k s) (dir_of k u)"
  shows "spool_keeps P s u"
  unfolding spool_keeps_def
proof (rule spool_change [OF assms(1), of _ k])
  have sel: "selected_in u k = selected_in s k" for k using assms(2) by (simp add: same_tracker_def selected_in_def)
  show "selected_in s k'" if "selected_in u k'" for k' using that sel by simp
  show "finished_dir (dir_of k u)" if "selected_in u k" using that sel assms(5) by simp
qed (use assms in \<open>auto simp: same_tracker_def same_root_def spool_ok_def tracker.grows_refl\<close>)

lemma keeps_tracker:
  assumes "spool_ok s" and "tracker_ok t" and "tracker_grows (spm_tracker s) t"
    and "trk_query_id t = trk_query_id (spm_tracker s)" and "trk_exchange_id t = trk_exchange_id (spm_tracker s)"
    and "\<And>p. dict_get (trk_selected_attempts t) p = dict_get (trk_selected_attempts (spm_tracker s)) p"
  shows "spool_keeps P s (s\<lparr>spm_tracker := t\<rparr>)"
  using assms by (auto simp: spool_keeps_def spool_ok_def spool_grows_def same_root_def selected_in_def dir_keeps_def)

lemma attempt_key_Inr: "attempt_key h a s = Inr k \<Longrightarrow> k = (snk_partition_id h, a) \<and> dict_get (trk_sinks (spm_tracker s)) (fst k) = Some h \<and> 0 \<le> a"
  by (auto simp: attempt_key_def require_sink_def check_non_negative_def split: if_splits)

lemma add_sink_keeps:
  assumes "spool_ok s"
  shows "spool_keeps P s (snd (spool_add_sink p s))"
proof -
  obtain r t where t: "add_sink p (spm_tracker s) = (r, t)" by fastforce
  have "tracker_ok t \<and> tracker_grows (spm_tracker s) t" using add_sink_ok [of "spm_tracker s" p] assms t by (simp add: spool_ok_def)
  moreover have "trk_query_id t = trk_query_id (spm_tracker s) \<and> trk_exchange_id t = trk_exchange_id (spm_tracker s) \<and>
      trk_selected_attempts t = trk_selected_attempts (spm_tracker s)"
    using t by (auto simp: add_sink_def Let_def split: sum.splits option.splits if_splits)
  ultimately have k: "spool_keeps P s (s\<lparr>spm_tracker := t\<rparr>)" by (intro keeps_tracker [OF assms]) auto
  have "dir_of k (s\<lparr>spm_sink_dirs := x\<rparr>) = dir_of k s" for k s x by (simp add: dir_of_def)
  then have "spool_keeps P s (s\<lparr>spm_tracker := t, spm_sink_dirs := x\<rparr>)" for x
    using k by (simp add: spool_keeps_def spool_ok_def spool_grows_def same_root_def selected_in_def)
  then show ?thesis using k t by (cases r) (simp_all add: spool_add_sink_def on_tracker_def bindS_def modS_def retS_def)
qed

lemma instantiate_keeps:
  assumes "spool_ok s"
  shows "spool_keeps P s (snd (spool_instantiate_sink h a s))"
proof -
  have "spool_keeps P s (make_attempt_dir k s)" for k by (rule spool_keeps_frame [OF assms same_tracker_intros(2)]) simp
  then show ?thesis using keeps_refl [OF assms]
    by (simp add: spool_instantiate_sink_def bindS_def liftS_def modS_def split: sum.split)
qed

lemma record_keeps:
  assumes "spool_ok s" and "\<not> P (snk_partition_id (ins_sink_handle inst), ins_attempt_id inst)"
  shows "spool_keeps P s (snd (record_output_file inst p f content s))"
proof -
  have "spool_keeps P s (write_file k (output_file_name p f) c (make_attempt_dir k s))" if "\<not> P k" for k c
  proof (rule keeps_write [OF assms(1), where k = k])
    show "same_tracker s (write_file k (output_file_name p f) c (make_attempt_dir k s))"
      by (rule same_tracker_trans [OF same_tracker_intros(2) same_tracker_intros(3)])
    have "manifest_ok (dir_of k s)" by (rule spool_okD(2) [OF assms(1)])
    then show "manifest_ok (dir_of k (write_file k (output_file_name p f) c (make_attempt_dir k s)))"
      by (simp add: manifest_ok_other)
    show "finished_dir (dir_of k (write_file k (output_file_name p f) c (make_attempt_dir k s)))" if "selected_in s k"
      using spool_okD(3) [OF assms(1) that] by (simp add: finished_dir_def)
  qed (use that in simp_all)
  moreover have "snd (record_output_file inst p f content s) = s \<or>
      (\<exists>k. attempt_key (ins_sink_handle inst) (ins_attempt_id inst) s = Inr k \<and>
         snd (record_output_file inst p f content s) = write_file k (output_file_name p f) (Data content) (make_attempt_dir k s))"
    by (cases "attempt_key (ins_sink_handle inst) (ins_attempt_id inst) s")
       (simp_all add: record_output_file_def bindS_def liftS_def modS_def require_sink_def check_non_negative_def)
  ultimately show ?thesis using keeps_refl [OF assms(1)] assms(2) attempt_key_Inr by metis
qed

lemma write_manifest_dir:
  "dir_of k' (write_manifest h k s) =
     (if k' = k then dict_set committed_marker (Data []) (dict_set manifest_file (manifest_of h (snd k) (dir_of k s)) (dir_of k s))
      else dir_of k' s)"
  by (simp add: write_manifest_def Let_def)

lemma write_manifest_tracker: "same_tracker s (write_manifest h k s)"
  unfolding write_manifest_def Let_def by (meson same_tracker_intros same_tracker_trans)

lemma finish_keeps:
  assumes "spool_ok s" and "\<not> P (snk_partition_id (ins_sink_handle inst), ins_attempt_id inst)"
  shows "spool_keeps P s (snd (finish_attempt inst s))"
proof -
  have "spool_keeps P s (write_manifest h k s)" if "\<not> P k" for h k
    by (rule keeps_write [OF assms(1) write_manifest_tracker, of k])
      (simp_all add: write_manifest_dir manifest_ok_manifest finished_dir_def that)
  then show ?thesis using keeps_refl [OF assms(1)] assms(2) attempt_key_Inr
    by (auto simp: finish_attempt_def bindS_def liftS_def modS_def split: sum.splits)
qed

lemma dir_keeps_marker:
  "dir_keeps d (dict_set committed_marker c d)" "dir_keeps d (dict_set aborted_marker c d)" "dir_keeps d d"
  using arrow_special by (auto simp: dir_keeps_def)

lemma aborted_keeps:
  assumes "spool_ok s"
  shows "spool_keeps P s (snd (spool_sink_aborted h a s))"
proof -
  obtain r t where t: "sink_aborted h a (spm_tracker s) = (r, t)" by fastforce
  have "tracker_ok t \<and> tracker_grows (spm_tracker s) t" using sink_aborted_ok [of "spm_tracker s" h a] assms t by (simp add: spool_ok_def)
  moreover have "trk_query_id t = trk_query_id (spm_tracker s) \<and> trk_exchange_id t = trk_exchange_id (spm_tracker s) \<and>
      trk_selected_attempts t = trk_selected_attempts (spm_tracker s)"
    using t by (auto simp: sink_aborted_def Let_def split: sum.splits prod.splits)
  ultimately have k1: "spool_keeps P s (s\<lparr>spm_tracker := t\<rparr>)" by (intro keeps_tracker [OF assms]) auto
  let ?s = "s\<lparr>spm_tracker := t\<rparr>"
  have ok: "spool_ok ?s" using k1 by (simp add: spool_keeps_def)
  have "spool_keeps P ?s (write_file k aborted_marker (Data []) (make_attempt_dir k ?s))" for k
  proof (rule keeps_write [OF ok])
    show "same_tracker ?s (write_file k aborted_marker (Data []) (make_attempt_dir k ?s))"
      by (rule same_tracker_trans [OF same_tracker_intros(2) same_tracker_intros(3)])
    have "manifest_ok (dir_of k ?s)" and f: "selected_in ?s k \<longrightarrow> finished_dir (dir_of k ?s)"
      using spool_okD(2,3) [OF ok] by blast+
    then show "manifest_ok (dir_of k (write_file k aborted_marker (Data []) (make_attempt_dir k ?s)))"
      by (simp add: manifest_ok_other)
    show "finished_dir (dir_of k (write_file k aborted_marker (Data []) (make_attempt_dir k ?s)))" if "selected_in ?s k"
      using f that by (simp add: finished_dir_def)
  qed (simp_all add: dir_keeps_marker)
  then have "spool_keeps P s (write_file k aborted_marker (Data []) (make_attempt_dir k ?s))" for k
    using k1 spool_grows_trans unfolding spool_keeps_def by blast
  then show ?thesis using k1 t
    by (auto simp: spool_sink_aborted_def on_tracker_def bindS_def liftS_def modS_def split: sum.splits)
qed

text \<open>After a successful \<open>sink_finished\<close> of the tracker, the directory of the attempt gets its manifest and its marker.\<close>

definition commit_dir :: "exchange_sink_handle \<Rightarrow> int \<times> int \<Rightarrow> spooling_manager \<Rightarrow> spooling_manager" where
  "commit_dir h k s =
     (let s1 = make_attempt_dir k s in
      touch_file k committed_marker (if dict_has (dir_of k s1) manifest_file then s1 else write_manifest h k s1))"

lemma sink_finished_commits:
  assumes "sink_finished h a (spm_tracker s) = (Inr (), t)"
  shows "spool_sink_finished h a s = (Inr (), commit_dir h (snk_partition_id h, a) (s\<lparr>spm_tracker := t\<rparr>))"
proof -
  have h: "dict_get (trk_sinks (spm_tracker s)) (snk_partition_id h) = Some h" "0 \<le> a"
    using assms by (auto simp: sink_finished_def require_sink_def check_non_negative_def split: if_splits)
  have "trk_sinks t = trk_sinks (spm_tracker s)"
    using assms by (auto simp: sink_finished_def Let_def split: sum.splits prod.splits if_splits)
  then have key: "attempt_key h a u = Inr (snk_partition_id h, a)" if "spm_tracker u = t" for u
    using h that by (simp add: attempt_key_def require_sink_def check_non_negative_def)
  have m: "spm_tracker (make_attempt_dir k u) = spm_tracker u" for k u by (simp add: make_attempt_dir_def)
  show ?thesis
    by (simp add: spool_sink_finished_def on_tracker_def assms bindS_def liftS_def modS_def key m finish_attempt_def commit_dir_def Let_def)
qed

lemma commit_dir_dir:
  assumes "k' \<noteq> k"
  shows "dir_of k' (commit_dir h k s) = dir_of k' s"
  using assms by (simp add: commit_dir_def Let_def write_manifest_dir)

lemma commit_dir_ok:
  assumes "manifest_ok (dir_of k s)"
  shows "manifest_ok (dir_of k (commit_dir h k s)) \<and> finished_dir (dir_of k (commit_dir h k s)) \<and>
    (dict_has (dir_of k s) manifest_file \<longrightarrow> dir_keeps (dir_of k s) (dir_of k (commit_dir h k s)))"
  using assms manifest_ok_manifest [of "Data []" h "snd k" "dir_of k s"]
  by (auto simp: commit_dir_def Let_def write_manifest_dir finished_dir_def manifest_ok_other dir_keeps_marker)

lemma commit_dir_tracker: "same_tracker s (commit_dir h k s)"
proof -
  have "same_tracker (make_attempt_dir k s) (if dict_has d n then make_attempt_dir k s else write_manifest h k (make_attempt_dir k s))" for d n
    using same_tracker_intros(1) write_manifest_tracker by simp
  then show ?thesis unfolding commit_dir_def Let_def
    by (rule same_tracker_trans [OF same_tracker_trans [OF same_tracker_intros(2)] same_tracker_intros(4)])
qed

lemma finished_keeps:
  assumes "spool_ok s"
  shows "spool_keeps P s (snd (spool_sink_finished h a s))"
proof -
  let ?k = "(snk_partition_id h, a)"
  obtain r t where t: "sink_finished h a (spm_tracker s) = (r, t)" by fastforce
  have ok: "tracker_ok t" "tracker_grows (spm_tracker s) t"
    using sink_finished_ok [OF spool_okD(1) [OF assms], of h a] t by simp_all
  have ids: "trk_query_id t = trk_query_id (spm_tracker s)" "trk_exchange_id t = trk_exchange_id (spm_tracker s)"
    using t by (auto simp: sink_finished_def Let_def split: sum.splits prod.splits if_splits)
  show ?thesis
  proof (cases r)
    case (Inl e)
    have "trk_selected_attempts t = trk_selected_attempts (spm_tracker s)"
      using t Inl by (auto simp: sink_finished_def Let_def split: sum.splits prod.splits if_splits)
    then have "spool_keeps P s (s\<lparr>spm_tracker := t\<rparr>)" by (intro keeps_tracker [OF assms ok ids]) simp
    then show ?thesis using t Inl by (simp add: spool_sink_finished_def on_tracker_def bindS_def)
  next
    case (Inr x)
    let ?t = "s\<lparr>spm_tracker := t\<rparr>"
    let ?u = "commit_dir h ?k ?t"
    have u: "snd (spool_sink_finished h a s) = ?u" using sink_finished_commits t Inr by simp
    have tr: "spm_tracker ?u = t" "spm_base_dir ?u = spm_base_dir s" "wf_dict (spm_attempt_dirs ?u)"
      using commit_dir_tracker [of ?t h ?k] assms by (simp_all add: same_tracker_def spool_ok_def)
    have new: "trk_selected_attempts t = trk_selected_attempts (spm_tracker s) \<or>
        trk_selected_attempts t = dict_set (snk_partition_id h) a (trk_selected_attempts (spm_tracker s))"
      using t Inr by (auto simp: sink_finished_def Let_def check_non_negative_def require_sink_def split: sum.splits prod.splits if_splits)
    have dir: "manifest_ok (dir_of ?k ?u)" "finished_dir (dir_of ?k ?u)"
      "dict_has (dir_of ?k s) manifest_file \<longrightarrow> dir_keeps (dir_of ?k s) (dir_of ?k ?u)"
      using commit_dir_ok [of ?k ?t h] spool_okD(2) [OF assms, of ?k] by simp_all
    show ?thesis unfolding u spool_keeps_def
    proof (rule spool_change [OF assms, of _ ?k])
      show "same_root s ?u" using tr ids by (simp add: same_root_def)
      show "dir_of k' ?u = dir_of k' s" if "k' \<noteq> ?k" for k' using commit_dir_dir [OF that] by simp
      show "selected_in s k'" if "selected_in ?u k'" "k' \<noteq> ?k" for k'
        using that new tr(1) by (cases k') (auto simp: selected_in_def split: if_splits)
      show "dir_keeps (dir_of ?k s) (dir_of ?k ?u)" if "selected_in s ?k"
        using spool_okD(3) [OF assms that] dir(3) by (simp add: finished_dir_def)
    qed (use tr ok dir in simp_all)
  qed
qed

lemma finalize_keeps:
  assumes "spool_ok s"
  shows "spool_keeps P s (snd (on_tracker finalize s))"
proof -
  obtain r t where t: "finalize (spm_tracker s) = (r, t)" by fastforce
  have "tracker_ok t" "tracker_grows (spm_tracker s) t" using finalize_ok [OF spool_okD(1) [OF assms]] t by simp_all
  then have "spool_keeps P s (s\<lparr>spm_tracker := t\<rparr>)"
    using t by (intro keeps_tracker [OF assms]) (auto simp: finalize_def split: prod.splits)
  then show ?thesis using t by (simp add: on_tracker_def)
qed

lemma dict_get_filter: "dict_get (filter (\<lambda>(k, _). P k) d) k = (if P k then dict_get d k else None)"
  by (induction d) auto

lemma dir_of_cleanup:
  "dir_of k (snd (cleanup_unselected_attempts s)) = (if unselected s k then [] else dir_of k s)"
  using dict_get_filter [of "\<lambda>k. \<not> unselected s k" "spm_attempt_dirs s" k]
  by (simp add: cleanup_unselected_attempts_def Let_def dir_of_def dict_get_default_def)

lemma cleanup_keeps:
  assumes "spool_ok s"
  shows "spool_keeps P s (snd (cleanup_unselected_attempts s))"
proof -
  let ?u = "snd (cleanup_unselected_attempts s)"
  have tr: "spm_tracker ?u = spm_tracker s" "spm_base_dir ?u = spm_base_dir s"
    by (simp_all add: cleanup_unselected_attempts_def Let_def)
  have "wf_dict (spm_attempt_dirs ?u)"
    using assms by (auto simp: spool_ok_def cleanup_unselected_attempts_def Let_def wf_dict_def distinct_map inj_on_def)
  moreover have sel: "selected_in ?u k = selected_in s k" "selected_in s k \<Longrightarrow> dir_of k ?u = dir_of k s" for k
    using tr by (auto simp: dir_of_cleanup selected_in_def unselected_def)
  moreover have "manifest_ok (dir_of k ?u)" for k
    using spool_okD(2) [OF assms, of k] by (simp add: dir_of_cleanup manifest_ok_def)
  ultimately show ?thesis using assms tr spool_okD(3) [OF assms]
    unfolding spool_keeps_def spool_ok_def spool_grows_def same_root_def dir_keeps_def by (simp add: tracker.grows_refl)
qed

section \<open>Runs\<close>

text \<open>
  The calls of the public methods that change something, in any order, returning or raising. \<open>record_output_file\<close> and
  \<open>finish_attempt\<close> are calls of the worker that runs the attempt; nothing keeps them from writing into the directory
  of an attempt that is already selected.
\<close>

datatype spool_action =
    AddSpoolSink int
  | Instantiate exchange_sink_handle int
  | RecordFile exchange_sink_instance_handle int string string
  | FinishAttempt exchange_sink_instance_handle
  | SpoolFinished exchange_sink_handle int
  | SpoolAborted exchange_sink_handle int
  | SpoolFinalize
  | Cleanup
  | Close
  | DestroyQuery

fun spool_do :: "spool_action \<Rightarrow> spooling_manager \<Rightarrow> spooling_manager" where
  "spool_do (AddSpoolSink p) s = snd (spool_add_sink p s)"
| "spool_do (Instantiate h a) s = snd (spool_instantiate_sink h a s)"
| "spool_do (RecordFile inst p f content) s = snd (record_output_file inst p f content s)"
| "spool_do (FinishAttempt inst) s = snd (finish_attempt inst s)"
| "spool_do (SpoolFinished h a) s = snd (spool_sink_finished h a s)"
| "spool_do (SpoolAborted h a) s = snd (spool_sink_aborted h a s)"
| "spool_do SpoolFinalize s = snd (on_tracker finalize s)"
| "spool_do Cleanup s = snd (cleanup_unselected_attempts s)"
| "spool_do Close s = spool_close s"
| "spool_do DestroyQuery s = spool_destroy_query s"

inductive spool_step :: "spooling_manager \<Rightarrow> spooling_manager \<Rightarrow> bool" where
  Call: "spool_step s (spool_do act s)"

text \<open>The attempt whose output a call of its worker writes.\<close>

fun writes_attempt :: "spool_action \<Rightarrow> (int \<times> int) option" where
  "writes_attempt (RecordFile inst p f content) = Some (snk_partition_id (ins_sink_handle inst), ins_attempt_id inst)"
| "writes_attempt (FinishAttempt inst) = Some (snk_partition_id (ins_sink_handle inst), ins_attempt_id inst)"
| "writes_attempt _ = None"

text \<open>Calls before the query is destroyed that do not write the attempts in \<open>P\<close>.\<close>

definition leaves :: "(int \<times> int \<Rightarrow> bool) \<Rightarrow> spool_action \<Rightarrow> bool" where
  "leaves P act = (act \<noteq> DestroyQuery \<and> (\<forall>k. writes_attempt act = Some k \<longrightarrow> \<not> P k))"

inductive leaving_step :: "(int \<times> int \<Rightarrow> bool) \<Rightarrow> spooling_manager \<Rightarrow> spooling_manager \<Rightarrow> bool" for P where
  "leaves P act \<Longrightarrow> leaving_step P s (spool_do act s)"

lemma spool_do_keeps:
  assumes "spool_ok s" and "leaves P act"
  shows "spool_keeps P s (spool_do act s)"
  using assms by (cases act) (simp_all add: leaves_def add_sink_keeps instantiate_keeps record_keeps finish_keeps finished_keeps
      aborted_keeps finalize_keeps cleanup_keeps spool_close_def)

interpretation spooling: monotone_system "leaving_step P" spool_ok "spool_grows P"
proof unfold_locales
  show "spool_ok t" if "spool_ok s" "leaving_step P s t" for s t
    using that(2,1) by cases (metis spool_do_keeps spool_keeps_def)
  show "spool_grows P s t" if "spool_ok s" "leaving_step P s t" for s t
    using that(2,1) by cases (metis spool_do_keeps spool_keeps_def)
qed (fact spool_grows_refl, fact spool_grows_trans)

lemma fold_leaving: "list_all (leaves P) acts \<Longrightarrow> (leaving_step P)\<^sup>*\<^sup>* s (fold spool_do acts s)"
proof (induction acts arbitrary: s)
  case (Cons act acts)
  then have "leaving_step P s (spool_do act s)" by (auto intro: leaving_step.intros)
  then show ?case using Cons by (simp add: converse_rtranclp_into_rtranclp)
qed simp

text \<open>The tracker inside moves as a tracker does, the destruction of the query included.\<close>

lemma spool_do_tracker:
  "spm_tracker (spool_do act s) = spm_tracker s \<or> tracker_step (spm_tracker s) (spm_tracker (spool_do act s))"
proof (cases act)
  case (AddSpoolSink p)
  have "spm_tracker (spool_do act s) = snd (add_sink p (spm_tracker s))"
    by (simp add: AddSpoolSink spool_add_sink_def on_tracker_def bindS_def modS_def retS_def split: prod.split sum.split)
  then show ?thesis by (simp add: tracker_step.intros)
next
  case (SpoolFinished h a)
  obtain r t where t: "sink_finished h a (spm_tracker s) = (r, t)" by fastforce
  have "spm_tracker (spool_do act s) = snd (sink_finished h a (spm_tracker s))"
  proof (cases r)
    case (Inl e)
    then show ?thesis using t by (simp add: SpoolFinished spool_sink_finished_def on_tracker_def bindS_def)
  next
    case (Inr x)
    then show ?thesis using t sink_finished_commits [of h a s t] commit_dir_tracker [of "s\<lparr>spm_tracker := t\<rparr>" h]
      by (simp add: SpoolFinished same_tracker_def)
  qed
  then show ?thesis by (simp add: tracker_step.intros)
next
  case (SpoolAborted h a)
  have "spm_tracker (spool_do act s) = snd (sink_aborted h a (spm_tracker s))"
    by (simp add: SpoolAborted spool_sink_aborted_def on_tracker_def bindS_def liftS_def modS_def write_file_def make_attempt_dir_def
        split: prod.split sum.split)
  then show ?thesis by (simp add: tracker_step.intros)
next
  case SpoolFinalize
  have "spm_tracker (spool_do act s) = snd (finalize (spm_tracker s))"
    by (simp add: SpoolFinalize on_tracker_def split: prod.split)
  then show ?thesis by (simp add: tracker_step.intros)
qed (simp_all add: spool_instantiate_sink_def record_output_file_def finish_attempt_def write_manifest_def Let_def bindS_def liftS_def
    modS_def write_file_def make_attempt_dir_def cleanup_unselected_attempts_def spool_close_def spool_destroy_query_def
    split: sum.split)

lemma spool_reach_tracker:
  assumes "spool_step\<^sup>*\<^sup>* (mk_spooling base q e) s"
  shows "tracker_ok (spm_tracker s)"
  using assms
proof (induction rule: rtranclp_induct)
  case base
  then show ?case using tracker_ok_init [of q e] by (simp add: mk_spooling_def)
next
  case (step t u)
  from step(2) obtain act where "u = spool_do act t" by cases
  then show ?case using spool_do_tracker [of act t] step(3) tracker.inv_step by metis
qed

lemma mk_spooling_ok: "spool_ok (mk_spooling base q e)"
  using tracker_ok_init [of q e]
  by (auto simp: spool_ok_def mk_spooling_def manifest_ok_def dir_of_def dict_get_default_def selected_in_def
      mk_tracker_def wf_dict_def)

lemma arrow_name_relative: "arrow_name n \<Longrightarrow> \<not> starts_with ''/'' n"
  by (cases n) (auto simp: arrow_name_def)

lemma source_handle_files:
  assumes "spool_ok s" and "selected_in s k"
  shows "\<exists>h ns. dict_get (trk_sinks (spm_tracker s)) (fst k) = Some h \<and> sorted ns \<and>
    (\<forall>n\<in>set ns. arrow_name n \<and> dict_has (dir_of k s) n) \<and>
    (\<exists>m. dict_get (dir_of k s) manifest_file = Some (Json (PDict m)) \<and> dict_get m ''files'' = Some (PList (map PStr ns))) \<and>
    spool_source_handle s k = Inr \<lparr>esh_sink_handle = h, esh_attempt_id = snd k, esh_attempt_path = Some (attempt_dir_path k s),
       esh_files = map (\<lambda>n. attempt_dir_path k s @ ''/'' @ n) ns\<rparr>"
proof -
  have "dict_has (trk_sinks (spm_tracker s)) (fst k)"
    using spool_okD(1) [OF assms(1)] assms(2) by (simp add: tracker_ok_def selected_in_def)
  then obtain h where h: "dict_get (trk_sinks (spm_tracker s)) (fst k) = Some h" by (auto simp: dict_has_def)
  have "dict_has (dir_of k s) manifest_file" using spool_okD(3) [OF assms] by (simp add: finished_dir_def)
  then obtain m ns where m: "dict_get (dir_of k s) manifest_file = Some (Json (PDict m))"
    "dict_get m ''files'' = Some (PList (map PStr ns))" "sorted ns" "\<forall>n\<in>set ns. arrow_name n \<and> dict_has (dir_of k s) n"
    using spool_okD(2) [OF assms(1), of k] unfolding manifest_ok_def dict_has_def by auto
  have paths: "mapE (\<lambda>n. case n of PStr x \<Rightarrow> Inr (join_path (attempt_dir_path k s) x) | _ \<Rightarrow> Inl (TypeError ''unsupported operand''))
      (map PStr ns) = Inr (map (\<lambda>n. attempt_dir_path k s @ ''/'' @ n) ns)"
    using m(4) by (induction ns) (simp_all add: join_path_def arrow_name_relative)
  then have "spool_source_handle s k = Inr \<lparr>esh_sink_handle = h, esh_attempt_id = snd k,
      esh_attempt_path = Some (attempt_dir_path k s), esh_files = map (\<lambda>n. attempt_dir_path k s @ ''/'' @ n) ns\<rparr>"
    using h m by (simp add: spool_source_handle_def read_manifest_def dict_get_default_def)
  then show ?thesis using h m by blast
qed

lemma same_root_path: "same_root s u \<Longrightarrow> attempt_dir_path k u = attempt_dir_path k s"
  by (simp add: same_root_def attempt_dir_path_def sink_dir_def)

lemma source_handle_stable:
  assumes "spool_ok s" and "spool_ok u" and "spool_grows P s u" and "selected_in s k" and "P k"
  shows "spool_source_handle u k = spool_source_handle s k"
proof -
  have u: "selected_in u k" using grows_selected assms(3,4) unfolding spool_grows_def by blast
  have keep: "dir_keeps (dir_of k s) (dir_of k u)" and root: "same_root s u" and tr: "tracker_grows (spm_tracker s) (spm_tracker u)"
    using assms(3-5) unfolding spool_grows_def by blast+
  obtain h ns m where s1: "dict_get (trk_sinks (spm_tracker s)) (fst k) = Some h"
    "dict_get (dir_of k s) manifest_file = Some (Json (PDict m))" "dict_get m ''files'' = Some (PList (map PStr ns))"
    "spool_source_handle s k = Inr \<lparr>esh_sink_handle = h, esh_attempt_id = snd k, esh_attempt_path = Some (attempt_dir_path k s),
       esh_files = map (\<lambda>n. attempt_dir_path k s @ ''/'' @ n) ns\<rparr>"
    using source_handle_files [OF assms(1,4)] by (elim exE conjE) (rule that)
  obtain h' ns' m' where u1: "dict_get (trk_sinks (spm_tracker u)) (fst k) = Some h'"
    "dict_get (dir_of k u) manifest_file = Some (Json (PDict m'))" "dict_get m' ''files'' = Some (PList (map PStr ns'))"
    "spool_source_handle u k = Inr \<lparr>esh_sink_handle = h', esh_attempt_id = snd k, esh_attempt_path = Some (attempt_dir_path k u),
       esh_files = map (\<lambda>n. attempt_dir_path k u @ ''/'' @ n) ns'\<rparr>"
    using source_handle_files [OF assms(2) u] by (elim exE conjE) (rule that)
  have "m' = m" using keep s1(2) u1(2) by (simp add: dir_keeps_def)
  then have "map PStr ns' = map PStr ns" using s1(3) u1(3) by simp
  then have "ns' = ns" by (rule map_injective) (simp add: inj_def)
  moreover have "h' = h" using tr s1(1) u1(1) by (simp add: tracker_grows_def)
  ultimately show ?thesis using s1(4) u1(4) same_root_path [OF root] by simp
qed

lemma all_source_handles:
  assumes "spool_ok s"
  shows "\<exists>hs. spool_get_source_handles s = Inr hs \<and> length hs = length (trk_selected_attempts (spm_tracker s)) \<and>
    (\<forall>k h. selected_in s k \<longrightarrow> spool_source_handle s k = Inr h \<longrightarrow> h \<in> set hs)"
proof -
  let ?d = "trk_selected_attempts (spm_tracker s)"
  have wf: "wf_dict ?d" using spool_okD(1) [OF assms] by (simp add: tracker_ok_def)
  have sel: "selected_in s k \<longleftrightarrow> k \<in> set (sort ?d)" for k
    using wf map_of_eq_Some_iff [of ?d "fst k" "snd k"] by (simp add: selected_in_def wf_dict_def)
  have map: "\<exists>hs. mapE f xs = Inr hs \<and> length hs = length xs \<and> (\<forall>x\<in>set xs. \<forall>h. f x = Inr h \<longrightarrow> h \<in> set hs)"
    if "\<forall>x\<in>set xs. \<exists>h. f x = Inr h" for f :: "int \<times> int \<Rightarrow> exchange_source_handle res" and xs
    using that by (induction xs) fastforce+
  have "\<forall>k\<in>set (sort ?d). \<exists>h. spool_source_handle s k = Inr h"
    using source_handle_files [OF assms] sel by blast
  from map [OF this] show ?thesis unfolding spool_get_source_handles_def using sel by auto
qed

section \<open>Properties\<close>

text \<open>
  C29. What a consumer of the exchange reads is stable until the query is destroyed. After any sequence of calls without
  \<open>destroy_query\<close>, once an attempt is selected for a partition, the exchange gives a source handle for it that names
  this attempt and its files, in order. Whatever calls follow, late attempts, aborts and cleanups included, every list of
  source handles contains the same handle and every file it names is there with the same content, provided that none of these calls
  destroys the query or writes into the selected attempt with \<open>record_output_file\<close> or \<open>finish_attempt\<close>: the code does not
  refuse such a write.
\<close>

theorem spooled_output_stable:
  assumes "s = fold spool_do before (mk_spooling base q e)" and "u = fold spool_do after s"
    and "dict_get (trk_selected_attempts (spm_tracker s)) p = Some a"
    and "DestroyQuery \<notin> set (before @ after)" and "\<forall>act\<in>set after. writes_attempt act \<noteq> Some (p, a)"
  shows "\<exists>h ns hs. spool_source_handle s (p, a) = Inr h \<and> esh_attempt_id h = a \<and> sorted ns \<and>
    esh_files h = map (\<lambda>n. attempt_dir_path (p, a) s @ ''/'' @ n) ns \<and>
    spool_get_source_handles u = Inr hs \<and> h \<in> set hs \<and>
    (\<forall>n\<in>set ns. \<exists>c. dict_get (dir_of (p, a) s) n = Some c \<and> dict_get (dir_of (p, a) u) n = Some c)"
proof -
  let ?P = "\<lambda>k. k = (p, a)"
  have "list_all (leaves (\<lambda>_. False)) before" "list_all (leaves ?P) after"
    using assms(4,5) by (auto simp: list_all_iff leaves_def)
  then have run: "(leaving_step (\<lambda>_. False))\<^sup>*\<^sup>* (mk_spooling base q e) s" "(leaving_step ?P)\<^sup>*\<^sup>* s u"
    unfolding assms(1,2) by (blast intro: fold_leaving)+
  have s: "spool_ok s" by (rule spooling.reach_inv [OF mk_spooling_ok run(1)])
  have u: "spool_ok u" and g: "spool_grows ?P s u"
    using spooling.reach_inv [OF s run(2)] spooling.reach_grows [OF s run(2)] .
  have sel: "selected_in s (p, a)" using assms(3) by (simp add: selected_in_def)
  obtain h ns where h: "sorted ns" "\<forall>n\<in>set ns. arrow_name n \<and> dict_has (dir_of (p, a) s) n"
    "spool_source_handle s (p, a) = Inr \<lparr>esh_sink_handle = h, esh_attempt_id = snd (p, a), esh_attempt_path = Some (attempt_dir_path (p, a) s),
       esh_files = map (\<lambda>n. attempt_dir_path (p, a) s @ ''/'' @ n) ns\<rparr>"
    using source_handle_files [OF s sel] by (elim exE conjE) (rule that)
  obtain hs where hs: "spool_get_source_handles u = Inr hs"
    "\<forall>k h. selected_in u k \<longrightarrow> spool_source_handle u k = Inr h \<longrightarrow> h \<in> set hs"
    using all_source_handles [OF u] by blast
  have "selected_in u (p, a)" using grows_selected sel g unfolding spool_grows_def by blast
  then have "\<lparr>esh_sink_handle = h, esh_attempt_id = snd (p, a), esh_attempt_path = Some (attempt_dir_path (p, a) s),
       esh_files = map (\<lambda>n. attempt_dir_path (p, a) s @ ''/'' @ n) ns\<rparr> \<in> set hs"
    using hs(2) source_handle_stable [OF s u g sel refl] h(3) by metis
  moreover have "dir_keeps (dir_of (p, a) s) (dir_of (p, a) u)" using g sel unfolding spool_grows_def by blast
  then have "\<forall>n\<in>set ns. \<exists>c. dict_get (dir_of (p, a) s) n = Some c \<and> dict_get (dir_of (p, a) u) n = Some c"
    using h(2) unfolding dir_keeps_def dict_has_def by fastforce
  ultimately show ?thesis using h hs(1)
    by (intro exI [of _ "\<lparr>esh_sink_handle = h, esh_attempt_id = snd (p, a), esh_attempt_path = Some (attempt_dir_path (p, a) s),
       esh_files = map (\<lambda>n. attempt_dir_path (p, a) s @ ''/'' @ n) ns\<rparr>"] exI [of _ ns] exI [of _ hs]) simp
qed

text \<open>The files a worker writes for one attempt, one after the other.\<close>

definition record_files ::
  "exchange_sink_instance_handle \<Rightarrow> (int \<times> string \<times> string) list \<Rightarrow> spooling_manager \<Rightarrow> spooling_manager" where
  "record_files inst fs s = fold (\<lambda>(p, f, c) s. snd (record_output_file inst p f c s)) fs s"

definition valid_output :: "int \<times> string \<times> string \<Rightarrow> bool" where
  "valid_output x = (case x of (p, f, _) \<Rightarrow> 0 \<le> p \<and> CHR ''/'' \<notin> set f \<and> CHR 0x5C \<notin> set f)"

definition output_entries :: "(int \<times> string \<times> string) list \<Rightarrow> (string \<times> spool_file) list" where
  "output_entries fs = map (\<lambda>(p, f, c). (output_file_name p f, Data c)) fs"

lemma record_output_writes:
  assumes "valid_output (p, f, c)" and "dict_get (trk_sinks (spm_tracker s)) (snk_partition_id h) = Some h" and "0 \<le> a"
  shows "snd (record_output_file \<lparr>ins_sink_handle = h, ins_attempt_id = a, ins_attempt_path = x\<rparr> p f c s) =
    write_file (snk_partition_id h, a) (output_file_name p f) (Data c) (make_attempt_dir (snk_partition_id h, a) s)"
  using assms by (simp add: record_output_file_def valid_output_def attempt_key_def require_sink_def check_non_negative_def
      bindS_def liftS_def modS_def)

lemma record_files_dir:
  assumes "list_all valid_output fs" and "dict_get (trk_sinks (spm_tracker s)) (snk_partition_id h) = Some h" and "0 \<le> a"
  shows "spm_tracker (record_files \<lparr>ins_sink_handle = h, ins_attempt_id = a, ins_attempt_path = x\<rparr> fs s) = spm_tracker s \<and>
    spm_base_dir (record_files \<lparr>ins_sink_handle = h, ins_attempt_id = a, ins_attempt_path = x\<rparr> fs s) = spm_base_dir s \<and>
    dir_of (snk_partition_id h, a) (record_files \<lparr>ins_sink_handle = h, ins_attempt_id = a, ins_attempt_path = x\<rparr> fs s) =
      fold (\<lambda>(n, c). dict_set n c) (output_entries fs) (dir_of (snk_partition_id h, a) s)"
  using assms
proof (induction fs arbitrary: s)
  case (Cons y fs)
  obtain p f c where y: "y = (p, f, c)" by (cases y)
  let ?s = "write_file (snk_partition_id h, a) (output_file_name p f) (Data c) (make_attempt_dir (snk_partition_id h, a) s)"
  have "spm_tracker ?s = spm_tracker s" "spm_base_dir ?s = spm_base_dir s" by (simp_all add: write_file_def make_attempt_dir_def)
  then show ?case using Cons.IH [of ?s] Cons.prems
    by (simp add: y record_files_def record_output_writes output_entries_def)
qed (simp add: record_files_def output_entries_def)

lemma fold_set_entries:
  "dict_get (fold (\<lambda>(n, c). dict_set n c) es d) n = (case map_of (rev es) n of None \<Rightarrow> dict_get d n | Some c \<Rightarrow> Some c)"
proof (induction es arbitrary: d)
  case (Cons e es)
  then show ?case by (cases e) (auto simp: map_add_def split: option.splits)
qed simp

lemma sink_finished_first:
  assumes "tracker_ok t" and "dict_get (trk_sinks t) (snk_partition_id h) = Some h"
    and "\<not> dict_has (trk_selected_attempts t) (snk_partition_id h)" and "0 \<le> a"
  shows "\<exists>t'. sink_finished h a t = (Inr (), t') \<and> dict_get (trk_selected_attempts t') (snk_partition_id h) = Some a"
proof -
  have "\<not> sel_final (trk_output_selector t)" "0 \<le> snk_partition_id h" "sel_selected_attempts (trk_output_selector t) = trk_selected_attempts t"
    using assms by (auto simp: tracker_ok_def tracker_is_final_def dict_has_def)
  then have "\<exists>sel. record_finished (snk_partition_id h) a (trk_output_selector t) = (Inr True, sel)"
    using assms(3,4) by (simp add: record_finished_def check_non_negative_def Let_def)
  then show ?thesis using assms by (auto simp: sink_finished_def require_sink_def check_non_negative_def Let_def)
qed

lemma keys_fold_set:
  "set (dict_keys (fold (\<lambda>(n, c). dict_set n c) es d)) = set (dict_keys d) \<union> fst ` set es"
proof (induction es arbitrary: d)
  case (Cons e es)
  then show ?case by (cases e) (simp add: dom_update insert_commute)
qed simp

lemma distinct_fold_set:
  "wf_dict d \<Longrightarrow> wf_dict (fold (\<lambda>(n, c). dict_set n c) es d)"
  by (induction es arbitrary: d) auto

lemma arrow_files_entries:
  "arrow_files (fold (\<lambda>(n, c). dict_set n c) (output_entries fs) []) = sort (remdups (map fst (output_entries fs)))"
  unfolding arrow_files_def
proof (rule sorted_distinct_set_unique)
  let ?d = "fold (\<lambda>(n, c). dict_set n c) (output_entries fs) []"
  show "distinct (sort (filter arrow_name (dict_keys ?d)))"
    using distinct_fold_set [of "[]" "output_entries fs"] by (simp add: wf_dict_def)
  have "\<forall>e\<in>set (output_entries fs). arrow_name (fst e)" by (auto simp: output_entries_def arrow_output_file)
  moreover have "set (dict_keys ?d) = fst ` set (output_entries fs)" using keys_fold_set [of "output_entries fs" "[]"] by simp
  ultimately show "set (sort (filter arrow_name (dict_keys ?d))) = set (sort (remdups (map fst (output_entries fs))))"
    unfolding set_sort set_filter set_remdups set_map [of fst "output_entries fs"] by blast
qed simp_all

text \<open>
  C30. What an attempt writes is what the consumers get. Take any run in which a sink is known, no attempt is selected for it yet and
  the directory of the attempt is empty. If the worker records files with valid names and the coordinator then
  reports the attempt as finished, the call returns, the attempt is selected, and its source handle names
  exactly the recorded files, each once and sorted; every file holds what was written to it last.
\<close>

theorem spooled_files_roundtrip:
  assumes "spool_step\<^sup>*\<^sup>* (mk_spooling base q e) s" and "dict_get (trk_sinks (spm_tracker s)) (snk_partition_id h) = Some h"
    and "\<not> dict_has (trk_selected_attempts (spm_tracker s)) (snk_partition_id h)" and "0 \<le> a"
    and "dir_of (snk_partition_id h, a) s = []" and "list_all valid_output fs"
  shows "\<exists>u hd. spool_sink_finished h a (record_files \<lparr>ins_sink_handle = h, ins_attempt_id = a, ins_attempt_path = x\<rparr> fs s) = (Inr (), u) \<and>
    dict_get (trk_selected_attempts (spm_tracker u)) (snk_partition_id h) = Some a \<and>
    spool_source_handle u (snk_partition_id h, a) = Inr hd \<and>
    esh_files hd = map (\<lambda>n. attempt_dir_path (snk_partition_id h, a) u @ ''/'' @ n) (sort (remdups (map fst (output_entries fs)))) \<and>
    (\<forall>n. arrow_name n \<longrightarrow> dict_get (dir_of (snk_partition_id h, a) u) n = map_of (rev (output_entries fs)) n)"
proof -
  let ?k = "(snk_partition_id h, a)" and ?d = "fold (\<lambda>(n, c). dict_set n c) (output_entries fs) []"
  let ?r = "record_files \<lparr>ins_sink_handle = h, ins_attempt_id = a, ins_attempt_path = x\<rparr> fs s"
  have ok: "tracker_ok (spm_tracker s)" by (rule spool_reach_tracker [OF assms(1)])
  have r: "spm_tracker ?r = spm_tracker s" "dir_of ?k ?r = ?d"
    using record_files_dir [OF assms(6,2,4), of x] assms(5) by simp_all
  obtain t where t: "sink_finished h a (spm_tracker ?r) = (Inr (), t)" "dict_get (trk_selected_attempts t) (snk_partition_id h) = Some a"
    using sink_finished_first [OF ok assms(2,3,4)] r(1) by auto
  let ?u = "commit_dir h ?k (?r\<lparr>spm_tracker := t\<rparr>)"
  have u: "spool_sink_finished h a ?r = (Inr (), ?u)" by (rule sink_finished_commits [OF t(1)])
  have tr: "spm_tracker ?u = t" using commit_dir_tracker [of "?r\<lparr>spm_tracker := t\<rparr>" h ?k] by (simp add: same_tracker_def)
  have "manifest_file \<notin> fst ` set (output_entries fs)" by (auto simp: output_entries_def)
  then have "\<not> dict_has ?d manifest_file"
    unfolding dict_has_keys using keys_fold_set [of "output_entries fs" "[]"] by simp
  then have dir: "dir_of ?k ?u = dict_set committed_marker (Data []) (dict_set manifest_file (manifest_of h a ?d) ?d)"
    using r(2) by (simp add: commit_dir_def Let_def write_manifest_dir)
  have sinks: "trk_sinks t = trk_sinks (spm_tracker s)"
    using t(1) r(1) by (auto simp: sink_finished_def Let_def split: sum.splits prod.splits if_splits)
  let ?ns = "sort (remdups (map fst (output_entries fs)))"
  have names: "\<forall>n\<in>set ?ns. arrow_name n" by (auto simp: output_entries_def arrow_output_file)
  have "mapE (\<lambda>n. case n of PStr y \<Rightarrow> Inr (join_path (attempt_dir_path ?k ?u) y) | _ \<Rightarrow> Inl (TypeError ''unsupported operand''))
      (map PStr ns) = Inr (map (\<lambda>n. attempt_dir_path ?k ?u @ ''/'' @ n) ns)" if "\<forall>n\<in>set ns. arrow_name n" for ns
    using that by (induction ns) (simp_all add: join_path_def arrow_name_relative)
  from this [OF names] have "spool_source_handle ?u ?k = Inr \<lparr>esh_sink_handle = h, esh_attempt_id = a,
      esh_attempt_path = Some (attempt_dir_path ?k ?u), esh_files = map (\<lambda>n. attempt_dir_path ?k ?u @ ''/'' @ n) ?ns\<rparr>"
    using tr sinks assms(2)
    by (simp add: spool_source_handle_def dir read_manifest_def manifest_of_def arrow_files_entries dict_get_default_def)
  moreover have "dict_get (dir_of ?k ?u) n = map_of (rev (output_entries fs)) n" if "arrow_name n" for n
    using that arrow_special fold_set_entries [of "output_entries fs" "[]" n] by (auto simp: dir split: option.splits)
  ultimately show ?thesis using u t(2) tr by auto
qed

section \<open>Witnesses\<close>

definition sample_sink :: exchange_sink_handle where
  "sample_sink = \<lparr>snk_query_id = ''q'', snk_exchange_id = ''x'', snk_partition_id = 0\<rparr>"

definition sample_spooling :: spooling_manager where
  "sample_spooling = snd (spool_add_sink 0 (mk_spooling ''/b'' ''q'' ''x''))"

definition sample_outputs :: "(int \<times> string \<times> string) list" where
  "sample_outputs = [(1, ''b'', ''2''), (0, ''a'', ''1''), (1, ''b'', ''3'')]"

definition sample_instance :: exchange_sink_instance_handle where
  "sample_instance = \<lparr>ins_sink_handle = sample_sink, ins_attempt_id = 1, ins_attempt_path = None\<rparr>"

definition sample_spooled :: spooling_manager where
  "sample_spooled = snd (spool_sink_finished sample_sink 1 (record_files sample_instance sample_outputs sample_spooling))"

lemma sample_spooling_reached: "spool_step\<^sup>*\<^sup>* (mk_spooling ''/b'' ''q'' ''x'') sample_spooling"
  unfolding sample_spooling_def using Call [of "mk_spooling ''/b'' ''q'' ''x''" "AddSpoolSink 0"] by (simp add: r_into_rtranclp)

lemma sample_spooling_state:
  "dict_get (trk_sinks (spm_tracker sample_spooling)) 0 = Some sample_sink"
  "\<not> dict_has (trk_selected_attempts (spm_tracker sample_spooling)) 0" "dir_of (0, 1) sample_spooling = []"
  "list_all valid_output sample_outputs" "snk_partition_id sample_sink = 0"
  by code_simp+

theorem spooled_files_roundtrip_witness:
  "\<exists>hd. spool_source_handle sample_spooled (0, 1) = Inr hd \<and>
     esh_files hd = [''/b/q/x/sink_0/attempt_1/partition_0_a.arrow'', ''/b/q/x/sink_0/attempt_1/partition_1_b.arrow''] \<and>
     dict_get (dir_of (0, 1) sample_spooled) ''partition_1_b.arrow'' = Some (Data ''3'')"
proof -
  note s = sample_spooling_state
  from spooled_files_roundtrip [of "''/b''" "''q''" "''x''" sample_spooling sample_sink 1 sample_outputs None]
  obtain u hd where u: "spool_sink_finished sample_sink 1 (record_files sample_instance sample_outputs sample_spooling) = (Inr (), u)"
    "spool_source_handle u (0, 1) = Inr hd"
    "esh_files hd = map (\<lambda>n. attempt_dir_path (0, 1) u @ ''/'' @ n) (sort (remdups (map fst (output_entries sample_outputs))))"
    "\<forall>n. arrow_name n \<longrightarrow> dict_get (dir_of (0, 1) u) n = map_of (rev (output_entries sample_outputs)) n"
    using sample_spooling_reached s unfolding sample_instance_def s(5) by auto
  have "u = sample_spooled" using u(1) by (simp add: sample_spooled_def)
  moreover have "sort (remdups (map fst (output_entries sample_outputs))) = [''partition_0_a.arrow'', ''partition_1_b.arrow'']"
    and "map_of (rev (output_entries sample_outputs)) ''partition_1_b.arrow'' = Some (Data ''3'')"
    and "arrow_name ''partition_1_b.arrow''" and "attempt_dir_path (0, 1) sample_spooled = ''/b/q/x/sink_0/attempt_1''" by code_simp+
  ultimately show ?thesis using u(2-4) by simp
qed

definition sample_before :: "spool_action list" where
  "sample_before = AddSpoolSink 0 # map (\<lambda>(p, f, c). RecordFile sample_instance p f c) sample_outputs @ [SpoolFinished sample_sink 1]"

definition sample_after :: "spool_action list" where
  "sample_after =
     [RecordFile \<lparr>ins_sink_handle = sample_sink, ins_attempt_id = 0, ins_attempt_path = None\<rparr> 0 ''a'' ''9'', SpoolFinished sample_sink 0,
      SpoolAborted sample_sink 2, SpoolFinalize, Cleanup, Close]"

lemma sample_before_spooled: "fold spool_do sample_before (mk_spooling ''/b'' ''q'' ''x'') = sample_spooled"
  by (simp add: sample_before_def sample_spooled_def sample_spooling_def record_files_def sample_outputs_def)

theorem spooled_output_stable_witness:
  "\<exists>h hs. spool_source_handle sample_spooled (0, 1) = Inr h \<and> length (esh_files h) = 2 \<and>
     spool_get_source_handles (fold spool_do sample_after sample_spooled) = Inr hs \<and> h \<in> set hs"
proof -
  have "dict_get (trk_selected_attempts (spm_tracker sample_spooled)) 0 = Some 1" by code_simp
  moreover have "DestroyQuery \<notin> set (sample_before @ sample_after)" "\<forall>act\<in>set sample_after. writes_attempt act \<noteq> Some (0, 1)"
    by (auto simp: sample_before_def sample_after_def)
  ultimately obtain h ns hs where h: "spool_source_handle sample_spooled (0, 1) = Inr h"
    "spool_get_source_handles (fold spool_do sample_after sample_spooled) = Inr hs" "h \<in> set hs"
    using spooled_output_stable [OF sample_before_spooled [symmetric] refl] by blast
  have "case spool_source_handle sample_spooled (0, 1) of Inr h \<Rightarrow> length (esh_files h) = 2 | Inl _ \<Rightarrow> False" by code_simp
  then show ?thesis using h by auto
qed

text \<open>A late write of the worker of the selected attempt is not refused and changes what consumers read.\<close>

lemma late_write_changes_output:
  "dict_get (dir_of (0, 1) (spool_do (RecordFile sample_instance 0 ''a'' ''9'') sample_spooled)) ''partition_0_a.arrow'' = Some (Data ''9'')"
  "dict_get (dir_of (0, 1) sample_spooled) ''partition_0_a.arrow'' = Some (Data ''1'')"
  by code_simp+

end
