(* ===== verification/Spooling_Stats.thy ===== *)
theory Spooling_Stats
  imports Fte_Exchange Py_Path
begin

text \<open>
  The statistics of spooled files: \<open>collect_spooling_output_stats\<close> of \<open>src/duckdb/runners/fte/fte_exchange.py\<close>. The file
  system is a parameter: which paths exist and are files, their sizes, the JSON document a file holds, and the arrow files below a directory.
\<close>

section \<open>Collecting\<close>

record file_system =
  fs_exists :: "path \<Rightarrow> bool"
  fs_is_file :: "path \<Rightarrow> bool"
  fs_size :: "path \<Rightarrow> int res"
  fs_json :: "path \<Rightarrow> pyval res"
  fs_rglob :: "path \<Rightarrow> path list"

text \<open>The files that the manifest of an attempt lists; \<open>Inl\<close> if reading it raised.\<close>

definition manifest_files :: "file_system \<Rightarrow> path \<Rightarrow> pyval list res" where
  "manifest_files F manifest_path =
     bindE (fs_json F manifest_path) (\<lambda>manifest.
     case manifest of
       PDict m \<Rightarrow> (let files = dict_get_default m ''files'' PNone in if py_truthy files then py_iter files else Inr [])
     | _ \<Rightarrow> Inr [])"

definition candidate_paths :: "file_system \<Rightarrow> path \<Rightarrow> pyval list \<Rightarrow> path list" where
  "candidate_paths F attempt_path files =
     (if files \<noteq> [] then map (\<lambda>entry. path_join attempt_path (path_of_string (py_str entry))) files
      else filter (\<lambda>p. fs_is_file F p \<and> path_name p \<noteq> ''schema.arrow'') (fs_rglob F attempt_path))"

definition file_entries :: "file_system \<Rightarrow> path \<Rightarrow> path list \<Rightarrow> (path \<times> string \<times> int) list" where
  "file_entries F attempt_path candidates =
     map (\<lambda>p. (p, partition_key_from_arrow_path p attempt_path, case fs_size F p of Inl _ \<Rightarrow> 0 | Inr n \<Rightarrow> n))
       (filter (\<lambda>p. fs_exists F p \<and> fs_is_file F p) (sort_key path_str (remdups candidates)))"

definition file_entry_dict :: "path \<times> string \<times> int \<Rightarrow> pyval" where
  "file_entry_dict e =
     (case e of (p, key, n) \<Rightarrow>
        PDict [(''path'', PStr (path_str p)), (''name'', PStr (path_name p)), (''partition_id'', PStr key), (''size_bytes'', PInt n)])"

definition partition_totals :: "(path \<times> string \<times> int) list \<Rightarrow> (string, int \<times> int) dict" where
  "partition_totals es =
     fold (\<lambda>(_, key, n) d. let (c, b) = dict_get_default d key (0, 0) in dict_set key (c + 1, b + n) d) es []"

definition totals_dict :: "(string, int \<times> int) dict \<Rightarrow> (string, pyval) dict" where
  "totals_dict d = map (\<lambda>(k, c, b). (k, PDict [(''file_count'', PInt c), (''total_bytes'', PInt b)])) d"

definition initial_stats :: "file_system \<Rightarrow> path \<Rightarrow> (string, pyval) dict" where
  "initial_stats F p =
     [(''attempt_path'', PStr (path_str p)), (''exists'', PBool (fs_exists F p)),
      (''committed'', PBool (fs_exists F p \<and> fs_exists F (p @ [''committed'']))),
      (''aborted'', PBool (fs_exists F p \<and> fs_exists F (p @ [''aborted'']))), (''file_count'', PInt 0), (''total_bytes'', PInt 0),
      (''files'', PList []), (''partitions'', PDict [])]"

text \<open>What the manifest adds to the statistics, and the files it lists. The text of a \<open>manifest_error\<close> is left empty.\<close>

definition scan_manifest :: "file_system \<Rightarrow> path \<Rightarrow> pyval list \<times> (string, pyval) dict" where
  "scan_manifest F p =
     (let manifest_path = p @ [''manifest.json'']; stats = initial_stats F p in
      if fs_exists F manifest_path then
        let stats' = dict_set ''manifest_path'' (PStr (path_str manifest_path)) stats in
        (case manifest_files F manifest_path of
           Inl _ \<Rightarrow> ([], dict_set ''manifest_error'' (PStr []) stats')
         | Inr files \<Rightarrow> (files, stats'))
      else ([], stats))"

text \<open>The statistics of an attempt directory that exists.\<close>

definition attempt_stats :: "file_system \<Rightarrow> path \<Rightarrow> (string, pyval) dict" where
  "attempt_stats F p =
     (let (files, stats) = scan_manifest F p; es = file_entries F p (candidate_paths F p files) in
      dict_set ''partitions'' (PDict (totals_dict (partition_totals es)))
        (dict_set ''files'' (PList (map file_entry_dict es))
          (dict_set ''total_bytes'' (PInt (sum_list (map (\<lambda>(_, _, n). n) es)))
            (dict_set ''file_count'' (PInt (int (length es))) stats))))"

definition collect_spooling_output_stats :: "file_system \<Rightarrow> sink_instance \<Rightarrow> (string, pyval) dict option" where
  "collect_spooling_output_stats F inst =
     (let payload = sink_instance_payload inst in
      if payload = [] then None
      else
        let attempt = dict_get_default payload ''attempt_path'' PNone;
            location = (if py_truthy attempt then attempt else dict_get_default payload ''output_location'' PNone);
            explicit = dict_has payload ''attempt_path''; p = path_of_string (py_str location) in
        if \<not> py_truthy location then None
        else if \<not> explicit \<and> \<not> path_is_absolute p \<and> \<not> fs_exists F p then None
        else if \<not> fs_exists F p then (if explicit then Some (initial_stats F p) else None)
        else Some (attempt_stats F p))"

section \<open>Accounting\<close>

lemma partition_totals_get:
  "dict_get (partition_totals es) k =
     (let own = filter (\<lambda>(_, key, _). key = k) es in
      if own = [] then None else Some (int (length own), sum_list (map (\<lambda>(_, _, n). n) own)))"
proof (induction es rule: rev_induct)
  case (snoc e es)
  obtain p key n where e: "e = (p, key, n)" by (cases e)
  show ?case
    using snoc by (auto simp: partition_totals_def e Let_def dict_get_default_def split: option.splits prod.splits if_splits)
qed (simp add: partition_totals_def)

lemma totals_dict_get:
  "dict_get (totals_dict d) k = map_option (\<lambda>(c, b). PDict [(''file_count'', PInt c), (''total_bytes'', PInt b)]) (dict_get d k)"
  by (induction d) (auto simp: totals_dict_def)

text \<open>The files of an attempt: what its manifest lists, if it lists anything, and otherwise the arrow files below it.\<close>

definition manifest_lists :: "file_system \<Rightarrow> path \<Rightarrow> pyval list \<Rightarrow> bool" where
  "manifest_lists F p names \<longleftrightarrow>
     fs_exists F (p @ [''manifest.json'']) \<and>
     (\<exists>m files. fs_json F (p @ [''manifest.json'']) = Inr (PDict m) \<and> dict_get m ''files'' = Some files \<and>
        py_truthy files \<and> py_iter files = Inr names)"

definition spooled_file :: "file_system \<Rightarrow> path \<Rightarrow> path \<Rightarrow> bool" where
  "spooled_file F p q \<longleftrightarrow>
     fs_exists F q \<and> fs_is_file F q \<and>
     ((\<exists>names. manifest_lists F p names \<and> (\<exists>name\<in>set names. q = path_join p (path_of_string (py_str name)))) \<or>
      (\<forall>names. manifest_lists F p names \<longrightarrow> names = []) \<and> q \<in> set (fs_rglob F p) \<and> path_name q \<noteq> ''schema.arrow'')"

lemma manifest_files_lists:
  assumes "fs_exists F (p @ [''manifest.json''])"
  shows "manifest_lists F p names \<and> names \<noteq> [] \<longleftrightarrow> manifest_files F (p @ [''manifest.json'']) = Inr names \<and> names \<noteq> []"
proof (cases "fs_json F (p @ [''manifest.json''])")
  case (Inl e)
  then show ?thesis by (simp add: manifest_lists_def manifest_files_def)
next
  case (Inr v)
  show ?thesis
  proof (cases v)
    case (PDict m)
    then show ?thesis using Inr assms
      by (cases "dict_get m ''files''") (auto simp: manifest_lists_def manifest_files_def dict_get_default_def Let_def)
  qed (use Inr in \<open>simp_all add: manifest_lists_def manifest_files_def\<close>)
qed

lemma scan_manifest_lists:
  assumes "scan_manifest F p = (names, stats)" and "names' \<noteq> []"
  shows "manifest_lists F p names' \<longleftrightarrow> names' = names"
proof (cases "fs_exists F (p @ [''manifest.json''])")
  case True
  show ?thesis
    using assms(1) assms(2) manifest_files_lists [OF True, of names'] True
    by (cases "manifest_files F (p @ [''manifest.json''])") (auto simp: scan_manifest_def Let_def)
next
  case False
  then show ?thesis using assms by (auto simp: scan_manifest_def manifest_lists_def Let_def)
qed

lemma candidates_spooled:
  assumes "scan_manifest F p = (names, stats)"
  shows "q \<in> set (candidate_paths F p names) \<and> fs_exists F q \<and> fs_is_file F q \<longleftrightarrow> spooled_file F p q"
proof (cases "names = []")
  case True
  then have none: "names' = []" if "manifest_lists F p names'" for names' using scan_manifest_lists [OF assms] that by blast
  have "name \<notin> set names'" if "manifest_lists F p names'" for names' name using none [OF that] by simp
  then show ?thesis using True none unfolding spooled_file_def candidate_paths_def by auto
next
  case False
  then have l: "manifest_lists F p names" using scan_manifest_lists [OF assms False] by simp
  moreover have "names' = names" if "manifest_lists F p names'" "name \<in> set names'" for names' name
    using scan_manifest_lists [OF assms, of names'] that by force
  ultimately show ?thesis using False by (auto simp: spooled_file_def candidate_paths_def)
qed

lemma file_entries_distinct: "distinct (map fst (file_entries F p cs))"
  by (simp add: file_entries_def comp_def)

text \<open>The entry of a file in the statistics of directory \<open>p\<close>: its path, its partition and its size, 0 if \<open>stat\<close> raises.\<close>

definition entry_of :: "file_system \<Rightarrow> path \<Rightarrow> path \<times> string \<times> int \<Rightarrow> bool" where
  "entry_of F p e \<longleftrightarrow>
     (case e of (q, key, n) \<Rightarrow>
        key = partition_key_from_arrow_path q p \<and> (fs_size F q = Inr n \<or> (\<exists>err. fs_size F q = Inl err) \<and> n = 0))"

lemma attempt_stats_account:
  "\<exists>es. distinct (map fst es) \<and> sorted (map (path_str \<circ> fst) es) \<and> fst ` set es = {q. spooled_file F p q} \<and>
     (\<forall>e\<in>set es. entry_of F p e) \<and>
     dict_get (attempt_stats F p) ''files'' = Some (PList (map file_entry_dict es)) \<and>
     dict_get (attempt_stats F p) ''file_count'' = Some (PInt (int (length es))) \<and>
     dict_get (attempt_stats F p) ''total_bytes'' = Some (PInt (sum_list (map (\<lambda>(_, _, n). n) es))) \<and>
     dict_get (attempt_stats F p) ''partitions'' = Some (PDict (totals_dict (partition_totals es)))"
proof -
  obtain files stats where s: "scan_manifest F p = (files, stats)" by fastforce
  let ?es = "file_entries F p (candidate_paths F p files)"
  have "sorted (map (path_str \<circ> fst) ?es)"
    by (simp add: file_entries_def comp_def sorted_filter)
  moreover have "fst ` set ?es = {q. spooled_file F p q}"
    using candidates_spooled [OF s] by (auto simp: file_entries_def image_image)
  moreover have "\<forall>e\<in>set ?es. entry_of F p e"
    by (auto simp: file_entries_def entry_of_def split: sum.splits)
  ultimately show ?thesis using file_entries_distinct [of F p "candidate_paths F p files"]
    by (intro exI [of _ ?es]) (simp add: attempt_stats_def s Let_def)
qed

text \<open>The attempt directory a sink instance names.\<close>

definition names_attempt :: "sink_instance \<Rightarrow> path \<Rightarrow> bool" where
  "names_attempt inst p \<longleftrightarrow>
     (\<exists>field location. field \<in> {''attempt_path'', ''output_location''} \<and>
        dict_get (sink_instance_payload inst) field = Some location \<and> py_truthy location \<and> p = path_of_string (py_str location))"

lemma collect_spooling_cases:
  assumes "collect_spooling_output_stats F inst = Some st"
  obtains p where "names_attempt inst p" and "st = (if fs_exists F p then attempt_stats F p else initial_stats F p)"
proof -
  let ?get = "\<lambda>k. dict_get_default (sink_instance_payload inst) k PNone"
  let ?loc = "if py_truthy (?get ''attempt_path'') then ?get ''attempt_path'' else ?get ''output_location''"
  let ?p = "path_of_string (py_str ?loc)"
  have t: "py_truthy ?loc" and st: "st = (if fs_exists F ?p then attempt_stats F ?p else initial_stats F ?p)"
    using assms by (auto simp: collect_spooling_output_stats_def Let_def split: if_splits)
  have "names_attempt inst ?p"
    using t by (auto simp: names_attempt_def dict_get_default_def split: option.splits if_splits)
  then show thesis using st that by blast
qed

lemma dict_get_attempt_path:
  "dict_get (attempt_stats F p) ''attempt_path'' = Some (PStr (path_str p))"
  by (auto simp: attempt_stats_def scan_manifest_def initial_stats_def Let_def split: sum.splits)

text \<open>
  C31. The statistics of spooled output account for the files of the attempt. They are about the directory the sink instance
  names. If it exists, they list exactly the files of the attempt that exist, each once and in the order of its path: the ones its
  manifest lists, or, if it lists none or cannot be read, the arrow files below the directory except \<open>schema.arrow\<close>.
  Each entry carries the size of its file (0 if \<open>stat\<close> raises) and the partition its path names. \<open>file_count\<close> and \<open>total_bytes\<close>
  count exactly these entries and the entry of each partition exactly those of that partition, so that no partition
  without a file has an entry. If the directory does not exist nothing is listed.
\<close>

theorem spooling_stats_account:
  assumes "collect_spooling_output_stats F inst = Some st"
  shows "\<exists>p es parts. names_attempt inst p \<and> dict_get st ''attempt_path'' = Some (PStr (path_str p)) \<and>
    distinct (map fst es) \<and> sorted (map (path_str \<circ> fst) es) \<and>
    fst ` set es = {q. fs_exists F p \<and> spooled_file F p q} \<and> (\<forall>e\<in>set es. entry_of F p e) \<and>
    dict_get st ''files'' = Some (PList (map file_entry_dict es)) \<and>
    dict_get st ''file_count'' = Some (PInt (int (length es))) \<and>
    dict_get st ''total_bytes'' = Some (PInt (sum_list (map (\<lambda>(_, _, n). n) es))) \<and>
    dict_get st ''partitions'' = Some (PDict parts) \<and>
    (\<forall>k. dict_get parts k =
       (let own = filter (\<lambda>(_, key, _). key = k) es in
        if own = [] then None
        else Some (PDict [(''file_count'', PInt (int (length own))), (''total_bytes'', PInt (sum_list (map (\<lambda>(_, _, n). n) own)))])))"
proof -
  have parts: "dict_get (totals_dict (partition_totals es)) k =
       (let own = filter (\<lambda>(_, key, _). key = k) es in
        if own = [] then None
        else Some (PDict [(''file_count'', PInt (int (length own))), (''total_bytes'', PInt (sum_list (map (\<lambda>(_, _, n). n) own)))]))" for es k
    by (simp add: totals_dict_get partition_totals_get Let_def)
  obtain p where p: "names_attempt inst p" and st: "st = (if fs_exists F p then attempt_stats F p else initial_stats F p)"
    by (rule collect_spooling_cases [OF assms])
  show ?thesis
  proof (cases "fs_exists F p")
    case True
    then have 1: "st = attempt_stats F p" using st by simp
    obtain es where es: "distinct (map fst es)" "sorted (map (path_str \<circ> fst) es)" "fst ` set es = {q. spooled_file F p q}"
      "\<forall>e\<in>set es. entry_of F p e"
      "dict_get st ''files'' = Some (PList (map file_entry_dict es))" "dict_get st ''file_count'' = Some (PInt (int (length es)))"
      "dict_get st ''total_bytes'' = Some (PInt (sum_list (map (\<lambda>(_, _, n). n) es)))"
      "dict_get st ''partitions'' = Some (PDict (totals_dict (partition_totals es)))"
      using attempt_stats_account [of F p, folded 1] by (elim exE conjE) (rule that)
    have set: "fst ` set es = {q. fs_exists F p \<and> spooled_file F p q}" using es(3) True by simp
    show ?thesis
      by (rule exI [of _ p], rule exI [of _ es], rule exI [of _ "totals_dict (partition_totals es)"])
        (intro conjI es(1,2,4-8) set allI parts p dict_get_attempt_path [of F p, folded 1])
  next
    case False
    then show ?thesis using p st
      by (intro exI [of _ p] exI [of _ "[]"]) (simp add: initial_stats_def Let_def)
  qed
qed

definition sample_file_system :: file_system where
  "sample_file_system =
     \<lparr>fs_exists = (\<lambda>p. p \<in> {[''/'', ''a''], [''/'', ''a'', ''partition_1_x.arrow''], [''/'', ''a'', ''partition_0_y.arrow''], [''/'', ''a'', ''manifest.json'']}),
      fs_is_file = (\<lambda>p. p \<noteq> [''/'', ''a'']), fs_size = (\<lambda>_. Inr 7),
      fs_json = (\<lambda>_. Inr (PDict [(''files'', PList [PStr ''partition_1_x.arrow'', PStr ''partition_0_y.arrow'', PStr ''./partition_1_x.arrow''])])),
      fs_rglob = (\<lambda>_. [])\<rparr>"

lemma sample_stats:
  "case collect_spooling_output_stats sample_file_system (Raw (PDict [(''attempt_path'', PStr ''/a/'')])) of
     None \<Rightarrow> False
   | Some st \<Rightarrow> dict_get st ''file_count'' = Some (PInt 2) \<and> dict_get st ''total_bytes'' = Some (PInt 14)"
  by code_simp

theorem spooling_stats_account_witness:
  "\<exists>st parts. collect_spooling_output_stats sample_file_system (Raw (PDict [(''attempt_path'', PStr ''/a/'')])) = Some st \<and>
     dict_get st ''file_count'' = Some (PInt 2) \<and> dict_get st ''total_bytes'' = Some (PInt 14) \<and>
     dict_get st ''partitions'' = Some (PDict parts)"
proof -
  obtain st where st: "collect_spooling_output_stats sample_file_system (Raw (PDict [(''attempt_path'', PStr ''/a/'')])) = Some st"
    "dict_get st ''file_count'' = Some (PInt 2)" "dict_get st ''total_bytes'' = Some (PInt 14)"
    using sample_stats by (cases "collect_spooling_output_stats sample_file_system (Raw (PDict [(''attempt_path'', PStr ''/a/'')]))") auto
  obtain parts where "dict_get st ''partitions'' = Some (PDict parts)"
    using spooling_stats_account [OF st(1)] by (elim exE conjE) (rule that)
  then show ?thesis using st by (intro exI conjI)
qed

end
