(* ===== verification/Split_Queue.thy ===== *)
theory Split_Queue
  imports Transition "HOL-Library.Word"
begin

text \<open>
  The native queue of splits between the control plane and a running task:
  \<open>src/external/duckdb/src/execution/distributed/plan/fte_split_queue.cpp\<close>, class \<open>FteSplitQueue\<close>, with its
  header \<open>fte_split_queue.hpp\<close>. An \<open>idx_t\<close> is a 64-bit word; the counters saturate, \<open>buffered_bytes_\<close> and
  \<open>next_split_id_\<close> wrap.

  Every method holds the mutex for all it does with the fields, so it is one operation. A consumer that finds nothing
  registers an interrupt, known by a number, whose callback the producers run: \<open>sqe_woken\<close> is the history of
  these callbacks and \<open>sqe_registered\<close> that of the registrations. \<open>sqe_accepted\<close>, \<open>sqe_taken\<close> and \<open>sqe_completed\<close> are
  the histories of the splits that were added, handed out and completed. What a serialised descriptor says
  about its rows and files is a parameter.
\<close>

section \<open>Numbers\<close>

type_synonym idx = "64 word"

abbreviation idx_max :: idx where
  "idx_max \<equiv> - 1"

definition saturating_add :: "idx \<Rightarrow> idx \<Rightarrow> idx" where
  "saturating_add lhs rhs = (if idx_max - lhs < rhs then idx_max else lhs + rhs)"

definition invalid_index :: idx where
  "invalid_index = idx_max"

section \<open>Inputs\<close>

datatype input_kind = ScanTask | ExchangeSourceTask

record task_input =
  inp_kind :: input_kind
  inp_scan_task_bytes :: string
  inp_exchange_source_task_bytes :: string

definition make_scan_task :: "string \<Rightarrow> task_input" where
  "make_scan_task bytes = \<lparr>inp_kind = ScanTask, inp_scan_task_bytes = bytes, inp_exchange_source_task_bytes = []\<rparr>"

definition make_exchange_source_task :: "string \<Rightarrow> task_input" where
  "make_exchange_source_task bytes =
     \<lparr>inp_kind = ExchangeSourceTask, inp_scan_task_bytes = [], inp_exchange_source_task_bytes = bytes\<rparr>"

definition task_input_buffered_bytes :: "task_input \<Rightarrow> idx" where
  "task_input_buffered_bytes i =
     (case inp_kind i of
        ScanTask \<Rightarrow> of_nat (length (inp_scan_task_bytes i))
      | ExchangeSourceTask \<Rightarrow> of_nat (length (inp_exchange_source_task_bytes i)))"

record input_progress =
  ipg_rows :: idx
  ipg_bytes :: idx
  ipg_partition_count :: idx
  ipg_task_count :: idx

text \<open>What the descriptors hold; \<open>None\<close> if deserialising throws. The files of an exchange source are its rows and sizes.\<close>

record descriptor_reader =
  read_scan_task :: "string \<Rightarrow> (idx \<times> idx) option"
  read_exchange_source_task :: "string \<Rightarrow> (idx \<times> idx \<times> (idx \<times> idx) list list) option"

definition no_progress :: input_progress where
  "no_progress = \<lparr>ipg_rows = 0, ipg_bytes = 0, ipg_partition_count = 0, ipg_task_count = 0\<rparr>"

definition add_file :: "idx \<times> idx \<Rightarrow> input_progress \<Rightarrow> input_progress" where
  "add_file f p = p\<lparr>ipg_rows := saturating_add (ipg_rows p) (fst f), ipg_bytes := saturating_add (ipg_bytes p) (snd f)\<rparr>"

definition task_input_progress :: "descriptor_reader \<Rightarrow> task_input \<Rightarrow> input_progress" where
  "task_input_progress R i =
     (case inp_kind i of
        ScanTask \<Rightarrow>
          (case read_scan_task R (inp_scan_task_bytes i) of
             None \<Rightarrow> no_progress
           | Some (rows, bytes) \<Rightarrow> no_progress\<lparr>ipg_rows := rows, ipg_bytes := bytes\<rparr>)
      | ExchangeSourceTask \<Rightarrow>
          (case read_exchange_source_task R (inp_exchange_source_task_bytes i) of
             None \<Rightarrow> no_progress
           | Some (partitions, tasks, handles) \<Rightarrow>
               fold add_file (concat handles) (no_progress\<lparr>ipg_partition_count := partitions, ipg_task_count := tasks\<rparr>)))"

section \<open>The queue\<close>

record split_progress =
  spg_rows :: idx
  spg_bytes :: idx

record queued_split =
  qsp_split_id :: idx
  qsp_input :: task_input
  qsp_progress :: split_progress

record split_queue =
  sqe_splits :: "queued_split list"
  sqe_blocked_tasks :: "nat list"
  sqe_active_splits :: "(idx, split_progress) dict"
  sqe_buffered_bytes :: idx
  sqe_submitted_splits :: idx
  sqe_consumed_splits :: idx
  sqe_completed_splits :: idx
  sqe_submitted_rows :: idx
  sqe_submitted_input_bytes :: idx
  sqe_consumed_rows :: idx
  sqe_consumed_input_bytes :: idx
  sqe_completed_rows :: idx
  sqe_completed_input_bytes :: idx
  sqe_queue_wait_micros :: idx
  sqe_exchange_source_partition_count :: idx
  sqe_exchange_source_task_count :: idx
  sqe_next_split_id :: idx
  sqe_no_more_splits :: bool
  sqe_canceled :: bool
  sqe_accepted :: "queued_split list"
  sqe_taken :: "queued_split list"
  sqe_completed :: "split_progress list"
  sqe_registered :: "nat list"
  sqe_woken :: "nat list"

definition mk_split_queue :: split_queue where
  "mk_split_queue =
     \<lparr>sqe_splits = [], sqe_blocked_tasks = [], sqe_active_splits = [], sqe_buffered_bytes = 0, sqe_submitted_splits = 0,
      sqe_consumed_splits = 0, sqe_completed_splits = 0, sqe_submitted_rows = 0, sqe_submitted_input_bytes = 0,
      sqe_consumed_rows = 0, sqe_consumed_input_bytes = 0, sqe_completed_rows = 0, sqe_completed_input_bytes = 0,
      sqe_queue_wait_micros = 0, sqe_exchange_source_partition_count = 0, sqe_exchange_source_task_count = 0,
      sqe_next_split_id = 1, sqe_no_more_splits = False, sqe_canceled = False, sqe_accepted = [], sqe_taken = [],
      sqe_completed = [], sqe_registered = [], sqe_woken = []\<rparr>"

text \<open>\<open>tasks.swap(blocked_tasks_)\<close>, and then their callbacks.\<close>

definition wake_blocked_tasks :: "split_queue \<Rightarrow> split_queue" where
  "wake_blocked_tasks q = q\<lparr>sqe_blocked_tasks := [], sqe_woken := sqe_woken q @ sqe_blocked_tasks q\<rparr>"

definition push_split :: "descriptor_reader \<Rightarrow> task_input \<Rightarrow> split_queue \<Rightarrow> split_queue" where
  "push_split R i q =
     (let progress = task_input_progress R i;
          queued = \<lparr>qsp_split_id = sqe_next_split_id q, qsp_input = i,
                    qsp_progress = \<lparr>spg_rows = ipg_rows progress, spg_bytes = ipg_bytes progress\<rparr>\<rparr> in
      q\<lparr>sqe_next_split_id := sqe_next_split_id q + 1,
        sqe_exchange_source_partition_count := max (sqe_exchange_source_partition_count q) (ipg_partition_count progress),
        sqe_exchange_source_task_count := max (sqe_exchange_source_task_count q) (ipg_task_count progress),
        sqe_buffered_bytes := sqe_buffered_bytes q + task_input_buffered_bytes i,
        sqe_submitted_splits := saturating_add (sqe_submitted_splits q) 1,
        sqe_submitted_rows := saturating_add (sqe_submitted_rows q) (ipg_rows progress),
        sqe_submitted_input_bytes := saturating_add (sqe_submitted_input_bytes q) (ipg_bytes progress),
        sqe_splits := sqe_splits q @ [queued], sqe_accepted := sqe_accepted q @ [queued]\<rparr>)"

definition queue_add_splits :: "descriptor_reader \<Rightarrow> task_input list \<Rightarrow> (split_queue, unit) op" where
  "queue_add_splits R inputs q =
     (if inputs = [] then (Inr (), q)
      else if sqe_canceled q then (Inr (), q)
      else if sqe_no_more_splits q then (Inl (RuntimeError ''cannot add splits after no_more_splits''), q)
      else (Inr (), wake_blocked_tasks (fold (push_split R) inputs q)))"

definition queue_add_split :: "descriptor_reader \<Rightarrow> task_input \<Rightarrow> (split_queue, unit) op" where
  "queue_add_split R i = queue_add_splits R [i]"

definition queue_no_more_splits :: "split_queue \<Rightarrow> split_queue" where
  "queue_no_more_splits q = wake_blocked_tasks (q\<lparr>sqe_no_more_splits := True\<rparr>)"

definition queue_cancel :: "split_queue \<Rightarrow> split_queue" where
  "queue_cancel q = wake_blocked_tasks (q\<lparr>sqe_canceled := True\<rparr>)"

datatype get_next = Split task_input idx | Blocked | FinishedSplits | CanceledSplits

definition take_front :: "queued_split \<Rightarrow> queued_split list \<Rightarrow> split_queue \<Rightarrow> split_queue" where
  "take_front queued rest q =
     q\<lparr>sqe_buffered_bytes := sqe_buffered_bytes q - task_input_buffered_bytes (qsp_input queued),
       sqe_consumed_splits := saturating_add (sqe_consumed_splits q) 1,
       sqe_consumed_rows := saturating_add (sqe_consumed_rows q) (spg_rows (qsp_progress queued)),
       sqe_consumed_input_bytes := saturating_add (sqe_consumed_input_bytes q) (spg_bytes (qsp_progress queued)),
       sqe_active_splits := dict_set (qsp_split_id queued) (qsp_progress queued) (sqe_active_splits q),
       sqe_splits := rest, sqe_taken := sqe_taken q @ [queued]\<rparr>"

definition try_get_next :: "split_queue \<Rightarrow> get_next \<times> split_queue" where
  "try_get_next q =
     (if sqe_canceled q then (CanceledSplits, q)
      else case sqe_splits q of
        queued # rest \<Rightarrow> (Split (qsp_input queued) (qsp_split_id queued), take_front queued rest q)
      | [] \<Rightarrow> (if sqe_no_more_splits q then FinishedSplits else Blocked, q))"

text \<open>
  \<open>WaitForNext\<close> at the moment its wait ends, after \<open>micros\<close> microseconds; \<open>None\<close> while the condition it waits
  for does not hold.
\<close>

definition wait_for_next :: "idx \<Rightarrow> split_queue \<Rightarrow> (get_next \<times> split_queue) option" where
  "wait_for_next micros q =
     (if \<not> (sqe_canceled q \<or> sqe_no_more_splits q \<or> sqe_splits q \<noteq> []) then None
      else
        let q1 = q\<lparr>sqe_queue_wait_micros := saturating_add (sqe_queue_wait_micros q) micros\<rparr> in
        Some (if sqe_canceled q1 then (CanceledSplits, q1)
              else case sqe_splits q1 of
                queued # rest \<Rightarrow> (Split (qsp_input queued) (qsp_split_id queued), take_front queued rest q1)
              | [] \<Rightarrow> (FinishedSplits, q1)))"

definition register_blocked_task :: "nat \<Rightarrow> split_queue \<Rightarrow> bool \<times> split_queue" where
  "register_blocked_task task q =
     (if sqe_canceled q \<or> sqe_no_more_splits q \<or> sqe_splits q \<noteq> [] then (False, q)
      else (True, q\<lparr>sqe_blocked_tasks := sqe_blocked_tasks q @ [task], sqe_registered := sqe_registered q @ [task]\<rparr>))"

definition complete_split_locked :: "idx \<Rightarrow> split_queue \<Rightarrow> split_queue" where
  "complete_split_locked split_id q =
     (if split_id = invalid_index then q
      else case dict_get (sqe_active_splits q) split_id of
        None \<Rightarrow> q
      | Some p \<Rightarrow>
          q\<lparr>sqe_completed_splits := saturating_add (sqe_completed_splits q) 1,
            sqe_completed_rows := saturating_add (sqe_completed_rows q) (spg_rows p),
            sqe_completed_input_bytes := saturating_add (sqe_completed_input_bytes q) (spg_bytes p),
            sqe_active_splits := dict_pop split_id (sqe_active_splits q), sqe_completed := sqe_completed q @ [p]\<rparr>)"

text \<open>The loop takes the first entry of the hash map; the model has the order of insertion.\<close>

partial_function (option) complete_consumed_splits :: "split_queue \<Rightarrow> split_queue option" where
  "complete_consumed_splits q =
     (case sqe_active_splits q of
        [] \<Rightarrow> Some q
      | (split_id, _) # _ \<Rightarrow> complete_consumed_splits (complete_split_locked split_id q))"

section \<open>Readings\<close>

definition buffered_splits :: "split_queue \<Rightarrow> idx" where "buffered_splits q = of_nat (length (sqe_splits q))"
definition queue_wait_millis :: "split_queue \<Rightarrow> idx" where "queue_wait_millis q = sqe_queue_wait_micros q div 1000"

fun get_result_name :: "get_next \<Rightarrow> string" where
  "get_result_name (Split _ _) = ''SPLIT''"
| "get_result_name Blocked = ''BLOCKED''"
| "get_result_name FinishedSplits = ''FINISHED''"
| "get_result_name CanceledSplits = ''CANCELED''"

end
