(* ===== verification/Split_Queue_Run.thy ===== *)
theory Split_Queue_Run
  imports Split_Queue "HOL-Library.Multiset"
begin

text \<open>
  What the native split queue (\<open>src/external/duckdb/src/execution/distributed/plan/fte_split_queue.cpp\<close>) guarantees under
  any interleaving of its methods: splits are handed out once and in order, counters saturate instead of
  wrapping, no consumer sleeps while there is something to do, and completing the consumed splits ends.
\<close>

section \<open>Saturating counters\<close>

definition cap :: "nat \<Rightarrow> nat" where
  "cap n = min n (2 ^ 64 - 1)"

lemma unat_idx_max: "unat idx_max = 2 ^ 64 - 1"
  by (simp add: unsigned_minus_1_eq_mask mask_eq_exp_minus_1)

lemma unat_saturating_add: "unat (saturating_add a b) = cap (unat a + unat b)"
proof -
  have "unat a < 2 ^ LENGTH(64)" by (rule unsigned_less)
  then have a: "unat a \<le> 2 ^ 64 - 1" by simp
  have diff: "unat (idx_max - a) = 2 ^ 64 - 1 - unat a"
    using unat_sub [of a idx_max] a unat_idx_max by (simp add: word_le_nat_alt)
  show ?thesis
  proof (cases "idx_max - a < b")
    case True
    then have "2 ^ 64 - 1 - unat a < unat b" using diff by (simp add: word_less_nat_alt)
    then show ?thesis using True unat_idx_max by (simp add: saturating_add_def cap_def)
  next
    case False
    then have "unat b \<le> 2 ^ 64 - 1 - unat a" using diff by (simp add: word_less_nat_alt)
    then have "unat a + unat b < 2 ^ 64" using a by auto
    then have "unat (a + b) = unat a + unat b" by (simp add: unat_add_lem [symmetric])
    then show ?thesis using False \<open>unat a + unat b < 2 ^ 64\<close> by (simp add: saturating_add_def cap_def)
  qed
qed

lemma cap_add [simp]: "cap (cap m + n) = cap (m + n)" "cap (n + cap m) = cap (n + m)" "cap (Suc (cap m)) = cap (Suc m)"
  by (simp_all add: cap_def)

lemma cap_le: "m \<le> n \<Longrightarrow> cap m \<le> cap n"
  by (simp add: cap_def)

section \<open>The invariant\<close>

definition total :: "('a \<Rightarrow> idx) \<Rightarrow> 'a list \<Rightarrow> nat" where
  "total f xs = sum_list (map (\<lambda>x. unat (f x)) xs)"

lemma total_simps [simp]: "total f [] = 0" "total f (x # xs) = unat (f x) + total f xs" "total f (xs @ ys) = total f xs + total f ys"
  by (simp_all add: total_def)

lemma total_mset: "mset xs = mset ys \<Longrightarrow> total f xs = total f ys"
  unfolding total_def by (metis mset_map sum_mset_sum_list)

lemma total_map [simp]: "total f (map g xs) = total (f \<circ> g) xs"
  by (simp add: total_def comp_def)

definition counters_ok :: "split_queue \<Rightarrow> bool" where
  "counters_ok q =
     (unat (sqe_submitted_splits q) = cap (length (sqe_accepted q)) \<and> unat (sqe_consumed_splits q) = cap (length (sqe_taken q)) \<and>
      unat (sqe_completed_splits q) = cap (length (sqe_completed q)) \<and>
      unat (sqe_submitted_rows q) = cap (total (spg_rows \<circ> qsp_progress) (sqe_accepted q)) \<and>
      unat (sqe_consumed_rows q) = cap (total (spg_rows \<circ> qsp_progress) (sqe_taken q)) \<and>
      unat (sqe_completed_rows q) = cap (total spg_rows (sqe_completed q)) \<and>
      unat (sqe_submitted_input_bytes q) = cap (total (spg_bytes \<circ> qsp_progress) (sqe_accepted q)) \<and>
      unat (sqe_consumed_input_bytes q) = cap (total (spg_bytes \<circ> qsp_progress) (sqe_taken q)) \<and>
      unat (sqe_completed_input_bytes q) = cap (total spg_bytes (sqe_completed q)))"

definition ids_ok :: "queued_split list \<Rightarrow> idx \<Rightarrow> bool" where
  "ids_ok xs next = (map qsp_split_id xs = map (\<lambda>i. of_nat (Suc i)) [0..<length xs] \<and> next = of_nat (Suc (length xs)))"

definition fifo_ok :: "split_queue \<Rightarrow> bool" where
  "fifo_ok q =
     (sqe_accepted q = sqe_taken q @ sqe_splits q \<and>
      sqe_buffered_bytes q = sum_list (map (task_input_buffered_bytes \<circ> qsp_input) (sqe_splits q)) \<and>
      ids_ok (sqe_accepted q) (sqe_next_split_id q))"

definition wakeups_ok :: "split_queue \<Rightarrow> bool" where
  "wakeups_ok q =
     (sqe_registered q = sqe_woken q @ sqe_blocked_tasks q \<and>
      (sqe_blocked_tasks q \<noteq> [] \<longrightarrow> sqe_splits q = [] \<and> \<not> sqe_no_more_splits q \<and> \<not> sqe_canceled q))"

text \<open>As long as the ids of splits have not wrapped, the active splits are those taken and not completed.\<close>

definition ids_fit :: "split_queue \<Rightarrow> bool" where
  "ids_fit q = (length (sqe_accepted q) < 2 ^ 64 - 1)"

definition active_ok :: "split_queue \<Rightarrow> bool" where
  "active_ok q =
     (wf_dict (sqe_active_splits q) \<and> set (dict_keys (sqe_active_splits q)) \<subseteq> qsp_split_id ` set (sqe_taken q) \<and>
      mset (map snd (sqe_active_splits q)) + mset (sqe_completed q) = mset (map qsp_progress (sqe_taken q)))"

definition queue_ok :: "split_queue \<Rightarrow> bool" where
  "queue_ok q = (counters_ok q \<and> fifo_ok q \<and> wakeups_ok q \<and> (ids_fit q \<longrightarrow> active_ok q))"

definition queue_grows :: "split_queue \<Rightarrow> split_queue \<Rightarrow> bool" where
  "queue_grows q r =
     ((\<exists>xs. sqe_accepted r = sqe_accepted q @ xs) \<and> (\<exists>xs. sqe_taken r = sqe_taken q @ xs) \<and>
      (\<exists>xs. sqe_woken r = sqe_woken q @ xs) \<and> (sqe_no_more_splits q \<longrightarrow> sqe_no_more_splits r) \<and>
      (sqe_canceled q \<longrightarrow> sqe_canceled r) \<and>
      (sqe_no_more_splits q \<or> sqe_canceled q \<longrightarrow> sqe_accepted r = sqe_accepted q) \<and>
      (sqe_canceled q \<longrightarrow> sqe_taken r = sqe_taken q))"

lemma queue_grows_refl: "queue_grows q q"
  by (simp add: queue_grows_def)

lemma queue_grows_trans: "queue_grows p q \<Longrightarrow> queue_grows q r \<Longrightarrow> queue_grows p r"
  unfolding queue_grows_def by (elim conjE exE) auto

lemma mk_split_queue_ok: "queue_ok mk_split_queue"
  by (simp add: queue_ok_def counters_ok_def fifo_ok_def ids_ok_def wakeups_ok_def active_ok_def mk_split_queue_def cap_def wf_dict_def)

section \<open>Adding\<close>

lemma push_counters: "counters_ok q \<Longrightarrow> counters_ok (push_split R i q)"
  by (simp add: counters_ok_def push_split_def Let_def unat_saturating_add add.commute)

lemma push_fifo: "fifo_ok q \<Longrightarrow> fifo_ok (push_split R i q)"
  by (auto simp: fifo_ok_def ids_ok_def push_split_def Let_def)

lemma push_fields [simp]:
  "sqe_taken (push_split R i q) = sqe_taken q" "sqe_active_splits (push_split R i q) = sqe_active_splits q"
  "sqe_completed (push_split R i q) = sqe_completed q" "sqe_blocked_tasks (push_split R i q) = sqe_blocked_tasks q"
  "sqe_registered (push_split R i q) = sqe_registered q" "sqe_woken (push_split R i q) = sqe_woken q"
  "sqe_no_more_splits (push_split R i q) = sqe_no_more_splits q" "sqe_canceled (push_split R i q) = sqe_canceled q"
  "length (sqe_accepted (push_split R i q)) = Suc (length (sqe_accepted q))"
  by (simp_all add: push_split_def Let_def)

lemma push_all:
  "sqe_taken (fold (push_split R) is q) = sqe_taken q \<and> sqe_active_splits (fold (push_split R) is q) = sqe_active_splits q \<and>
   sqe_completed (fold (push_split R) is q) = sqe_completed q \<and> sqe_blocked_tasks (fold (push_split R) is q) = sqe_blocked_tasks q \<and>
   sqe_registered (fold (push_split R) is q) = sqe_registered q \<and> sqe_woken (fold (push_split R) is q) = sqe_woken q \<and>
   sqe_no_more_splits (fold (push_split R) is q) = sqe_no_more_splits q \<and> sqe_canceled (fold (push_split R) is q) = sqe_canceled q \<and>
   length (sqe_accepted (fold (push_split R) is q)) = length (sqe_accepted q) + length is"
  by (induction "is" arbitrary: q) auto

lemma push_all_accepted: "\<exists>xs. sqe_accepted (fold (push_split R) is q) = sqe_accepted q @ xs \<and> map qsp_input xs = is"
proof (induction "is" arbitrary: q)
  case (Cons i "is")
  obtain xs where xs: "sqe_accepted (fold (push_split R) is (push_split R i q)) = sqe_accepted (push_split R i q) @ xs" "map qsp_input xs = is"
    using Cons by blast
  have "\<exists>x. sqe_accepted (push_split R i q) = sqe_accepted q @ [x] \<and> qsp_input x = i"
    by (simp add: push_split_def Let_def)
  then obtain x where "sqe_accepted (push_split R i q) = sqe_accepted q @ [x]" "qsp_input x = i" by blast
  then show ?case using xs by (intro exI [of _ "x # xs"]) simp
qed simp

lemma push_all_ok:
  assumes "counters_ok q" and "fifo_ok q"
  shows "counters_ok (fold (push_split R) is q)" and "fifo_ok (fold (push_split R) is q)"
  using assms by (induction "is" arbitrary: q) (simp_all add: push_counters push_fifo)

lemma wake_ok:
  assumes "counters_ok q" and "fifo_ok q" and "sqe_registered q = sqe_woken q @ sqe_blocked_tasks q" and "ids_fit q \<longrightarrow> active_ok q"
  shows "queue_ok (wake_blocked_tasks q)"
  using assms by (auto simp: queue_ok_def counters_ok_def fifo_ok_def wakeups_ok_def active_ok_def ids_fit_def wake_blocked_tasks_def)

lemma add_splits_ok:
  assumes "queue_ok q"
  shows "queue_ok (snd (queue_add_splits R is q)) \<and> queue_grows q (snd (queue_add_splits R is q))"
proof (cases "is = [] \<or> sqe_canceled q \<or> sqe_no_more_splits q")
  case True
  then have "snd (queue_add_splits R is q) = q" by (auto simp: queue_add_splits_def)
  then show ?thesis using assms queue_grows_refl by simp
next
  case False
  let ?r = "fold (push_split R) is q"
  have r: "snd (queue_add_splits R is q) = wake_blocked_tasks ?r" using False by (simp add: queue_add_splits_def)
  have c: "counters_ok ?r" and f: "fifo_ok ?r" using assms push_all_ok unfolding queue_ok_def by blast+
  note all = push_all [of R "is" q]
  have "ids_fit ?r \<longrightarrow> active_ok ?r" using assms all by (auto simp: queue_ok_def ids_fit_def active_ok_def)
  moreover have "sqe_registered ?r = sqe_woken ?r @ sqe_blocked_tasks ?r" using assms all by (simp add: queue_ok_def wakeups_ok_def)
  ultimately have "queue_ok (wake_blocked_tasks ?r)" using wake_ok c f by blast
  moreover have "queue_grows q (wake_blocked_tasks ?r)"
    using push_all_accepted [of R "is" q] all False by (auto simp: queue_grows_def wake_blocked_tasks_def)
  ultimately show ?thesis using r by simp
qed

section \<open>Taking\<close>

lemma ids_taken_fresh:
  assumes "fifo_ok q" and "ids_fit q" and "sqe_splits q = x # xs"
  shows "qsp_split_id x \<notin> qsp_split_id ` set (sqe_taken q)"
proof -
  let ?n = "length (sqe_accepted q)" and ?f = "\<lambda>i. of_nat (Suc i) :: idx"
  have "inj_on ?f {0..<?n}"
  proof (rule inj_onI)
    fix i j assume "i \<in> {0..<?n}" "j \<in> {0..<?n}" "?f i = ?f j"
    moreover have "unat (?f m) = Suc m" if "m < ?n" for m
      using that assms(2) by (simp add: ids_fit_def unsigned_of_nat take_bit_nat_eq_self del: of_nat_Suc)
    ultimately show "i = j" by (metis atLeastLessThan_iff nat.inject)
  qed
  then have "distinct (map ?f [0..<?n])" by (simp add: distinct_map)
  moreover have "map qsp_split_id (sqe_accepted q) = map ?f [0..<?n]" using assms(1) unfolding fifo_ok_def ids_ok_def by blast
  ultimately have "distinct (map qsp_split_id (sqe_accepted q))" by argo
  moreover have "sqe_accepted q = sqe_taken q @ x # xs" using assms(1,3) by (simp add: fifo_ok_def)
  ultimately show ?thesis by auto
qed

lemma take_front_ok:
  assumes "queue_ok q" and "sqe_splits q = x # xs"
  shows "queue_ok (take_front x xs q)"
proof -
  let ?r = "take_front x xs q"
  have "counters_ok ?r" using assms(1) by (simp add: queue_ok_def counters_ok_def take_front_def unat_saturating_add add.commute)
  moreover have "fifo_ok ?r" using assms by (auto simp: queue_ok_def fifo_ok_def take_front_def)
  moreover have "wakeups_ok ?r" using assms by (simp add: queue_ok_def wakeups_ok_def take_front_def)
  moreover have "active_ok ?r" if "ids_fit ?r"
  proof -
    have fit: "ids_fit q" using that by (simp add: ids_fit_def take_front_def)
    then have a: "active_ok q" using assms(1) by (simp add: queue_ok_def)
    have "qsp_split_id x \<notin> qsp_split_id ` set (sqe_taken q)"
      using ids_taken_fresh [OF _ fit assms(2)] assms(1) by (simp add: queue_ok_def)
    then have new: "\<not> dict_has (sqe_active_splits q) (qsp_split_id x)"
      unfolding dict_has_keys using a unfolding active_ok_def by blast
    then show ?thesis using a by (auto simp: active_ok_def take_front_def dict_set_new wf_dict_def dict_has_keys)
  qed
  ultimately show ?thesis by (simp add: queue_ok_def)
qed

lemma take_front_grows: "sqe_splits q = x # xs \<Longrightarrow> \<not> sqe_canceled q \<Longrightarrow> queue_grows q (take_front x xs q)"
  by (simp add: queue_grows_def take_front_def)

lemma waited_ok: "queue_ok (q\<lparr>sqe_queue_wait_micros := w\<rparr>) = queue_ok q" "queue_grows q (q\<lparr>sqe_queue_wait_micros := w\<rparr>)"
  by (simp_all add: queue_ok_def counters_ok_def fifo_ok_def wakeups_ok_def active_ok_def ids_fit_def queue_grows_def)

lemma try_get_next_ok:
  assumes "queue_ok q"
  shows "queue_ok (snd (try_get_next q)) \<and> queue_grows q (snd (try_get_next q))"
  using assms take_front_ok take_front_grows queue_grows_refl by (auto simp: try_get_next_def split: list.split)

lemma wait_for_next_ok:
  assumes "queue_ok q" and "wait_for_next w q = Some (x, r)"
  shows "queue_ok r \<and> queue_grows q r"
proof -
  let ?q = "q\<lparr>sqe_queue_wait_micros := saturating_add (sqe_queue_wait_micros q) w\<rparr>"
  have ok: "queue_ok ?q" and g: "queue_grows q ?q" using assms(1) waited_ok by simp_all
  have "r = ?q \<or> (\<exists>y ys. sqe_splits ?q = y # ys \<and> \<not> sqe_canceled ?q \<and> r = take_front y ys ?q)"
    using assms(2) by (auto simp: wait_for_next_def Let_def split: if_splits list.splits)
  then show ?thesis using ok g take_front_ok [OF ok] take_front_grows [of ?q] queue_grows_trans [OF g] by blast
qed

lemma register_ok:
  assumes "queue_ok q"
  shows "queue_ok (snd (register_blocked_task t q)) \<and> queue_grows q (snd (register_blocked_task t q))"
  using assms by (auto simp: register_blocked_task_def queue_ok_def counters_ok_def fifo_ok_def wakeups_ok_def active_ok_def ids_fit_def
      queue_grows_def)

lemma closing_ok:
  assumes "queue_ok q"
  shows "queue_ok (queue_no_more_splits q) \<and> queue_grows q (queue_no_more_splits q)"
    and "queue_ok (queue_cancel q) \<and> queue_grows q (queue_cancel q)"
  using assms by (auto simp: queue_no_more_splits_def queue_cancel_def wake_blocked_tasks_def queue_ok_def counters_ok_def fifo_ok_def
      wakeups_ok_def active_ok_def ids_fit_def queue_grows_def)

section \<open>Completing\<close>

lemma dict_pop_mset:
  "dict_get d k = Some v \<Longrightarrow> wf_dict d \<Longrightarrow> mset (map snd d) = add_mset v (mset (map snd (dict_pop k d)))"
proof (induction d)
  case (Cons e d)
  obtain k' v' where e: "e = (k', v')" by (cases e)
  show ?case
  proof (cases "k' = k")
    case True
    then have "dict_pop k d = d" using Cons.prems(2) e by (intro dict_pop_absent) (simp add: wf_dict_def dict_has_keys)
    then show ?thesis using True Cons.prems e by simp
  next
    case False
    then show ?thesis using Cons e by (auto simp: wf_dict_def)
  qed
qed simp

lemma complete_split_ok:
  assumes "queue_ok q"
  shows "queue_ok (complete_split_locked k q) \<and> queue_grows q (complete_split_locked k q)"
proof (cases "k = invalid_index \<or> dict_get (sqe_active_splits q) k = None")
  case True
  then have "complete_split_locked k q = q" by (auto simp: complete_split_locked_def)
  then show ?thesis using assms queue_grows_refl by simp
next
  case False
  then obtain p where p: "dict_get (sqe_active_splits q) k = Some p" "k \<noteq> invalid_index" by auto
  let ?r = "complete_split_locked k q"
  have "counters_ok ?r \<and> fifo_ok ?r \<and> wakeups_ok ?r"
    using assms p by (auto simp: complete_split_locked_def queue_ok_def counters_ok_def fifo_ok_def wakeups_ok_def unat_saturating_add add.commute)
  moreover have "active_ok ?r" if "ids_fit ?r"
  proof -
    have a: "active_ok q" using that assms p by (simp add: queue_ok_def ids_fit_def complete_split_locked_def)
    have "mset (map snd (sqe_active_splits q)) = add_mset p (mset (map snd (dict_pop k (sqe_active_splits q))))"
      using p(1) a by (intro dict_pop_mset) (simp_all add: active_ok_def)
    moreover have "set (dict_keys (dict_pop k (sqe_active_splits q))) \<subseteq> set (dict_keys (sqe_active_splits q))"
      by (auto simp: dict_pop_filter)
    ultimately show ?thesis using a p unfolding active_ok_def by (simp add: complete_split_locked_def) blast
  qed
  ultimately show ?thesis using p by (simp add: queue_ok_def queue_grows_def complete_split_locked_def)
qed

lemma complete_shrinks:
  assumes "queue_ok q" and "ids_fit q" and "sqe_active_splits q = (k, p) # rest"
  shows "length (sqe_active_splits (complete_split_locked k q)) < length (sqe_active_splits q) \<and> ids_fit (complete_split_locked k q) \<and>
    sqe_taken (complete_split_locked k q) = sqe_taken q"
proof -
  have a: "active_ok q" and f: "fifo_ok q" using assms(1,2) by (simp_all add: queue_ok_def)
  have "k \<in> qsp_split_id ` set (sqe_taken q)" using a assms(3) by (simp add: active_ok_def)
  then have "k \<in> set (map qsp_split_id (sqe_accepted q))" using f by (auto simp: fifo_ok_def)
  moreover have "map qsp_split_id (sqe_accepted q) = map (\<lambda>i. of_nat (Suc i)) [0..<length (sqe_accepted q)]"
    using f unfolding fifo_ok_def ids_ok_def by blast
  ultimately have "k \<in> set (map (\<lambda>i. of_nat (Suc i)) [0..<length (sqe_accepted q)])" by argo
  then obtain i where "i < length (sqe_accepted q)" "k = of_nat (Suc i)" by (auto simp del: of_nat_Suc)
  then have "unat k < 2 ^ 64 - 1" using assms(2) by (simp add: ids_fit_def unsigned_of_nat take_bit_nat_eq_self del: of_nat_Suc)
  then have "k \<noteq> invalid_index" using unat_idx_max by (auto simp: invalid_index_def)
  moreover have "length (dict_pop k (sqe_active_splits q)) < length (sqe_active_splits q)"
    using assms(3) by (simp add: dict_pop_filter le_imp_less_Suc)
  ultimately show ?thesis using assms by (simp add: complete_split_locked_def ids_fit_def)
qed

lemma complete_consumed_returns:
  assumes "queue_ok q" and "ids_fit q"
  shows "\<exists>r. complete_consumed_splits q = Some r \<and> queue_ok r \<and> ids_fit r \<and> sqe_active_splits r = [] \<and> sqe_taken r = sqe_taken q"
  using assms
proof (induction "length (sqe_active_splits q)" arbitrary: q rule: less_induct)
  case less
  show ?case
  proof (cases "sqe_active_splits q")
    case Nil
    then show ?thesis using less.prems by (subst complete_consumed_splits.simps) simp
  next
    case (Cons e rest)
    obtain k p where e: "e = (k, p)" by (cases e)
    let ?r = "complete_split_locked k q"
    note s = complete_shrinks [OF less.prems, of k p rest]
    have ok: "queue_ok ?r" using complete_split_ok [OF less.prems(1)] by blast
    have shorter: "length (sqe_active_splits ?r) < length (sqe_active_splits q)" and fit: "ids_fit ?r" and taken: "sqe_taken ?r = sqe_taken q"
      using s Cons e by blast+
    obtain r where "complete_consumed_splits ?r = Some r" "queue_ok r" "ids_fit r" "sqe_active_splits r = []" "sqe_taken r = sqe_taken q"
      using less.hyps [OF shorter ok fit] unfolding taken by blast
    then show ?thesis using Cons e by (subst complete_consumed_splits.simps) simp
  qed
qed

lemma complete_consumed_ok:
  assumes "queue_ok q" and "complete_consumed_splits q = Some r"
  shows "queue_ok r \<and> queue_grows q r"
  using assms(2,1)
proof (induction rule: complete_consumed_splits.raw_induct [rotated, consumes 1, case_names Step])
  case (Step loop q r)
  show ?case
  proof (cases "sqe_active_splits q")
    case Nil
    then show ?thesis using Step queue_grows_refl by simp
  next
    case (Cons e rest)
    obtain k p where e: "e = (k, p)" by (cases e)
    have ok: "queue_ok (complete_split_locked k q)" "queue_grows q (complete_split_locked k q)"
      using complete_split_ok [OF Step.prems] by blast+
    have "loop (complete_split_locked k q) = Some r" using Step.hyps Cons e by simp
    then show ?thesis using Step.IH ok queue_grows_trans by blast
  qed
qed

section \<open>Runs\<close>

inductive queue_step :: "descriptor_reader \<Rightarrow> split_queue \<Rightarrow> split_queue \<Rightarrow> bool" for R where
  AddSplits: "queue_step R q (snd (queue_add_splits R is q))"
| NoMoreSplits: "queue_step R q (queue_no_more_splits q)"
| Cancel: "queue_step R q (queue_cancel q)"
| TryGetNext: "queue_step R q (snd (try_get_next q))"
| WaitForNext: "wait_for_next w q = Some (x, r) \<Longrightarrow> queue_step R q r"
| Register: "queue_step R q (snd (register_blocked_task t q))"
| CompleteConsumed: "complete_consumed_splits q = Some r \<Longrightarrow> queue_step R q r"

lemma queue_step_ok:
  assumes "queue_ok q" and "queue_step R q r"
  shows "queue_ok r \<and> queue_grows q r"
  using assms(2)
proof cases
  case (AddSplits "is")
  then show ?thesis using add_splits_ok [OF assms(1)] by simp
next
  case NoMoreSplits
  then show ?thesis using closing_ok(1) [OF assms(1)] by simp
next
  case Cancel
  then show ?thesis using closing_ok(2) [OF assms(1)] by simp
next
  case TryGetNext
  then show ?thesis using try_get_next_ok [OF assms(1)] by simp
next
  case (WaitForNext w x)
  then show ?thesis using wait_for_next_ok [OF assms(1)] by simp
next
  case (Register t)
  then show ?thesis using register_ok [OF assms(1)] by simp
next
  case CompleteConsumed
  then show ?thesis using complete_consumed_ok [OF assms(1)] by simp
qed

interpretation splits: monotone_system "queue_step R" queue_ok queue_grows for R
  by unfold_locales (use queue_step_ok queue_grows_refl queue_grows_trans in blast)+

section \<open>Properties\<close>

text \<open>
  C7. Splits are handed out exactly once and in order, and the counters do not wrap. After any sequence of calls by producers and
  consumers, the splits accepted so far are those handed out followed by those in the queue; a split that a
  consumer gets is the next one that was accepted. The numbers of splits, rows and bytes submitted and
  consumed are the exact ones, or the largest 64-bit number if they exceed it.
\<close>

theorem split_queue_exactly_once:
  assumes "(queue_step R)\<^sup>*\<^sup>* mk_split_queue q"
  shows "sqe_accepted q = sqe_taken q @ sqe_splits q \<and>
    (fst (try_get_next q) = Split i k \<longrightarrow>
       length (sqe_taken q) < length (sqe_accepted q) \<and> i = qsp_input (sqe_accepted q ! length (sqe_taken q)) \<and>
       sqe_taken (snd (try_get_next q)) = sqe_taken q @ [sqe_accepted q ! length (sqe_taken q)]) \<and>
    unat (sqe_submitted_splits q) = min (length (sqe_accepted q)) (2 ^ 64 - 1) \<and>
    unat (sqe_consumed_splits q) = min (length (sqe_taken q)) (2 ^ 64 - 1) \<and>
    unat (sqe_submitted_rows q) = min (total (spg_rows \<circ> qsp_progress) (sqe_accepted q)) (2 ^ 64 - 1) \<and>
    unat (sqe_consumed_rows q) = min (total (spg_rows \<circ> qsp_progress) (sqe_taken q)) (2 ^ 64 - 1) \<and>
    unat (sqe_submitted_input_bytes q) = min (total (spg_bytes \<circ> qsp_progress) (sqe_accepted q)) (2 ^ 64 - 1) \<and>
    unat (sqe_consumed_input_bytes q) = min (total (spg_bytes \<circ> qsp_progress) (sqe_taken q)) (2 ^ 64 - 1)"
proof -
  have ok: "queue_ok q" by (rule splits.reach_inv [OF mk_split_queue_ok assms])
  then have f: "sqe_accepted q = sqe_taken q @ sqe_splits q" and c: "counters_ok q" by (simp_all add: queue_ok_def fifo_ok_def)
  have "length (sqe_taken q) < length (sqe_accepted q) \<and> i = qsp_input (sqe_accepted q ! length (sqe_taken q)) \<and>
       sqe_taken (snd (try_get_next q)) = sqe_taken q @ [sqe_accepted q ! length (sqe_taken q)]" if "fst (try_get_next q) = Split i k"
    using that f by (auto simp: try_get_next_def take_front_def split: if_splits list.splits)
  then show ?thesis using f c unfolding counters_ok_def cap_def by blast
qed

text \<open>
  C8. No consumer sleeps while there is something to do. After any sequence of calls, the consumers that registered an interrupt
  have been woken, in the order they registered, but for those that still wait; and while one waits the
  queue holds no split and is neither closed nor canceled. So every call that adds a split, closes the
  queue or cancels it wakes all that wait.
\<close>

theorem no_sleeping_consumer:
  assumes "(queue_step R)\<^sup>*\<^sup>* mk_split_queue q"
  shows "sqe_registered q = sqe_woken q @ sqe_blocked_tasks q \<and>
    (sqe_blocked_tasks q \<noteq> [] \<longrightarrow> sqe_splits q = [] \<and> \<not> sqe_no_more_splits q \<and> \<not> sqe_canceled q) \<and>
    (sqe_accepted (snd (queue_add_splits R is q)) \<noteq> sqe_accepted q \<longrightarrow> sqe_blocked_tasks (snd (queue_add_splits R is q)) = []) \<and>
    sqe_blocked_tasks (queue_no_more_splits q) = [] \<and> sqe_blocked_tasks (queue_cancel q) = []"
proof -
  have ok: "queue_ok q" by (rule splits.reach_inv [OF mk_split_queue_ok assms])
  have "sqe_blocked_tasks (snd (queue_add_splits R is q)) = []" if "sqe_accepted (snd (queue_add_splits R is q)) \<noteq> sqe_accepted q"
    using that by (auto simp: queue_add_splits_def wake_blocked_tasks_def split: if_splits)
  then show ?thesis using ok
    by (simp add: queue_ok_def wakeups_ok_def queue_no_more_splits_def queue_cancel_def wake_blocked_tasks_def)
qed

text \<open>
  C9. Completing the consumed splits ends. From every state with fewer than \<open>2 ^ 64 - 1\<close> accepted splits the loop of
  \<open>CompleteConsumedSplits\<close> ends with no active split; then exactly the splits handed out are completed, with their rows and bytes.
\<close>

theorem complete_consumed_terminates:
  assumes "(queue_step R)\<^sup>*\<^sup>* mk_split_queue q" and "length (sqe_accepted q) < 2 ^ 64 - 1"
  shows "\<exists>r. complete_consumed_splits q = Some r \<and> sqe_active_splits r = [] \<and>
    mset (sqe_completed r) = mset (map qsp_progress (sqe_taken q)) \<and>
    unat (sqe_completed_splits r) = length (sqe_taken q) \<and> unat (sqe_completed_splits r) = unat (sqe_consumed_splits r) \<and>
    unat (sqe_completed_rows r) = unat (sqe_consumed_rows r) \<and> unat (sqe_completed_input_bytes r) = unat (sqe_consumed_input_bytes r)"
proof -
  have ok: "queue_ok q" by (rule splits.reach_inv [OF mk_split_queue_ok assms(1)])
  obtain r where r: "complete_consumed_splits q = Some r" "queue_ok r" "ids_fit r" "sqe_active_splits r = []" "sqe_taken r = sqe_taken q"
    using complete_consumed_returns [OF ok] assms(2) by (auto simp: ids_fit_def)
  have fin: "mset (sqe_completed r) = mset (map qsp_progress (sqe_taken r))" using r by (simp add: queue_ok_def active_ok_def)
  then have len: "length (sqe_completed r) = length (sqe_taken r)" using mset_eq_length [OF fin] by simp
  have "total f (sqe_completed r) = total (f \<circ> qsp_progress) (sqe_taken r)" for f using total_mset [OF fin, of f] by simp
  moreover have "cap (length (sqe_taken r)) = length (sqe_taken r)"
    using r(2,3) unfolding queue_ok_def fifo_ok_def ids_fit_def cap_def by (intro min_absorb1) simp
  ultimately have "unat (sqe_completed_splits r) = length (sqe_taken r)" "unat (sqe_completed_splits r) = unat (sqe_consumed_splits r)"
    "unat (sqe_completed_rows r) = unat (sqe_consumed_rows r)" "unat (sqe_completed_input_bytes r) = unat (sqe_consumed_input_bytes r)"
    using r(2) len unfolding queue_ok_def counters_ok_def by simp_all
  then show ?thesis using r(1,4,5) fin by (intro exI [of _ r] conjI) simp_all
qed

section \<open>Witnesses\<close>

definition sample_reader :: descriptor_reader where
  "sample_reader = \<lparr>read_scan_task = (\<lambda>b. Some (of_nat (length b), 10)), read_exchange_source_task = (\<lambda>_. None)\<rparr>"

text \<open>A consumer waits, two splits arrive, it takes one.\<close>

definition sample_waiting :: split_queue where
  "sample_waiting = snd (register_blocked_task 7 (snd (try_get_next mk_split_queue)))"

definition sample_taken :: split_queue where
  "sample_taken = snd (try_get_next (snd (queue_add_splits sample_reader [make_scan_task ''ab'', make_scan_task ''c''] sample_waiting)))"

lemma sample_queue_runs:
  "(queue_step sample_reader)\<^sup>*\<^sup>* mk_split_queue sample_waiting" "(queue_step sample_reader)\<^sup>*\<^sup>* mk_split_queue sample_taken"
proof -
  show w: "(queue_step sample_reader)\<^sup>*\<^sup>* mk_split_queue sample_waiting"
    unfolding sample_waiting_def by (meson TryGetNext Register rtranclp.rtrancl_into_rtrancl rtranclp.rtrancl_refl)
  show "(queue_step sample_reader)\<^sup>*\<^sup>* mk_split_queue sample_taken"
    unfolding sample_taken_def using w by (meson AddSplits TryGetNext rtranclp.rtrancl_into_rtrancl)
qed

theorem split_queue_exactly_once_witness:
  "fst (try_get_next sample_taken) = Split (make_scan_task ''c'') 2 \<and>
   make_scan_task ''c'' = qsp_input (sqe_accepted sample_taken ! length (sqe_taken sample_taken)) \<and>
   unat (sqe_submitted_rows sample_taken) = 3"
proof -
  have "fst (try_get_next sample_taken) = Split (make_scan_task ''c'') 2" "total (spg_rows \<circ> qsp_progress) (sqe_accepted sample_taken) = 3"
    by code_simp+
  then show ?thesis using split_queue_exactly_once [OF sample_queue_runs(2), of "make_scan_task ''c''" 2] by simp
qed

theorem no_sleeping_consumer_witness:
  "sqe_blocked_tasks sample_waiting = [7] \<and> sqe_splits sample_waiting = [] \<and> sqe_registered sample_taken = [7] \<and> sqe_woken sample_taken = [7]"
proof -
  have "sqe_blocked_tasks sample_waiting = [7]" "sqe_registered sample_taken = [7]" "sqe_blocked_tasks sample_taken = []" by code_simp+
  then show ?thesis
    using no_sleeping_consumer [OF sample_queue_runs(1), of "[]"] no_sleeping_consumer [OF sample_queue_runs(2), of "[]"] by simp
qed

theorem complete_consumed_terminates_witness:
  "\<exists>r. complete_consumed_splits sample_taken = Some r \<and> sqe_active_splits r = [] \<and> unat (sqe_completed_splits r) = 1"
proof -
  have "length (sqe_accepted sample_taken) = 2" "length (sqe_taken sample_taken) = 1" by code_simp+
  then show ?thesis using complete_consumed_terminates [OF sample_queue_runs(2)] by auto
qed

end
