(* ===== verification/Spec2Isabelle.thy ===== *)
theory Spec2Isabelle
  imports Fte_Failures Single_Assigner Arbitrary_Contract Hash_Run Execution_Safety
    Status_Watcher Registry_Rotation Scheduler_Threads Spooling_Exchange Spooling_Stats Split_Queue_Run "HOL-Library.Multiset"
begin

text \<open>
  Verification of the fault-tolerant execution (FTE) control plane of Vane, the Python package
  \<open>src/duckdb/runners/fte\<close>. The control plane runs the fragments of a distributed query: it assigns the splits
  of the input sources to task partitions, keeps a descriptor of what every task is to read, starts
  attempts of tasks on workers, retries failed attempts, selects one finished attempt per partition for the
  exchange, and drives all this with events, one query at a time.

  \<^bold>\<open>Conventions.\<close> A method that may raise gives a \<open>res\<close>, where \<open>Inl\<close> is the exception; a method that changes an
  object is an operation (\<open>op\<close>) from its state to a result and the new state, so that what an exception leaves
  behind is part of the model. Dictionaries are association lists in insertion order; sets are
  duplicate-free lists; payloads are \<open>pyval\<close>; floats are the rationals they denote, with the rounding of every
  operation written out. Objects shared between fields of the source live in a store and are known by
  their position or number. Code outside the package (callbacks of the Ray runner, worker handles, event
  handlers, the clock, the file system's willingness to write) is an argument of the definitions that use it.

  \<^bold>\<open>Prelude.\<close> \<open>Py_Prelude\<close> (exceptions, operations, dictionaries), \<open>Py_Values\<close> (payloads, \<open>str\<close>, \<open>int\<close>, truth,
  equality), \<open>Py_Float\<close> (binary64), \<open>Py_Path\<close> (paths of \<open>pathlib\<close>), \<open>Transition\<close> (the interface of a component whose methods may be called in any
  order: an invariant and an order along which it moves, interpreted by every such component below).

  \<^bold>\<open>Identities, states, failures.\<close> \<open>Fte_Types\<close> models \<open>fte_types.py\<close>: an attempt id survives its string and its
  dictionary form, a status is accepted exactly for the attempt it names, a split survives its dictionary
  form. \<open>Fte_State\<close> models \<open>fte_state.py\<close>. \<open>Fte_Failures\<close> models \<open>fte_failures.py\<close>: the classification of a failure
  does not depend on the envelopes around it.

  \<^bold>\<open>Assigning splits.\<close> \<open>Split_Assigner\<close>, \<open>Single_Assigner\<close>, \<open>Arbitrary_Assigner\<close> and \<open>Hash_Assigner\<close> model
  \<open>fte_split_assigner.py\<close>. The locale \<open>split_assigner\<close> is the contract of an assigner with the fragment execution;
  all three assigners are interpretations. \<open>Arbitrary_Run\<close>, \<open>Arbitrary_Contract\<close> and \<open>Hash_Run\<close> show what whole
  runs deliver to every partition, that partitions stay within their limits and are completed, and that
  every result can be applied, with what a call that raises takes away. \<open>Update_Batch\<close> models \<open>fte_update_batch.py\<close> and the coalescing and batching of
  updates in \<open>fte_execution.py\<close>.

  \<^bold>\<open>Descriptors.\<close> \<open>Output_Buffers\<close>, \<open>Fte_Descriptor\<close> and \<open>Descriptor_Storage\<close> model \<open>fte_descriptor.py\<close>;
  \<open>Descriptor_Updates\<close> shows that splits are taken exactly once, what a second delivery of an update does and that their
  wire form is lossless. The storage, with its spill files, refines a map as long as query ids have no slash, since the
  names of spill files are then distinct (locales \<open>keyed_store\<close>, \<open>total_store\<close>).

  \<^bold>\<open>Exchange.\<close> \<open>Fte_Exchange\<close> models the handles, the output selector and the tracker of \<open>fte_exchange.py\<close>: a selected
  attempt stays selected. \<open>Spooling_Exchange\<close> models the spooling manager with its directories: what an attempt
  writes is what its consumers get, and it stays so until the query is destroyed or something is written to the selected
  attempt. \<open>Spooling_Stats\<close> models the statistics of spooled files.

  \<^bold>\<open>Execution.\<close> \<open>Fte_Events\<close> models \<open>fte_attempts.py\<close> and \<open>fte_events.py\<close>; \<open>Fte_Partition\<close> and \<open>Fte_Execution\<close> model the
  two classes of \<open>fte_execution.py\<close>. \<open>Execution_Run\<close> proves the invariant of an execution for every method, and for what the
  runner changes without a method (\<open>bookkeeping_step\<close>: the notes of a wait for a node, deferring a partition, refreshed
  metadata). \<open>Execution_Safety\<close> assumes of the callbacks (\<open>env_ok\<close>) that they act on the execution only by its methods and by
  such bookkeeping, where a method called by a callback may run callbacks again to any finite depth; it derives that every attempt is started at most once and within its budget, and that outcomes are
  final and agree with the exchange.

  \<^bold>\<open>Scheduler.\<close> \<open>Fte_Scheduler\<close> and \<open>Status_Watcher\<close> model \<open>fte_scheduler.py\<close>. \<open>Scheduler_Run\<close> proves the invariant of a
  query scheduler for every method and every handler that acts through its methods, and that draining ends
  and handles events in order. \<open>Scheduler_Threads\<close> interleaves the sections and callbacks of any number of threads, with
  handlers and callbacks that may raise: one thread at a time handles events, and no event is left behind when all have
  returned, provided that callers drain after they enqueue and fail the scheduler on an exception. \<open>Status_Watcher\<close> shows
  that a watcher reports only its own attempt, and \<open>Registry_Rotation\<close> that the pump over all queries is fair.

  \<^bold>\<open>Native queue.\<close> \<open>Split_Queue\<close> models class \<open>FteSplitQueue\<close> of the native engine (\<open>fte_split_queue.cpp\<close>), through which a task
  reads the splits that arrive while it runs, with its counters as 64-bit words. \<open>Split_Queue_Run\<close> shows that splits are
  handed out once and in order, that no consumer sleeps on work, and that the counters saturate and do not wrap.

  \<^bold>\<open>Bounds and loops.\<close> Loops over data are structurally recursive. The spilling loop of the storage has a
  termination proof. \<open>drain_loop\<close> and \<open>pump_loop\<close> may run forever, because handlers enqueue events: their value is
  then \<open>None\<close>, and \<open>drain_terminates\<close> gives the condition under which \<open>drain\<close> returns. The loop
  \<open>complete_consumed_splits\<close> ends while split ids have not run out (\<open>complete_consumed_terminates\<close>). No fuel is used.

  \<^bold>\<open>Not modelled.\<close> The worker side (\<open>fte_worker_runtime.py\<close>) and the backends run native tasks in threads. The Ray runner
  (\<open>src/duckdb/runners/ray\<close>) drives actors of a cluster and enters as callbacks and handlers. The DuckDB bindings,
  the UDF runtime and the user API are outside the control plane. Locks are modelled by what they make
  atomic, timers and watcher threads by their effects; the text of exceptions is abbreviated where it
  contains printed values.
\<close>

section \<open>From recorded commands to calls on workers\<close>

text \<open>The executor of a scheduler runs commands one after the other; a command that raises does not stop the next.\<close>

definition run_commands :: "scheduler_env \<Rightarrow> worker_command list \<Rightarrow> query_scheduler \<Rightarrow> query_scheduler" where
  "run_commands S cs q = fold (\<lambda>c q. snd (execute_command S c q)) cs q"

fun is_create_call :: "control_lane_call \<Rightarrow> bool" where
  "is_create_call (CreateTaskCall _ _) = True"
| "is_create_call _ = False"

definition create_calls :: "query_scheduler \<Rightarrow> nat" where
  "create_calls q = length (filter is_create_call (qsc_lane q))"

lemma execute_create_calls:
  "create_calls (snd (execute_command S c q)) \<le> create_calls q + (if is_FteCreateTaskCommand c then 1 else 0)"
  by (cases c)
     (auto simp: execute_command_def create_task_def add_splits_def no_more_splits_def update_task_def wait_split_queue_has_space_def
       required_worker_method_def bindS_def modS_def liftS_def retS_def raiseS_def lane_call_def record_command_def create_calls_def
       split: option.splits sum.splits prod.splits pyval.splits if_splits)

lemma run_commands_create_calls:
  "create_calls (run_commands S cs q) \<le> create_calls q + length (filter is_FteCreateTaskCommand cs)"
proof (induction cs arbitrary: q)
  case (Cons c cs)
  have "create_calls (run_commands S (c # cs) q)
      \<le> create_calls (snd (execute_command S c q)) + length (filter is_FteCreateTaskCommand cs)"
    using Cons.IH [of "snd (execute_command S c q)"] by (simp add: run_commands_def)
  then show ?case using execute_create_calls [of S c q] by (simp split: if_splits)
qed (simp add: run_commands_def)

text \<open>
  C36. What an execution can cost the workers. Take any run of a fragment execution, with callbacks that act on it only by
  its methods and the bookkeeping of the runner, and run the commands it recorded, each at most once, in any order, on a scheduler whose worker handles answer or raise as they like.
  The workers are then asked to create at most as many tasks as the attempt budget times the partitions.
\<close>

theorem worker_creates_bounded:
  assumes "mk_execution E q fid frag args = Inr s0" and "new_exchange args" and "env_ok E" and "(exec_step E)\<^sup>*\<^sup>* s0 s"
    and "mset cs \<subseteq># mset (exe_recorded s)" and "qsc_lane t = []"
  shows "create_calls (run_commands S cs t) \<le> nat (arg_max_attempts args) * length (exe_partitions s)"
proof -
  have "size (filter_mset is_FteCreateTaskCommand (mset cs)) \<le> size (filter_mset is_FteCreateTaskCommand (mset (exe_recorded s)))"
    by (intro size_mset_mono multiset_filter_mono assms(5))
  then have "length (filter is_FteCreateTaskCommand cs) \<le> length (filter is_FteCreateTaskCommand (exe_recorded s))"
    by (simp flip: mset_filter)
  then show ?thesis
    using run_commands_create_calls [of S cs t] created_bounded [OF assms(1-4)] assms(6) by (simp add: create_calls_def)
qed

theorem worker_creates_bounded_witness:
  "\<exists>s0 t. sample_execution = Inr s0 \<and> mk_scheduler ''q'' = Inr t \<and>
     length (filter is_FteCreateTaskCommand (exe_recorded (sample_retry s0))) = 2 \<and>
     create_calls (run_commands sample_scheduler_env (exe_recorded (sample_retry s0)) t)
       \<le> 2 * length (exe_partitions (sample_retry s0))"
proof -
  obtain s0 where s0: "mk_execution sample_environment ''q'' 0 ''f'' sample_args = Inr s0"
    and c: "created (sample_retry s0) = [FteTaskAttemptId (FteTaskId ''q'' 0 0) 0, FteTaskAttemptId (FteTaskId ''q'' 0 0) 1]"
    by (rule sample_runE)
  obtain t where t: "mk_scheduler ''q'' = Inr t" by (rule sample_queueE)
  then have "qsc_lane t = []" by (auto simp: mk_scheduler_def split: if_splits)
  moreover have "length (filter is_FteCreateTaskCommand (exe_recorded (sample_retry s0))) = 2"
    using arg_cong [OF c, of length] by (simp add: created_def)
  ultimately show ?thesis
    using worker_creates_bounded [OF s0 sample_exchange_new sample_environment_ok sample_steps(1) subset_mset.order_refl, of t
        sample_scheduler_env] s0 t
    by (simp add: sample_execution_def sample_args_def)
qed

end
